(* ===== verification/SP_Prelude.thy ===== *)
theory SP_Prelude
  imports Main "HOL-Library.Signed_Division"
begin

text \<open>
  Shared vocabulary of the SlotPilot development: Rust's \<open>Result\<close> as a sum type, the
  checked, saturating and truncating integer operations of the Rust standard library,
  ASCII byte classes, decimal printing and parsing, and the three interface locales
  (\<open>checked_value\<close>, \<open>invariant_machine\<close>, \<open>latching_machine\<close>) that several components
  interpret on their own definitions.

  Integers.  A Rust integer of type \<open>u64\<close>, \<open>i64\<close>, \<open>i128\<close> etc. is an \<open>int\<close> together with
  its range.  An operation that the source performs with \<open>checked_add\<close>, \<open>checked_sub\<close>,
  \<open>checked_mul\<close> or \<open>try_from\<close> is the mathematical result passed through the range
  check \<open>checked lo hi\<close>, which returns \<open>None\<close> exactly where the Rust operation does.
\<close>

named_theorems range_simps
named_theorems sp_splits

section \<open>Results\<close>

type_synonym ('e, 'a) result = "'e + 'a"

abbreviation Ok :: "'a \<Rightarrow> ('e, 'a) result" where
  "Ok \<equiv> Inr"

abbreviation Err :: "'e \<Rightarrow> ('e, 'a) result" where
  "Err \<equiv> Inl"

fun is_ok :: "('e, 'a) result \<Rightarrow> bool" where
  "is_ok (Inl e) = False"
| "is_ok (Inr a) = True"

fun ok_or :: "'e \<Rightarrow> 'a option \<Rightarrow> ('e, 'a) result" where
  "ok_or e None = Err e"
| "ok_or e (Some a) = Ok a"

fun map_err :: "('e \<Rightarrow> 'f) \<Rightarrow> ('e, 'a) result \<Rightarrow> ('f, 'a) result" where
  "map_err f (Inl e) = Err (f e)"
| "map_err f (Inr a) = Ok a"

fun map_ok :: "('a \<Rightarrow> 'b) \<Rightarrow> ('e, 'a) result \<Rightarrow> ('e, 'b) result" where
  "map_ok f (Inl e) = Err e"
| "map_ok f (Inr a) = Ok (f a)"

text \<open>Rust's \<open>?\<close>: go on with the value, or return the error.\<close>

fun rbind :: "('e, 'a) result \<Rightarrow> ('a \<Rightarrow> ('e, 'b) result) \<Rightarrow> ('e, 'b) result" where
  "rbind (Inl e) f = Err e"
| "rbind (Inr a) f = f a"

lemma rbind_Inr [simp]: "rbind x f = Inr b \<longleftrightarrow> (\<exists>a. x = Inr a \<and> f a = Inr b)"
  by (cases x) auto

lemma rbind_Inl: "rbind x f = Inl e \<longleftrightarrow> x = Inl e \<or> (\<exists>a. x = Inr a \<and> f a = Inl e)"
  by (cases x) auto

lemma ok_or_Inr [simp]: "ok_or e x = Inr a \<longleftrightarrow> x = Some a"
  by (cases x) auto

lemma ok_or_Inl [simp]: "ok_or e x = Inl f \<longleftrightarrow> x = None \<and> f = e"
  by (cases x) auto

lemma map_err_Inr [simp]: "map_err f x = Inr a \<longleftrightarrow> x = Inr a"
  by (cases x) auto

lemma map_err_Inl [simp]: "map_err f x = Inl e \<longleftrightarrow> (\<exists>d. x = Inl d \<and> e = f d)"
  by (cases x) auto

lemma map_ok_Inr [simp]: "map_ok f x = Inr b \<longleftrightarrow> (\<exists>a. x = Inr a \<and> b = f a)"
  by (cases x) auto

lemma map_ok_Inl [simp]: "map_ok f x = Inl e \<longleftrightarrow> x = Inl e"
  by (cases x) auto

lemma is_ok_iff: "is_ok x \<longleftrightarrow> (\<exists>a. x = Inr a)"
  by (cases x) auto

section \<open>Machine integers\<close>

abbreviation u8_max :: int where "u8_max \<equiv> 255"
abbreviation u16_max :: int where "u16_max \<equiv> 65535"
abbreviation u32_max :: int where "u32_max \<equiv> 4294967295"
abbreviation u64_max :: int where "u64_max \<equiv> 18446744073709551615"
abbreviation i16_min :: int where "i16_min \<equiv> - 32768"
abbreviation i16_max :: int where "i16_max \<equiv> 32767"
abbreviation i32_min :: int where "i32_min \<equiv> - 2147483648"
abbreviation i32_max :: int where "i32_max \<equiv> 2147483647"
abbreviation i64_min :: int where "i64_min \<equiv> - 9223372036854775808"
abbreviation i64_max :: int where "i64_max \<equiv> 9223372036854775807"
abbreviation i128_min :: int where "i128_min \<equiv> - 170141183460469231731687303715884105728"
abbreviation i128_max :: int where "i128_max \<equiv> 170141183460469231731687303715884105727"

definition in_range :: "int \<Rightarrow> int \<Rightarrow> int \<Rightarrow> bool" where
  "in_range lo hi x \<longleftrightarrow> lo \<le> x \<and> x \<le> hi"

abbreviation is_u8 :: "int \<Rightarrow> bool" where "is_u8 \<equiv> in_range 0 u8_max"
abbreviation is_u16 :: "int \<Rightarrow> bool" where "is_u16 \<equiv> in_range 0 u16_max"
abbreviation is_u32 :: "int \<Rightarrow> bool" where "is_u32 \<equiv> in_range 0 u32_max"
abbreviation is_u64 :: "int \<Rightarrow> bool" where "is_u64 \<equiv> in_range 0 u64_max"
abbreviation is_i16 :: "int \<Rightarrow> bool" where "is_i16 \<equiv> in_range i16_min i16_max"
abbreviation is_i64 :: "int \<Rightarrow> bool" where "is_i64 \<equiv> in_range i64_min i64_max"

definition checked :: "int \<Rightarrow> int \<Rightarrow> int \<Rightarrow> int option" where
  "checked lo hi x = (if lo \<le> x \<and> x \<le> hi then Some x else None)"

abbreviation checked_u8 :: "int \<Rightarrow> int option" where "checked_u8 \<equiv> checked 0 u8_max"
abbreviation checked_u16 :: "int \<Rightarrow> int option" where "checked_u16 \<equiv> checked 0 u16_max"
abbreviation checked_u32 :: "int \<Rightarrow> int option" where "checked_u32 \<equiv> checked 0 u32_max"
abbreviation checked_u64 :: "int \<Rightarrow> int option" where "checked_u64 \<equiv> checked 0 u64_max"
abbreviation checked_i16 :: "int \<Rightarrow> int option" where "checked_i16 \<equiv> checked i16_min i16_max"
abbreviation checked_i32 :: "int \<Rightarrow> int option" where "checked_i32 \<equiv> checked i32_min i32_max"
abbreviation checked_i64 :: "int \<Rightarrow> int option" where "checked_i64 \<equiv> checked i64_min i64_max"
abbreviation checked_i128 :: "int \<Rightarrow> int option" where "checked_i128 \<equiv> checked i128_min i128_max"

definition saturate :: "int \<Rightarrow> int \<Rightarrow> int \<Rightarrow> int" where
  "saturate lo hi x = max lo (min hi x)"

abbreviation sat_u8 :: "int \<Rightarrow> int" where "sat_u8 \<equiv> saturate 0 u8_max"
abbreviation sat_u32 :: "int \<Rightarrow> int" where "sat_u32 \<equiv> saturate 0 u32_max"
abbreviation sat_u64 :: "int \<Rightarrow> int" where "sat_u64 \<equiv> saturate 0 u64_max"
abbreviation sat_i64 :: "int \<Rightarrow> int" where "sat_i64 \<equiv> saturate i64_min i64_max"

text \<open>Lengths and indices are \<open>nat\<close>; \<open>usize\<close> has 64 bits.\<close>

definition checked_usize :: "nat \<Rightarrow> nat option" where
  "checked_usize n = (if n \<le> 18446744073709551615 then Some n else None)"

lemma checked_Some [simp]: "checked lo hi x = Some y \<longleftrightarrow> y = x \<and> lo \<le> x \<and> x \<le> hi"
  by (auto simp: checked_def)

lemma checked_None [simp]: "checked lo hi x = None \<longleftrightarrow> x < lo \<or> hi < x"
  by (auto simp: checked_def)

lemma checked_in [simp]: "lo \<le> x \<Longrightarrow> x \<le> hi \<Longrightarrow> checked lo hi x = Some x"
  by (simp add: checked_def)

lemma checked_below [simp]: "x < lo \<Longrightarrow> checked lo hi x = None"
  by (simp add: checked_def)

lemma checked_above [simp]: "hi < x \<Longrightarrow> checked lo hi x = None"
  by (simp add: checked_def)

lemma saturate_in [simp]: "lo \<le> x \<Longrightarrow> x \<le> hi \<Longrightarrow> saturate lo hi x = x"
  by (simp add: saturate_def)

lemma saturate_bounds: "lo \<le> hi \<Longrightarrow> lo \<le> saturate lo hi x \<and> saturate lo hi x \<le> hi"
  by (auto simp: saturate_def)

lemma saturate_le_iff: "lo \<le> b \<Longrightarrow> b < hi \<Longrightarrow> saturate lo hi x \<le> b \<longleftrightarrow> x \<le> b"
  by (auto simp: saturate_def)

declare in_range_def [range_simps]

subsection \<open>Truncating division\<close>

text \<open>Rust's \<open>/\<close> and \<open>%\<close> truncate towards zero: \<open>sdiv\<close> and \<open>smod\<close> of the library.\<close>

lemma sdiv_nonneg [simp]: "0 \<le> a \<Longrightarrow> 0 \<le> b \<Longrightarrow> a sdiv b = a div (b::int)"
  by (cases "a = 0"; cases "b = 0") (auto simp: signed_divide_int_def)

lemma smod_nonneg [simp]: "0 \<le> a \<Longrightarrow> 0 < b \<Longrightarrow> a smod b = a mod (b::int)"
  by (cases "a = 0") (auto simp: signed_modulo_int_def minus_div_mult_eq_mod)

lemma sdiv_neg_pos: "a < 0 \<Longrightarrow> 0 < b \<Longrightarrow> a sdiv b = - ((- a) div (b::int))"
  by (simp add: signed_divide_int_def)

section \<open>Bytes and ASCII classes\<close>

text \<open>
  A Rust \<open>&str\<close> is its UTF-8 byte sequence: a \<open>string\<close> whose \<open>char\<close>s are the bytes, so
  \<open>length\<close> is Rust's \<open>len\<close> and the byte predicates below are those of \<open>u8\<close>.
\<close>

abbreviation byte_val :: "char \<Rightarrow> nat" where
  "byte_val c \<equiv> of_char c"

definition is_ascii_digit :: "char \<Rightarrow> bool" where
  "is_ascii_digit c \<longleftrightarrow> 48 \<le> byte_val c \<and> byte_val c \<le> 57"

definition is_ascii_lowercase :: "char \<Rightarrow> bool" where
  "is_ascii_lowercase c \<longleftrightarrow> 97 \<le> byte_val c \<and> byte_val c \<le> 122"

definition is_ascii_uppercase :: "char \<Rightarrow> bool" where
  "is_ascii_uppercase c \<longleftrightarrow> 65 \<le> byte_val c \<and> byte_val c \<le> 90"

definition is_ascii_alphabetic :: "char \<Rightarrow> bool" where
  "is_ascii_alphabetic c \<longleftrightarrow> is_ascii_lowercase c \<or> is_ascii_uppercase c"

definition is_ascii_alphanumeric :: "char \<Rightarrow> bool" where
  "is_ascii_alphanumeric c \<longleftrightarrow> is_ascii_alphabetic c \<or> is_ascii_digit c"

definition is_ascii_control :: "char \<Rightarrow> bool" where
  "is_ascii_control c \<longleftrightarrow> byte_val c < 32 \<or> byte_val c = 127"

definition is_ascii :: "char \<Rightarrow> bool" where
  "is_ascii c \<longleftrightarrow> byte_val c < 128"

definition to_ascii_upper :: "char \<Rightarrow> char" where
  "to_ascii_upper c = (if is_ascii_lowercase c then char_of (byte_val c - 32) else c)"

text \<open>A byte of a UTF-8 text that starts a character.\<close>

definition utf8_start :: "char \<Rightarrow> bool" where
  "utf8_start c \<longleftrightarrow> \<not> (128 \<le> byte_val c \<and> byte_val c < 192)"

lemma char_of_val [simp]: "n < 256 \<Longrightarrow> byte_val (char_of n) = n"
  by simp

lemma to_ascii_upper_not_lower [simp]: "\<not> is_ascii_lowercase (to_ascii_upper c)"
  by (auto simp: to_ascii_upper_def is_ascii_lowercase_def)

lemma to_ascii_upper_idem [simp]: "to_ascii_upper (to_ascii_upper c) = to_ascii_upper c"
  using to_ascii_upper_not_lower [of c] by (simp add: to_ascii_upper_def [of "to_ascii_upper c"])

lemma to_ascii_upper_alphabetic [simp]:
  "is_ascii_alphabetic (to_ascii_upper c) \<longleftrightarrow> is_ascii_alphabetic c"
  by (auto simp: to_ascii_upper_def is_ascii_alphabetic_def is_ascii_lowercase_def
      is_ascii_uppercase_def)

lemma to_ascii_upper_digit [simp]: "is_ascii_digit (to_ascii_upper c) \<longleftrightarrow> is_ascii_digit c"
  by (auto simp: to_ascii_upper_def is_ascii_digit_def is_ascii_lowercase_def)

lemma to_ascii_upper_alphanumeric [simp]:
  "is_ascii_alphanumeric (to_ascii_upper c) \<longleftrightarrow> is_ascii_alphanumeric c"
  by (simp add: is_ascii_alphanumeric_def)

text \<open>\<open>str::split\<close> on one character: always at least one component.\<close>

fun split_on :: "char \<Rightarrow> string \<Rightarrow> string list" where
  "split_on s [] = [[]]"
| "split_on s (c # cs) =
     (if c = s then [] # split_on s cs
      else (case split_on s cs of [] \<Rightarrow> [[c]] | w # ws \<Rightarrow> (c # w) # ws))"

lemma split_on_not_Nil [simp]: "split_on s cs \<noteq> []"
  by (induction cs) (auto split: list.splits)

lemma split_on_no_sep: "s \<notin> set cs \<Longrightarrow> split_on s cs = [cs]"
  by (induction cs) auto

lemma split_on_mem_set: "w \<in> set (split_on s cs) \<Longrightarrow> set w \<subseteq> set cs - {s}"
proof (induction cs arbitrary: w)
  case Nil
  then show ?case by simp
next
  case (Cons c cs)
  obtain v vs where v: "split_on s cs = v # vs"
    by (cases "split_on s cs") auto
  have "set v \<subseteq> set cs - {s}"
    using Cons.IH [of v] v by simp
  moreover have "\<And>u. u \<in> set vs \<Longrightarrow> set u \<subseteq> set cs - {s}"
    using Cons.IH v by simp
  ultimately show ?case
    using Cons.prems v by (fastforce split: if_splits)
qed

lemma split_on_mem_length: "w \<in> set (split_on s cs) \<Longrightarrow> length w \<le> length cs"
proof (induction cs arbitrary: w)
  case Nil
  then show ?case by simp
next
  case (Cons c cs)
  obtain v vs where v: "split_on s cs = v # vs"
    by (cases "split_on s cs") auto
  show ?case
    using Cons.prems v Cons.IH [of v] Cons.IH [of w] by (auto split: if_splits)
qed

text \<open>\<open>str::strip_prefix\<close>.\<close>

fun strip_prefix :: "string \<Rightarrow> string \<Rightarrow> string option" where
  "strip_prefix [] cs = Some cs"
| "strip_prefix (p # ps) [] = None"
| "strip_prefix (p # ps) (c # cs) = (if p = c then strip_prefix ps cs else None)"

lemma strip_prefix_Some: "strip_prefix p s = Some r \<longleftrightarrow> s = p @ r"
  by (induction p s rule: strip_prefix.induct) auto

lemma strip_prefix_append [simp]: "strip_prefix p (p @ r) = Some r"
  by (simp add: strip_prefix_Some)

section \<open>Decimal numbers\<close>

text \<open>\<open>Display\<close> of an unsigned integer, and \<open>str::parse\<close> into one with maximum \<open>m\<close>:
  an optional \<open>+\<close>, at least one digit, and overflow of the accumulator is an error.\<close>

definition digit_char :: "nat \<Rightarrow> char" where
  "digit_char d = char_of (48 + d)"

fun show_nat :: "nat \<Rightarrow> string" where
  "show_nat n = (if n < 10 then [digit_char n] else show_nat (n div 10) @ [digit_char (n mod 10)])"

declare show_nat.simps [simp del]

definition show_uint :: "int \<Rightarrow> string" where
  "show_uint x = show_nat (nat x)"

fun parse_digits :: "int \<Rightarrow> int \<Rightarrow> string \<Rightarrow> int option" where
  "parse_digits m acc [] = Some acc"
| "parse_digits m acc (c # cs) =
     (if \<not> is_ascii_digit c then None
      else (case checked 0 m (acc * 10) of
              None \<Rightarrow> None
            | Some t \<Rightarrow> (case checked 0 m (t + int (byte_val c - 48)) of
                          None \<Rightarrow> None
                        | Some u \<Rightarrow> parse_digits m u cs)))"

fun parse_uint :: "int \<Rightarrow> string \<Rightarrow> int option" where
  "parse_uint m [] = None"
| "parse_uint m (c # cs) =
     (if c = CHR ''+'' then (if cs = [] then None else parse_digits m 0 cs)
      else parse_digits m 0 (c # cs))"

lemma digit_char_val [simp]: "d < 10 \<Longrightarrow> byte_val (digit_char d) = 48 + d"
  by (simp add: digit_char_def)

lemma digit_char_digit [simp]: "d < 10 \<Longrightarrow> is_ascii_digit (digit_char d)"
  by (simp add: is_ascii_digit_def)

lemma parse_digits_append:
  "parse_digits m acc (xs @ ys) =
     (case parse_digits m acc xs of None \<Rightarrow> None | Some a \<Rightarrow> parse_digits m a ys)"
  by (induction xs arbitrary: acc) (auto split: option.splits)

lemma show_nat_not_Nil [simp]: "show_nat n \<noteq> []"
  by (subst show_nat.simps) simp

lemma show_nat_digits: "c \<in> set (show_nat n) \<Longrightarrow> is_ascii_digit c"
proof (induction n rule: show_nat.induct)
  case (1 n)
  then show ?case
    by (subst (asm) (2) show_nat.simps) (auto split: if_splits)
qed

lemma parse_digits_show_nat:
  assumes "int n \<le> m"
  shows "parse_digits m 0 (show_nat n) = Some (int n)"
  using assms
proof (induction n rule: show_nat.induct)
  case (1 n)
  show ?case
  proof (cases "n < 10")
    case True
    with "1.prems" show ?thesis by (subst show_nat.simps) (simp add: checked_in)
  next
    case False
    have le: "int (n div 10) \<le> m" "int (n div 10) * 10 \<le> m"
      using "1.prems" by linarith+
    have eq: "int (n div 10) * 10 + int (n mod 10) = int n"
      by (metis div_mult_mod_eq of_nat_add of_nat_mult of_nat_numeral)
    have "parse_digits m 0 (show_nat (n div 10)) = Some (int (n div 10))"
      using "1.IH" False le by simp
    then show ?thesis
      using False le eq "1.prems"
      by (subst show_nat.simps) (simp add: parse_digits_append checked_in)
  qed
qed

lemma parse_show_uint:
  assumes "0 \<le> x" "x \<le> m"
  shows "parse_uint m (show_uint x) = Some x"
proof -
  obtain c cs where c: "show_nat (nat x) = c # cs"
    by (cases "show_nat (nat x)") auto
  have "is_ascii_digit c" using show_nat_digits [of c "nat x"] c by simp
  then have "c \<noteq> CHR ''+''" by (auto simp: is_ascii_digit_def)
  then show ?thesis
    using parse_digits_show_nat [of "nat x" m] assms c by (simp add: show_uint_def)
qed

section \<open>Lists\<close>

lemma find_rel:
  assumes "list_all2 R xs ys" "\<And>x y. R x y \<Longrightarrow> P x = Q y"
  shows "rel_option R (find P xs) (find Q ys)"
  using assms(1)
proof (induction rule: list_all2_induct)
  case (Cons x xs y ys)
  then show ?case using assms(2) [of x y] by simp
qed simp

lemma find_unique:
  assumes "x \<in> set xs" "P x" "\<And>y. y \<in> set xs \<Longrightarrow> P y \<Longrightarrow> y = x"
  shows "find P xs = Some x"
  using assms
proof (induction xs)
  case (Cons z xs)
  show ?case
  proof (cases "P z")
    case True
    then show ?thesis using Cons.prems(3) [of z] by simp
  next
    case False
    then have "x \<in> set xs" using Cons.prems(1,2) by auto
    then have "find P xs = Some x" by (rule Cons.IH [OF _ Cons.prems(2)]) (rule Cons.prems(3); simp)
    then show ?thesis using False by simp
  qed
qed simp

lemma filter_concat_other:
  "(\<And>xs x. xs \<in> set xss \<Longrightarrow> x \<in> set xs \<Longrightarrow> \<not> P x) \<Longrightarrow> filter P (concat xss) = []"
  by (induction xss) (auto simp: filter_empty_conv)

lemma list_all2_in_set1: "list_all2 R xs ys \<Longrightarrow> x \<in> set xs \<Longrightarrow> \<exists>y \<in> set ys. R x y"
  by (induction rule: list_all2_induct) auto

lemma list_all2_in_set2: "list_all2 R xs ys \<Longrightarrow> y \<in> set ys \<Longrightarrow> \<exists>x \<in> set xs. R x y"
  by (induction rule: list_all2_induct) auto

section \<open>Interfaces shared by the components\<close>

text \<open>
  The contract of every checked newtype of the code base: a constructor \<open>make\<close> that
  accepts exactly the \<open>valid\<close> raw values and an accessor \<open>raw\<close> that returns what was
  accepted.
\<close>

locale checked_value =
  fixes make :: "'r \<Rightarrow> ('e, 't) result"
    and raw :: "'t \<Rightarrow> 'r"
    and valid :: "'r \<Rightarrow> bool"
  assumes make_valid: "valid r \<Longrightarrow> \<exists>t. make r = Ok t"
    and make_invalid: "\<not> valid r \<Longrightarrow> \<exists>e. make r = Err e"
    and raw_make: "make r = Ok t \<Longrightarrow> raw t = r"
begin

lemma make_Ok_valid: "make r = Ok t \<Longrightarrow> valid r"
  using make_invalid [of r] by fastforce

lemma is_ok_iff_valid: "is_ok (make r) \<longleftrightarrow> valid r"
  using make_valid [of r] make_invalid [of r] by (cases "make r") auto

lemma constructed_valid: "make r = Ok t \<Longrightarrow> valid (raw t)"
  using make_Ok_valid raw_make by metis

lemma reconstruct: "make r = Ok t \<Longrightarrow> make (raw t) = Ok t"
  using raw_make by metis

lemma make_inj: "make r = Ok t \<Longrightarrow> make s = Ok t \<Longrightarrow> r = s"
  using raw_make by metis

end

text \<open>A deterministic component driven by a sequence of inputs that keeps an invariant.\<close>

locale invariant_machine =
  fixes step :: "'s \<Rightarrow> 'i \<Rightarrow> 's"
    and inv :: "'s \<Rightarrow> bool"
  assumes step_inv: "inv s \<Longrightarrow> inv (step s i)"
begin

lemma run_inv: "inv s \<Longrightarrow> inv (foldl step s is)"
  by (induction "is" arbitrary: s) (auto intro: step_inv)

end

text \<open>A component with a latched failure: once \<open>bad\<close>, no input changes the latched value.\<close>

locale latching_machine =
  fixes step :: "'s \<Rightarrow> 'i \<Rightarrow> 's"
    and bad :: "'s \<Rightarrow> bool"
    and latched :: "'s \<Rightarrow> 'v"
  assumes bad_step: "bad s \<Longrightarrow> bad (step s i)"
    and latched_step: "bad s \<Longrightarrow> latched (step s i) = latched s"
begin

sublocale bad: invariant_machine step bad
  by unfold_locales (rule bad_step)

lemma run_latched: "bad s \<Longrightarrow> latched (foldl step s is) = latched s"
  by (induction "is" arbitrary: s) (auto simp: latched_step bad_step)

end

end
