(* ===== verification/SP_Ids.thy ===== *)
theory SP_Ids
  imports SP_Prelude
begin

text \<open>
  \<open>crates/domain/src/ids.rs\<close>: the typed identities.  The macro \<open>define_id!\<close> gives each type
  the same parser over its own prefix: \<open>id_from_str\<close>.  The ten instances are wrappers of the
  complete wire value, as the tuple structs of the source are.
\<close>

datatype id_error =
    WrongPrefix (expected: string)
  | InvalidLength
  | InvalidCharacter

definition payload_byte_ok :: "char \<Rightarrow> bool" where
  "payload_byte_ok b \<longleftrightarrow> is_ascii_lowercase b \<or> is_ascii_digit b"

definition id_from_str :: "string \<Rightarrow> string \<Rightarrow> (id_error, string) result" where
  "id_from_str prefix value =
     (case strip_prefix prefix value of
        None \<Rightarrow> Err (WrongPrefix prefix)
      | Some payload \<Rightarrow>
          if \<not> (8 \<le> length payload \<and> length payload \<le> 64) then Err InvalidLength
          else if \<not> list_all payload_byte_ok payload then Err InvalidCharacter
          else Ok value)"

datatype request_id = RequestId (request_id_str: string)
datatype command_id = CommandId (command_id_str: string)
datatype event_id = EventId (event_id_str: string)
datatype session_id = SessionId (session_id_str: string)
datatype service_instance_id = ServiceInstanceId (service_instance_id_str: string)
datatype receive_window_id = ReceiveWindowId (receive_window_id_str: string)
datatype profile_revision_id = ProfileRevisionId (profile_revision_id_str: string)
datatype qso_id = QsoId (qso_id_str: string)
datatype qso_attempt_id = QsoAttemptId (qso_attempt_id_str: string)
datatype transmission_id = TransmissionId (transmission_id_str: string)

definition request_id_from_str :: "string \<Rightarrow> (id_error, request_id) result" where
  "request_id_from_str v = map_ok RequestId (id_from_str ''req_'' v)"

definition command_id_from_str :: "string \<Rightarrow> (id_error, command_id) result" where
  "command_id_from_str v = map_ok CommandId (id_from_str ''cmd_'' v)"

definition event_id_from_str :: "string \<Rightarrow> (id_error, event_id) result" where
  "event_id_from_str v = map_ok EventId (id_from_str ''evt_'' v)"

definition session_id_from_str :: "string \<Rightarrow> (id_error, session_id) result" where
  "session_id_from_str v = map_ok SessionId (id_from_str ''ses_'' v)"

definition service_instance_id_from_str :: "string \<Rightarrow> (id_error, service_instance_id) result" where
  "service_instance_id_from_str v = map_ok ServiceInstanceId (id_from_str ''svc_'' v)"

definition receive_window_id_from_str :: "string \<Rightarrow> (id_error, receive_window_id) result" where
  "receive_window_id_from_str v = map_ok ReceiveWindowId (id_from_str ''rxw_'' v)"

definition profile_revision_id_from_str :: "string \<Rightarrow> (id_error, profile_revision_id) result" where
  "profile_revision_id_from_str v = map_ok ProfileRevisionId (id_from_str ''prv_'' v)"

definition qso_id_from_str :: "string \<Rightarrow> (id_error, qso_id) result" where
  "qso_id_from_str v = map_ok QsoId (id_from_str ''qso_'' v)"

definition qso_attempt_id_from_str :: "string \<Rightarrow> (id_error, qso_attempt_id) result" where
  "qso_attempt_id_from_str v = map_ok QsoAttemptId (id_from_str ''qat_'' v)"

definition transmission_id_from_str :: "string \<Rightarrow> (id_error, transmission_id) result" where
  "transmission_id_from_str v = map_ok TransmissionId (id_from_str ''txm_'' v)"

text \<open>\<open>CommandId::for_request\<close>: the slice after the four bytes of the request prefix.\<close>

definition for_request :: "request_id \<Rightarrow> command_id" where
  "for_request r = CommandId (''cmd_'' @ drop (length ''req_'') (request_id_str r))"

section \<open>The identity contract\<close>

text \<open>The language of one identity type.\<close>

definition valid_id :: "string \<Rightarrow> string \<Rightarrow> bool" where
  "valid_id prefix v \<longleftrightarrow>
     (\<exists>p. v = prefix @ p \<and> 8 \<le> length p \<and> length p \<le> 64 \<and> list_all payload_byte_ok p)"

lemma id_from_str_Ok: "id_from_str prefix v = Ok w \<longleftrightarrow> w = v \<and> valid_id prefix v"
  by (auto simp: id_from_str_def valid_id_def strip_prefix_Some split: option.splits if_splits)

lemma id_from_str_invalid: "\<not> valid_id prefix v \<Longrightarrow> \<exists>e. id_from_str prefix v = Err e"
  using id_from_str_Ok [of prefix v] by (cases "id_from_str prefix v") auto

interpretation request_id_value: checked_value request_id_from_str request_id_str "valid_id ''req_''"
  by unfold_locales
    (auto simp: request_id_from_str_def id_from_str_Ok intro: id_from_str_invalid)

interpretation command_id_value: checked_value command_id_from_str command_id_str "valid_id ''cmd_''"
  by unfold_locales
    (auto simp: command_id_from_str_def id_from_str_Ok intro: id_from_str_invalid)

interpretation event_id_value: checked_value event_id_from_str event_id_str "valid_id ''evt_''"
  by unfold_locales
    (auto simp: event_id_from_str_def id_from_str_Ok intro: id_from_str_invalid)

interpretation service_instance_id_value:
  checked_value service_instance_id_from_str service_instance_id_str "valid_id ''svc_''"
  by unfold_locales
    (auto simp: service_instance_id_from_str_def id_from_str_Ok intro: id_from_str_invalid)

interpretation receive_window_id_value:
  checked_value receive_window_id_from_str receive_window_id_str "valid_id ''rxw_''"
  by unfold_locales
    (auto simp: receive_window_id_from_str_def id_from_str_Ok intro: id_from_str_invalid)

lemma valid_id_for_request:
  "valid_id ''req_'' (request_id_str r) \<Longrightarrow> valid_id ''cmd_'' (command_id_str (for_request r))"
  by (auto simp: valid_id_def for_request_def)

lemma for_request_inj:
  assumes "valid_id ''req_'' (request_id_str r)" "valid_id ''req_'' (request_id_str s)"
    and "for_request r = for_request s"
  shows "r = s"
  using assms by (auto simp: valid_id_def for_request_def intro: request_id.expand)

text \<open>
  The command identity derived from a request is a well-formed command identity, parsing
  its printed form gives it back, and two different accepted requests never share one.
\<close>

theorem command_identity_stable:
  assumes "request_id_from_str v = Ok r" and "request_id_from_str w = Ok s"
  shows "command_id_from_str (command_id_str (for_request r)) = Ok (for_request r) \<and>
         (for_request r = for_request s \<longleftrightarrow> v = w)"
proof -
  have r: "valid_id ''req_'' (request_id_str r)" and s: "valid_id ''req_'' (request_id_str s)"
    using assms by (auto dest: request_id_value.constructed_valid)
  have vw: "request_id_str r = v" "request_id_str s = w"
    using assms by (auto dest: request_id_value.raw_make)
  have "command_id_from_str (command_id_str (for_request r)) = Ok (for_request r)"
    using valid_id_for_request [OF r] by (simp add: command_id_from_str_def id_from_str_Ok)
  moreover have "for_request r = for_request s \<longleftrightarrow> v = w"
    using for_request_inj [OF r s] request_id.expand [of r s] vw by metis
  ultimately show ?thesis ..
qed

theorem command_identity_stable_witness:
  "request_id_from_str ''req_01jabcde9'' = Ok (RequestId ''req_01jabcde9'') \<and>
   command_id_from_str ''cmd_01jabcde9'' = Ok (for_request (RequestId ''req_01jabcde9''))"
proof -
  have h: "request_id_from_str ''req_01jabcde9'' = Ok (RequestId ''req_01jabcde9'')"
    by code_simp
  show ?thesis
    using h command_identity_stable [OF h h] by (simp add: for_request_def)
qed

end
