(* ===== verification/SP_Callsign.thy ===== *)
theory SP_Callsign
  imports SP_Prelude
begin

text \<open>
  \<open>crates/domain/src/callsign.rs\<close>: full callsigns, which keep the operator's spelling, and the
  canonical uppercase base callsign used by policy.
\<close>

datatype callsign_error =
    InvalidLength
  | InvalidCharacter
  | EmptyComponent
  | MissingBaseCall
  | NonCanonicalBase

datatype base_callsign = BaseCallsign (base_str: string)

record full_callsign =
  original :: string
  base :: base_callsign

definition validate_shape :: "string \<Rightarrow> bool \<Rightarrow> (callsign_error, unit) result" where
  "validate_shape value slash_allowed =
     (if \<not> (1 \<le> length value \<and> length value \<le> 32) then Err InvalidLength
      else if \<not> list_all (\<lambda>b. is_ascii_alphanumeric b \<or> (slash_allowed \<and> b = CHR ''/'')) value
        then Err InvalidCharacter
      else if list_ex (\<lambda>w. w = []) (split_on (CHR ''/'') value) then Err EmptyComponent
      else Ok ())"

text \<open>The closure that selects a component with at least one letter and one digit.\<close>

definition base_candidate :: "string \<Rightarrow> bool" where
  "base_candidate w \<longleftrightarrow> list_ex is_ascii_alphabetic w \<and> list_ex is_ascii_digit w"

text \<open>\<open>Iterator::max_by_key\<close> on the length: of several longest components, the last one.\<close>

definition longer :: "string \<Rightarrow> string \<Rightarrow> string" where
  "longer a b = (if length a \<le> length b then b else a)"

fun max_by_len :: "string list \<Rightarrow> string option" where
  "max_by_len [] = None"
| "max_by_len (w # ws) = Some (foldl longer w ws)"

definition to_ascii_uppercase :: "string \<Rightarrow> string" where
  "to_ascii_uppercase s = map to_ascii_upper s"

definition full_callsign_from_str :: "string \<Rightarrow> (callsign_error, full_callsign) result" where
  "full_callsign_from_str value =
     (case validate_shape value True of
        Inl e \<Rightarrow> Err e
      | Inr _ \<Rightarrow>
          (case max_by_len (filter base_candidate (split_on (CHR ''/'') value)) of
             None \<Rightarrow> Err MissingBaseCall
           | Some base_component \<Rightarrow>
               Ok \<lparr>original = value, base = BaseCallsign (to_ascii_uppercase base_component)\<rparr>))"

definition base_callsign_from_str :: "string \<Rightarrow> (callsign_error, base_callsign) result" where
  "base_callsign_from_str value =
     (case validate_shape value False of
        Inl e \<Rightarrow> Err e
      | Inr _ \<Rightarrow>
          if value \<noteq> to_ascii_uppercase value \<or> CHR ''/'' \<in> set value then Err NonCanonicalBase
          else if \<not> list_ex is_ascii_alphabetic value \<or> \<not> list_ex is_ascii_digit value
            then Err MissingBaseCall
          else Ok (BaseCallsign value))"

text \<open>\<open>role_callsign!\<close>: the three station roles are distinct wrappers of one full callsign.\<close>

datatype station_callsign = StationCallsign (station_call: full_callsign)
datatype operator_callsign = OperatorCallsign (operator_call: full_callsign)
datatype owner_callsign = OwnerCallsign (owner_call: full_callsign)

definition station_callsign_from_str :: "string \<Rightarrow> (callsign_error, station_callsign) result" where
  "station_callsign_from_str v = map_ok StationCallsign (full_callsign_from_str v)"

definition operator_callsign_from_str :: "string \<Rightarrow> (callsign_error, operator_callsign) result" where
  "operator_callsign_from_str v = map_ok OperatorCallsign (full_callsign_from_str v)"

definition owner_callsign_from_str :: "string \<Rightarrow> (callsign_error, owner_callsign) result" where
  "owner_callsign_from_str v = map_ok OwnerCallsign (full_callsign_from_str v)"

section \<open>Lemmas\<close>

lemma slash_not_alphanumeric [simp]: "\<not> is_ascii_alphanumeric (CHR ''/'')"
  by (simp add: is_ascii_alphanumeric_def is_ascii_alphabetic_def is_ascii_lowercase_def
      is_ascii_uppercase_def is_ascii_digit_def)

lemma foldl_longer_mem: "foldl longer w ws \<in> set (w # ws)"
  by (induction ws arbitrary: w) (auto simp: longer_def split: if_splits)

lemma foldl_longer_ge: "v \<in> set (w # ws) \<Longrightarrow> length v \<le> length (foldl longer w ws)"
proof (induction ws arbitrary: v w)
  case Nil
  then show ?case by simp
next
  case (Cons x xs)
  have "length (longer w x) \<le> length (foldl longer (longer w x) xs)"
    by (rule Cons.IH) simp
  moreover have "v \<in> set xs \<Longrightarrow> length v \<le> length (foldl longer (longer w x) xs)"
    by (rule Cons.IH) simp
  moreover have "length w \<le> length (longer w x)" "length x \<le> length (longer w x)"
    by (simp_all add: longer_def)
  ultimately show ?case using Cons.prems by auto
qed

lemma max_by_len_Some:
  assumes "max_by_len ws = Some w"
  shows "w \<in> set ws" and "v \<in> set ws \<Longrightarrow> length v \<le> length w"
  using assms foldl_longer_mem foldl_longer_ge by (cases ws; fastforce)+

lemma validate_shape_Ok:
  "validate_shape v sl = Ok u \<longleftrightarrow>
     1 \<le> length v \<and> length v \<le> 32 \<and>
     list_all (\<lambda>b. is_ascii_alphanumeric b \<or> (sl \<and> b = CHR ''/'')) v \<and>
     [] \<notin> set (split_on (CHR ''/'') v)"
  by (auto simp: validate_shape_def list_ex_iff)

lemma to_ascii_uppercase_simps [simp]:
  "length (to_ascii_uppercase w) = length w"
  "to_ascii_uppercase (to_ascii_uppercase w) = to_ascii_uppercase w"
  "list_ex is_ascii_alphabetic (to_ascii_uppercase w) = list_ex is_ascii_alphabetic w"
  "list_ex is_ascii_digit (to_ascii_uppercase w) = list_ex is_ascii_digit w"
  "list_all is_ascii_alphanumeric (to_ascii_uppercase w) = list_all is_ascii_alphanumeric w"
  by (simp_all add: to_ascii_uppercase_def list_ex_iff list_all_iff)

lemma list_all_slash_notin: "list_all is_ascii_alphanumeric w \<Longrightarrow> CHR ''/'' \<notin> set w"
  using slash_not_alphanumeric by (auto simp: list_all_iff)

lemma base_callsign_from_str_Ok:
  "base_callsign_from_str v = Ok b \<longleftrightarrow>
     b = BaseCallsign v \<and> length v \<le> 32 \<and> list_all is_ascii_alphanumeric v \<and>
     v = to_ascii_uppercase v \<and> base_candidate v"
  (is "?L \<longleftrightarrow> ?R")
proof
  show "?L \<Longrightarrow> ?R"
    by (auto simp: base_callsign_from_str_def validate_shape_Ok base_candidate_def
        split: sum.splits if_splits)
next
  assume R: ?R
  then have "v \<noteq> []" by (auto simp: base_candidate_def)
  moreover have "CHR ''/'' \<notin> set v" using R list_all_slash_notin by blast
  ultimately have "validate_shape v False = Ok ()"
    using R by (cases v) (auto simp: validate_shape_Ok split_on_no_sep)
  then show ?L
    using R \<open>CHR ''/'' \<notin> set v\<close> by (auto simp: base_callsign_from_str_def base_candidate_def)
qed

text \<open>What an accepted spelling yields: the longest letter-and-digit component.\<close>

lemma full_callsign_from_str_Ok:
  assumes "full_callsign_from_str v = Ok c"
  obtains w where "original c = v" "base c = BaseCallsign (to_ascii_uppercase w)"
    "w \<in> set (split_on (CHR ''/'') v)" "base_candidate w" "length w \<le> 32"
    "list_all is_ascii_alphanumeric w"
    "list_all (\<lambda>u. base_candidate u \<longrightarrow> length u \<le> length w) (split_on (CHR ''/'') v)"
proof -
  from assms obtain w where w: "max_by_len (filter base_candidate (split_on (CHR ''/'') v)) = Some w"
    and shape: "validate_shape v True = Ok ()" and c: "original c = v"
      "base c = BaseCallsign (to_ascii_uppercase w)"
    by (auto simp: full_callsign_from_str_def split: sum.splits option.splits)
  have mem: "w \<in> set (split_on (CHR ''/'') v)" "base_candidate w"
    using max_by_len_Some(1) [OF w] by auto
  moreover have "length w \<le> 32"
    using split_on_mem_length [OF mem(1)] shape by (simp add: validate_shape_Ok)
  moreover have "list_all is_ascii_alphanumeric w"
    using split_on_mem_set [OF mem(1)] shape by (auto simp: validate_shape_Ok list_all_iff)
  moreover have "list_all (\<lambda>u. base_candidate u \<longrightarrow> length u \<le> length w) (split_on (CHR ''/'') v)"
    using max_by_len_Some(2) [OF w] by (simp add: list_all_iff)
  ultimately show ?thesis using that c by blast
qed

lemma base_candidate_upper [simp]: "base_candidate (to_ascii_uppercase w) = base_candidate w"
  by (simp add: base_candidate_def)

text \<open>Parsing a full callsign whose text is already a canonical base gives that base.\<close>

lemma full_callsign_of_base:
  assumes "base_callsign_from_str v = Ok b"
  shows "full_callsign_from_str v = Ok \<lparr>original = v, base = b\<rparr>"
proof -
  from assms have v: "b = BaseCallsign v" "length v \<le> 32" "list_all is_ascii_alphanumeric v"
    "v = to_ascii_uppercase v" "base_candidate v"
    by (auto simp: base_callsign_from_str_Ok)
  have "v \<noteq> []" using v(5) by (auto simp: base_candidate_def)
  moreover have split: "split_on (CHR ''/'') v = [v]"
    using list_all_slash_notin [OF v(3)] by (rule split_on_no_sep)
  ultimately have "validate_shape v True = Ok ()"
    using v by (cases v) (auto simp: validate_shape_Ok list_all_iff)
  then show ?thesis using v split by (simp add: full_callsign_from_str_def)
qed

text \<open>
  C35: an accepted full callsign keeps the exact spelling supplied, and its base key is a
  canonical base callsign: the base parser accepts its text unchanged, it is the uppercase form
  of a longest slash-separated component that has a letter and a digit, and normalizing again
  (parsing the base as a full callsign) yields the same base.
\<close>

theorem full_callsign_base_canonical:
  assumes "full_callsign_from_str v = Ok c"
  shows "original c = v \<and>
    base_callsign_from_str (base_str (base c)) = Ok (base c) \<and>
    (\<exists>w \<in> set (split_on (CHR ''/'') v). base_str (base c) = to_ascii_uppercase w \<and>
       list_all (\<lambda>u. base_candidate u \<longrightarrow> length u \<le> length w) (split_on (CHR ''/'') v)) \<and>
    full_callsign_from_str (base_str (base c)) = Ok \<lparr>original = base_str (base c), base = base c\<rparr>"
proof -
  obtain w where w: "original c = v" "base c = BaseCallsign (to_ascii_uppercase w)"
    "w \<in> set (split_on (CHR ''/'') v)" "base_candidate w" "length w \<le> 32"
    "list_all is_ascii_alphanumeric w"
    "list_all (\<lambda>u. base_candidate u \<longrightarrow> length u \<le> length w) (split_on (CHR ''/'') v)"
    using assms by (rule full_callsign_from_str_Ok)
  have b: "base_callsign_from_str (base_str (base c)) = Ok (base c)"
    using w by (simp add: base_callsign_from_str_Ok)
  show ?thesis
    using w(1,2,3,7) b full_callsign_of_base [OF b] by auto
qed

theorem full_callsign_base_canonical_witness:
  "full_callsign_from_str ''ea8/K1abc/p''
     = Ok \<lparr>original = ''ea8/K1abc/p'', base = BaseCallsign ''K1ABC''\<rparr> \<and>
   base_callsign_from_str ''K1ABC'' = Ok (BaseCallsign ''K1ABC'')"
proof -
  have h: "full_callsign_from_str ''ea8/K1abc/p''
     = Ok \<lparr>original = ''ea8/K1abc/p'', base = BaseCallsign ''K1ABC''\<rparr>"
    by code_simp
  show ?thesis using h full_callsign_base_canonical [OF h] by simp
qed

end
