(* ===== verification/SP_Radio.thy ===== *)
theory SP_Radio
  imports SP_Prelude
begin

text \<open>
  \<open>crates/domain/src/radio.rs\<close>: bands, frequencies, power, operating modes and UTC slots.
  The integer newtypes are their \<open>u64\<close>/\<open>i64\<close> value; the checked constructors decide which
  values exist.
\<close>

datatype radio_value_error =
    InvalidBand
  | FrequencyOutOfRange (kind: string) (minimum: int) (maximum: int)
  | PowerOutOfRange
  | InvalidMode
  | NegativeSlot
  | MisalignedSlot
  | InvalidInteger

datatype band =
    B2200m | B630m | B160m | B80m | B60m | B40m | B30m | B20m | B17m | B15m | B12m | B10m
  | B6m | B2m | B70cm

fun band_as_str :: "band \<Rightarrow> string" where
  "band_as_str B2200m = ''2200m''"
| "band_as_str B630m = ''630m''"
| "band_as_str B160m = ''160m''"
| "band_as_str B80m = ''80m''"
| "band_as_str B60m = ''60m''"
| "band_as_str B40m = ''40m''"
| "band_as_str B30m = ''30m''"
| "band_as_str B20m = ''20m''"
| "band_as_str B17m = ''17m''"
| "band_as_str B15m = ''15m''"
| "band_as_str B12m = ''12m''"
| "band_as_str B10m = ''10m''"
| "band_as_str B6m = ''6m''"
| "band_as_str B2m = ''2m''"
| "band_as_str B70cm = ''70cm''"

definition band_from_str :: "string \<Rightarrow> (radio_value_error, band) result" where
  "band_from_str value =
     ok_or InvalidBand
       (find (\<lambda>b. band_as_str b = value)
         [B2200m, B630m, B160m, B80m, B60m, B40m, B30m, B20m, B17m, B15m, B12m, B10m,
          B6m, B2m, B70cm])"

text \<open>The \<open>frequency!\<close> macro over a kind and an inclusive range, and its two instances.\<close>

definition frequency_from_hz :: "string \<Rightarrow> int \<Rightarrow> int \<Rightarrow> int \<Rightarrow> (radio_value_error, int) result" where
  "frequency_from_hz k lo hi hz =
     (if \<not> (lo \<le> hz \<and> hz \<le> hi) then Err (FrequencyOutOfRange k lo hi) else Ok hz)"

definition frequency_from_str :: "string \<Rightarrow> int \<Rightarrow> int \<Rightarrow> string \<Rightarrow> (radio_value_error, int) result" where
  "frequency_from_str k lo hi value =
     (case parse_uint u64_max value of
        None \<Rightarrow> Err InvalidInteger
      | Some hz \<Rightarrow> frequency_from_hz k lo hi hz)"

definition frequency_to_string :: "int \<Rightarrow> string" where
  "frequency_to_string hz = show_uint hz"

definition dial_frequency_from_hz :: "int \<Rightarrow> (radio_value_error, int) result" where
  "dial_frequency_from_hz = frequency_from_hz ''dial'' 100000 300000000000"

definition audio_frequency_from_hz :: "int \<Rightarrow> (radio_value_error, int) result" where
  "audio_frequency_from_hz = frequency_from_hz ''audio'' 1 50000"

definition dial_frequency_from_str :: "string \<Rightarrow> (radio_value_error, int) result" where
  "dial_frequency_from_str = frequency_from_str ''dial'' 100000 300000000000"

definition audio_frequency_from_str :: "string \<Rightarrow> (radio_value_error, int) result" where
  "audio_frequency_from_str = frequency_from_str ''audio'' 1 50000"

definition power_from_milliwatts :: "int \<Rightarrow> (radio_value_error, int) result" where
  "power_from_milliwatts v =
     (if \<not> (1 \<le> v \<and> v \<le> 1000000) then Err PowerOutOfRange else Ok v)"

datatype operating_mode = Ft8 | Wspr

fun slot_millis :: "operating_mode \<Rightarrow> int" where
  "slot_millis Ft8 = 15000"
| "slot_millis Wspr = 120000"

fun mode_to_string :: "operating_mode \<Rightarrow> string" where
  "mode_to_string Ft8 = ''FT8''"
| "mode_to_string Wspr = ''WSPR''"

definition mode_from_str :: "string \<Rightarrow> (radio_value_error, operating_mode) result" where
  "mode_from_str v =
     (if v = ''FT8'' then Ok Ft8 else if v = ''WSPR'' then Ok Wspr else Err InvalidMode)"

record utc_slot =
  slot_mode :: operating_mode
  start_unix_millis :: int

definition utc_slot_new :: "operating_mode \<Rightarrow> int \<Rightarrow> (radio_value_error, utc_slot) result" where
  "utc_slot_new mode start =
     (if start < 0 then Err NegativeSlot
      else if start smod slot_millis mode \<noteq> 0 then Err MisalignedSlot
      else Ok \<lparr>slot_mode = mode, start_unix_millis = start\<rparr>)"

section \<open>Contracts\<close>

lemma slot_millis_pos [simp]: "0 < slot_millis m"
  by (cases m) auto

lemma slot_millis_cases: "slot_millis m = 15000 \<or> slot_millis m = 120000"
  by (cases m) auto

lemma utc_slot_new_Ok:
  "utc_slot_new m t = Ok s \<longleftrightarrow>
     0 \<le> t \<and> t mod slot_millis m = 0 \<and> s = \<lparr>slot_mode = m, start_unix_millis = t\<rparr>"
  by (auto simp: utc_slot_new_def)

interpretation dial_frequency_value:
  checked_value dial_frequency_from_hz "\<lambda>hz. hz" "in_range 100000 300000000000"
  by unfold_locales
    (auto simp: dial_frequency_from_hz_def frequency_from_hz_def in_range_def split: if_splits)

interpretation audio_frequency_value:
  checked_value audio_frequency_from_hz "\<lambda>hz. hz" "in_range 1 50000"
  by unfold_locales
    (auto simp: audio_frequency_from_hz_def frequency_from_hz_def in_range_def split: if_splits)

interpretation power_value: checked_value power_from_milliwatts "\<lambda>v. v" "in_range 1 1000000"
  by unfold_locales (auto simp: power_from_milliwatts_def in_range_def split: if_splits)

lemma band_as_str_inj: "band_as_str a = band_as_str b \<Longrightarrow> a = b"
  by (cases a; cases b; simp)

lemma find_inj:
  assumes "\<And>a c. f a = f c \<Longrightarrow> a = c" and "b \<in> set xs"
  shows "find (\<lambda>a. f a = v) xs = Some b \<longleftrightarrow> v = f b"
  using assms(2) by (induction xs) (auto dest: assms(1) simp: find_Some_iff)

lemma band_from_str_Ok: "band_from_str v = Ok b \<longleftrightarrow> v = band_as_str b"
  unfolding band_from_str_def ok_or_Inr
proof (rule find_inj)
  show "b \<in> set [B2200m, B630m, B160m, B80m, B60m, B40m, B30m, B20m, B17m, B15m, B12m, B10m,
          B6m, B2m, B70cm]"
    by (cases b) simp_all
qed (rule band_as_str_inj)

text \<open>The two text parsers of the frequency types invert printing on every accepted value.\<close>

lemma frequency_round_trip:
  assumes "0 \<le> lo" "hi \<le> u64_max" "frequency_from_hz k lo hi hz = Ok f"
  shows "frequency_from_str k lo hi (frequency_to_string f) = Ok f"
  using assms
  by (auto simp: frequency_from_hz_def frequency_from_str_def frequency_to_string_def
      parse_show_uint split: if_splits)

text \<open>
  A band, a dial frequency and an audio frequency each survive printing and parsing, and
  the band parser accepts no other text than the fifteen wire names.
\<close>

theorem radio_values_round_trip:
  assumes "dial_frequency_from_hz d = Ok d'" and "audio_frequency_from_hz a = Ok a'"
  shows "(band_from_str v = Ok b \<longleftrightarrow> v = band_as_str b) \<and>
    dial_frequency_from_str (frequency_to_string d') = Ok d \<and>
    audio_frequency_from_str (frequency_to_string a') = Ok a"
proof -
  have "d' = d" "a' = a"
    using assms dial_frequency_value.raw_make audio_frequency_value.raw_make by blast+
  then show ?thesis
    using assms frequency_round_trip [of 100000 300000000000 "''dial''" d d']
      frequency_round_trip [of 1 50000 "''audio''" a a']
    by (simp add: band_from_str_Ok dial_frequency_from_hz_def audio_frequency_from_hz_def
        dial_frequency_from_str_def audio_frequency_from_str_def)
qed

theorem radio_values_round_trip_witness:
  "dial_frequency_from_hz 14074000 = Ok 14074000 \<and> audio_frequency_from_hz 1500 = Ok 1500 \<and>
   dial_frequency_from_str (frequency_to_string 14074000) = Ok 14074000 \<and>
   audio_frequency_from_str (frequency_to_string 1500) = Ok 1500"
proof -
  have d: "dial_frequency_from_hz 14074000 = Ok 14074000"
    by (simp add: dial_frequency_from_hz_def frequency_from_hz_def)
  have a: "audio_frequency_from_hz 1500 = Ok 1500"
    by (simp add: audio_frequency_from_hz_def frequency_from_hz_def)
  show ?thesis using d a radio_values_round_trip [OF d a] by simp
qed

end
