(* ===== verification/SP_Time.thy ===== *)
theory SP_Time
  imports SP_Radio
begin

text \<open>
  \<open>crates/operations/src/time.rs\<close>: paired UTC/monotonic samples, slot arithmetic, the
  deterministic \<open>VirtualClock\<close> and the latching \<open>ClockMonitor\<close>.  \<open>UtcInstant\<close> is an
  \<open>i64\<close> of at least 0, \<open>MonotonicInstant\<close> and \<open>MonotonicDeadline\<close> are \<open>u64\<close> milliseconds.
\<close>

datatype slot_time_error =
    BeforeUnixEpoch
  | MissedDeadline
  | ArithmeticOverflow
  | MisalignedSlot

type_synonym utc_instant = int
type_synonym monotonic_instant = int
type_synonym monotonic_deadline = int

definition from_unix_millis :: "int \<Rightarrow> (slot_time_error, utc_instant) result" where
  "from_unix_millis v = (if v < 0 then Err BeforeUnixEpoch else Ok v)"

definition is_expired_at :: "monotonic_deadline \<Rightarrow> monotonic_instant \<Rightarrow> bool" where
  "is_expired_at d now \<longleftrightarrow> now \<ge> d"

record clock_sample =
  utc :: utc_instant
  monotonic :: monotonic_instant

definition deadline_for :: "clock_sample \<Rightarrow> utc_instant \<Rightarrow> (slot_time_error, monotonic_deadline) result" where
  "deadline_for s target =
     (case checked_i64 (target - utc s) of
        None \<Rightarrow> Err ArithmeticOverflow
      | Some delta \<Rightarrow>
          if delta < 0 then Err MissedDeadline
          else (case checked_u64 delta of
                  None \<Rightarrow> Err ArithmeticOverflow
                | Some delta' \<Rightarrow> ok_or ArithmeticOverflow (checked_u64 (monotonic s + delta'))))"

definition next_slot ::
  "clock_sample \<Rightarrow> operating_mode \<Rightarrow> (slot_time_error, utc_slot \<times> monotonic_deadline) result" where
  "next_slot s mode =
     (let duration = slot_millis mode in
      case Option.bind (Option.bind (checked_i64 (utc s sdiv duration))
                          (\<lambda>index. checked_i64 (index + 1)))
             (\<lambda>index. checked_i64 (index * duration)) of
        None \<Rightarrow> Err ArithmeticOverflow
      | Some start \<Rightarrow>
          (case from_unix_millis start of
             Inl e \<Rightarrow> Err e
           | Inr utc' \<Rightarrow>
               (case utc_slot_new mode start of
                  Inl _ \<Rightarrow> Err MisalignedSlot
                | Inr slot \<Rightarrow>
                    (case deadline_for s utc' of
                       Inl e \<Rightarrow> Err e
                     | Inr d \<Rightarrow> Ok (slot, d)))))"

definition current_slot :: "clock_sample \<Rightarrow> operating_mode \<Rightarrow> (slot_time_error, utc_slot) result" where
  "current_slot s mode =
     (let start = utc s - (utc s smod slot_millis mode) in
      map_err (\<lambda>_. MisalignedSlot) (utc_slot_new mode start))"

section \<open>The virtual clock\<close>

text \<open>
  \<open>VirtualClock\<close> holds one sample behind a mutex; its operations return the result together
  with the sample left behind.  \<open>advance\<close> stores the new UTC value before it checks the
  monotonic addition, so the error of that check leaves UTC moved.
\<close>

definition virtual_advance :: "clock_sample \<Rightarrow> int \<Rightarrow> (slot_time_error, unit) result \<times> clock_sample" where
  "virtual_advance state millis =
     (case checked_i64 millis of
        None \<Rightarrow> (Err ArithmeticOverflow, state)
      | Some utc_delta \<Rightarrow>
          (case checked_i64 (utc state + utc_delta) of
             None \<Rightarrow> (Err ArithmeticOverflow, state)
           | Some u \<Rightarrow>
               (let state = state\<lparr>utc := u\<rparr> in
                case checked_u64 (monotonic state + millis) of
                  None \<Rightarrow> (Err ArithmeticOverflow, state)
                | Some m \<Rightarrow> (Ok (), state\<lparr>monotonic := m\<rparr>))))"

definition virtual_jump_utc :: "clock_sample \<Rightarrow> int \<Rightarrow> (slot_time_error, unit) result \<times> clock_sample" where
  "virtual_jump_utc state delta =
     (case checked_i64 (utc state + delta) of
        None \<Rightarrow> (Err ArithmeticOverflow, state)
      | Some updated \<Rightarrow>
          if updated < 0 then (Err BeforeUnixEpoch, state)
          else (Ok (), state\<lparr>utc := updated\<rparr>))"

section \<open>The clock monitor\<close>

datatype clock_fault =
    WallClockJump (divergence_millis: int)
  | TimelineRegressed

datatype clock_health = Healthy | Unhealthy clock_fault

record clock_monitor =
  cm_last :: clock_sample
  cm_tolerance_millis :: int
  cm_health :: clock_health

definition clock_monitor_new :: "clock_sample \<Rightarrow> int \<Rightarrow> clock_monitor" where
  "clock_monitor_new initial tolerance =
     \<lparr>cm_last = initial, cm_tolerance_millis = tolerance, cm_health = Healthy\<rparr>"

definition cm_observe :: "clock_monitor \<Rightarrow> clock_sample \<Rightarrow> clock_health \<times> clock_monitor" where
  "cm_observe m sample =
     (if cm_health m \<noteq> Healthy then (cm_health m, m)
      else case checked_i64 (utc sample - utc (cm_last m)) of
        None \<Rightarrow> (Unhealthy TimelineRegressed, m\<lparr>cm_health := Unhealthy TimelineRegressed\<rparr>)
      | Some utc_delta \<Rightarrow>
          (case checked_u64 (monotonic sample - monotonic (cm_last m)) of
             None \<Rightarrow> (Unhealthy TimelineRegressed, m\<lparr>cm_health := Unhealthy TimelineRegressed\<rparr>)
           | Some monotonic_delta \<Rightarrow>
               if utc_delta < 0
               then (Unhealthy TimelineRegressed, m\<lparr>cm_health := Unhealthy TimelineRegressed\<rparr>)
               else let md = (case checked_i64 monotonic_delta of None \<Rightarrow> i64_max | Some d \<Rightarrow> d);
                        divergence = sat_i64 (utc_delta - md)
                    in if \<bar>divergence\<bar> > cm_tolerance_millis m
                       then (Unhealthy (WallClockJump divergence),
                             m\<lparr>cm_health := Unhealthy (WallClockJump divergence)\<rparr>)
                       else (Healthy, m\<lparr>cm_last := sample\<rparr>)))"

definition cm_step :: "clock_monitor \<Rightarrow> clock_sample \<Rightarrow> clock_monitor" where
  "cm_step m s = snd (cm_observe m s)"

section \<open>Lemmas\<close>

text \<open>A sample whose two components are in the range of their Rust types; and one whose
  monotonic reading also fits an \<open>i64\<close>, so that \<open>ClockMonitor\<close> never replaces a monotonic
  delta by \<open>i64::MAX\<close> (292 million years of uptime).\<close>

definition valid_sample :: "clock_sample \<Rightarrow> bool" where
  "valid_sample s \<longleftrightarrow> 0 \<le> utc s \<and> utc s \<le> i64_max \<and> is_u64 (monotonic s)"

definition settled_sample :: "clock_sample \<Rightarrow> bool" where
  "settled_sample s \<longleftrightarrow> valid_sample s \<and> monotonic s \<le> i64_max"

lemmas valid_sample_simps = valid_sample_def settled_sample_def in_range_def

lemma deadline_for_Ok:
  assumes "valid_sample s" "0 \<le> t" "t \<le> i64_max"
  shows "deadline_for s t = Ok d \<longleftrightarrow>
    utc s \<le> t \<and> d = monotonic s + (t - utc s) \<and> d \<le> u64_max"
  using assms
  by (auto simp: deadline_for_def valid_sample_simps checked_in split: option.splits if_splits)

lemma deadline_for_missed:
  assumes "valid_sample s" "0 \<le> t" "t < utc s"
  shows "deadline_for s t = Err MissedDeadline"
  using assms by (simp add: deadline_for_def valid_sample_simps checked_in)

lemma next_boundary:
  assumes "0 < d"
  shows "u < (u div d + 1) * d" and "(u div d + 1) * d \<le> u + (d::int)"
    and "((u div d + 1) * d) mod d = 0"
proof -
  have "u mod d < d" "0 \<le> u mod d" using assms by simp_all
  moreover have "u div d * d + u mod d = u" by simp
  ultimately show "u < (u div d + 1) * d" "(u div d + 1) * d \<le> u + d"
    by (simp_all only: distrib_right mult_1)
qed simp

lemma next_slot_eq:
  assumes "valid_sample s"
  shows "next_slot s mode =
    (let start = (utc s div slot_millis mode + 1) * slot_millis mode in
     if start \<le> i64_max \<and> monotonic s + (start - utc s) \<le> u64_max
     then Ok (\<lparr>slot_mode = mode, start_unix_millis = start\<rparr>, monotonic s + (start - utc s))
     else Err ArithmeticOverflow)"
proof -
  let ?d = "slot_millis mode"
  let ?i = "utc s div ?d"
  have u: "0 \<le> utc s" "utc s \<le> i64_max" using assms by (simp_all add: valid_sample_simps)
  have d: "15000 \<le> ?d" using slot_millis_cases [of mode] by auto
  have i: "0 \<le> ?i" using u d by (simp add: pos_imp_zdiv_nonneg_iff)
  moreover have "?i \<le> utc s div 15000" using u d by (intro zdiv_mono2) auto
  ultimately have i': "?i + 1 \<le> i64_max" using u by linarith
  have b: "utc s < (?i + 1) * ?d" "(?i + 1) * ?d \<le> utc s + ?d" "((?i + 1) * ?d) mod ?d = 0"
    using next_boundary [of ?d "utc s"] d by auto
  have m: "0 \<le> monotonic s" using assms by (simp add: valid_sample_simps)
  have sd: "utc s sdiv ?d = ?i" using u d by simp
  show ?thesis
  proof (cases "(?i + 1) * ?d \<le> i64_max")
    case True
    have "checked_i64 ((?i + 1) * ?d) = Some ((?i + 1) * ?d)"
      using True b u by (simp add: checked_in)
    moreover have "utc_slot_new mode ((?i + 1) * ?d)
        = Ok \<lparr>slot_mode = mode, start_unix_millis = (?i + 1) * ?d\<rparr>"
      using b u by (simp add: utc_slot_new_Ok)
    moreover have "deadline_for s ((?i + 1) * ?d) =
        (if monotonic s + ((?i + 1) * ?d - utc s) \<le> u64_max
         then Ok (monotonic s + ((?i + 1) * ?d - utc s)) else Err ArithmeticOverflow)"
      using True b u m by (auto simp: deadline_for_def checked_in)
    ultimately show ?thesis
      using sd i i' True b u by (simp add: next_slot_def from_unix_millis_def Let_def checked_in)
  next
    case False
    then show ?thesis using sd i i' by (simp add: next_slot_def Let_def checked_def)
  qed
qed

text \<open>
  For every sample the next slot is the first boundary of the mode strictly after the
  sample: aligned, at most one slot duration away, and its monotonic deadline is as far from
  the monotonic reading as the boundary is from the UTC reading.  The call fails only with
  \<open>ArithmeticOverflow\<close>, within one slot of the end of a representable timeline.
\<close>

theorem next_slot_first_boundary:
  assumes "valid_sample s"
  shows "case next_slot s mode of
      Inr (slot, d) \<Rightarrow>
        slot_mode slot = mode \<and> start_unix_millis slot mod slot_millis mode = 0 \<and>
        utc s < start_unix_millis slot \<and> start_unix_millis slot \<le> utc s + slot_millis mode \<and>
        d - monotonic s = start_unix_millis slot - utc s
    | Inl e \<Rightarrow>
        e = ArithmeticOverflow \<and>
        (utc s + slot_millis mode > i64_max \<or> monotonic s + slot_millis mode > u64_max)"
  using next_boundary [of "slot_millis mode" "utc s"]
  by (auto simp: next_slot_eq [OF assms] Let_def)

theorem next_slot_first_boundary_witness:
  "valid_sample \<lparr>utc = 120000, monotonic = 5000\<rparr> \<and>
   next_slot \<lparr>utc = 120000, monotonic = 5000\<rparr> Ft8
     = Ok (\<lparr>slot_mode = Ft8, start_unix_millis = 135000\<rparr>, 20000) \<and> (120000::int) < 135000"
proof -
  have v: "valid_sample \<lparr>utc = 120000, monotonic = 5000\<rparr>" by (simp add: valid_sample_simps)
  have n: "next_slot \<lparr>utc = 120000, monotonic = 5000\<rparr> Ft8
     = Ok (\<lparr>slot_mode = Ft8, start_unix_millis = 135000\<rparr>, 20000)"
    by (simp add: next_slot_eq [OF v])
  show ?thesis using v n next_slot_first_boundary [OF v, of Ft8] by simp
qed

lemma current_slot_Ok:
  assumes "valid_sample s"
  shows "\<exists>slot. current_slot s mode = Ok slot \<and> slot_mode slot = mode \<and>
    start_unix_millis slot \<le> utc s \<and> utc s < start_unix_millis slot + slot_millis mode"
proof -
  let ?d = "slot_millis mode"
  let ?t = "utc s - utc s mod ?d"
  have u: "0 \<le> utc s" using assms by (simp add: valid_sample_simps)
  have m: "0 \<le> utc s mod ?d" "utc s mod ?d < ?d" "utc s mod ?d \<le> utc s"
    using u by (simp_all add: zmod_le_nonneg_dividend)
  have "?t mod ?d = 0" by (simp add: minus_mod_eq_mult_div)
  then have "utc_slot_new mode ?t = Ok \<lparr>slot_mode = mode, start_unix_millis = ?t\<rparr>"
    using m by (simp add: utc_slot_new_Ok)
  moreover have "current_slot s mode = map_err (\<lambda>_. MisalignedSlot) (utc_slot_new mode ?t)"
    using u by (simp add: current_slot_def)
  ultimately have "current_slot s mode = Ok \<lparr>slot_mode = mode, start_unix_millis = ?t\<rparr>"
    by simp
  then show ?thesis using m by simp
qed

subsection \<open>The monitor latches\<close>

interpretation clock_monitor_latch:
  latching_machine cm_step "\<lambda>m. cm_health m \<noteq> Healthy" cm_health
  by unfold_locales (auto simp: cm_step_def cm_observe_def)

lemma cm_step_healthy:
  assumes "cm_health (cm_step m s) = Healthy" "settled_sample (cm_last m)" "settled_sample s"
    and "0 \<le> cm_tolerance_millis m" "cm_tolerance_millis m < i64_max"
  shows "cm_health m = Healthy \<and> cm_last (cm_step m s) = s \<and>
    cm_tolerance_millis (cm_step m s) = cm_tolerance_millis m \<and>
    utc (cm_last m) \<le> utc s \<and> monotonic (cm_last m) \<le> monotonic s \<and>
    \<bar>(utc s - utc (cm_last m)) - (monotonic s - monotonic (cm_last m))\<bar> \<le> cm_tolerance_millis m"
  using assms
  by (auto simp: cm_step_def cm_observe_def Let_def valid_sample_simps saturate_def checked_def
      split: option.splits if_splits)

lemma cm_run_healthy:
  assumes "cm_health (foldl cm_step m ss) = Healthy"
    and "settled_sample (cm_last m)" "list_all settled_sample ss"
    and "0 \<le> cm_tolerance_millis m" "cm_tolerance_millis m < i64_max"
  shows "\<bar>(utc (last (cm_last m # ss)) - utc (cm_last m)) -
          (monotonic (last (cm_last m # ss)) - monotonic (cm_last m))\<bar>
         \<le> int (length ss) * cm_tolerance_millis m"
  using assms
proof (induction ss arbitrary: m)
  case Nil
  then show ?case by simp
next
  case (Cons s ss)
  have h: "cm_health (cm_step m s) = Healthy"
    using Cons.prems(1) clock_monitor_latch.bad.run_inv [of "cm_step m s" ss] by auto
  have st: "cm_last (cm_step m s) = s" "cm_tolerance_millis (cm_step m s) = cm_tolerance_millis m"
    "\<bar>(utc s - utc (cm_last m)) - (monotonic s - monotonic (cm_last m))\<bar> \<le> cm_tolerance_millis m"
    using cm_step_healthy [OF h] Cons.prems by auto
  have "\<bar>(utc (last (s # ss)) - utc s) - (monotonic (last (s # ss)) - monotonic s)\<bar>
      \<le> int (length ss) * cm_tolerance_millis m"
    using Cons.IH [of "cm_step m s"] Cons.prems st by simp
  then show ?case using st by (simp add: algebra_simps)
qed

text \<open>
  The clock monitor latches.  Once a sample made it unhealthy, no later sequence of samples
  changes the reported fault; and while it still reports healthy after \<open>n\<close> samples, UTC progress
  and monotonic progress since the start differ by at most \<open>n\<close> times the tolerance.
\<close>

theorem clock_monitor_latches_and_bounds_drift:
  assumes "settled_sample initial" and "list_all settled_sample ss"
    and "0 \<le> tolerance" and "tolerance < i64_max"
  shows "case cm_health (foldl cm_step (clock_monitor_new initial tolerance) ss) of
      Unhealthy f \<Rightarrow>
        (\<forall>ts. cm_health (foldl cm_step (clock_monitor_new initial tolerance) (ss @ ts)) = Unhealthy f)
    | Healthy \<Rightarrow>
        \<bar>(utc (last (initial # ss)) - utc initial) -
         (monotonic (last (initial # ss)) - monotonic initial)\<bar> \<le> int (length ss) * tolerance"
proof (cases "cm_health (foldl cm_step (clock_monitor_new initial tolerance) ss)")
  case Healthy
  then show ?thesis
    using cm_run_healthy [OF Healthy] assms by (simp add: clock_monitor_new_def)
next
  case (Unhealthy f)
  then show ?thesis
    using clock_monitor_latch.run_latched
      [of "foldl cm_step (clock_monitor_new initial tolerance) ss"] by simp
qed

theorem clock_monitor_latches_and_bounds_drift_witness:
  "cm_health (foldl cm_step (clock_monitor_new \<lparr>utc = 100000, monotonic = 1000\<rparr> 100)
     [\<lparr>utc = 101000, monotonic = 2000\<rparr>, \<lparr>utc = 103000, monotonic = 2000\<rparr>])
     = Unhealthy (WallClockJump 2000) \<and>
   (\<forall>ts. cm_health (foldl cm_step (clock_monitor_new \<lparr>utc = 100000, monotonic = 1000\<rparr> 100)
     ([\<lparr>utc = 101000, monotonic = 2000\<rparr>, \<lparr>utc = 103000, monotonic = 2000\<rparr>] @ ts))
     = Unhealthy (WallClockJump 2000))"
proof -
  let ?i = "\<lparr>utc = 100000, monotonic = 1000\<rparr> :: clock_sample"
  let ?ss = "[\<lparr>utc = 101000, monotonic = 2000\<rparr>, \<lparr>utc = 103000, monotonic = 2000\<rparr>] :: clock_sample list"
  have v: "settled_sample ?i" "list_all settled_sample ?ss" by (simp_all add: valid_sample_simps)
  have u: "cm_health (foldl cm_step (clock_monitor_new ?i 100) ?ss) = Unhealthy (WallClockJump 2000)"
    by (simp add: cm_step_def cm_observe_def clock_monitor_new_def checked_def Let_def)
  show ?thesis
    using u clock_monitor_latches_and_bounds_drift [OF v, of 100] by simp
qed

subsection \<open>The virtual clock keeps the two timelines together, unless it fails\<close>

text \<open>
  Advancing the virtual clock either moves both timelines by the same amount, or reports
  overflow; and the report of a monotonic overflow comes with UTC already moved, so a failed
  \<open>advance\<close> is not without effect.
\<close>

theorem virtual_advance_outcome:
  assumes "valid_sample s" and "is_u64 n"
  shows "case virtual_advance s n of
      (Inr _, t) \<Rightarrow> utc t = utc s + n \<and> monotonic t = monotonic s + n \<and> valid_sample t
    | (Inl e, t) \<Rightarrow>
        e = ArithmeticOverflow \<and> monotonic t = monotonic s \<and>
        (utc t \<noteq> utc s \<longleftrightarrow>
           n \<noteq> 0 \<and> utc s + n \<le> i64_max \<and> monotonic s + n > u64_max)"
  using assms
  by (auto simp: virtual_advance_def valid_sample_simps checked_def Let_def)

theorem virtual_advance_outcome_witness:
  "virtual_advance \<lparr>utc = 0, monotonic = u64_max\<rparr> 1
     = (Err ArithmeticOverflow, \<lparr>utc = 1, monotonic = u64_max\<rparr>) \<and>
   utc (snd (virtual_advance \<lparr>utc = 0, monotonic = u64_max\<rparr> 1)) \<noteq> 0"
proof -
  have v: "valid_sample \<lparr>utc = 0, monotonic = u64_max\<rparr>" "is_u64 1"
    by (simp_all add: valid_sample_simps)
  have e: "virtual_advance \<lparr>utc = 0, monotonic = u64_max\<rparr> 1
     = (Err ArithmeticOverflow, \<lparr>utc = 1, monotonic = u64_max\<rparr>)"
    by (simp add: virtual_advance_def checked_def Let_def)
  show ?thesis using e virtual_advance_outcome [OF v] by simp
qed

end
