(* ===== verification/SP_Audio.thy ===== *)
theory SP_Audio
  imports SP_Prelude
begin

text \<open>
  \<open>crates/audio/src/lib.rs\<close>: the checked values of the receive-only audio contract (device
  identities, stream configurations, generations, capture positions, timing evidence, capture
  batches, receive windows, input health) and \<open>CaptureSequence\<close>, the validator of batch
  order within one stream generation.  \<open>i16\<close> samples are \<open>int\<close>s in range.
\<close>

section \<open>Bounds and errors\<close>

definition FT8_RECEIVE_SAMPLE_RATE_HZ :: int where "FT8_RECEIVE_SAMPLE_RATE_HZ = 12000"
definition FT8_RECEIVE_WINDOW_SAMPLES :: nat where "FT8_RECEIVE_WINDOW_SAMPLES = 180000"
definition FT8_RECEIVE_SLOT_MILLIS :: int where "FT8_RECEIVE_SLOT_MILLIS = 15000"
definition MAX_CAPTURE_BATCH_FRAMES :: nat where "MAX_CAPTURE_BATCH_FRAMES = 8192"
definition MAX_INPUT_CHANNELS :: int where "MAX_INPUT_CHANNELS = 32"
definition MAX_DEVICE_CONFIGURATIONS :: nat where "MAX_DEVICE_CONFIGURATIONS = 64"
definition MAX_IDENTITY_BYTES :: nat where "MAX_IDENTITY_BYTES = 256"
definition MAX_DISPLAY_NAME_BYTES :: nat where "MAX_DISPLAY_NAME_BYTES = 256"
definition MIN_SAMPLE_RATE_HZ :: int where "MIN_SAMPLE_RATE_HZ = 8000"
definition MAX_SAMPLE_RATE_HZ :: int where "MAX_SAMPLE_RATE_HZ = 384000"
definition MAX_CALLBACK_DELAY_MILLIS :: int where "MAX_CALLBACK_DELAY_MILLIS = 60000"
definition MAX_LATENCY_MILLIS :: int where "MAX_LATENCY_MILLIS = 60000"
definition MAX_DRIFT_PARTS_PER_MILLION :: int where "MAX_DRIFT_PARTS_PER_MILLION = 100000"

lemmas audio_bounds =
  FT8_RECEIVE_SAMPLE_RATE_HZ_def FT8_RECEIVE_WINDOW_SAMPLES_def FT8_RECEIVE_SLOT_MILLIS_def
  MAX_CAPTURE_BATCH_FRAMES_def MAX_INPUT_CHANNELS_def MAX_DEVICE_CONFIGURATIONS_def
  MAX_IDENTITY_BYTES_def MAX_DISPLAY_NAME_BYTES_def MIN_SAMPLE_RATE_HZ_def MAX_SAMPLE_RATE_HZ_def
  MAX_CALLBACK_DELAY_MILLIS_def MAX_LATENCY_MILLIS_def MAX_DRIFT_PARTS_PER_MILLION_def

datatype receive_audio_error =
    InvalidStableIdentity
  | InvalidDisplayMetadata
  | InvalidSampleRate
  | InvalidChannelCount
  | InvalidSelectedChannel
  | InvalidConfigurationCount
  | InvalidGeneration
  | InvalidUtcTimestamp
  | InvalidCallbackDelay
  | InvalidLatency
  | InvalidDrift
  | InvalidBatchShape
  | BatchTooLarge
  | InvalidClippedSampleCount
  | DiscontinuityPositionMismatch
  | PositionOverflow
  | MisalignedFt8Window
  | InvalidFt8WindowSize

section \<open>Devices and configurations\<close>

text \<open>
  \<open>char::is_control\<close> holds of U+0000 to U+001F and of U+007F to U+009F.  In the UTF-8 byte
  sequence of a string the latter block beyond U+007F is the byte \<open>0xC2\<close>, which only ever
  begins a two-byte sequence, followed by a byte from \<open>0x80\<close> to \<open>0x9F\<close>.
\<close>

fun has_control :: "string \<Rightarrow> bool" where
  "has_control [] = False"
| "has_control [c] = is_ascii_control c"
| "has_control (c # d # cs) =
     (is_ascii_control c \<or>
      (byte_val c = 194 \<and> 128 \<le> byte_val d \<and> byte_val d \<le> 159) \<or> has_control (d # cs))"

definition validate_bounded_text :: "string \<Rightarrow> nat \<Rightarrow> (unit, unit) result" where
  "validate_bounded_text value max_bytes =
     (if value = [] \<or> length value > max_bytes \<or> has_control value then Err () else Ok ())"

datatype input_platform = MacOsCoreAudio | WindowsWasapi | LinuxAlsa | LinuxJack

record input_device_identity =
  identity_platform :: input_platform
  opaque_id :: string

definition input_device_identity_new ::
  "input_platform \<Rightarrow> string \<Rightarrow> (receive_audio_error, input_device_identity) result" where
  "input_device_identity_new platform oid =
     (case map_err (\<lambda>_. InvalidStableIdentity) (validate_bounded_text oid MAX_IDENTITY_BYTES) of
        Inl e \<Rightarrow> Err e
      | Inr _ \<Rightarrow> Ok \<lparr>identity_platform = platform, opaque_id = oid\<rparr>)"

record input_device_display =
  display_name :: string
  display_manufacturer :: "string option"

definition input_device_display_new ::
  "string \<Rightarrow> string option \<Rightarrow> (receive_audio_error, input_device_display) result" where
  "input_device_display_new name manufacturer =
     (case validate_bounded_text name MAX_DISPLAY_NAME_BYTES of
        Inl _ \<Rightarrow> Err InvalidDisplayMetadata
      | Inr _ \<Rightarrow>
          (case manufacturer of
             None \<Rightarrow> Ok \<lparr>display_name = name, display_manufacturer = None\<rparr>
           | Some v \<Rightarrow>
               (case validate_bounded_text v MAX_DISPLAY_NAME_BYTES of
                  Inl _ \<Rightarrow> Err InvalidDisplayMetadata
                | Inr _ \<Rightarrow> Ok \<lparr>display_name = name, display_manufacturer = Some v\<rparr>)))"

datatype input_sample_format =
    Signed8 | Signed16 | Signed24 | Signed32 | Signed64
  | Unsigned8 | Unsigned16 | Unsigned24 | Unsigned32 | Unsigned64
  | Float32 | Float64

record input_configuration =
  cfg_sample_rate_hz :: int
  cfg_channels :: int
  cfg_sample_format :: input_sample_format
  cfg_selected_channel :: int

definition input_configuration_new ::
  "int \<Rightarrow> int \<Rightarrow> input_sample_format \<Rightarrow> int \<Rightarrow> (receive_audio_error, input_configuration) result" where
  "input_configuration_new rate channels format selected =
     (if \<not> in_range MIN_SAMPLE_RATE_HZ MAX_SAMPLE_RATE_HZ rate then Err InvalidSampleRate
      else if channels = 0 \<or> channels > MAX_INPUT_CHANNELS then Err InvalidChannelCount
      else if selected \<ge> channels then Err InvalidSelectedChannel
      else Ok \<lparr>cfg_sample_rate_hz = rate, cfg_channels = channels,
               cfg_sample_format = format, cfg_selected_channel = selected\<rparr>)"

record input_configuration_range =
  range_min_sample_rate_hz :: int
  range_max_sample_rate_hz :: int
  range_channels :: int
  range_sample_format :: input_sample_format

definition input_configuration_range_new ::
  "int \<Rightarrow> int \<Rightarrow> int \<Rightarrow> input_sample_format
   \<Rightarrow> (receive_audio_error, input_configuration_range) result" where
  "input_configuration_range_new lo hi channels format =
     (if lo > hi \<or> \<not> in_range MIN_SAMPLE_RATE_HZ MAX_SAMPLE_RATE_HZ lo
         \<or> \<not> in_range MIN_SAMPLE_RATE_HZ MAX_SAMPLE_RATE_HZ hi
      then Err InvalidSampleRate
      else if channels = 0 \<or> channels > MAX_INPUT_CHANNELS then Err InvalidChannelCount
      else Ok \<lparr>range_min_sample_rate_hz = lo, range_max_sample_rate_hz = hi,
               range_channels = channels, range_sample_format = format\<rparr>)"

definition range_select ::
  "input_configuration_range \<Rightarrow> int \<Rightarrow> int \<Rightarrow> (receive_audio_error, input_configuration) result" where
  "range_select r rate selected =
     (if \<not> in_range (range_min_sample_rate_hz r) (range_max_sample_rate_hz r) rate
      then Err InvalidSampleRate
      else input_configuration_new rate (range_channels r) (range_sample_format r) selected)"

record input_device_descriptor =
  descriptor_identity :: input_device_identity
  descriptor_display :: input_device_display
  descriptor_configuration_ranges :: "input_configuration_range list"

definition input_device_descriptor_new ::
  "input_device_identity \<Rightarrow> input_device_display \<Rightarrow> input_configuration_range list
   \<Rightarrow> (receive_audio_error, input_device_descriptor) result" where
  "input_device_descriptor_new identity display ranges =
     (if ranges = [] \<or> length ranges > MAX_DEVICE_CONFIGURATIONS then Err InvalidConfigurationCount
      else Ok \<lparr>descriptor_identity = identity, descriptor_display = display,
               descriptor_configuration_ranges = ranges\<rparr>)"

datatype input_discovery_error =
    HostUnavailable
  | PermissionDenied
  | DeviceDisappeared
  | UnsupportedConfiguration
  | IdentityUnavailable
  | NoInputDevices
  | BackendFailure

section \<open>Generations, positions and timing evidence\<close>

datatype process_generation = ProcessGeneration (process_generation_get: int)
datatype stream_generation = StreamGeneration (stream_generation_get: int)

definition process_generation_new :: "int \<Rightarrow> (receive_audio_error, process_generation) result" where
  "process_generation_new v = (if v = 0 then Err InvalidGeneration else Ok (ProcessGeneration v))"

definition stream_generation_new :: "int \<Rightarrow> (receive_audio_error, stream_generation) result" where
  "stream_generation_new v = (if v = 0 then Err InvalidGeneration else Ok (StreamGeneration v))"

type_synonym capture_position = int

definition checked_advance :: "capture_position \<Rightarrow> int \<Rightarrow> (receive_audio_error, capture_position) result" where
  "checked_advance p frames = ok_or PositionOverflow (checked_u64 (p + frames))"

record capture_time_evidence =
  ev_position :: capture_position
  ev_utc_unix_millis :: int
  ev_monotonic_millis :: int

definition capture_time_evidence_new ::
  "capture_position \<Rightarrow> int \<Rightarrow> int \<Rightarrow> (receive_audio_error, capture_time_evidence) result" where
  "capture_time_evidence_new p utc mono_ms =
     (if utc < 0 then Err InvalidUtcTimestamp
      else Ok \<lparr>ev_position = p, ev_utc_unix_millis = utc, ev_monotonic_millis = mono_ms\<rparr>)"

datatype capture_discontinuity_kind = Overflow | BackendGap | StreamRestart | ClockRemapped

record capture_discontinuity =
  disc_at :: capture_position
  disc_kind :: capture_discontinuity_kind
  disc_dropped_frames :: int

record capture_diagnostics =
  diag_clipped_samples :: int
  diag_callback_delay_millis :: int

definition capture_diagnostics_new :: "int \<Rightarrow> int \<Rightarrow> (receive_audio_error, capture_diagnostics) result" where
  "capture_diagnostics_new clipped delay =
     (if delay > MAX_CALLBACK_DELAY_MILLIS then Err InvalidCallbackDelay
      else Ok \<lparr>diag_clipped_samples = clipped, diag_callback_delay_millis = delay\<rparr>)"

section \<open>Batches and windows\<close>

record capture_batch =
  cb_process_generation :: process_generation
  cb_stream_generation :: stream_generation
  cb_configuration :: input_configuration
  cb_first_frame :: capture_time_evidence
  cb_discontinuity :: "capture_discontinuity option"
  cb_diagnostics :: capture_diagnostics
  cb_samples :: "int list"

definition capture_batch_new ::
  "process_generation \<Rightarrow> stream_generation \<Rightarrow> input_configuration \<Rightarrow> capture_time_evidence
   \<Rightarrow> capture_discontinuity option \<Rightarrow> capture_diagnostics \<Rightarrow> int list
   \<Rightarrow> (receive_audio_error, capture_batch) result" where
  "capture_batch_new pg sg cfg first disc diag samples =
     (if samples = [] then Err InvalidBatchShape
      else if length samples > MAX_CAPTURE_BATCH_FRAMES then Err BatchTooLarge
      else if ev_position first \<noteq> (case disc of None \<Rightarrow> ev_position first | Some v \<Rightarrow> disc_at v)
      then Err DiscontinuityPositionMismatch
      else if diag_clipped_samples diag > int (length samples) then Err InvalidClippedSampleCount
      else Ok \<lparr>cb_process_generation = pg, cb_stream_generation = sg, cb_configuration = cfg,
               cb_first_frame = first, cb_discontinuity = disc, cb_diagnostics = diag,
               cb_samples = samples\<rparr>)"

definition frame_count :: "capture_batch \<Rightarrow> int" where
  "frame_count b =
     (case checked_u32 (int (length (cb_samples b))) of
        None \<Rightarrow> int MAX_CAPTURE_BATCH_FRAMES
      | Some n \<Rightarrow> n)"

definition end_position :: "capture_batch \<Rightarrow> (receive_audio_error, capture_position) result" where
  "end_position b = checked_advance (ev_position (cb_first_frame b)) (frame_count b)"

record ft8_receive_window =
  win_process_generation :: process_generation
  win_stream_generation :: stream_generation
  win_slot_start_utc_millis :: int
  win_mapping :: capture_time_evidence
  win_samples :: "int list"

definition ft8_receive_window_new ::
  "process_generation \<Rightarrow> stream_generation \<Rightarrow> int \<Rightarrow> capture_time_evidence \<Rightarrow> int list
   \<Rightarrow> (receive_audio_error, ft8_receive_window) result" where
  "ft8_receive_window_new pg sg slot_start mapping samples =
     (if slot_start < 0 \<or> slot_start smod FT8_RECEIVE_SLOT_MILLIS \<noteq> 0 then Err MisalignedFt8Window
      else if length samples \<noteq> FT8_RECEIVE_WINDOW_SAMPLES then Err InvalidFt8WindowSize
      else Ok \<lparr>win_process_generation = pg, win_stream_generation = sg,
               win_slot_start_utc_millis = slot_start, win_mapping = mapping,
               win_samples = samples\<rparr>)"

record input_health =
  ih_latency_millis :: int
  ih_drift_parts_per_million :: int
  ih_overflow_count :: int
  ih_clipped_sample_count :: int
  ih_max_callback_delay_millis :: int

definition input_health_new ::
  "int \<Rightarrow> int \<Rightarrow> int \<Rightarrow> int \<Rightarrow> int \<Rightarrow> (receive_audio_error, input_health) result" where
  "input_health_new latency drift overflows clipped delay =
     (if latency > MAX_LATENCY_MILLIS then Err InvalidLatency
      else if drift < - MAX_DRIFT_PARTS_PER_MILLION \<or> drift > MAX_DRIFT_PARTS_PER_MILLION
      then Err InvalidDrift
      else if delay > MAX_CALLBACK_DELAY_MILLIS then Err InvalidCallbackDelay
      else Ok \<lparr>ih_latency_millis = latency, ih_drift_parts_per_million = drift,
               ih_overflow_count = overflows, ih_clipped_sample_count = clipped,
               ih_max_callback_delay_millis = delay\<rparr>)"

datatype input_fault_kind =
    FaultPermissionDenied
  | FaultDeviceLost
  | FaultOverflow int
  | FaultDiscontinuity capture_discontinuity_kind
  | FaultClipping int
  | FaultDrift int
  | FaultCallbackDelay int
  | FaultBackendFailure

record input_fault =
  fault_process_generation :: process_generation
  fault_stream_generation :: "stream_generation option"
  fault_monotonic_millis :: int
  fault_kind :: input_fault_kind

section \<open>The capture sequence validator\<close>

datatype capture_sequence_error =
    GenerationChanged
  | PositionRegressed
  | UnmarkedGap
  | MonotonicRegressed
  | SequencePositionOverflow

record capture_sequence =
  seq_process_generation :: process_generation
  seq_stream_generation :: stream_generation
  seq_next_position :: capture_position
  seq_last_monotonic_millis :: int

definition seq_start :: "capture_batch \<Rightarrow> (capture_sequence_error, capture_sequence) result" where
  "seq_start first =
     (case end_position first of
        Inl _ \<Rightarrow> Err SequencePositionOverflow
      | Inr p \<Rightarrow> Ok \<lparr>seq_process_generation = cb_process_generation first,
                  seq_stream_generation = cb_stream_generation first,
                  seq_next_position = p,
                  seq_last_monotonic_millis = ev_monotonic_millis (cb_first_frame first)\<rparr>)"

definition seq_observe ::
  "capture_sequence \<Rightarrow> capture_batch \<Rightarrow> (capture_sequence_error, unit) result \<times> capture_sequence" where
  "seq_observe s batch =
     (if cb_process_generation batch \<noteq> seq_process_generation s
         \<or> cb_stream_generation batch \<noteq> seq_stream_generation s
      then (Err GenerationChanged, s)
      else if ev_position (cb_first_frame batch) < seq_next_position s
      then (Err PositionRegressed, s)
      else if ev_position (cb_first_frame batch) > seq_next_position s \<and> cb_discontinuity batch = None
      then (Err UnmarkedGap, s)
      else if ev_monotonic_millis (cb_first_frame batch) < seq_last_monotonic_millis s
      then (Err MonotonicRegressed, s)
      else (case end_position batch of
              Inl _ \<Rightarrow> (Err SequencePositionOverflow, s)
            | Inr p \<Rightarrow>
                (Ok (), s\<lparr>seq_next_position := p,
                         seq_last_monotonic_millis := ev_monotonic_millis (cb_first_frame batch)\<rparr>)))"

text \<open>The batches a client passes after the first one, all of them accepted.\<close>

fun seq_accepts :: "capture_sequence \<Rightarrow> capture_batch list \<Rightarrow> bool" where
  "seq_accepts s [] = True"
| "seq_accepts s (b # bs) =
     (case seq_observe s b of (Inr _, s') \<Rightarrow> seq_accepts s' bs | (Inl _, _) \<Rightarrow> False)"

fun sequence_accepts :: "capture_batch list \<Rightarrow> bool" where
  "sequence_accepts [] = True"
| "sequence_accepts (b # bs) =
     (case seq_start b of Inr s \<Rightarrow> seq_accepts s bs | Inl _ \<Rightarrow> False)"

section \<open>Lemmas\<close>

subsection \<open>The checked constructors\<close>

interpretation process_generation_value:
  checked_value process_generation_new process_generation_get "\<lambda>v. v \<noteq> 0"
  by unfold_locales (auto simp: process_generation_new_def split: if_splits)

interpretation stream_generation_value:
  checked_value stream_generation_new stream_generation_get "\<lambda>v. v \<noteq> 0"
  by unfold_locales (auto simp: stream_generation_new_def split: if_splits)

definition valid_configuration :: "input_configuration \<Rightarrow> bool" where
  "valid_configuration c \<longleftrightarrow>
     8000 \<le> cfg_sample_rate_hz c \<and> cfg_sample_rate_hz c \<le> 384000 \<and>
     1 \<le> cfg_channels c \<and> cfg_channels c \<le> 32 \<and>
     0 \<le> cfg_selected_channel c \<and> cfg_selected_channel c < cfg_channels c"

lemma input_configuration_new_Ok:
  assumes "0 \<le> channels" "0 \<le> selected"
  shows "input_configuration_new rate channels format selected = Ok c \<longleftrightarrow>
    c = \<lparr>cfg_sample_rate_hz = rate, cfg_channels = channels,
         cfg_sample_format = format, cfg_selected_channel = selected\<rparr> \<and> valid_configuration c"
  using assms
  by (auto simp: input_configuration_new_def valid_configuration_def in_range_def audio_bounds)

lemma range_select_within:
  assumes "range_select r rate selected = Ok c"
  shows "cfg_sample_rate_hz c = rate \<and> range_min_sample_rate_hz r \<le> rate \<and>
    rate \<le> range_max_sample_rate_hz r \<and> cfg_channels c = range_channels r \<and>
    cfg_selected_channel c = selected \<and> selected < range_channels r"
  using assms
  by (auto simp: range_select_def input_configuration_new_def in_range_def split: if_splits)

text \<open>The invariant of the values \<open>CaptureBatch::new\<close> returns.\<close>

definition valid_batch :: "capture_batch \<Rightarrow> bool" where
  "valid_batch b \<longleftrightarrow>
     cb_samples b \<noteq> [] \<and> length (cb_samples b) \<le> 8192 \<and>
     (\<forall>d. cb_discontinuity b = Some d \<longrightarrow> disc_at d = ev_position (cb_first_frame b)) \<and>
     diag_clipped_samples (cb_diagnostics b) \<le> int (length (cb_samples b))"

lemma capture_batch_new_valid:
  assumes "capture_batch_new pg sg cfg first disc diag samples = Ok b"
  shows "valid_batch b \<and> cb_samples b = samples \<and> cb_first_frame b = first"
  using assms
  by (auto simp: capture_batch_new_def valid_batch_def audio_bounds split: if_splits option.splits)

lemma frame_count_nonneg [simp]: "0 \<le> frame_count b"
  by (auto simp: frame_count_def split: option.splits)

lemma frame_count_valid: "valid_batch b \<Longrightarrow> frame_count b = int (length (cb_samples b))"
  by (auto simp: frame_count_def valid_batch_def split: option.splits)

lemma frame_count_valid_pos: "valid_batch b \<Longrightarrow> 1 \<le> frame_count b"
  by (cases "cb_samples b") (auto simp: frame_count_valid valid_batch_def)

lemma end_position_Ok [simp]:
  "end_position b = Inr p \<longleftrightarrow>
     p = ev_position (cb_first_frame b) + frame_count b \<and> 0 \<le> p \<and> p \<le> u64_max"
  by (auto simp: end_position_def checked_advance_def)

lemma ft8_receive_window_new_Ok:
  "ft8_receive_window_new pg sg t m xs = Ok w \<longleftrightarrow>
     0 \<le> t \<and> t mod 15000 = 0 \<and> length xs = 180000 \<and>
     w = \<lparr>win_process_generation = pg, win_stream_generation = sg,
          win_slot_start_utc_millis = t, win_mapping = m, win_samples = xs\<rparr>"
  by (auto simp: ft8_receive_window_new_def audio_bounds)

subsection \<open>Accepted capture sequences\<close>

text \<open>\<open>batch_before a b\<close>: \<open>b\<close> follows \<open>a\<close> in the same stream without overlap.\<close>

definition batch_before :: "capture_batch \<Rightarrow> capture_batch \<Rightarrow> bool" where
  "batch_before a b \<longleftrightarrow>
     cb_process_generation a = cb_process_generation b \<and>
     cb_stream_generation a = cb_stream_generation b \<and>
     ev_position (cb_first_frame a) + frame_count a \<le> ev_position (cb_first_frame b) \<and>
     ev_monotonic_millis (cb_first_frame a) \<le> ev_monotonic_millis (cb_first_frame b)"

definition gap_marked :: "capture_batch \<Rightarrow> capture_batch \<Rightarrow> bool" where
  "gap_marked a b \<longleftrightarrow>
     cb_discontinuity b \<noteq> None \<or>
     ev_position (cb_first_frame b) = ev_position (cb_first_frame a) + frame_count a"

lemma batch_before_trans:
  assumes "batch_before a b" "batch_before b c" shows "batch_before a c"
  using assms frame_count_nonneg [of b] unfolding batch_before_def
  by (metis add_increasing2 order_trans)

text \<open>What the validator's state records of the last accepted batch.\<close>

definition seq_after :: "capture_sequence \<Rightarrow> capture_batch \<Rightarrow> bool" where
  "seq_after s b \<longleftrightarrow>
     seq_process_generation s = cb_process_generation b \<and>
     seq_stream_generation s = cb_stream_generation b \<and>
     seq_next_position s = ev_position (cb_first_frame b) + frame_count b \<and>
     seq_last_monotonic_millis s = ev_monotonic_millis (cb_first_frame b)"

lemma seq_start_after: "seq_start b = Ok s \<Longrightarrow> seq_after s b"
  by (auto simp: seq_start_def seq_after_def split: sum.splits)

lemma seq_observe_after:
  assumes "seq_observe s b = (Ok u, s')" "seq_after s a"
  shows "seq_after s' b \<and> batch_before a b \<and> gap_marked a b"
  using assms
  by (auto simp: seq_observe_def seq_after_def batch_before_def gap_marked_def
      split: if_splits sum.splits)

lemma seq_accepts_chain:
  assumes "seq_accepts s bs" "seq_after s a"
  shows "successively batch_before (a # bs) \<and> successively gap_marked (a # bs)"
  using assms
proof (induction bs arbitrary: s a)
  case Nil
  then show ?case by simp
next
  case (Cons b bs)
  obtain s' u where o: "seq_observe s b = (Inr u, s')" "seq_accepts s' bs"
    using Cons.prems(1) by (auto split: prod.splits sum.splits)
  then show ?case
    using Cons.IH [of s' b] seq_observe_after [OF o(1) Cons.prems(2)] by simp
qed

lemma successively_trans:
  assumes "\<And>x y z. P x y \<Longrightarrow> P y z \<Longrightarrow> P x z"
  shows "successively P xs = sorted_wrt P xs"
  using assms by (simp add: successively_conv_sorted_wrt transpI)

text \<open>
  A list of batches accepted by \<open>CaptureSequence\<close> belongs to one process and stream
  generation, any earlier batch ends at or before the start of any later one, monotonic
  readings never decrease, and between neighbours frames are missing only where the later batch
  carries an explicit discontinuity.
\<close>

theorem capture_sequence_accepts_ordered_batches:
  assumes "sequence_accepts bs"
  shows "sorted_wrt batch_before bs \<and> successively gap_marked bs"
proof (cases bs)
  case Nil
  then show ?thesis by simp
next
  case (Cons b cs)
  obtain s where s: "seq_start b = Inr s" "seq_accepts s cs"
    using assms Cons by (auto split: sum.splits)
  have "successively batch_before bs \<and> successively gap_marked bs"
    using seq_accepts_chain [OF s(2) seq_start_after [OF s(1)]] Cons by simp
  then show ?thesis
    using successively_trans [of batch_before bs] batch_before_trans by blast
qed

definition sample_batch :: "int \<Rightarrow> int \<Rightarrow> capture_discontinuity option \<Rightarrow> int list \<Rightarrow> capture_batch" where
  "sample_batch p mono_ms disc xs =
     \<lparr>cb_process_generation = ProcessGeneration 1, cb_stream_generation = StreamGeneration 1,
      cb_configuration = \<lparr>cfg_sample_rate_hz = 12000, cfg_channels = 1,
                          cfg_sample_format = Float32, cfg_selected_channel = 0\<rparr>,
      cb_first_frame = \<lparr>ev_position = p, ev_utc_unix_millis = 30000 + mono_ms,
                         ev_monotonic_millis = mono_ms\<rparr>,
      cb_discontinuity = disc,
      cb_diagnostics = \<lparr>diag_clipped_samples = 0, diag_callback_delay_millis = 0\<rparr>,
      cb_samples = xs\<rparr>"

theorem capture_sequence_accepts_ordered_batches_witness:
  "sequence_accepts [sample_batch 0 5 None [1, 2, 3], sample_batch 3 6 None [4],
     sample_batch 10 7 (Some \<lparr>disc_at = 10, disc_kind = Overflow, disc_dropped_frames = 6\<rparr>) [5]] \<and>
   batch_before (sample_batch 0 5 None [1, 2, 3])
     (sample_batch 10 7 (Some \<lparr>disc_at = 10, disc_kind = Overflow, disc_dropped_frames = 6\<rparr>) [5])"
proof -
  let ?c = "sample_batch 10 7 (Some \<lparr>disc_at = 10, disc_kind = Overflow, disc_dropped_frames = 6\<rparr>) [5]"
  have a: "sequence_accepts [sample_batch 0 5 None [1, 2, 3], sample_batch 3 6 None [4], ?c]"
    by (simp add: seq_start_def seq_observe_def sample_batch_def end_position_def
        checked_advance_def frame_count_def checked_def)
  show ?thesis using a capture_sequence_accepts_ordered_batches [OF a] by simp
qed

end
