(* ===== verification/SP_Resampler.thy ===== *)
theory SP_Resampler
  imports SP_Audio
begin

text \<open>
  \<open>crates/audio/src/timeline.rs\<close>, lower half: the values of the receive timeline, the window
  accumulator and the \<open>RationalResampler\<close>, which turns a contiguous source stream into 12 kHz
  output by linear interpolation and collects it into UTC-aligned windows of 180000 samples.

  Ticks are counts of 12 kHz output samples since the Unix epoch (\<open>i128\<close> in the source).  The
  resampler's loop is a recursive function whose termination is proved from the checked
  increment of \<open>next_output_tick\<close>.  Every operation on \<open>&mut self\<close> returns the state left
  behind also when it returns an error.  Unchecked \<open>i128\<close> and \<open>i64\<close> additions of the source are
  written as integer arithmetic: on non-negative UTC evidence their operands are bounded by
  products of \<open>u64\<close> and \<open>u32\<close> values, far inside the representable range.
\<close>

section \<open>Values\<close>

definition MAX_RECEIVE_BATCH_LATENESS_MILLIS :: int where "MAX_RECEIVE_BATCH_LATENESS_MILLIS = 2000"
definition MAX_RECEIVE_JITTER_MILLIS :: int where "MAX_RECEIVE_JITTER_MILLIS = 50"
definition MAX_RECEIVE_CLOCK_REMAP_MILLIS :: int where "MAX_RECEIVE_CLOCK_REMAP_MILLIS = 20"
definition MAX_RECEIVE_DRIFT_PARTS_PER_MILLION :: int where
  "MAX_RECEIVE_DRIFT_PARTS_PER_MILLION = 5000"
definition OUTPUT_TICKS_PER_MILLISECOND :: int where
  "OUTPUT_TICKS_PER_MILLISECOND = FT8_RECEIVE_SAMPLE_RATE_HZ div 1000"
definition OUTPUT_TICKS_PER_SLOT :: int where
  "OUTPUT_TICKS_PER_SLOT = int FT8_RECEIVE_WINDOW_SAMPLES"

lemmas timeline_bounds =
  MAX_RECEIVE_BATCH_LATENESS_MILLIS_def MAX_RECEIVE_JITTER_MILLIS_def
  MAX_RECEIVE_CLOCK_REMAP_MILLIS_def MAX_RECEIVE_DRIFT_PARTS_PER_MILLION_def

lemma ticks_per_millisecond [simp]: "OUTPUT_TICKS_PER_MILLISECOND = 12"
  by (simp add: OUTPUT_TICKS_PER_MILLISECOND_def audio_bounds)

lemma ticks_per_slot [simp]: "OUTPUT_TICKS_PER_SLOT = 180000"
  by (simp add: OUTPUT_TICKS_PER_SLOT_def audio_bounds)

datatype receive_timeline_error =
    InvalidSlot
  | ProcessGenerationChanged
  | StreamGenerationChanged
  | ConfigurationChanged
  | OutOfOrder
  | Overlap int
  | Gap int
  | Discontinuity capture_discontinuity_kind
  | MonotonicRegression
  | ExcessiveJitter int
  | TimelineClockRemapped int
  | ExcessiveDrift int
  | LateData int
  | TimelineArithmeticOverflow

datatype ft8_receive_slot = Ft8ReceiveSlot (start_utc_unix_millis: int)

definition ft8_receive_slot_new :: "int \<Rightarrow> (receive_timeline_error, ft8_receive_slot) result" where
  "ft8_receive_slot_new t =
     (if t < 0 \<or> t smod FT8_RECEIVE_SLOT_MILLIS \<noteq> 0 then Err InvalidSlot else Ok (Ft8ReceiveSlot t))"

definition window_slot :: "ft8_receive_window \<Rightarrow> ft8_receive_slot" where
  "window_slot w = Ft8ReceiveSlot (win_slot_start_utc_millis w)"

datatype incomplete_slot_reason = CaptureStartedLate | TimelineInvalidated

record incomplete_ft8_slot =
  inc_slot :: ft8_receive_slot
  inc_reason :: incomplete_slot_reason
  inc_accumulated_samples :: int

datatype receive_timeline_event =
    Window ft8_receive_window
  | Incomplete incomplete_ft8_slot

record receive_timeline_health =
  th_max_jitter_millis :: int
  th_drift_parts_per_million :: int
  th_incomplete_slot_count :: int
  th_late_batch_count :: int

section \<open>Window accumulation\<close>

record window_accumulator =
  wa_slot_tick :: int
  wa_slot :: ft8_receive_slot
  wa_first_tick :: int
  wa_mapping :: capture_time_evidence
  wa_samples :: "int list"

definition window_accumulator_new ::
  "int \<Rightarrow> int \<Rightarrow> capture_time_evidence \<Rightarrow> (receive_timeline_error, window_accumulator) result" where
  "window_accumulator_new slot_tick first_tick mapping =
     (case checked_i64 (slot_tick sdiv OUTPUT_TICKS_PER_MILLISECOND) of
        None \<Rightarrow> Err TimelineArithmeticOverflow
      | Some slot_ms \<Rightarrow>
          (case ft8_receive_slot_new slot_ms of
             Inl e \<Rightarrow> Err e
           | Inr slot \<Rightarrow> Ok \<lparr>wa_slot_tick = slot_tick, wa_slot = slot, wa_first_tick = first_tick,
                            wa_mapping = mapping, wa_samples = []\<rparr>))"

definition incomplete_event ::
  "window_accumulator \<Rightarrow> (receive_timeline_error, receive_timeline_event option) result" where
  "incomplete_event a =
     (if wa_samples a = [] then Ok None
      else (case checked_u32 (int (length (wa_samples a))) of
              None \<Rightarrow> Err TimelineArithmeticOverflow
            | Some n \<Rightarrow>
                Ok (Some (Incomplete
                  \<lparr>inc_slot = wa_slot a,
                   inc_reason = (if wa_first_tick a = wa_slot_tick a then TimelineInvalidated
                                 else CaptureStartedLate),
                   inc_accumulated_samples = n\<rparr>))))"

definition interpolate :: "int \<Rightarrow> int \<Rightarrow> int \<Rightarrow> int \<Rightarrow> (receive_timeline_error, int) result" where
  "interpolate previous current numerator denominator =
     (if denominator \<le> 0 \<or> numerator < 0 \<or> numerator > denominator
      then Err TimelineArithmeticOverflow
      else let difference = current - previous in
        case checked_i128 (difference * numerator) of
          None \<Rightarrow> Err TimelineArithmeticOverflow
        | Some adjustment \<Rightarrow>
            let rounded = (if adjustment \<ge> 0 then adjustment + denominator sdiv 2
                           else adjustment - denominator sdiv 2) sdiv denominator
            in ok_or TimelineArithmeticOverflow (checked_i16 (previous + rounded)))"

section \<open>The rational resampler\<close>

record rational_resampler =
  rs_anchor :: capture_time_evidence
  rs_source_rate_hz :: int
  rs_process_generation :: process_generation
  rs_stream_generation :: stream_generation
  rs_next_output_tick :: int
  rs_previous :: "(int \<times> int) option"
  rs_active :: "window_accumulator option"

definition rational_resampler_new ::
  "capture_time_evidence \<Rightarrow> int \<Rightarrow> process_generation \<Rightarrow> stream_generation
   \<Rightarrow> (receive_timeline_error, rational_resampler) result" where
  "rational_resampler_new anchor rate pg sg =
     (case checked_i128 (ev_utc_unix_millis anchor * OUTPUT_TICKS_PER_MILLISECOND) of
        None \<Rightarrow> Err TimelineArithmeticOverflow
      | Some tick \<Rightarrow>
          Ok \<lparr>rs_anchor = anchor, rs_source_rate_hz = rate, rs_process_generation = pg,
              rs_stream_generation = sg, rs_next_output_tick = tick,
              rs_previous = None, rs_active = None\<rparr>)"

text \<open>
  \<open>unsigned_abs\<close> of an \<open>i64\<close> delta is added to or subtracted from a \<open>u64\<close> with a check; both
  branches are the signed sum with the \<open>u64\<close> range check.
\<close>

definition checked_offset_u64 :: "int \<Rightarrow> int \<Rightarrow> int option" where
  "checked_offset_u64 base delta =
     (if delta \<ge> 0 then checked_u64 (base + \<bar>delta\<bar>) else checked_u64 (base - \<bar>delta\<bar>))"

definition mapping_for_tick ::
  "rational_resampler \<Rightarrow> int \<Rightarrow> (receive_timeline_error, capture_time_evidence) result" where
  "mapping_for_tick r slot_tick =
     (let anchor = rs_anchor r in
      case Option.bind
             (Option.bind (checked_i128 (ev_utc_unix_millis anchor * OUTPUT_TICKS_PER_MILLISECOND))
                (\<lambda>anchor_tick. checked_i128 (slot_tick - anchor_tick)))
             (\<lambda>tick_delta. map_option (\<lambda>v. v sdiv FT8_RECEIVE_SAMPLE_RATE_HZ)
                             (checked_i128 (tick_delta * rs_source_rate_hz r))) of
        None \<Rightarrow> Err TimelineArithmeticOverflow
      | Some source_delta' \<Rightarrow>
          (case checked_i64 source_delta' of
             None \<Rightarrow> Err TimelineArithmeticOverflow
           | Some source_delta \<Rightarrow>
               (case checked_offset_u64 (ev_position anchor) source_delta of
                  None \<Rightarrow> Ok anchor
                | Some source_position \<Rightarrow>
                    (case checked_i64 (slot_tick sdiv OUTPUT_TICKS_PER_MILLISECOND) of
                       None \<Rightarrow> Err TimelineArithmeticOverflow
                     | Some slot_ms \<Rightarrow>
                         (case checked_offset_u64 (ev_monotonic_millis anchor)
                                 (slot_ms - ev_utc_unix_millis anchor) of
                            None \<Rightarrow> Err TimelineArithmeticOverflow
                          | Some mono_ms \<Rightarrow>
                              map_err (\<lambda>_. TimelineArithmeticOverflow)
                                (capture_time_evidence_new source_position slot_ms mono_ms))))))"

definition discard_active ::
  "rational_resampler \<Rightarrow> incomplete_ft8_slot option \<times> rational_resampler" where
  "discard_active r =
     (case rs_active r of
        None \<Rightarrow> (None, r)
      | Some a \<Rightarrow>
          ((if wa_samples a = [] then None
            else Some \<lparr>inc_slot = wa_slot a, inc_reason = TimelineInvalidated,
                       inc_accumulated_samples =
                         (case checked_u32 (int (length (wa_samples a))) of
                            None \<Rightarrow> u32_max | Some n \<Rightarrow> n)\<rparr>),
           r\<lparr>rs_active := None\<rparr>))"

type_synonym resampler_outcome =
  "(receive_timeline_error, unit) result \<times> rational_resampler \<times> receive_timeline_event list"

text \<open>The first half of \<open>push_output\<close>: open the accumulator of the slot of the next tick.\<close>

definition open_active :: "rational_resampler \<Rightarrow> receive_timeline_event list \<Rightarrow> resampler_outcome" where
  "open_active r events =
     (let slot_tick = rs_next_output_tick r div OUTPUT_TICKS_PER_SLOT * OUTPUT_TICKS_PER_SLOT in
      if (case rs_active r of None \<Rightarrow> True | Some a \<Rightarrow> wa_slot_tick a \<noteq> slot_tick) then
        let r1 = r\<lparr>rs_active := None\<rparr> in
        case (case rs_active r of None \<Rightarrow> Ok None | Some previous \<Rightarrow> incomplete_event previous) of
          Inl e \<Rightarrow> (Err e, r1, events)
        | Inr ev \<Rightarrow>
            let events1 = events @ (case ev of None \<Rightarrow> [] | Some event \<Rightarrow> [event]) in
            (case mapping_for_tick r1 slot_tick of
               Inl e \<Rightarrow> (Err e, r1, events1)
             | Inr mapping \<Rightarrow>
                 (case window_accumulator_new slot_tick (rs_next_output_tick r) mapping of
                    Inl e \<Rightarrow> (Err e, r1, events1)
                  | Inr a \<Rightarrow> (Ok (), r1\<lparr>rs_active := Some a\<rparr>, events1)))
      else (Ok (), r, events))"

definition push_output ::
  "rational_resampler \<Rightarrow> int \<Rightarrow> receive_timeline_event list \<Rightarrow> resampler_outcome" where
  "push_output r sample events =
     (case open_active r events of
        (Inl e, r1, events1) \<Rightarrow> (Err e, r1, events1)
      | (Inr _, r1, events1) \<Rightarrow>
          (case rs_active r1 of
             None \<Rightarrow> (Err TimelineArithmeticOverflow, r1, events1)
           | Some a \<Rightarrow>
               let active = a\<lparr>wa_samples := wa_samples a @ [sample]\<rparr> in
               if length (wa_samples active) = FT8_RECEIVE_WINDOW_SAMPLES then
                 let r2 = r1\<lparr>rs_active := None\<rparr> in
                 (case ft8_receive_window_new (rs_process_generation r2) (rs_stream_generation r2)
                         (start_utc_unix_millis (wa_slot active)) (wa_mapping active)
                         (wa_samples active) of
                    Inl _ \<Rightarrow> (Err TimelineArithmeticOverflow, r2, events1)
                  | Inr w \<Rightarrow> (Ok (), r2, events1 @ [Window w]))
               else (Ok (), r1\<lparr>rs_active := Some active\<rparr>, events1)))"

lemma open_active_keeps:
  assumes "open_active r events = (res, r', events')"
  shows "rs_next_output_tick r' = rs_next_output_tick r \<and> rs_anchor r' = rs_anchor r \<and>
    rs_source_rate_hz r' = rs_source_rate_hz r \<and> rs_previous r' = rs_previous r \<and>
    rs_process_generation r' = rs_process_generation r \<and>
    rs_stream_generation r' = rs_stream_generation r"
  using assms by (auto simp: open_active_def Let_def split: if_splits sum.splits option.splits)

lemma push_output_keeps:
  assumes "push_output r sample events = (res, r', events')"
  shows "rs_next_output_tick r' = rs_next_output_tick r \<and> rs_anchor r' = rs_anchor r \<and>
    rs_source_rate_hz r' = rs_source_rate_hz r \<and> rs_previous r' = rs_previous r \<and>
    rs_process_generation r' = rs_process_generation r \<and>
    rs_stream_generation r' = rs_stream_generation r"
proof -
  obtain res1 r1 events1 where o: "open_active r events = (res1, r1, events1)"
    by (metis prod_cases3)
  show ?thesis
    using assms open_active_keeps [OF o]
    by (auto simp: push_output_def o Let_def split: if_splits sum.splits option.splits)
qed

text \<open>
  The sample one iteration of the loop of \<open>push_sample\<close> emits for the next tick: \<open>None\<close> when
  the tick lies beyond the current source sample (the \<open>break\<close>).
\<close>

definition loop_target ::
  "rational_resampler \<Rightarrow> int \<Rightarrow> int \<Rightarrow> int \<Rightarrow> (receive_timeline_error, int option) result" where
  "loop_target r position_delta sample current_source_tick =
     (case Option.bind
             (Option.bind
                (checked_i128 (ev_utc_unix_millis (rs_anchor r) * OUTPUT_TICKS_PER_MILLISECOND))
                (\<lambda>anchor_tick. checked_i128 (rs_next_output_tick r - anchor_tick)))
             (\<lambda>target_from_anchor. checked_i128 (target_from_anchor * rs_source_rate_hz r)) of
        None \<Rightarrow> Err TimelineArithmeticOverflow
      | Some target_source_tick \<Rightarrow>
          if target_source_tick > current_source_tick then Ok None
          else (case rs_previous r of
                  None \<Rightarrow> Err TimelineArithmeticOverflow
                | Some (previous_position, previous_sample) \<Rightarrow>
                    (case checked_i128 (previous_position * FT8_RECEIVE_SAMPLE_RATE_HZ) of
                       None \<Rightarrow> Err TimelineArithmeticOverflow
                     | Some previous_source_tick \<Rightarrow>
                         if target_source_tick < previous_source_tick then Err OutOfOrder
                         else if position_delta = previous_position then Ok (Some previous_sample)
                         else map_ok Some (interpolate previous_sample sample
                                (target_source_tick - previous_source_tick)
                                (current_source_tick - previous_source_tick)))))"

function push_loop ::
  "rational_resampler \<Rightarrow> int \<Rightarrow> int \<Rightarrow> int \<Rightarrow> receive_timeline_event list \<Rightarrow> resampler_outcome" where
  "push_loop r position_delta sample current_source_tick events =
     (case loop_target r position_delta sample current_source_tick of
        Inl e \<Rightarrow> (Err e, r, events)
      | Inr None \<Rightarrow> (Ok (), r, events)
      | Inr (Some interpolated) \<Rightarrow>
          (case push_output r interpolated events of
             (Inl e, r1, events1) \<Rightarrow> (Err e, r1, events1)
           | (Inr _, r1, events1) \<Rightarrow>
               (case checked_i128 (rs_next_output_tick r1 + 1) of
                  None \<Rightarrow> (Err TimelineArithmeticOverflow, r1, events1)
                | Some next \<Rightarrow>
                    push_loop (r1\<lparr>rs_next_output_tick := next\<rparr>) position_delta sample
                      current_source_tick events1)))"
  by pat_completeness auto

termination
proof (relation "measure (\<lambda>(r, _). nat (i128_max + 1 - rs_next_output_tick r))", goal_cases)
  case prems: 2
  then show ?case by (auto dest!: push_output_keeps [OF sym])
qed auto

declare push_loop.simps [simp del]

definition push_sample ::
  "rational_resampler \<Rightarrow> int \<Rightarrow> int \<Rightarrow> receive_timeline_event list \<Rightarrow> resampler_outcome" where
  "push_sample r position sample events =
     (case checked_u64 (position - ev_position (rs_anchor r)) of
        None \<Rightarrow> (Err OutOfOrder, r, events)
      | Some position_delta \<Rightarrow>
          let r1 = (if rs_previous r = None then r\<lparr>rs_previous := Some (position_delta, sample)\<rparr>
                    else r) in
          (case checked_i128 (position_delta * FT8_RECEIVE_SAMPLE_RATE_HZ) of
             None \<Rightarrow> (Err TimelineArithmeticOverflow, r1, events)
           | Some current_source_tick \<Rightarrow>
               (case push_loop r1 position_delta sample current_source_tick events of
                  (Inl e, r2, events2) \<Rightarrow> (Err e, r2, events2)
                | (Inr _, r2, events2) \<Rightarrow>
                    (Ok (), r2\<lparr>rs_previous := Some (position_delta, sample)\<rparr>, events2))))"

fun push_samples ::
  "rational_resampler \<Rightarrow> int \<Rightarrow> int \<Rightarrow> int list \<Rightarrow> receive_timeline_event list \<Rightarrow> resampler_outcome" where
  "push_samples r first_position index [] events = (Ok (), r, events)"
| "push_samples r first_position index (sample # rest) events =
     (case checked_u64 (first_position + index) of
        None \<Rightarrow> (Err TimelineArithmeticOverflow, r, events)
      | Some position \<Rightarrow>
          (case push_sample r position sample events of
             (Inl e, r1, events1) \<Rightarrow> (Err e, r1, events1)
           | (Inr _, r1, events1) \<Rightarrow> push_samples r1 first_position (index + 1) rest events1))"

definition resampler_push ::
  "rational_resampler \<Rightarrow> capture_batch
   \<Rightarrow> (receive_timeline_error, receive_timeline_event list) result \<times> rational_resampler" where
  "resampler_push r batch =
     (case push_samples r (ev_position (cb_first_frame batch)) 0 (cb_samples batch) [] of
        (Inl e, r1, _) \<Rightarrow> (Err e, r1)
      | (Inr _, r1, events) \<Rightarrow> (Ok events, r1))"

end
