(* ===== verification/SP_Resampler_Exact.thy ===== *)
theory SP_Resampler_Exact
  imports SP_Resampler
begin

text \<open>
  What the resampler of \<open>SP_Resampler\<close> computes: the interpolation formula, the invariant that
  relates accumulator and emitted events to the source signal (\<open>resampled\<close>), independence of
  the batch boundaries, and the absence of errors on realistic timing evidence.
\<close>

section \<open>Interpolation\<close>

text \<open>The rounded linear interpolation in closed form: half away from zero.\<close>

definition lerp :: "int \<Rightarrow> int \<Rightarrow> int \<Rightarrow> int \<Rightarrow> int" where
  "lerp a b n d =
     (if a \<le> b then a + ((b - a) * n + d div 2) div d else a - ((a - b) * n + d div 2) div d)"

lemma rounded_quotient_bounds:
  assumes "0 < d" "0 \<le> n" "n \<le> d" "0 \<le> (c::int)"
  shows "0 \<le> (c * n + d div 2) div d \<and> (c * n + d div 2) div d \<le> c"
proof
  have "0 \<le> c * n + d div 2" using assms by simp
  then show "0 \<le> (c * n + d div 2) div d" using assms by (simp add: pos_imp_zdiv_nonneg_iff)
  have "c * n \<le> c * d" using assms by (simp add: mult_left_mono)
  then have "c * n + d div 2 < (c + 1) * d"
    using assms by (simp add: distrib_right)
  moreover have "(c * n + d div 2) div d * d \<le> c * n + d div 2"
    using assms by (metis add_le_cancel_left add.right_neutral div_mult_mod_eq pos_mod_sign)
  ultimately have "(c * n + d div 2) div d * d < (c + 1) * d" by linarith
  then show "(c * n + d div 2) div d \<le> c"
    using assms by (simp add: mult_less_cancel_right)
qed

lemma lerp_between:
  assumes "0 < d" "0 \<le> n" "n \<le> d"
  shows "min a b \<le> lerp a b n d \<and> lerp a b n d \<le> max a b"
  using rounded_quotient_bounds [OF assms, of "b - a"] rounded_quotient_bounds [OF assms, of "a - b"]
  by (auto simp: lerp_def)

lemma lerp_ends:
  assumes "0 < d"
  shows "lerp a b 0 d = a" and "lerp a b d d = b"
proof -
  have h: "d div 2 div d = 0" using assms by (simp add: div_pos_pos_trivial)
  then show "lerp a b 0 d = a" by (simp add: lerp_def)
  show "lerp a b d d = b" using assms h by (simp add: lerp_def)
qed

lemma interpolate_lerp:
  assumes "is_i16 a" "is_i16 b" "0 < d" "0 \<le> n" "n \<le> d" "d \<le> u64_max"
  shows "interpolate a b n d = Ok (lerp a b n d)"
proof -
  have ab: "\<bar>b - a\<bar> \<le> 65535" using assms by (auto simp: in_range_def)
  have "\<bar>(b - a) * n\<bar> \<le> 65535 * u64_max"
    unfolding abs_mult using assms ab by (intro mult_mono) auto
  then have c: "checked_i128 ((b - a) * n) = Some ((b - a) * n)" by (auto simp: checked_def)
  have l: "checked_i16 (lerp a b n d) = Some (lerp a b n d)"
    using lerp_between [OF assms(3-5), of a b] assms by (auto simp: checked_def in_range_def)
  show ?thesis
  proof (cases "a \<le> b")
    case True
    then have "0 \<le> (b - a) * n" "0 \<le> (b - a) * n + d div 2" using assms by simp_all
    then show ?thesis using True assms c l by (simp add: interpolate_def Let_def lerp_def)
  next
    case False
    then have neg: "0 \<le> (a - b) * n" using assms by simp
    have eq: "(b - a) * n = - ((a - b) * n)" by (simp add: algebra_simps)
    show ?thesis
    proof (cases "(a - b) * n = 0")
      case True
      then show ?thesis using False assms c l eq
        by (simp add: interpolate_def Let_def lerp_def div_pos_pos_trivial)
    next
      case nz: False
      then have lt: "(b - a) * n < 0" using neg eq by linarith
      have q: "((b - a) * n - d div 2) sdiv d = - (((a - b) * n + d div 2) div d)"
        using lt eq assms by (subst sdiv_neg_pos) (simp_all add: algebra_simps)
      show ?thesis using False assms c l lt q by (simp add: interpolate_def Let_def lerp_def)
    qed
  qed
qed

section \<open>The exact output of the resampler\<close>

text \<open>
  \<open>output_at xs rate k\<close> is the specification: the value of the source signal \<open>xs\<close> (sampled at
  \<open>rate\<close> from the anchor on) at output sample \<open>k\<close> after the anchor, by linear interpolation
  between the two neighbouring source samples.
\<close>

definition output_at :: "int list \<Rightarrow> int \<Rightarrow> int \<Rightarrow> int" where
  "output_at xs rate k =
     (let i = nat (k * rate div 12000); m = k * rate mod 12000
      in if m = 0 then xs ! i else lerp (xs ! i) (xs ! Suc i) m 12000)"

definition anchor_tick :: "rational_resampler \<Rightarrow> int" where
  "anchor_tick r = ev_utc_unix_millis (rs_anchor r) * 12"

lemma div_mod_below:
  assumes "(0::int) \<le> q" "q \<le> (l - 1) * 12000"
  shows "q div 12000 < l" and "q mod 12000 \<noteq> 0 \<Longrightarrow> q div 12000 + 1 < l"
proof -
  have "q div 12000 \<le> (l - 1) * 12000 div 12000" using assms(2) by (rule zdiv_mono1) simp
  then show "q div 12000 < l" by simp
  assume "q mod 12000 \<noteq> 0"
  then have "0 < q mod 12000" by (simp add: order_less_le)
  then have "q div 12000 * 12000 < q" using div_mult_mod_eq [of q 12000] by linarith
  then have "q div 12000 * 12000 < (l - 1) * 12000" using assms(2) by linarith
  then show "q div 12000 + 1 < l" by simp
qed

lemma output_at_append:
  assumes "0 \<le> k * rate" "k * rate \<le> (int (length xs) - 1) * 12000"
  shows "output_at (xs @ ys) rate k = output_at xs rate k"
proof -
  have "0 \<le> k * rate div 12000" using assms(1) by (simp add: pos_imp_zdiv_nonneg_iff)
  then have "nat (k * rate div 12000) < length xs"
    and "k * rate mod 12000 \<noteq> 0 \<Longrightarrow> Suc (nat (k * rate div 12000)) < length xs"
    using div_mod_below [OF assms] by (auto simp: nat_less_iff Suc_nat_eq_nat_zadd1)
  then show ?thesis by (simp add: output_at_def Let_def nth_append)
qed

lemma output_at_last:
  assumes "k * rate = int (length xs) * 12000"
  shows "output_at (xs @ [x]) rate k = x"
  using assms by (simp add: output_at_def)

lemma output_at_between:
  assumes "xs \<noteq> []" "(int (length xs) - 1) * 12000 < k * rate" "k * rate < int (length xs) * 12000"
  shows "output_at (xs @ [x]) rate k = lerp (last xs) x (k * rate - (int (length xs) - 1) * 12000) 12000"
proof -
  define q where "q = k * rate"
  define l where "l = int (length xs) - 1"
  have l: "0 \<le> l" "nat l = length xs - 1" using assms(1) by (cases xs; simp add: l_def)+
  have q: "l * 12000 < q" "q < l * 12000 + 12000" using assms by (simp_all add: q_def l_def)
  have d: "q div 12000 = l" using q by linarith
  then have "q mod 12000 = q - l * 12000" by (simp add: minus_div_mult_eq_mod [symmetric])
  note d = d this
  from d show ?thesis
    using assms(1) l q
    by (simp add: output_at_def Let_def nth_append last_conv_nth flip: q_def l_def)
qed

section \<open>Invariant of the accumulation\<close>

abbreviation slot_ticks :: int where "slot_ticks \<equiv> 180000"

text \<open>
  \<open>acc_ok r xs n a\<close>: accumulator \<open>a\<close> of resampler \<open>r\<close> holds exactly the outputs for the ticks
  from \<open>wa_first_tick a\<close> up to \<open>n\<close> of the source \<open>xs\<close>, inside one slot, and starts at the slot
  boundary or at the anchor.  \<open>event_ok\<close> is the corresponding statement about an emitted event,
  and \<open>slots_done\<close> the list of slots that have an event.
\<close>

definition acc_ok :: "rational_resampler \<Rightarrow> int list \<Rightarrow> int \<Rightarrow> window_accumulator \<Rightarrow> bool" where
  "acc_ok r xs n a \<longleftrightarrow>
     wa_slot_tick a mod slot_ticks = 0 \<and> 0 \<le> wa_slot_tick a \<and>
     wa_slot a = Ft8ReceiveSlot (wa_slot_tick a div 12) \<and>
     (wa_first_tick a = wa_slot_tick a \<or> wa_first_tick a = anchor_tick r) \<and>
     wa_slot_tick a \<le> wa_first_tick a \<and> anchor_tick r \<le> wa_first_tick a \<and>
     wa_first_tick a < wa_slot_tick a + slot_ticks \<and> n \<le> wa_slot_tick a + slot_ticks \<and> length (wa_samples a) < 180000 \<and>
     wa_first_tick a + int (length (wa_samples a)) = n \<and>
     wa_samples a = map (\<lambda>j. output_at xs (rs_source_rate_hz r)
                              (wa_first_tick a - anchor_tick r + int j)) [0..<length (wa_samples a)]"

definition window_ok :: "rational_resampler \<Rightarrow> int list \<Rightarrow> int \<Rightarrow> ft8_receive_window \<Rightarrow> bool" where
  "window_ok r xs n w \<longleftrightarrow>
     win_process_generation w = rs_process_generation r \<and>
     win_stream_generation w = rs_stream_generation r \<and>
     0 \<le> win_slot_start_utc_millis w \<and> win_slot_start_utc_millis w mod 15000 = 0 \<and>
     anchor_tick r \<le> 12 * win_slot_start_utc_millis w \<and>
     12 * win_slot_start_utc_millis w + slot_ticks \<le> n \<and>
     win_samples w = map (\<lambda>j. output_at xs (rs_source_rate_hz r)
                              (12 * win_slot_start_utc_millis w - anchor_tick r + int j)) [0..<180000]"

fun event_tick :: "receive_timeline_event \<Rightarrow> int" where
  "event_tick (Window w) = 12 * win_slot_start_utc_millis w"
| "event_tick (Incomplete i) = 12 * start_utc_unix_millis (inc_slot i)"

fun event_ok :: "rational_resampler \<Rightarrow> int list \<Rightarrow> int \<Rightarrow> receive_timeline_event \<Rightarrow> bool" where
  "event_ok r xs n (Window w) = window_ok r xs n w"
| "event_ok r xs n (Incomplete i) =
     (inc_reason i = CaptureStartedLate \<and>
      12 * start_utc_unix_millis (inc_slot i) < anchor_tick r \<and>
      anchor_tick r < 12 * start_utc_unix_millis (inc_slot i) + slot_ticks)"

definition active_ok :: "rational_resampler \<Rightarrow> int list \<Rightarrow> int \<Rightarrow> bool" where
  "active_ok r xs n \<longleftrightarrow>
     anchor_tick r \<le> n \<and> 0 \<le> anchor_tick r \<and>
     (case rs_active r of
        None \<Rightarrow> n = anchor_tick r \<or> n mod slot_ticks = 0
      | Some a \<Rightarrow> acc_ok r xs n a)"

definition slots_between :: "int \<Rightarrow> int \<Rightarrow> int list" where
  "slots_between lo hi =
     map (\<lambda>j. (lo div slot_ticks + int j) * slot_ticks) [0..<nat (hi div slot_ticks - lo div slot_ticks)]"

definition open_tick :: "rational_resampler \<Rightarrow> int \<Rightarrow> int" where
  "open_tick r n = (case rs_active r of None \<Rightarrow> n | Some a \<Rightarrow> wa_slot_tick a)"

definition events_ok :: "rational_resampler \<Rightarrow> int list \<Rightarrow> int \<Rightarrow> receive_timeline_event list \<Rightarrow> bool" where
  "events_ok r xs n events \<longleftrightarrow>
     list_all (event_ok r xs n) events \<and>
     map event_tick events = slots_between (anchor_tick r) (open_tick r n)"

lemma slots_between_step:
  assumes "lo div slot_ticks \<le> a div slot_ticks"
  shows "slots_between lo (a + slot_ticks) = slots_between lo a @ [a div slot_ticks * slot_ticks]"
proof -
  have "nat ((a + slot_ticks) div slot_ticks - lo div slot_ticks)
      = Suc (nat (a div slot_ticks - lo div slot_ticks))" using assms by simp
  then show ?thesis using assms by (simp add: slots_between_def)
qed

lemma slots_between_same: "a div slot_ticks = b div slot_ticks \<Longrightarrow> slots_between lo a = slots_between lo b"
  by (simp add: slots_between_def)

lemma window_accumulator_new_Ok:
  assumes "0 \<le> t" "window_accumulator_new t f m = Ok a"
  shows "a = \<lparr>wa_slot_tick = t, wa_slot = Ft8ReceiveSlot (t div 12), wa_first_tick = f,
              wa_mapping = m, wa_samples = []\<rparr>"
  using assms
  by (auto simp: window_accumulator_new_def ft8_receive_slot_new_def split: option.splits if_splits)


lemma slot_multiple:
  assumes "t mod slot_ticks = 0"
  shows "12 * (t div 12) = t" and "t div slot_ticks * slot_ticks = t" and "t div 12 mod 15000 = 0"
proof -
  obtain k where "t = k * slot_ticks" using assms by (metis mod_eq_0_iff_dvd dvd_div_mult_self)
  then show "12 * (t div 12) = t" "t div slot_ticks * slot_ticks = t" "t div 12 mod 15000 = 0"
    by simp_all
qed

lemma slot_of_tick:
  shows "n div slot_ticks * slot_ticks \<le> n" and "n < n div slot_ticks * slot_ticks + slot_ticks"
    and "(n div slot_ticks * slot_ticks) mod slot_ticks = 0"
proof -
  have "0 \<le> n mod slot_ticks" "n mod slot_ticks < slot_ticks" by simp_all
  moreover have "n div slot_ticks * slot_ticks + n mod slot_ticks = n" by simp
  ultimately show "n div slot_ticks * slot_ticks \<le> n" "n < n div slot_ticks * slot_ticks + slot_ticks"
    by linarith+
qed simp

lemma slot_of_tick_unique:
  assumes "t mod slot_ticks = 0" "t \<le> n" "n < t + slot_ticks"
  shows "n div slot_ticks * slot_ticks = t"
proof -
  have t: "t div slot_ticks * slot_ticks = t" using slot_multiple(2) [OF assms(1)] .
  have "n div slot_ticks = t div slot_ticks"
    by (rule int_div_pos_eq [where r = "n - t"]) (use assms t in linarith)+
  with t show ?thesis by simp
qed

lemma acc_ok_cong:
  assumes "rs_anchor r' = rs_anchor r" "rs_source_rate_hz r' = rs_source_rate_hz r"
  shows "acc_ok r' xs n a = acc_ok r xs n a"
  using assms by (simp add: acc_ok_def anchor_tick_def)

lemma event_ok_cong:
  assumes "rs_anchor r' = rs_anchor r" "rs_source_rate_hz r' = rs_source_rate_hz r"
    "rs_process_generation r' = rs_process_generation r"
    "rs_stream_generation r' = rs_stream_generation r"
  shows "event_ok r' xs n e = event_ok r xs n e"
  using assms by (cases e) (simp_all add: window_ok_def anchor_tick_def)

lemma event_ok_mono: "event_ok r xs n e \<Longrightarrow> n \<le> m \<Longrightarrow> event_ok r xs m e"
  by (cases e) (auto simp: window_ok_def)

lemma incomplete_event_late:
  assumes a: "acc_ok r xs n a" and ne: "n div slot_ticks * slot_ticks \<noteq> wa_slot_tick a"
    and e: "incomplete_event a = Ok e"
  shows "\<exists>ev. e = Some ev \<and> event_ok r xs n ev \<and> event_tick ev = wa_slot_tick a \<and>
    n = wa_slot_tick a + slot_ticks"
proof -
  have nn: "n = wa_slot_tick a + slot_ticks"
  proof (rule ccontr)
    assume "n \<noteq> wa_slot_tick a + slot_ticks"
    then have "n < wa_slot_tick a + slot_ticks" "wa_slot_tick a \<le> n" "wa_slot_tick a mod slot_ticks = 0"
      using a by (auto simp: acc_ok_def)
    then show False using slot_of_tick_unique [of "wa_slot_tick a" n] ne by simp
  qed
  have late: "wa_slot_tick a < wa_first_tick a" "wa_first_tick a = anchor_tick r"
    using a nn by (auto simp: acc_ok_def)
  have "wa_samples a \<noteq> []" using a nn by (auto simp: acc_ok_def)
  moreover have "checked_u32 (int (length (wa_samples a))) = Some (int (length (wa_samples a)))"
    using a by (auto simp: acc_ok_def)
  ultimately show ?thesis
    using e a nn late slot_multiple(1) [of "wa_slot_tick a"]
    by (auto simp: incomplete_event_def acc_ok_def)
qed


lemma acc_slot_step:
  assumes "acc_ok r xs n a"
  shows "slots_between (anchor_tick r) (wa_slot_tick a + slot_ticks)
    = slots_between (anchor_tick r) (wa_slot_tick a) @ [wa_slot_tick a]"
proof -
  have t: "wa_slot_tick a div slot_ticks * slot_ticks = wa_slot_tick a"
    using assms slot_multiple(2) by (simp add: acc_ok_def)
  have "anchor_tick r < wa_slot_tick a + slot_ticks" using assms by (simp add: acc_ok_def)
  then have "anchor_tick r div slot_ticks * slot_ticks < (wa_slot_tick a div slot_ticks + 1) * slot_ticks"
    unfolding distrib_right mult_1 using slot_of_tick(1) [of "anchor_tick r"] t by linarith
  then have "anchor_tick r div slot_ticks \<le> wa_slot_tick a div slot_ticks" by simp
  then show ?thesis using t slots_between_step by simp
qed

lemma open_active_ok:
  assumes act: "active_ok r xs n" and n: "n = rs_next_output_tick r" and ev: "events_ok r xs n events"
    and op: "open_active r events = (Ok u, r', events')"
  shows "\<exists>a. rs_active r' = Some a \<and> acc_ok r xs n a \<and>
    wa_slot_tick a = n div slot_ticks * slot_ticks \<and> events_ok r' xs n events'"
proof -
  let ?t = "n div slot_ticks * slot_ticks"
  have at: "0 \<le> anchor_tick r" "anchor_tick r \<le> n" using act by (simp_all add: active_ok_def)
  then have t0: "0 \<le> ?t" by (simp add: pos_imp_zdiv_nonneg_iff)
  note k = open_active_keeps [OF op]
  have cong: "event_ok r' xs n = event_ok r xs n" "anchor_tick r' = anchor_tick r"
    using k event_ok_cong [of r' r] by (auto simp: anchor_tick_def)
  have fresh: "acc_ok r xs n a" if "a = \<lparr>wa_slot_tick = ?t, wa_slot = Ft8ReceiveSlot (?t div 12),
      wa_first_tick = n, wa_mapping = m, wa_samples = []\<rparr>" "n = ?t \<or> n = anchor_tick r" for a m
    using that at t0 slot_of_tick [of n] by (auto simp: acc_ok_def)
  show ?thesis
  proof (cases "rs_active r")
    case None
    then obtain m a where a: "rs_active r' = Some a" "events' = events"
        "window_accumulator_new ?t n m = Ok a"
      using op n by (auto simp: open_active_def Let_def split: sum.splits)
    note a' = window_accumulator_new_Ok [OF t0 a(3)]
    have "n = ?t \<or> n = anchor_tick r"
      using act None slot_multiple(2) [of n] by (auto simp: active_ok_def)
    then have "acc_ok r xs n a" using fresh a' by blast
    moreover have "events_ok r' xs n events'"
      using ev None a a' cong slots_between_same [of n ?t] by (simp add: events_ok_def open_tick_def)
    ultimately show ?thesis using a a' by simp
  next
    case (Some p)
    have p: "acc_ok r xs n p" using act Some by (simp add: active_ok_def)
    show ?thesis
    proof (cases "wa_slot_tick p = ?t")
      case True
      then have "r' = r" "events' = events" using op Some n by (auto simp: open_active_def Let_def)
      then show ?thesis using Some p True ev by simp
    next
      case False
      then obtain m a e where a: "rs_active r' = Some a" "incomplete_event p = Ok e"
          "events' = events @ (case e of None \<Rightarrow> [] | Some x \<Rightarrow> [x])"
          "window_accumulator_new ?t n m = Ok a"
        using op n Some by (auto simp: open_active_def Let_def split: sum.splits)
      note a' = window_accumulator_new_Ok [OF t0 a(4)]
      obtain x where x: "e = Some x" "event_ok r xs n x" "event_tick x = wa_slot_tick p"
          "n = wa_slot_tick p + slot_ticks"
        using incomplete_event_late [OF p _ a(2)] False by metis
      have pm: "wa_slot_tick p mod slot_ticks = 0" using p by (simp add: acc_ok_def)
      then have nt: "?t = n" using x(4) slot_multiple(2) [of n] by simp
      then have "acc_ok r xs n a" using fresh a' by simp
      moreover have "slots_between (anchor_tick r) n
          = slots_between (anchor_tick r) (wa_slot_tick p) @ [wa_slot_tick p]"
        using acc_slot_step [OF p] x(4) by simp
      ultimately show ?thesis
        using ev Some a a' x cong nt by (simp add: events_ok_def open_tick_def)
    qed
  qed
qed


lemma push_output_ok:
  assumes act: "active_ok r xs n" and n: "n = rs_next_output_tick r" and ev: "events_ok r xs n events"
    and v: "v = output_at xs (rs_source_rate_hz r) (n - anchor_tick r)"
    and push: "push_output r v events = (Ok u, r', events')"
  shows "active_ok r' xs (n + 1) \<and> events_ok r' xs (n + 1) events'"
proof -
  obtain u1 r1 events1 where o: "open_active r events = (Ok u1, r1, events1)"
    using push by (auto simp: push_output_def split: prod.splits sum.splits)
  obtain a where a: "rs_active r1 = Some a" "acc_ok r xs n a"
      "wa_slot_tick a = n div slot_ticks * slot_ticks" "events_ok r1 xs n events1"
    using open_active_ok [OF act n ev o] by blast
  note k = push_output_keeps [OF push]
  note k1 = open_active_keeps [OF o]
  have cong: "event_ok r' xs m = event_ok r xs m" "event_ok r1 xs m = event_ok r xs m"
    "anchor_tick r' = anchor_tick r" "anchor_tick r1 = anchor_tick r" for m
    using k k1 event_ok_cong [of r' r xs m] event_ok_cong [of r1 r xs m]
    by (auto simp: anchor_tick_def)
  have at: "0 \<le> anchor_tick r" "anchor_tick r \<le> n" using act by (simp_all add: active_ok_def)
  let ?a = "a\<lparr>wa_samples := wa_samples a @ [v]\<rparr>"
  have "n - anchor_tick r = wa_first_tick a - anchor_tick r + int (length (wa_samples a))"
    using a(2) by (simp add: acc_ok_def)
  with v have v': "v = output_at xs (rs_source_rate_hz r)
      (wa_first_tick a - anchor_tick r + int (length (wa_samples a)))" by simp
  have sm: "wa_samples ?a = map (\<lambda>j. output_at xs (rs_source_rate_hz r)
      (wa_first_tick a - anchor_tick r + int j)) [0..<length (wa_samples ?a)]"
    and lt: "n < wa_slot_tick a + slot_ticks"
    using a(2,3) v' slot_of_tick(2) [of n] by (auto simp: acc_ok_def)
  have evs: "list_all (event_ok r xs (n + 1)) events1"
    using a(4) cong event_ok_mono [of r xs n _ "n + 1"] by (auto simp: events_ok_def list_all_iff)
  have tk: "map event_tick events1 = slots_between (anchor_tick r) (wa_slot_tick a)"
    using a(1,4) cong by (simp add: events_ok_def open_tick_def)
  show ?thesis
  proof (cases "length (wa_samples ?a) = 180000")
    case True
    have first: "wa_first_tick a = wa_slot_tick a" "n + 1 = wa_slot_tick a + slot_ticks"
      using True a(2) lt by (auto simp: acc_ok_def)
    have m: "wa_slot_tick a mod slot_ticks = 0" "wa_slot a = Ft8ReceiveSlot (wa_slot_tick a div 12)"
      using a(2) by (simp_all add: acc_ok_def)
    obtain w where w: "ft8_receive_window_new (rs_process_generation r) (rs_stream_generation r)
          (wa_slot_tick a div 12) (wa_mapping a) (wa_samples ?a) = Ok w"
        "r' = r1\<lparr>rs_active := None\<rparr>" "events' = events1 @ [Window w]"
      using push True k1 m(2)
      by (auto simp: push_output_def o a(1) audio_bounds Let_def split: sum.splits)
    have "window_ok r xs (n + 1) w"
      using w(1) sm True first slot_multiple [OF m(1)] a(2)
      by (auto simp: ft8_receive_window_new_Ok window_ok_def acc_ok_def)
    moreover have "event_tick (Window w) = wa_slot_tick a"
      using w(1) slot_multiple(1) [OF m(1)] by (auto simp: ft8_receive_window_new_Ok)
    moreover have "(n + 1) mod slot_ticks = 0" using first m(1) by simp
    ultimately show ?thesis
      using w evs tk acc_slot_step [OF a(2)] cong at first
      by (simp add: active_ok_def events_ok_def open_tick_def ac_simps)
  next
    case False
    then have r': "r' = r1\<lparr>rs_active := Some ?a\<rparr>" "events' = events1"
      using push by (auto simp: push_output_def o a(1) audio_bounds Let_def)
    have "acc_ok r xs (n + 1) ?a"
      using a(2) sm lt False unfolding acc_ok_def by auto
    then have "acc_ok r' xs (n + 1) ?a" using k by (simp add: acc_ok_cong [of r' r])
    then show ?thesis
      using r' evs tk cong at by (simp add: active_ok_def events_ok_def open_tick_def)
  qed
qed


section \<open>The loop over one source sample\<close>

lemma mult_le_iff_le_div:
  assumes "0 < (r::int)"
  shows "k * r \<le> q \<longleftrightarrow> k \<le> q div r"
proof
  assume "k * r \<le> q"
  then have "k * r div r \<le> q div r" using assms by (rule zdiv_mono1)
  then show "k \<le> q div r" using assms by simp
next
  assume "k \<le> q div r"
  then have "k * r \<le> q div r * r" using assms by simp
  moreover have "q div r * r \<le> q"
    using assms div_mult_mod_eq [of q r] pos_mod_sign [of r q] by linarith
  ultimately show "k * r \<le> q" by linarith
qed

text \<open>Ranges of the anchor and of the rate, as the constructors of their values establish.\<close>

definition stream_bounds :: "rational_resampler \<Rightarrow> bool" where
  "stream_bounds r \<longleftrightarrow>
     0 < rs_source_rate_hz r \<and> rs_source_rate_hz r \<le> u32_max \<and>
     0 \<le> ev_utc_unix_millis (rs_anchor r) \<and> ev_utc_unix_millis (rs_anchor r) \<le> i64_max"

text \<open>The state in which the loop runs for source sample \<open>x\<close> after \<open>xs\<close>.\<close>

definition in_loop :: "rational_resampler \<Rightarrow> int list \<Rightarrow> int \<Rightarrow> bool" where
  "in_loop r xs x \<longleftrightarrow>
     stream_bounds r \<and> list_all is_i16 (xs @ [x]) \<and> int (length xs) \<le> u64_max \<and>
     rs_previous r = Some (if xs = [] then (0, x) else (int (length xs) - 1, last xs)) \<and>
     anchor_tick r \<le> rs_next_output_tick r \<and>
     (xs \<noteq> [] \<longrightarrow>
        (int (length xs) - 1) * 12000 < (rs_next_output_tick r - anchor_tick r) * rs_source_rate_hz r) \<and>
     rs_next_output_tick r - anchor_tick r
       \<le> int (length xs) * 12000 div rs_source_rate_hz r + 1"

lemma loop_target_eq:
  assumes "in_loop r xs x"
  defines "k \<equiv> rs_next_output_tick r - anchor_tick r"
  shows "loop_target r (int (length xs)) x (int (length xs) * 12000) =
    (if int (length xs) * 12000 < k * rs_source_rate_hz r then Ok None
     else Ok (Some (output_at (xs @ [x]) (rs_source_rate_hz r) k)))"
proof -
  let ?R = "rs_source_rate_hz r" and ?d = "int (length xs)"
  have R: "0 < ?R" "?R \<le> u32_max" and u: "0 \<le> anchor_tick r" "anchor_tick r \<le> i64_max * 12"
    and d: "?d \<le> u64_max" and k0: "0 \<le> k" and kd: "k \<le> ?d * 12000 div ?R + 1"
    and i16: "list_all is_i16 (xs @ [x])"
    using assms(1) by (auto simp: in_loop_def stream_bounds_def anchor_tick_def k_def)
  have "(k - 1) * ?R \<le> ?d * 12000" using kd mult_le_iff_le_div [OF R(1)] by simp
  then have kR: "k * ?R \<le> ?d * 12000 + u32_max" using R by (simp add: left_diff_distrib)
  have kR0: "0 \<le> k * ?R" using k0 R by simp
  have kle: "k \<le> k * ?R" using k0 R by (metis mult_left_mono mult.right_neutral int_one_le_iff_zero_less)
  have c: "checked_i128 (ev_utc_unix_millis (rs_anchor r) * 12) = Some (anchor_tick r)"
    "checked_i128 (rs_next_output_tick r - anchor_tick r) = Some k"
    "checked_i128 (k * ?R) = Some (k * ?R)"
    using u kR kR0 kle k0 d by (auto simp: anchor_tick_def k_def)
  have t: "loop_target r ?d x (?d * 12000) =
     (if k * ?R > ?d * 12000 then Ok None
      else (case rs_previous r of
              None \<Rightarrow> Err TimelineArithmeticOverflow
            | Some (pp, ps) \<Rightarrow>
                (case checked_i128 (pp * FT8_RECEIVE_SAMPLE_RATE_HZ) of
                   None \<Rightarrow> Err TimelineArithmeticOverflow
                 | Some pt \<Rightarrow>
                     if k * ?R < pt then Err OutOfOrder
                     else if ?d = pp then Ok (Some ps)
                     else map_ok Some (interpolate ps x (k * ?R - pt) (?d * 12000 - pt)))))"
    unfolding loop_target_def ticks_per_millisecond c(1) bind.bind_lunit
    by (simp only: c bind.bind_lunit option.case)
  show ?thesis
  proof (cases "?d * 12000 < k * ?R")
    case True
    then show ?thesis using t by simp
  next
    case le: False
    show ?thesis
    proof (cases "xs = []")
      case True
      then have "k = 0" using le k0 kR0 R by (simp add: order_antisym mult_le_0_iff)
      then show ?thesis
        using t True assms(1) by (simp add: in_loop_def output_at_def audio_bounds)
    next
      case False
      have gt: "(?d - 1) * 12000 < k * ?R" and p: "rs_previous r = Some (?d - 1, last xs)"
        using assms(1) False by (auto simp: in_loop_def k_def)
      have d1: "1 \<le> ?d" using False by (cases xs) auto
      have "is_i16 (last xs)" "is_i16 x" using i16 False by (auto simp: list_all_iff)
      then have ip: "interpolate (last xs) x (k * ?R - (?d - 1) * 12000) 12000
          = Ok (lerp (last xs) x (k * ?R - (?d - 1) * 12000) 12000)"
        using gt le by (intro interpolate_lerp) auto
      have out: "output_at (xs @ [x]) ?R k = lerp (last xs) x (k * ?R - (?d - 1) * 12000) 12000"
      proof (cases "k * ?R = ?d * 12000")
        case True
        then show ?thesis
          using output_at_last [OF True] lerp_ends(2) [of 12000] by (simp add: left_diff_distrib)
      next
        case ne: False
        then show ?thesis using output_at_between [OF False gt] le by simp
      qed
      have "checked_i128 ((?d - 1) * 12000) = Some ((?d - 1) * 12000)" using d d1 by auto
      moreover have "?d * 12000 - (?d - 1) * 12000 = 12000" by (simp add: left_diff_distrib)
      ultimately show ?thesis
        using t le gt p ip out by (simp add: audio_bounds)
    qed
  qed
qed


lemma loop_step:
  assumes il: "in_loop r xs x" and act: "active_ok r (xs @ [x]) (rs_next_output_tick r)"
    and ev: "events_ok r (xs @ [x]) (rs_next_output_tick r) events"
    and o: "push_output r v events = (Ok u, r1, events1)"
    and v: "v = output_at (xs @ [x]) (rs_source_rate_hz r) (rs_next_output_tick r - anchor_tick r)"
    and le: "\<not> int (length xs) * 12000 < (rs_next_output_tick r - anchor_tick r) * rs_source_rate_hz r"
  defines "r2 \<equiv> r1\<lparr>rs_next_output_tick := rs_next_output_tick r + 1\<rparr>"
  shows "in_loop r2 xs x \<and> active_ok r2 (xs @ [x]) (rs_next_output_tick r + 1) \<and>
    events_ok r2 (xs @ [x]) (rs_next_output_tick r + 1) events1"
proof -
  let ?R = "rs_source_rate_hz r" and ?d = "int (length xs)" and ?n = "rs_next_output_tick r"
  let ?k = "?n - anchor_tick r"
  have R: "0 < ?R" and k0: "0 \<le> ?k" using il by (auto simp: in_loop_def stream_bounds_def)
  note k = push_output_keeps [OF o]
  have eq: "rs_next_output_tick r2 - anchor_tick r2 = ?k + 1"
    "rs_source_rate_hz r2 = ?R" "rs_previous r2 = rs_previous r" "rs_anchor r2 = rs_anchor r"
    "anchor_tick r2 = anchor_tick r1"
    using k by (simp_all add: r2_def anchor_tick_def)
  have po: "active_ok r1 (xs @ [x]) (?n + 1) \<and> events_ok r1 (xs @ [x]) (?n + 1) events1"
    using push_output_ok [OF act refl ev v o] .
  have "event_ok r2 (xs @ [x]) (?n + 1) = event_ok r1 (xs @ [x]) (?n + 1)"
    by (intro ext event_ok_cong) (simp_all add: r2_def)
  moreover have "acc_ok r2 (xs @ [x]) (?n + 1) = acc_ok r1 (xs @ [x]) (?n + 1)"
    by (intro ext acc_ok_cong) (simp_all add: r2_def)
  moreover have "rs_active r2 = rs_active r1" by (simp add: r2_def)
  ultimately have "active_ok r2 (xs @ [x]) (?n + 1)" "events_ok r2 (xs @ [x]) (?n + 1) events1"
    using po eq(5) by (auto simp: active_ok_def events_ok_def open_tick_def split: option.splits)
  moreover have "in_loop r2 xs x"
  proof -
    have "?k \<le> ?d * 12000 div ?R"
      using le mult_le_iff_le_div [OF R, of ?k "?d * 12000"] by linarith
    moreover have "(?d - 1) * 12000 < (?k + 1) * ?R" if "xs \<noteq> []"
      using that il R unfolding in_loop_def distrib_right by auto
    moreover have "anchor_tick r2 \<le> rs_next_output_tick r2" using eq(1) k0 by linarith
    ultimately show ?thesis
      using il unfolding in_loop_def stream_bounds_def eq(1-4) by simp
  qed
  ultimately show ?thesis by simp
qed

lemma push_loop_ok:
  assumes "push_loop r d x ct events = (Ok u, r', events')"
    and "d = int (length xs)" "ct = int (length xs) * 12000"
    and "in_loop r xs x"
    and "active_ok r (xs @ [x]) (rs_next_output_tick r)"
    and "events_ok r (xs @ [x]) (rs_next_output_tick r) events"
  shows "rs_next_output_tick r' = anchor_tick r + int (length xs) * 12000 div rs_source_rate_hz r + 1 \<and>
    active_ok r' (xs @ [x]) (rs_next_output_tick r') \<and>
    events_ok r' (xs @ [x]) (rs_next_output_tick r') events' \<and>
    rs_anchor r' = rs_anchor r \<and> rs_source_rate_hz r' = rs_source_rate_hz r \<and>
    rs_process_generation r' = rs_process_generation r \<and>
    rs_stream_generation r' = rs_stream_generation r"
  using assms
proof (induction r d x ct events arbitrary: r' events' rule: push_loop.induct)
  case (1 r d x ct events)
  let ?R = "rs_source_rate_hz r" and ?d = "int (length xs)" and ?n = "rs_next_output_tick r"
  let ?k = "?n - anchor_tick r"
  have R: "0 < ?R" and kd: "?k \<le> ?d * 12000 div ?R + 1" and k0: "0 \<le> ?k"
    using "1.prems"(4) by (auto simp: in_loop_def stream_bounds_def)
  have t: "loop_target r d x ct = (if ?d * 12000 < ?k * ?R then Ok None
     else Ok (Some (output_at (xs @ [x]) ?R ?k)))"
    using loop_target_eq [OF "1.prems"(4)] "1.prems"(2,3) by simp
  show ?case
  proof (cases "?d * 12000 < ?k * ?R")
    case True
    then have "\<not> ?k \<le> ?d * 12000 div ?R" using mult_le_iff_le_div [OF R, of ?k "?d * 12000"] by linarith
    moreover have "r' = r" "events' = events"
      using "1.prems"(1) t True by (auto simp: push_loop.simps)
    ultimately show ?thesis using "1.prems"(5,6) kd by simp
  next
    case False
    define v where "v = output_at (xs @ [x]) ?R ?k"
    have tv: "loop_target r d x ct = Ok (Some v)" using t False by (simp add: v_def)
    obtain res1 r1 events1 where o1: "push_output r v events = (res1, r1, events1)"
      by (metis prod_cases3)
    note k = push_output_keeps [OF o1]
    have l: "push_loop r d x ct events = (case res1 of
        Inl e \<Rightarrow> (Err e, r1, events1)
      | Inr _ \<Rightarrow> (case checked_i128 (?n + 1) of
          None \<Rightarrow> (Err TimelineArithmeticOverflow, r1, events1)
        | Some m \<Rightarrow> push_loop (r1\<lparr>rs_next_output_tick := m\<rparr>) d x ct events1))"
      using k by (subst push_loop.simps) (simp add: tv o1 split: sum.splits)
    obtain u1 where o: "push_output r v events = (Ok u1, r1, events1)"
      and lp: "push_loop (r1\<lparr>rs_next_output_tick := ?n + 1\<rparr>) d x ct events1 = (Ok u, r', events')"
      and rng: "i128_min \<le> ?n + 1" "?n + 1 \<le> i128_max"
      using "1.prems"(1) o1 unfolding l by (auto split: sum.splits option.splits)
    let ?r = "r1\<lparr>rs_next_output_tick := ?n + 1\<rparr>"
    have at: "anchor_tick ?r = anchor_tick r" using k by (simp add: anchor_tick_def)
    have ck: "checked_i128 (rs_next_output_tick r1 + 1) = Some (?n + 1)" using k rng by simp
    have st: "in_loop ?r xs x" "active_ok ?r (xs @ [x]) (rs_next_output_tick ?r)"
      "events_ok ?r (xs @ [x]) (rs_next_output_tick ?r) events1"
      using loop_step [OF "1.prems"(4,5,6) o v_def False] by simp_all
    show ?thesis
      using "1.IH" [OF tv refl o [symmetric] refl refl ck lp "1.prems"(2,3) st] k at by auto
  qed
qed

section \<open>The whole stream\<close>

text \<open>
  \<open>resampled r xs events\<close>: resampler \<open>r\<close> has consumed exactly the source samples \<open>xs\<close> from its
  anchor on and has emitted \<open>events\<close>.  The next output tick is the first one beyond the last
  source sample.
\<close>

definition ticks_after :: "int \<Rightarrow> int list \<Rightarrow> int" where
  "ticks_after rate xs = (if xs = [] then 0 else (int (length xs) - 1) * 12000 div rate + 1)"

definition resampled :: "rational_resampler \<Rightarrow> int list \<Rightarrow> receive_timeline_event list \<Rightarrow> bool" where
  "resampled r xs events \<longleftrightarrow>
     stream_bounds r \<and> list_all is_i16 xs \<and>
     rs_next_output_tick r = anchor_tick r + ticks_after (rs_source_rate_hz r) xs \<and>
     rs_previous r = (if xs = [] then None else Some (int (length xs) - 1, last xs)) \<and>
     active_ok r xs (rs_next_output_tick r) \<and> events_ok r xs (rs_next_output_tick r) events"

lemma output_at_known:
  assumes "0 < rate" "0 \<le> k" "k < ticks_after rate xs"
  shows "output_at (xs @ ys) rate k = output_at xs rate k"
proof -
  have "xs \<noteq> []" "k \<le> (int (length xs) - 1) * 12000 div rate"
    using assms by (auto simp: ticks_after_def split: if_splits)
  then have "k * rate \<le> (int (length xs) - 1) * 12000"
    using mult_le_iff_le_div [OF assms(1)] by blast
  then show ?thesis using assms by (intro output_at_append) auto
qed

lemma acc_ok_extend:
  assumes "acc_ok r xs n a" "n = anchor_tick r + ticks_after (rs_source_rate_hz r) xs"
    "0 < rs_source_rate_hz r"
  shows "acc_ok r (xs @ ys) n a"
proof -
  have "map (\<lambda>j. output_at (xs @ ys) (rs_source_rate_hz r) (wa_first_tick a - anchor_tick r + int j))
          [0..<length (wa_samples a)]
      = map (\<lambda>j. output_at xs (rs_source_rate_hz r) (wa_first_tick a - anchor_tick r + int j))
          [0..<length (wa_samples a)]"
    using assms by (intro map_cong refl output_at_known) (auto simp: acc_ok_def)
  then show ?thesis using assms(1) unfolding acc_ok_def by metis
qed

lemma event_ok_extend:
  assumes "event_ok r xs n e" "n = anchor_tick r + ticks_after (rs_source_rate_hz r) xs"
    "0 < rs_source_rate_hz r"
  shows "event_ok r (xs @ ys) n e"
proof (cases e)
  case (Window w)
  have "map (\<lambda>j. output_at (xs @ ys) (rs_source_rate_hz r)
          (12 * win_slot_start_utc_millis w - anchor_tick r + int j)) [0..<180000]
      = map (\<lambda>j. output_at xs (rs_source_rate_hz r)
          (12 * win_slot_start_utc_millis w - anchor_tick r + int j)) [0..<180000]"
    using assms Window by (intro map_cong refl output_at_known) (auto simp: window_ok_def)
  then show ?thesis using assms(1) Window by (simp add: window_ok_def)
next
  case (Incomplete i)
  then show ?thesis using assms(1) by simp
qed

lemma resampled_extend:
  assumes "resampled r xs events"
  shows "active_ok r (xs @ ys) (rs_next_output_tick r) \<and>
    events_ok r (xs @ ys) (rs_next_output_tick r) events"
  using assms
  by (auto simp: resampled_def active_ok_def events_ok_def stream_bounds_def list_all_iff
      split: option.splits intro: acc_ok_extend event_ok_extend)

text \<open>\<open>rs_previous\<close> plays no part in what the accumulator and the events say.\<close>

lemma ok_set_previous [simp]:
  "active_ok (r\<lparr>rs_previous := p\<rparr>) xs n = active_ok r xs n"
  "events_ok (r\<lparr>rs_previous := p\<rparr>) xs n es = events_ok r xs n es"
  "anchor_tick (r\<lparr>rs_previous := p\<rparr>) = anchor_tick r"
  "stream_bounds (r\<lparr>rs_previous := p\<rparr>) = stream_bounds r"
proof -
  let ?r = "r\<lparr>rs_previous := p\<rparr>"
  have "event_ok ?r xs n = event_ok r xs n" by (intro ext event_ok_cong) simp_all
  moreover have "acc_ok ?r xs n = acc_ok r xs n" by (intro ext acc_ok_cong) simp_all
  moreover have "anchor_tick ?r = anchor_tick r" by (simp add: anchor_tick_def)
  ultimately show "active_ok ?r xs n = active_ok r xs n" "events_ok ?r xs n es = events_ok r xs n es"
    by (auto simp: active_ok_def events_ok_def open_tick_def split: option.splits)
qed (simp_all add: anchor_tick_def stream_bounds_def)

lemma resampled_in_loop:
  assumes rs: "resampled r xs events" and x: "is_i16 x" and dm: "int (length xs) \<le> u64_max"
  shows "in_loop (if rs_previous r = None then r\<lparr>rs_previous := Some (int (length xs), x)\<rparr> else r) xs x"
proof -
  let ?d = "int (length xs)" and ?R = "rs_source_rate_hz r"
  let ?r = "if rs_previous r = None then r\<lparr>rs_previous := Some (?d, x)\<rparr> else r"
  have R: "0 < ?R" using rs by (simp add: resampled_def stream_bounds_def)
  have prev: "rs_previous ?r = Some (if xs = [] then (0, x) else (?d - 1, last xs))"
    using rs by (auto simp: resampled_def)
  have same: "rs_source_rate_hz ?r = ?R" "rs_next_output_tick ?r = rs_next_output_tick r"
    "anchor_tick ?r = anchor_tick r" "stream_bounds ?r = stream_bounds r" by simp_all
  have t0: "0 \<le> ticks_after ?R xs"
    using R by (cases xs) (auto simp: ticks_after_def pos_imp_zdiv_nonneg_iff)
  have gt: "(?d - 1) * 12000 < ticks_after ?R xs * ?R" if "xs \<noteq> []"
    using mult_le_iff_le_div [OF R, of "ticks_after ?R xs" "(?d - 1) * 12000"]
      that by (simp add: ticks_after_def)
  have le: "ticks_after ?R xs \<le> ?d * 12000 div ?R + 1"
    using R zdiv_mono1 [of "(?d - 1) * 12000" "?d * 12000" ?R]
    by (simp add: ticks_after_def pos_imp_zdiv_nonneg_iff)
  have k: "rs_next_output_tick r - anchor_tick r = ticks_after ?R xs"
    using rs by (simp add: resampled_def)
  show ?thesis
    unfolding in_loop_def same prev k using rs x dm t0 gt le k by (auto simp: resampled_def)
qed

lemma push_sample_ok:
  assumes rs: "resampled r xs events" and x: "is_i16 x"
    and pos: "position = ev_position (rs_anchor r) + int (length xs)"
    and push: "push_sample r position x events = (Ok u, r', events')"
  shows "resampled r' (xs @ [x]) events' \<and> rs_anchor r' = rs_anchor r \<and>
    rs_source_rate_hz r' = rs_source_rate_hz r \<and>
    rs_process_generation r' = rs_process_generation r \<and>
    rs_stream_generation r' = rs_stream_generation r"
proof -
  let ?d = "int (length xs)"
  let ?r = "if rs_previous r = None then r\<lparr>rs_previous := Some (?d, x)\<rparr> else r"
  have pd: "position - ev_position (rs_anchor r) = ?d" using pos by simp
  obtain u1 r1 where l: "push_loop ?r ?d x (?d * 12000) events = (Ok u1, r1, events')"
    and r': "r' = r1\<lparr>rs_previous := Some (?d, x)\<rparr>" and dm: "?d \<le> u64_max"
    using push unfolding push_sample_def pd
    by (auto simp: Let_def audio_bounds split: option.splits sum.splits prod.splits)
  have same: "rs_anchor ?r = rs_anchor r" "rs_source_rate_hz ?r = rs_source_rate_hz r"
    "rs_next_output_tick ?r = rs_next_output_tick r" "anchor_tick ?r = anchor_tick r"
    "rs_process_generation ?r = rs_process_generation r"
    "rs_stream_generation ?r = rs_stream_generation r" by simp_all
  have "in_loop ?r xs x" using resampled_in_loop [OF rs x dm] .
  moreover have "active_ok ?r (xs @ [x]) (rs_next_output_tick ?r)"
    "events_ok ?r (xs @ [x]) (rs_next_output_tick ?r) events"
    using resampled_extend [OF rs, of "[x]"] by auto
  ultimately have L: "rs_next_output_tick r1
        = anchor_tick r + ?d * 12000 div rs_source_rate_hz r + 1"
    "active_ok r1 (xs @ [x]) (rs_next_output_tick r1)"
    "events_ok r1 (xs @ [x]) (rs_next_output_tick r1) events'"
    "rs_anchor r1 = rs_anchor r" "rs_source_rate_hz r1 = rs_source_rate_hz r"
    "rs_process_generation r1 = rs_process_generation r"
    "rs_stream_generation r1 = rs_stream_generation r"
    using push_loop_ok [OF l refl refl] unfolding same by blast+
  have "anchor_tick r1 = anchor_tick r" "stream_bounds r1"
    using L rs by (simp_all add: anchor_tick_def resampled_def stream_bounds_def)
  then show ?thesis
    using L r' rs x by (simp add: resampled_def ticks_after_def)
qed


lemma push_samples_ok:
  assumes "resampled r xs events" "list_all is_i16 ys"
    and "first + i = ev_position (rs_anchor r) + int (length xs)"
    and "push_samples r first i ys events = (Ok u, r', events')"
  shows "resampled r' (xs @ ys) events' \<and> rs_anchor r' = rs_anchor r \<and>
    rs_source_rate_hz r' = rs_source_rate_hz r \<and>
    rs_process_generation r' = rs_process_generation r \<and>
    rs_stream_generation r' = rs_stream_generation r"
  using assms
proof (induction ys arbitrary: r xs events i)
  case Nil
  then show ?case by simp
next
  case (Cons y ys)
  obtain u1 r1 events1 where p: "push_sample r (first + i) y events = (Ok u1, r1, events1)"
      "push_samples r1 first (i + 1) ys events1 = (Ok u, r', events')"
    using Cons.prems(4) by (auto split: option.splits sum.splits prod.splits)
  have s: "resampled r1 (xs @ [y]) events1 \<and> rs_anchor r1 = rs_anchor r \<and>
    rs_source_rate_hz r1 = rs_source_rate_hz r \<and>
    rs_process_generation r1 = rs_process_generation r \<and>
    rs_stream_generation r1 = rs_stream_generation r"
    using push_sample_ok [OF Cons.prems(1) _ Cons.prems(3) p(1)] Cons.prems(2) by simp
  then show ?case
    using Cons.IH [of r1 "xs @ [y]" events1 "i + 1"] Cons.prems(2,3) p(2) by simp
qed

lemma resampler_new_resampled:
  assumes "rational_resampler_new anchor rate pg sg = Ok r"
    and "0 < rate" "rate \<le> u32_max" "0 \<le> ev_utc_unix_millis anchor" "ev_utc_unix_millis anchor \<le> i64_max"
  shows "resampled r [] [] \<and> rs_anchor r = anchor \<and> rs_source_rate_hz r = rate \<and>
    rs_process_generation r = pg \<and> rs_stream_generation r = sg"
  using assms
  by (auto simp: rational_resampler_new_def resampled_def stream_bounds_def ticks_after_def
      active_ok_def events_ok_def open_tick_def anchor_tick_def slots_between_def
      split: option.splits)

text \<open>
  C13: the resampler is exact.  Whatever the source rate, after consuming the contiguous source
  samples \<open>xs\<close> from its anchor on it has emitted exactly one event for each slot it has left
  behind, in slot order; a \<open>Window\<close> carries the generations of the stream, starts on a 15 s
  boundary at or after the anchor, and its \<open>j\<close>-th sample is the linear interpolation of the
  source at \<open>j\<close> output ticks after that boundary; the only slot withheld is the one the capture
  started in the middle of.
\<close>

theorem resampler_emits_interpolated_windows:
  assumes new: "rational_resampler_new anchor rate pg sg = Ok r0"
    and rate: "0 < rate" "rate \<le> u32_max"
    and utc: "0 \<le> ev_utc_unix_millis anchor" "ev_utc_unix_millis anchor \<le> i64_max"
    and xs: "list_all is_i16 xs"
    and push: "push_samples r0 (ev_position anchor) 0 xs [] = (Ok u, r, events)"
  defines "a \<equiv> 12 * ev_utc_unix_millis anchor"
  shows "rs_next_output_tick r = a + ticks_after rate xs \<and>
    map event_tick events = slots_between a (open_tick r (rs_next_output_tick r)) \<and>
    (\<forall>w. Window w \<in> set events \<longrightarrow>
       win_process_generation w = pg \<and> win_stream_generation w = sg \<and>
       win_slot_start_utc_millis w mod 15000 = 0 \<and> a \<le> 12 * win_slot_start_utc_millis w \<and>
       win_samples w = map (\<lambda>j. output_at xs rate (12 * win_slot_start_utc_millis w - a + int j))
                         [0..<180000]) \<and>
    (\<forall>i. Incomplete i \<in> set events \<longrightarrow>
       inc_reason i = CaptureStartedLate \<and>
       12 * start_utc_unix_millis (inc_slot i) < a \<and>
       a < 12 * start_utc_unix_millis (inc_slot i) + 180000)"
proof -
  have n: "resampled r0 [] [] \<and> rs_anchor r0 = anchor \<and> rs_source_rate_hz r0 = rate \<and>
    rs_process_generation r0 = pg \<and> rs_stream_generation r0 = sg"
    using resampler_new_resampled [OF new rate utc] .
  have s: "resampled r xs events \<and> rs_anchor r = anchor \<and> rs_source_rate_hz r = rate \<and>
    rs_process_generation r = pg \<and> rs_stream_generation r = sg"
    using push_samples_ok [of r0 "[]" "[]" xs "ev_position anchor" 0, OF _ xs _ push] n by simp
  have a: "anchor_tick r = a" using s by (simp add: anchor_tick_def a_def)
  have ev: "event_ok r xs (rs_next_output_tick r) e" if "e \<in> set events" for e
    using s that by (auto simp: resampled_def events_ok_def list_all_iff)
  show ?thesis
  proof (intro conjI allI impI)
    fix w assume "Window w \<in> set events"
    then have "window_ok r xs (rs_next_output_tick r) w" using ev by fastforce
    then show "win_process_generation w = pg" "win_stream_generation w = sg"
      "win_slot_start_utc_millis w mod 15000 = 0" "a \<le> 12 * win_slot_start_utc_millis w"
      "win_samples w = map (\<lambda>j. output_at xs rate (12 * win_slot_start_utc_millis w - a + int j))
                         [0..<180000]"
      using s a by (simp_all add: window_ok_def)
  next
    fix i assume "Incomplete i \<in> set events"
    then have "event_ok r xs (rs_next_output_tick r) (Incomplete i)" using ev by blast
    then show "inc_reason i = CaptureStartedLate" "12 * start_utc_unix_millis (inc_slot i) < a"
      "a < 12 * start_utc_unix_millis (inc_slot i) + 180000"
      using a by simp_all
  qed (use s a in \<open>auto simp: resampled_def events_ok_def\<close>)
qed

definition sample_anchor :: capture_time_evidence where
  "sample_anchor = \<lparr>ev_position = 0, ev_utc_unix_millis = 44999, ev_monotonic_millis = 7\<rparr>"

definition sample_resampler :: rational_resampler where
  "sample_resampler =
     \<lparr>rs_anchor = sample_anchor, rs_source_rate_hz = 8000, rs_process_generation = ProcessGeneration 1,
      rs_stream_generation = StreamGeneration 1, rs_next_output_tick = 539988,
      rs_previous = None, rs_active = None\<rparr>"

definition sample_outcome :: resampler_outcome where
  "sample_outcome = push_samples sample_resampler 0 0 [0, 3, 6, 9, 12, 15, 18, 21, 24, 27] []"

lemma sample_push:
  "fst sample_outcome = Ok () \<and>
   snd (snd sample_outcome) =
     [Incomplete \<lparr>inc_slot = Ft8ReceiveSlot 30000, inc_reason = CaptureStartedLate,
                  inc_accumulated_samples = 12\<rparr>]"
  by (simp add: sample_outcome_def sample_resampler_def sample_anchor_def push_sample_def
      push_loop.simps loop_target_def push_output_def open_active_def mapping_for_tick_def
      window_accumulator_new_def incomplete_event_def interpolate_def audio_bounds
      checked_offset_u64_def capture_time_evidence_new_def ft8_receive_slot_new_def Let_def)

theorem resampler_emits_interpolated_windows_witness:
  "rational_resampler_new sample_anchor 8000 (ProcessGeneration 1) (StreamGeneration 1)
     = Ok sample_resampler \<and>
   rs_next_output_tick (fst (snd sample_outcome)) = 539988 + 14 \<and>
   map event_tick (snd (snd sample_outcome)) = [360000]"
proof -
  have new: "rational_resampler_new sample_anchor 8000 (ProcessGeneration 1) (StreamGeneration 1)
     = Ok sample_resampler"
    by (simp add: rational_resampler_new_def sample_anchor_def sample_resampler_def)
  have "push_samples sample_resampler (ev_position sample_anchor) 0
      [0, 3, 6, 9, 12, 15, 18, 21, 24, 27] [] = (Ok (), fst (snd sample_outcome), snd (snd sample_outcome))"
    using sample_push by (simp add: sample_outcome_def sample_anchor_def prod_eq_iff)
  from resampler_emits_interpolated_windows [OF new _ _ _ _ _ this] show ?thesis
    using new sample_push by (simp add: sample_anchor_def ticks_after_def in_range_def)
qed


section \<open>How the stream is cut into batches does not matter\<close>

text \<open>Events are only ever appended: each operation adds what it adds to an empty list.\<close>

definition framed ::
  "(receive_timeline_event list \<Rightarrow> resampler_outcome) \<Rightarrow> bool" where
  "framed f \<longleftrightarrow> (\<forall>ev. f ev = (case f [] of (res, r', new) \<Rightarrow> (res, r', ev @ new)))"

lemma framedD: "framed f \<Longrightarrow> f [] = (res, r', new) \<Longrightarrow> f ev = (res, r', ev @ new)"
  unfolding framed_def by (metis case_prod_conv)

lemma framed_bind:
  assumes f: "framed f" and g: "\<And>r. framed (g r)"
  shows "framed (\<lambda>ev. case f ev of
     (Inl e, r1, ev1) \<Rightarrow> (Err e, r1, ev1) | (Inr _, r1, ev1) \<Rightarrow> g r1 ev1)"
  unfolding framed_def
proof
  fix ev
  obtain res r1 new where e: "f [] = (res, r1, new)" by (metis prod_cases3)
  obtain res2 r2 new2 where e2: "g r1 [] = (res2, r2, new2)" by (metis prod_cases3)
  show "(case f ev of (Inl e, r1, ev1) \<Rightarrow> (Err e, r1, ev1) | (Inr _, r1, ev1) \<Rightarrow> g r1 ev1) =
    (case case f [] of (Inl e, r1, ev1) \<Rightarrow> (Err e, r1, ev1) | (Inr _, r1, ev1) \<Rightarrow> g r1 ev1 of
       (res, r', new) \<Rightarrow> (res, r', ev @ new))"
    using e framedD [OF f e, of ev] framedD [OF g e2, of "ev @ new"] framedD [OF g e2, of new]
    by (cases res) auto
qed

lemma framed_push_output: "framed (push_output r v)"
  unfolding framed_def push_output_def open_active_def
  by (auto simp: Let_def split: option.splits sum.splits if_splits)


lemma framed_append:
  assumes "framed f" "f ev = (res, r', out)"
  shows "f (pre @ ev) = (res, r', pre @ out)"
proof -
  obtain res0 r0 new where e: "f [] = (res0, r0, new)" by (metis prod_cases3)
  show ?thesis using framedD [OF assms(1) e] assms(2) by simp
qed

lemma push_loop_append:
  assumes "push_loop r d x ct events = (res, r', out)"
  shows "push_loop r d x ct (pre @ events) = (res, r', pre @ out)"
  using assms
proof (induction r d x ct events rule: push_loop.induct)
  case (1 r d x ct events)
  show ?case
  proof (cases "loop_target r d x ct")
    case (Inl e)
    then show ?thesis using "1.prems" by (simp add: push_loop.simps)
  next
    case (Inr t)
    show ?thesis
    proof (cases t)
      case None
      then show ?thesis using "1.prems" Inr by (simp add: push_loop.simps)
    next
      case (Some v)
      obtain res1 r1 out1 where o: "push_output r v events = (res1, r1, out1)" by (metis prod_cases3)
      note o' = framed_append [OF framed_push_output o, of pre]
      show ?thesis
      proof (cases "\<exists>u n. res1 = Ok u \<and> checked_i128 (rs_next_output_tick r1 + 1) = Some n")
        case True
        then obtain u n where un: "res1 = Ok u" "checked_i128 (rs_next_output_tick r1 + 1) = Some n"
          by blast
        have "push_loop r d x ct events = push_loop (r1\<lparr>rs_next_output_tick := n\<rparr>) d x ct out1"
          "push_loop r d x ct (pre @ events)
             = push_loop (r1\<lparr>rs_next_output_tick := n\<rparr>) d x ct (pre @ out1)"
          using Inr Some o o' un by (subst push_loop.simps; simp)+
        then show ?thesis
          using "1.IH" [OF Inr Some o [symmetric] un(1) refl un(2)] "1.prems" by simp
      next
        case False
        then show ?thesis
          using "1.prems" Inr Some o o'
          by (subst push_loop.simps, subst (asm) push_loop.simps) (auto split: sum.splits option.splits)
      qed
    qed
  qed
qed

lemma framed_push_loop: "framed (push_loop r d x ct)"
  unfolding framed_def
  by (metis (mono_tags, lifting) append_Nil2 case_prod_conv prod_cases3 push_loop_append)

lemma framed_pure: "framed (\<lambda>ev. (res, r, ev))"
  by (simp add: framed_def)

lemma framed_case_option:
  assumes "framed f" "\<And>v. framed (g v)"
  shows "framed (\<lambda>ev. case x of None \<Rightarrow> f ev | Some v \<Rightarrow> g v ev)"
  using assms by (cases x) auto

lemmas framed_intros = framed_pure framed_case_option framed_bind framed_push_loop

lemma framed_push_sample: "framed (push_sample r p x)"
  unfolding push_sample_def Let_def by (intro framed_intros)

lemma framed_push_samples: "framed (push_samples r f i xs)"
proof (induction xs arbitrary: r i)
  case Nil
  then show ?case by (simp add: framed_pure)
next
  case (Cons x xs)
  show ?case
    unfolding push_samples.simps by (intro framed_intros framed_push_sample Cons.IH)
qed

lemma push_samples_shift: "push_samples r f (i + k) xs ev = push_samples r (f + k) i xs ev"
proof (induction xs arbitrary: r i ev)
  case (Cons x xs)
  have "f + (i + k) = f + k + i" "i + k + 1 = i + 1 + k" by simp_all
  then show ?case
    using Cons.IH [of _ "i + 1"] by (simp add: add.commute add.left_commute split: option.split sum.split prod.split)
qed simp

lemma push_samples_append:
  "push_samples r f i (xs @ ys) ev =
     (case push_samples r f i xs ev of
        (Inl e, r1, ev1) \<Rightarrow> (Err e, r1, ev1)
      | (Inr _, r1, ev1) \<Rightarrow> push_samples r1 f (i + int (length xs)) ys ev1)"
  by (induction xs arbitrary: r i ev) (auto simp: algebra_simps split: option.splits sum.splits prod.splits)


text \<open>Consecutive batches of one stream, and the events of pushing them one after the other.\<close>

fun contiguous :: "int \<Rightarrow> capture_batch list \<Rightarrow> bool" where
  "contiguous p [] = True"
| "contiguous p (b # bs) =
     (ev_position (cb_first_frame b) = p \<and> contiguous (p + int (length (cb_samples b))) bs)"

fun resampler_run ::
  "rational_resampler \<Rightarrow> capture_batch list
   \<Rightarrow> (receive_timeline_error, receive_timeline_event list) result \<times> rational_resampler" where
  "resampler_run r [] = (Ok [], r)"
| "resampler_run r (b # bs) =
     (case resampler_push r b of
        (Inl e, r1) \<Rightarrow> (Err e, r1)
      | (Inr ev, r1) \<Rightarrow>
          (case resampler_run r1 bs of
             (Inl e, r2) \<Rightarrow> (Err e, r2)
           | (Inr ev2, r2) \<Rightarrow> (Ok (ev @ ev2), r2)))"

text \<open>
  The resampler's result does not depend on how the capture layer cut the stream into
  batches: pushing consecutive batches one by one gives the same events, the same error and the
  same state as pushing all their samples at once.
\<close>

theorem resampler_batching_irrelevant:
  assumes "contiguous p bs"
  shows "resampler_run r bs =
    (case push_samples r p 0 (concat (map cb_samples bs)) [] of
       (Inl e, r', _) \<Rightarrow> (Err e, r')
     | (Inr _, r', ev) \<Rightarrow> (Ok ev, r'))"
  using assms
proof (induction bs arbitrary: r p)
  case Nil
  then show ?case by simp
next
  case (Cons b bs)
  let ?ys = "concat (map cb_samples bs)" and ?l = "int (length (cb_samples b))"
  have p: "ev_position (cb_first_frame b) = p" "contiguous (p + ?l) bs" using Cons.prems by simp_all
  obtain res r1 ev where e: "push_samples r p 0 (cb_samples b) [] = (res, r1, ev)"
    by (metis prod_cases3)
  have a: "push_samples r p 0 (cb_samples b @ ?ys) [] =
      (case res of Inl e \<Rightarrow> (Err e, r1, ev) | Inr _ \<Rightarrow> push_samples r1 (p + ?l) 0 ?ys ev)"
    using push_samples_append [of r p 0 "cb_samples b" ?ys "[]"] e
      push_samples_shift [of _ p 0 ?l] by (simp split: sum.split)
  obtain res2 r2 ev2 where e2: "push_samples r1 (p + ?l) 0 ?ys [] = (res2, r2, ev2)"
    by (metis prod_cases3)
  show ?case
    using Cons.IH [OF p(2), of r1] e a e2 p(1) framedD [OF framed_push_samples e2, of ev]
    by (auto simp: resampler_push_def split: sum.splits)
qed

theorem resampler_batching_irrelevant_witness:
  "contiguous 0 [sample_batch 0 7 None [0, 3, 6, 9], sample_batch 4 8 None [12, 15, 18, 21, 24, 27]] \<and>
   resampler_run sample_resampler
     [sample_batch 0 7 None [0, 3, 6, 9], sample_batch 4 8 None [12, 15, 18, 21, 24, 27]] =
   (Ok [Incomplete \<lparr>inc_slot = Ft8ReceiveSlot 30000, inc_reason = CaptureStartedLate,
                    inc_accumulated_samples = 12\<rparr>], fst (snd sample_outcome))"
proof -
  let ?bs = "[sample_batch 0 7 None [0, 3, 6, 9], sample_batch 4 8 None [12, 15, 18, 21, 24, 27]]"
  have c: "contiguous 0 ?bs" by (simp add: sample_batch_def)
  have m: "concat (map cb_samples ?bs) = [0, 3, 6, 9, 12, 15, 18, 21, 24, 27]"
    by (simp add: sample_batch_def)
  show ?thesis
    using c resampler_batching_irrelevant [OF c, of sample_resampler] sample_push
    unfolding m by (simp add: sample_outcome_def case_prod_beta split: sum.splits)
qed


section \<open>The resampler never fails on realistic evidence\<close>

text \<open>
  Anchor evidence within 10^15 milliseconds and frames, a rate the configuration accepts, and a
  stream that is not older than the process whose monotonic clock stamped it.
\<close>

definition bounded_anchor :: "capture_time_evidence \<Rightarrow> int \<Rightarrow> bool" where
  "bounded_anchor anchor rate \<longleftrightarrow>
     8000 \<le> rate \<and> rate \<le> 384000 \<and>
     0 \<le> ev_utc_unix_millis anchor \<and> ev_utc_unix_millis anchor \<le> 10 ^ 15 \<and>
     0 \<le> ev_monotonic_millis anchor \<and> ev_monotonic_millis anchor \<le> 10 ^ 15 \<and>
     0 \<le> ev_position anchor \<and> ev_position anchor \<le> 10 ^ 15 \<and>
     ev_position anchor * 1000 \<le> ev_monotonic_millis anchor * rate"

abbreviation bounded :: "rational_resampler \<Rightarrow> bool" where
  "bounded r \<equiv> bounded_anchor (rs_anchor r) (rs_source_rate_hz r)"

lemma monotonic_covers_slot:
  assumes "(0::int) < m" "1000 \<le> R" "p * 1000 \<le> mono_ms * R" "0 \<le> p - m * R div 1000"
  shows "m \<le> mono_ms"
proof -
  have "m * R < m * R div 1000 * 1000 + 1000" by simp
  also have "\<dots> \<le> p * 1000 + R" using assms by linarith
  also have "\<dots> \<le> (mono_ms + 1) * R" using assms by (simp add: distrib_right)
  finally have "m < mono_ms + 1" using assms by (simp add: mult_less_cancel_right)
  then show ?thesis by simp
qed

lemma source_delta_bounds:
  assumes "- 180000 < d" "d \<le> 3 * 10 ^ 15" "8000 \<le> R" "R \<le> (384000::int)"
  shows "\<bar>d * R\<bar> \<le> 3 * 10 ^ 15 * 384000" and "\<bar>d * R sdiv 12000\<bar> \<le> 10 ^ 17"
proof -
  have "\<bar>d\<bar> * \<bar>R\<bar> \<le> (3 * 10 ^ 15) * 384000" using assms by (intro mult_mono) auto
  then show b: "\<bar>d * R\<bar> \<le> 3 * 10 ^ 15 * 384000" by (simp add: abs_mult)
  show "\<bar>d * R sdiv 12000\<bar> \<le> 10 ^ 17"
  proof (cases "0 \<le> d * R")
    case True
    then show ?thesis using b by simp
  next
    case False
    then have "d * R sdiv 12000 = - ((- (d * R)) div 12000)" by (simp add: sdiv_neg_pos)
    then show ?thesis using b False by simp
  qed
qed

lemma mapping_total:
  assumes b: "bounded r" and t: "t mod slot_ticks = 0" "t \<le> n" "n < t + slot_ticks"
    and n: "anchor_tick r \<le> n" "n \<le> anchor_tick r + 3 * 10 ^ 15"
  shows "\<exists>m. mapping_for_tick r t = Ok m"
proof -
  let ?R = "rs_source_rate_hz r" and ?u = "ev_utc_unix_millis (rs_anchor r)"
  let ?p = "ev_position (rs_anchor r)" and ?m = "ev_monotonic_millis (rs_anchor r)"
  have B: "8000 \<le> ?R" "?R \<le> 384000" "0 \<le> ?u" "?u \<le> 10 ^ 15" "0 \<le> ?m" "?m \<le> 10 ^ 15"
    "0 \<le> ?p" "?p \<le> 10 ^ 15" "?p * 1000 \<le> ?m * ?R" "anchor_tick r = ?u * 12"
    using b by (auto simp: bounded_anchor_def anchor_tick_def)
  define d where "d = t - anchor_tick r"
  have d: "- 180000 < d" "d \<le> 3 * 10 ^ 15" using t n by (simp_all add: d_def)
  note sb = source_delta_bounds [OF d B(1,2)]
  have "0 \<le> n" using n(1) B(3,10) by simp
  then have t0: "0 \<le> t"
    using slot_of_tick_unique [OF t] by (simp add: pos_imp_zdiv_nonneg_iff flip: slot_of_tick_unique [OF t])
  have t12: "12 * (t div 12) = t" using slot_multiple(1) [OF t(1)] .
  define v where "v = d * ?R sdiv 12000"
  have c: "mapping_for_tick r t =
     (case checked_offset_u64 ?p v of
        None \<Rightarrow> Ok (rs_anchor r)
      | Some source_position \<Rightarrow>
          (case checked_offset_u64 ?m (t div 12 - ?u) of
             None \<Rightarrow> Err TimelineArithmeticOverflow
           | Some mono_ms \<Rightarrow>
               map_err (\<lambda>_. TimelineArithmeticOverflow)
                 (capture_time_evidence_new source_position (t div 12) mono_ms)))"
    using B sb d t0 t12 n t
    by (simp add: mapping_for_tick_def Let_def audio_bounds d_def v_def split: option.split)
  show ?thesis
  proof (cases "checked_offset_u64 ?p v")
    case None
    then show ?thesis using c by simp
  next
    case (Some sp)
    have "\<exists>mo. checked_offset_u64 ?m (t div 12 - ?u) = Some mo"
    proof (cases "?u \<le> t div 12")
      case True
      then show ?thesis using B d t12 by (simp add: checked_offset_u64_def d_def)
    next
      case False
      define m where "m = ?u - t div 12"
      have m: "0 < m" "d = - (12 * m)" using False t12 B(10) by (simp_all add: m_def d_def)
      have "v = - (12 * m * ?R div 12000)"
        using m B(1) unfolding v_def by (subst sdiv_neg_pos) (auto simp: mult_pos_pos)
      also have "12 * m * ?R div 12000 = m * ?R div 1000"
        using div_mult_mult1 [of 12 "m * ?R" 1000] by (simp add: mult.assoc)
      finally have v: "v = - (m * ?R div 1000)" .
      have "0 < m * ?R" using m(1) B(1) by simp
      then have "0 \<le> m * ?R div 1000" by (simp add: pos_imp_zdiv_nonneg_iff)
      then have "0 \<le> ?p - m * ?R div 1000"
        using Some v by (auto simp: checked_offset_u64_def split: if_splits)
      then have "m \<le> ?m" using monotonic_covers_slot [OF m(1) _ B(9)] B(1) by simp
      then show ?thesis using B m(1) by (simp add: checked_offset_u64_def m_def)
    qed
    then show ?thesis using c Some t0 by (auto simp: capture_time_evidence_new_def pos_imp_zdiv_neg_iff)
  qed
qed


lemma window_accumulator_new_total:
  assumes "0 \<le> t" "t mod slot_ticks = 0" "t \<le> 12 * 10 ^ 16"
  shows "\<exists>a. window_accumulator_new t f m = Ok a"
proof -
  have "0 \<le> t div 12" using assms(1) by (simp add: pos_imp_zdiv_nonneg_iff)
  moreover have "t div 12 \<le> 10 ^ 16" using assms(3) by simp
  moreover have "t div 12 mod 15000 = 0" using slot_multiple(3) [OF assms(2)] .
  ultimately show ?thesis
    using assms(1) by (simp add: window_accumulator_new_def ft8_receive_slot_new_def audio_bounds)
qed

lemma open_active_total:
  assumes act: "active_ok r xs n" and n: "n = rs_next_output_tick r" and b: "bounded r"
    and hi: "n \<le> anchor_tick r + 3 * 10 ^ 15"
  shows "\<exists>r' ev'. open_active r events = (Ok (), r', ev')"
proof -
  let ?t = "n div slot_ticks * slot_ticks"
  have at: "0 \<le> anchor_tick r" "anchor_tick r \<le> n" "anchor_tick r \<le> 12 * 10 ^ 15"
    using act b by (auto simp: active_ok_def bounded_anchor_def anchor_tick_def)
  have t: "0 \<le> ?t" "?t \<le> 12 * 10 ^ 16"
    using at hi slot_of_tick(1) [of n] by (simp_all add: pos_imp_zdiv_nonneg_iff)
  have "bounded (r\<lparr>rs_active := None\<rparr>)" "anchor_tick (r\<lparr>rs_active := None\<rparr>) = anchor_tick r"
    using b by (simp_all add: anchor_tick_def)
  then obtain m where m: "mapping_for_tick (r\<lparr>rs_active := None\<rparr>) ?t = Ok m"
    using mapping_total [of "r\<lparr>rs_active := None\<rparr>" ?t n] slot_of_tick at hi by auto
  obtain a where a: "window_accumulator_new ?t n m = Ok a"
    using window_accumulator_new_total [OF t(1) slot_of_tick(3) t(2)] by blast
  have "\<exists>e. (case rs_active r of None \<Rightarrow> Ok None | Some p \<Rightarrow> incomplete_event p) = Ok e"
    using act by (auto simp: active_ok_def acc_ok_def incomplete_event_def split: option.splits)
  then show ?thesis
    using m a n by (auto simp: open_active_def Let_def split: option.splits)
qed

lemma push_output_total:
  assumes act: "active_ok r xs n" and n: "n = rs_next_output_tick r" and ev: "events_ok r xs n events"
    and b: "bounded r" and hi: "n \<le> anchor_tick r + 3 * 10 ^ 15"
  shows "\<exists>r' ev'. push_output r v events = (Ok (), r', ev')"
proof -
  obtain r1 ev1 where o: "open_active r events = (Ok (), r1, ev1)"
    using open_active_total [OF act n b hi] by blast
  obtain a where a: "rs_active r1 = Some a" "acc_ok r xs n a"
    using open_active_ok [OF act n ev o] by blast
  have "0 \<le> wa_slot_tick a div 12" "wa_slot_tick a div 12 mod 15000 = 0"
    "wa_slot a = Ft8ReceiveSlot (wa_slot_tick a div 12)"
    using a(2) slot_multiple(3) by (auto simp: acc_ok_def pos_imp_zdiv_nonneg_iff)
  then have "length xs = 180000 \<Longrightarrow>
      \<exists>w. ft8_receive_window_new pg sg (start_utc_unix_millis (wa_slot a)) m xs = Ok w" for pg sg m xs
    by (simp add: ft8_receive_window_new_Ok)
  note w = this
  show ?thesis
  proof (cases "length (wa_samples a @ [v]) = 180000")
    case True
    then show ?thesis
      using o a(1) w [OF True, of "rs_process_generation r1" "rs_stream_generation r1" "wa_mapping a"]
      by (auto simp: push_output_def Let_def audio_bounds)
  next
    case False
    then show ?thesis using o a(1) by (simp add: push_output_def Let_def audio_bounds)
  qed
qed

lemma push_loop_total:
  assumes "d = int (length xs)" "ct = int (length xs) * 12000" "int (length xs) \<le> 10 ^ 15"
    and "bounded r" "in_loop r xs x"
    and "active_ok r (xs @ [x]) (rs_next_output_tick r)"
    and "events_ok r (xs @ [x]) (rs_next_output_tick r) events"
  shows "\<exists>r' events'. push_loop r d x ct events = (Ok (), r', events')"
  using assms
proof (induction r d x ct events rule: push_loop.induct)
  case (1 r d x ct events)
  let ?R = "rs_source_rate_hz r" and ?d = "int (length xs)" and ?n = "rs_next_output_tick r"
  let ?k = "?n - anchor_tick r"
  have R: "8000 \<le> ?R" "0 < ?R" and u: "0 \<le> anchor_tick r" "anchor_tick r \<le> 12 * 10 ^ 15"
    using "1.prems"(4) by (auto simp: bounded_anchor_def anchor_tick_def)
  have t: "loop_target r d x ct = (if ?d * 12000 < ?k * ?R then Ok None
     else Ok (Some (output_at (xs @ [x]) ?R ?k)))"
    using loop_target_eq [OF "1.prems"(5)] "1.prems"(1,2) by simp
  show ?case
  proof (cases "?d * 12000 < ?k * ?R")
    case True
    then show ?thesis using t by (simp add: push_loop.simps)
  next
    case False
    define v where "v = output_at (xs @ [x]) ?R ?k"
    have tv: "loop_target r d x ct = Ok (Some v)" using t False by (simp add: v_def)
    have k0: "0 \<le> ?k" using "1.prems"(5) by (simp add: in_loop_def)
    have "?k * 8000 \<le> ?k * ?R" using mult_left_mono [OF R(1) k0] .
    then have hi: "?n \<le> anchor_tick r + 3 * 10 ^ 15" using False "1.prems"(3) by simp
    obtain r1 ev1 where o: "push_output r v events = (Ok (), r1, ev1)"
      using push_output_total [OF "1.prems"(6) refl "1.prems"(7,4) hi] by blast
    note k = push_output_keeps [OF o]
    let ?r = "r1\<lparr>rs_next_output_tick := ?n + 1\<rparr>"
    have ck: "checked_i128 (rs_next_output_tick r1 + 1) = Some (?n + 1)"
      using k hi u k0 by simp
    have l: "push_loop r d x ct events = push_loop ?r d x ct ev1"
      by (subst push_loop.simps) (simp only: tv o ck sum.case option.case prod.case)
    have st: "in_loop ?r xs x" "active_ok ?r (xs @ [x]) (rs_next_output_tick ?r)"
      "events_ok ?r (xs @ [x]) (rs_next_output_tick ?r) ev1"
      using loop_step [OF "1.prems"(5,6,7) o v_def False] by simp_all
    show ?thesis
      using "1.IH" [OF tv refl o [symmetric] refl refl ck "1.prems"(1,2,3) _ st] l k "1.prems"(4) by simp
  qed
qed


lemma push_sample_total:
  assumes rs: "resampled r xs events" and x: "is_i16 x" and len: "int (length xs) \<le> 10 ^ 15"
    and b: "bounded r" and pos: "position = ev_position (rs_anchor r) + int (length xs)"
  shows "\<exists>r' events'. push_sample r position x events = (Ok (), r', events')"
proof -
  let ?d = "int (length xs)"
  let ?r = "if rs_previous r = None then r\<lparr>rs_previous := Some (?d, x)\<rparr> else r"
  have "\<exists>r' events'. push_loop ?r ?d x (?d * 12000) events = (Ok (), r', events')"
    using push_loop_total [OF refl refl len _ resampled_in_loop [OF rs x]]
      resampled_extend [OF rs, of "[x]"] len b by simp
  then show ?thesis
    using pos len by (auto simp: push_sample_def Let_def audio_bounds)
qed

lemma push_samples_total:
  assumes "resampled r xs events" "list_all is_i16 ys" "int (length (xs @ ys)) \<le> 10 ^ 15"
    and "bounded r" "first + i = ev_position (rs_anchor r) + int (length xs)"
  shows "\<exists>r' events'. push_samples r first i ys events = (Ok (), r', events')"
  using assms
proof (induction ys arbitrary: r xs events i)
  case Nil
  then show ?case by simp
next
  case (Cons y ys)
  obtain r1 events1 where p: "push_sample r (first + i) y events = (Ok (), r1, events1)"
    using push_sample_total [OF Cons.prems(1) _ _ Cons.prems(4,5)] Cons.prems(2,3) by fastforce
  note s = push_sample_ok [OF Cons.prems(1) _ Cons.prems(5) p]
  have "checked_u64 (first + i) = Some (first + i)"
    using Cons.prems(3,4,5) by (simp add: bounded_anchor_def)
  then show ?case
    using Cons.IH [of r1 "xs @ [y]" events1 "i + 1"] Cons.prems p s by simp
qed

lemma windows_for_covered_slots:
  assumes rs: "resampled r xs events" and s: "s mod 15000 = 0" "anchor_tick r \<le> 12 * s"
    "12 * s + slot_ticks \<le> rs_next_output_tick r"
  shows "\<exists>w. Window w \<in> set events \<and> win_slot_start_utc_millis w = s"
proof -
  let ?n = "rs_next_output_tick r" and ?at = "anchor_tick r"
  have sm: "12 * s mod slot_ticks = 0" using s(1) mult_mod_right [of 12 s 15000] by simp
  have "12 * s + slot_ticks \<le> open_tick r ?n"
  proof (cases "rs_active r")
    case None
    then show ?thesis using s by (simp add: open_tick_def)
  next
    case (Some a)
    then have a: "acc_ok r xs ?n a" using rs by (auto simp: resampled_def active_ok_def)
    have "12 * s < wa_slot_tick a"
      using a s(2,3) by (auto simp: acc_ok_def)
    moreover have "wa_slot_tick a mod slot_ticks = 0" using a by (simp add: acc_ok_def)
    ultimately have "12 * s + slot_ticks \<le> wa_slot_tick a"
      using slot_of_tick_unique [OF sm, of "wa_slot_tick a"] slot_multiple(2) [of "wa_slot_tick a"]
      by (cases "wa_slot_tick a < 12 * s + slot_ticks") auto
    then show ?thesis using Some by (simp add: open_tick_def)
  qed
  then have div_le: "12 * s div slot_ticks + 1 \<le> open_tick r ?n div slot_ticks"
    using zdiv_mono1 [of "12 * s + slot_ticks" "open_tick r ?n" slot_ticks] by simp
  have div_ge: "?at div slot_ticks \<le> 12 * s div slot_ticks" using s(2) by (simp add: zdiv_mono1)
  define j where "j = nat (12 * s div slot_ticks - ?at div slot_ticks)"
  have "(?at div slot_ticks + int j) * slot_ticks = 12 * s"
    using div_ge slot_multiple(2) [OF sm] by (simp add: j_def)
  moreover have "j < nat (open_tick r ?n div slot_ticks - ?at div slot_ticks)"
    using div_le div_ge by (simp add: j_def)
  ultimately have "12 * s \<in> set (slots_between ?at (open_tick r ?n))"
    unfolding slots_between_def by (metis (mono_tags, lifting) add_0 atLeast0LessThan atLeastLessThan_upt
        image_eqI lessThan_iff list.set_map)
  moreover have "map event_tick events = slots_between ?at (open_tick r ?n)"
    using rs unfolding resampled_def events_ok_def by blast
  ultimately have "12 * s \<in> event_tick ` set events" by (metis list.set_map)
  then obtain e where e: "e \<in> set events" "event_tick e = 12 * s" by auto
  have "event_ok r xs ?n e" using rs e(1) by (auto simp: resampled_def events_ok_def list_all_iff)
  then show ?thesis using e s(2) by (cases e) auto
qed

text \<open>
  C14: on realistic evidence the resampler always returns, never fails, and loses nothing: for a
  supported rate, timestamps and positions below 10^15, and a stream not older than the process
  clock, any contiguous stream of up to 10^15 frames is consumed without error, and every
  15 s slot that lies completely between the anchor and the last source sample has its window.
\<close>

theorem resampler_never_fails_and_covers_slots:
  assumes "bounded_anchor anchor rate" and "list_all is_i16 xs" and "int (length xs) \<le> 10 ^ 15"
  shows "\<exists>r0 r events.
    rational_resampler_new anchor rate pg sg = Ok r0 \<and>
    push_samples r0 (ev_position anchor) 0 xs [] = (Ok (), r, events) \<and>
    (\<forall>s. s mod 15000 = 0 \<and> ev_utc_unix_millis anchor \<le> s \<and>
         12 * s + 180000 \<le> 12 * ev_utc_unix_millis anchor + ticks_after rate xs \<longrightarrow>
         (\<exists>w. Window w \<in> set events \<and> win_slot_start_utc_millis w = s))"
proof -
  have bd: "0 < rate" "rate \<le> u32_max" "0 \<le> ev_utc_unix_millis anchor"
    "ev_utc_unix_millis anchor \<le> i64_max"
    using assms(1) by (simp_all add: bounded_anchor_def)
  then obtain r0 where new: "rational_resampler_new anchor rate pg sg = Ok r0"
    by (simp add: rational_resampler_new_def)
  note n = resampler_new_resampled [OF new bd]
  obtain r events where p: "push_samples r0 (ev_position anchor) 0 xs [] = (Ok (), r, events)"
    using push_samples_total [of r0 "[]" "[]" xs "ev_position anchor" 0] n assms by auto
  have s: "resampled r xs events \<and> rs_anchor r = anchor \<and> rs_source_rate_hz r = rate"
    using push_samples_ok [of r0 "[]" "[]" xs "ev_position anchor" 0, OF _ assms(2) _ p] n by simp
  then have "anchor_tick r = 12 * ev_utc_unix_millis anchor"
    "rs_next_output_tick r = 12 * ev_utc_unix_millis anchor + ticks_after rate xs"
    by (simp_all add: resampled_def anchor_tick_def)
  then have "\<exists>w. Window w \<in> set events \<and> win_slot_start_utc_millis w = t"
    if "t mod 15000 = 0" "ev_utc_unix_millis anchor \<le> t"
      "12 * t + 180000 \<le> 12 * ev_utc_unix_millis anchor + ticks_after rate xs" for t
    using windows_for_covered_slots [of r xs events t] s that by simp
  then show ?thesis
    using new p by (intro exI [of _ r0] exI [of _ r] exI [of _ events]) simp
qed

theorem resampler_never_fails_and_covers_slots_witness:
  "bounded_anchor sample_anchor 12000 \<and> int (length (replicate 180012 (5::int))) \<le> 10 ^ 15 \<and>
   ticks_after 12000 (replicate 180012 5) = 180012 \<and>
   (\<exists>r0 r events.
      rational_resampler_new sample_anchor 12000 (ProcessGeneration 1) (StreamGeneration 1) = Ok r0 \<and>
      push_samples r0 0 0 (replicate 180012 5) [] = (Ok (), r, events) \<and>
      (\<exists>w. Window w \<in> set events \<and> win_slot_start_utc_millis w = 45000))"
proof -
  have b: "bounded_anchor sample_anchor 12000" by (simp add: bounded_anchor_def sample_anchor_def)
  have l: "list_all is_i16 (replicate 180012 5)" by (simp add: list_all_iff in_range_def)
  have n: "int (length (replicate 180012 (5::int))) \<le> 10 ^ 15" by (simp only: length_replicate) simp
  have t: "ticks_after 12000 (replicate 180012 5) = 180012"
    by (simp only: ticks_after_def length_replicate replicate_empty) simp
  show ?thesis
    using b n t resampler_never_fails_and_covers_slots [OF b l n, of "ProcessGeneration 1" "StreamGeneration 1"]
    unfolding t by (fastforce simp: sample_anchor_def)
qed

end
