(* ===== verification/SP_Timeline.thy ===== *)
theory SP_Timeline
  imports SP_Resampler_Exact
begin

text \<open>
  \<open>crates/audio/src/timeline.rs\<close>, upper half: \<open>Ft8ReceiveTimeline\<close>.  Capture batches are
  validated against the expected position and the UTC/monotonic anchor, handed to the resampler,
  and every rejected batch discards the slot being accumulated.
\<close>

section \<open>The receive timeline\<close>

record timeline_anchor =
  ta_position :: capture_position
  ta_utc_unix_millis :: int
  ta_monotonic_millis :: int

definition anchor_from_batch :: "capture_batch \<Rightarrow> timeline_anchor" where
  "anchor_from_batch b =
     \<lparr>ta_position = ev_position (cb_first_frame b),
      ta_utc_unix_millis = ev_utc_unix_millis (cb_first_frame b),
      ta_monotonic_millis = ev_monotonic_millis (cb_first_frame b)\<rparr>"

record ft8_receive_timeline =
  tl_process_generation :: process_generation
  tl_stream_generation :: stream_generation
  tl_configuration :: input_configuration
  tl_expected_position :: "capture_position option"
  tl_last_batch_position :: "capture_position option"
  tl_last_monotonic_millis :: "int option"
  tl_anchor :: "timeline_anchor option"
  tl_resampler :: "rational_resampler option"
  tl_health :: receive_timeline_health

definition timeline_new ::
  "process_generation \<Rightarrow> stream_generation \<Rightarrow> input_configuration \<Rightarrow> ft8_receive_timeline" where
  "timeline_new pg sg cfg =
     \<lparr>tl_process_generation = pg, tl_stream_generation = sg, tl_configuration = cfg,
      tl_expected_position = None, tl_last_batch_position = None, tl_last_monotonic_millis = None,
      tl_anchor = None, tl_resampler = None,
      tl_health = \<lparr>th_max_jitter_millis = 0, th_drift_parts_per_million = 0,
                   th_incomplete_slot_count = 0, th_late_batch_count = 0\<rparr>\<rparr>"

definition validate_identity ::
  "ft8_receive_timeline \<Rightarrow> capture_batch \<Rightarrow> (receive_timeline_error, unit) result" where
  "validate_identity t batch =
     (if cb_process_generation batch \<noteq> tl_process_generation t then Err ProcessGenerationChanged
      else if cb_stream_generation batch \<noteq> tl_stream_generation t then Err StreamGenerationChanged
      else if cb_configuration batch \<noteq> tl_configuration t then Err ConfigurationChanged
      else Ok ())"

definition validate_position ::
  "ft8_receive_timeline \<Rightarrow> capture_batch \<Rightarrow> (receive_timeline_error, unit) result" where
  "validate_position t batch =
     (case tl_expected_position t of
        None \<Rightarrow> Ok ()
      | Some expected \<Rightarrow>
          let actual = ev_position (cb_first_frame batch) in
          if actual = expected then Ok ()
          else if actual < expected then
            (if (case tl_last_batch_position t of None \<Rightarrow> False | Some previous \<Rightarrow> actual < previous)
             then Err OutOfOrder else Err (Overlap (expected - actual)))
          else Err (Gap (actual - expected)))"

abbreviation set_max_jitter :: "int \<Rightarrow> ft8_receive_timeline \<Rightarrow> ft8_receive_timeline" where
  "set_max_jitter j t \<equiv> t\<lparr>tl_health := (tl_health t)\<lparr>th_max_jitter_millis := j\<rparr>\<rparr>"

abbreviation set_drift :: "int \<Rightarrow> ft8_receive_timeline \<Rightarrow> ft8_receive_timeline" where
  "set_drift d t \<equiv> t\<lparr>tl_health := (tl_health t)\<lparr>th_drift_parts_per_million := d\<rparr>\<rparr>"

abbreviation add_incomplete :: "int \<Rightarrow> ft8_receive_timeline \<Rightarrow> ft8_receive_timeline" where
  "add_incomplete n t \<equiv> t\<lparr>tl_health := (tl_health t)
     \<lparr>th_incomplete_slot_count := sat_u64 (th_incomplete_slot_count (tl_health t) + n)\<rparr>\<rparr>"

definition validate_drift ::
  "ft8_receive_timeline \<Rightarrow> int \<Rightarrow> int
   \<Rightarrow> (receive_timeline_error, unit) result \<times> ft8_receive_timeline" where
  "validate_drift t observed_ms expected_ms =
     (if expected_ms \<ge> 1000 then
        (case map_option (\<lambda>v. v sdiv expected_ms)
                (checked_i128 ((observed_ms - expected_ms) * 1000000)) of
           None \<Rightarrow> (Err TimelineArithmeticOverflow, t)
         | Some ppm' \<Rightarrow>
             (case checked_i32 ppm' of
                None \<Rightarrow> (Err TimelineArithmeticOverflow, t)
              | Some ppm \<Rightarrow>
                  let t1 = set_drift ppm t in
                  if \<bar>ppm\<bar> > MAX_RECEIVE_DRIFT_PARTS_PER_MILLION
                  then (Err (ExcessiveDrift ppm), t1) else (Ok (), t1)))
      else (Ok (), t))"

definition validate_mapping ::
  "ft8_receive_timeline \<Rightarrow> timeline_anchor \<Rightarrow> capture_batch
   \<Rightarrow> (receive_timeline_error, unit) result \<times> ft8_receive_timeline" where
  "validate_mapping t anchor batch =
     (let first = cb_first_frame batch in
      if (case tl_last_monotonic_millis t of
            None \<Rightarrow> False | Some previous \<Rightarrow> ev_monotonic_millis first < previous)
      then (Err MonotonicRegression, t)
      else if ev_monotonic_millis first < ta_monotonic_millis anchor
      then (Err MonotonicRegression, t)
      else case checked_u64 (ev_position first - ta_position anchor) of
        None \<Rightarrow> (Err OutOfOrder, t)
      | Some frame_delta \<Rightarrow>
          (case checked_u64 (frame_delta * 1000) of
             None \<Rightarrow> (Err TimelineArithmeticOverflow, t)
           | Some scaled \<Rightarrow>
               let expected_ms = scaled div cfg_sample_rate_hz (tl_configuration t);
                   observed_ms = ev_monotonic_millis first - ta_monotonic_millis anchor
               in case checked_i64 (observed_ms - expected_ms) of
                    None \<Rightarrow> (Err TimelineArithmeticOverflow, t)
                  | Some jitter \<Rightarrow>
                      let t1 = set_max_jitter (max (th_max_jitter_millis (tl_health t))
                                 (case checked_u32 \<bar>jitter\<bar> of None \<Rightarrow> u32_max | Some j \<Rightarrow> j)) t in
                      if \<bar>jitter\<bar> > MAX_RECEIVE_JITTER_MILLIS then (Err (ExcessiveJitter jitter), t1)
                      else case checked_i64
                             ((ev_utc_unix_millis first - ev_monotonic_millis first) -
                              (ta_utc_unix_millis anchor - ta_monotonic_millis anchor)) of
                             None \<Rightarrow> (Err TimelineArithmeticOverflow, t1)
                           | Some remap \<Rightarrow>
                               if \<bar>remap\<bar> > MAX_RECEIVE_CLOCK_REMAP_MILLIS
                               then (Err (TimelineClockRemapped remap), t1)
                               else validate_drift t1 observed_ms expected_ms))"

definition advance_expected ::
  "ft8_receive_timeline \<Rightarrow> capture_batch
   \<Rightarrow> (receive_timeline_error, unit) result \<times> ft8_receive_timeline" where
  "advance_expected t batch =
     (let t1 = t\<lparr>tl_last_batch_position := Some (ev_position (cb_first_frame batch)),
                 tl_last_monotonic_millis := Some (ev_monotonic_millis (cb_first_frame batch))\<rparr> in
      case end_position batch of
        Inl _ \<Rightarrow> (Err TimelineArithmeticOverflow, t1)
      | Inr p \<Rightarrow> (Ok (), t1\<lparr>tl_expected_position := Some p\<rparr>))"

definition invalidate_active :: "ft8_receive_timeline \<Rightarrow> ft8_receive_timeline" where
  "invalidate_active t =
     (let t1 = (case tl_resampler t of
                  None \<Rightarrow> t
                | Some r \<Rightarrow>
                    (case discard_active r of
                       (None, _) \<Rightarrow> t
                     | (Some _, _) \<Rightarrow> add_incomplete 1 t))
      in t1\<lparr>tl_anchor := None, tl_resampler := None\<rparr>)"

definition advance_then_fail ::
  "ft8_receive_timeline \<Rightarrow> capture_batch \<Rightarrow> receive_timeline_error
   \<Rightarrow> (receive_timeline_error, receive_timeline_event list) result \<times> ft8_receive_timeline" where
  "advance_then_fail t batch error =
     (case advance_expected t batch of
        (Inl e, t1) \<Rightarrow> (Err e, t1)
      | (Inr _, t1) \<Rightarrow> (Err error, t1))"

fun is_incomplete :: "receive_timeline_event \<Rightarrow> bool" where
  "is_incomplete (Incomplete _) = True"
| "is_incomplete (Window _) = False"

text \<open>The last part of \<open>push\<close>: resample an accepted batch and advance the expected position.\<close>

definition push_accepted ::
  "ft8_receive_timeline \<Rightarrow> capture_batch
   \<Rightarrow> (receive_timeline_error, receive_timeline_event list) result \<times> ft8_receive_timeline" where
  "push_accepted t batch =
     (case (case tl_resampler t of
              Some r \<Rightarrow> Ok r
            | None \<Rightarrow> rational_resampler_new (cb_first_frame batch)
                        (cfg_sample_rate_hz (tl_configuration t))
                        (tl_process_generation t) (tl_stream_generation t)) of
        Inl e \<Rightarrow> (Err e, t)
      | Inr r \<Rightarrow>
          (case resampler_push r batch of
             (Inl e, r1) \<Rightarrow> (Err e, t\<lparr>tl_resampler := Some r1\<rparr>)
           | (Inr events, r1) \<Rightarrow>
               let t1 = add_incomplete (int (length (filter is_incomplete events)))
                          (t\<lparr>tl_resampler := Some r1\<rparr>) in
               (case advance_expected t1 batch of
                  (Inl e, t2) \<Rightarrow> (Err e, t2)
                | (Inr _, t2) \<Rightarrow> (Ok events, t2))))"

definition discontinuity_error ::
  "ft8_receive_timeline \<Rightarrow> capture_batch \<Rightarrow> receive_timeline_error option" where
  "discontinuity_error t batch =
     (case cb_discontinuity batch of
        None \<Rightarrow> None
      | Some d \<Rightarrow> if tl_expected_position t = None \<and> disc_kind d = StreamRestart then None
                  else Some (Discontinuity (disc_kind d)))"

definition timeline_push ::
  "ft8_receive_timeline \<Rightarrow> capture_batch \<Rightarrow> int
   \<Rightarrow> (receive_timeline_error, receive_timeline_event list) result \<times> ft8_receive_timeline" where
  "timeline_push t batch observed_at =
     (case validate_identity t batch of
        Inl e \<Rightarrow> (Err e, t)
      | Inr _ \<Rightarrow>
          let lateness = sat_u64 (observed_at - ev_monotonic_millis (cb_first_frame batch)) in
          if lateness > MAX_RECEIVE_BATCH_LATENESS_MILLIS then
            advance_then_fail
              (invalidate_active (t\<lparr>tl_health := (tl_health t)
                 \<lparr>th_late_batch_count := sat_u64 (th_late_batch_count (tl_health t) + 1)\<rparr>\<rparr>))
              batch (LateData lateness)
          else case validate_position t batch of
            Inl (Gap n) \<Rightarrow> advance_then_fail (invalidate_active t) batch (Gap n)
          | Inl e \<Rightarrow> (Err e, invalidate_active t)
          | Inr _ \<Rightarrow>
              (case discontinuity_error t batch of
                 Some e \<Rightarrow> advance_then_fail (invalidate_active t) batch e
               | None \<Rightarrow>
                   (case tl_anchor t of
                      None \<Rightarrow> push_accepted (t\<lparr>tl_anchor := Some (anchor_from_batch batch)\<rparr>) batch
                    | Some anchor \<Rightarrow>
                        (case validate_mapping t anchor batch of
                           (Inl e, t1) \<Rightarrow> advance_then_fail (invalidate_active t1) batch e
                         | (Inr _, t1) \<Rightarrow> push_accepted t1 batch))))"

section \<open>Lemmas\<close>

text \<open>A batch as the capture layer builds it, with realistic timing evidence.\<close>

definition realistic_batch :: "int \<Rightarrow> capture_batch \<Rightarrow> bool" where
  "realistic_batch rate b \<longleftrightarrow>
     valid_batch b \<and> list_all is_i16 (cb_samples b) \<and> bounded_anchor (cb_first_frame b) rate"

text \<open>
  \<open>timeline_ok t xs\<close>: the timeline has accepted exactly the source samples \<open>xs\<close> since its anchor,
  without a gap, and expects the next frame after them.
\<close>

definition timeline_ok :: "ft8_receive_timeline \<Rightarrow> int list \<Rightarrow> bool" where
  "timeline_ok t xs \<longleftrightarrow>
     (case tl_resampler t of
        None \<Rightarrow> xs = [] \<and> tl_anchor t = None
      | Some r \<Rightarrow>
          (\<exists>events. resampled r xs events) \<and> bounded r \<and> tl_anchor t \<noteq> None \<and>
          rs_source_rate_hz r = cfg_sample_rate_hz (tl_configuration t) \<and>
          rs_process_generation r = tl_process_generation t \<and>
          rs_stream_generation r = tl_stream_generation t \<and>
          tl_expected_position t = Some (ev_position (rs_anchor r) + int (length xs)))"

definition identity_errors :: "receive_timeline_error set" where
  "identity_errors = {ProcessGenerationChanged, StreamGenerationChanged, ConfigurationChanged}"

lemma advance_expected_realistic:
  assumes "realistic_batch rate b"
  shows "advance_expected t b =
    (Ok (), t\<lparr>tl_last_batch_position := Some (ev_position (cb_first_frame b)),
              tl_last_monotonic_millis := Some (ev_monotonic_millis (cb_first_frame b)),
              tl_expected_position := Some (ev_position (cb_first_frame b) + int (length (cb_samples b)))\<rparr>)"
proof -
  have "end_position b = Ok (ev_position (cb_first_frame b) + int (length (cb_samples b)))"
    using assms frame_count_valid [of b]
    by (auto simp: realistic_batch_def valid_batch_def bounded_anchor_def)
  then show ?thesis by (simp add: advance_expected_def del: end_position_Ok)
qed

lemma invalidate_active_clears [simp]:
  "tl_resampler (invalidate_active t) = None" "tl_anchor (invalidate_active t) = None"
  by (simp_all add: invalidate_active_def Let_def)

lemma advance_then_fail_cleared:
  assumes "realistic_batch rate b" "tl_resampler t = None" "tl_anchor t = None"
  shows "\<exists>t'. advance_then_fail t b e = (Err e, t') \<and> timeline_ok t' []"
  using assms by (simp add: advance_then_fail_def advance_expected_realistic timeline_ok_def)

definition no_health :: "ft8_receive_timeline \<Rightarrow> ft8_receive_timeline" where
  "no_health t = t\<lparr>tl_health := \<lparr>th_max_jitter_millis = 0, th_drift_parts_per_million = 0,
     th_incomplete_slot_count = 0, th_late_batch_count = 0\<rparr>\<rparr>"

lemma validate_drift_keeps:
  assumes "validate_drift t obs e = (res, t')" shows "no_health t' = no_health t"
  using assms by (auto simp: validate_drift_def no_health_def Let_def split: option.splits if_splits)

lemma validate_mapping_keeps:
  assumes "validate_mapping t a b = (res, t')"
  shows "t' = t\<lparr>tl_health := tl_health t'\<rparr>"
proof -
  have "no_health (set_max_jitter j t) = no_health t" for j by (simp add: no_health_def)
  then have "no_health t' = no_health t"
    using assms
    by (simp add: validate_mapping_def Let_def split: option.split_asm if_split_asm)
      (metis validate_drift_keeps)+
  then have "(no_health t')\<lparr>tl_health := tl_health t'\<rparr> = (no_health t)\<lparr>tl_health := tl_health t'\<rparr>"
    by simp
  then show ?thesis by (simp add: no_health_def)
qed

lemma timeline_ok_set_health [simp]: "timeline_ok (t\<lparr>tl_health := h\<rparr>) xs = timeline_ok t xs"
  by (simp add: timeline_ok_def split: option.split)


text \<open>The state in which \<open>push\<close> hands an accepted batch to the resampler.\<close>

definition ready_for :: "ft8_receive_timeline \<Rightarrow> int list \<Rightarrow> capture_batch \<Rightarrow> bool" where
  "ready_for t xs b \<longleftrightarrow>
     tl_anchor t \<noteq> None \<and>
     (case tl_resampler t of
        None \<Rightarrow> xs = []
      | Some r \<Rightarrow>
          (\<exists>events. resampled r xs events) \<and> bounded r \<and>
          rs_source_rate_hz r = cfg_sample_rate_hz (tl_configuration t) \<and>
          rs_process_generation r = tl_process_generation t \<and>
          rs_stream_generation r = tl_stream_generation t \<and>
          ev_position (cb_first_frame b) = ev_position (rs_anchor r) + int (length xs))"

lemma resampler_push_ok:
  assumes rs: "resampled r xs events0" and b: "bounded r"
    and batch: "realistic_batch rate batch" and len: "int (length (xs @ cb_samples batch)) \<le> 10 ^ 15"
    and pos: "ev_position (cb_first_frame batch) = ev_position (rs_anchor r) + int (length xs)"
  shows "\<exists>events r'. resampler_push r batch = (Ok events, r') \<and>
    resampled r' (xs @ cb_samples batch) (events0 @ events) \<and> rs_anchor r' = rs_anchor r \<and>
    rs_source_rate_hz r' = rs_source_rate_hz r \<and>
    rs_process_generation r' = rs_process_generation r \<and>
    rs_stream_generation r' = rs_stream_generation r"
proof -
  let ?p = "ev_position (cb_first_frame batch)"
  have i16: "list_all is_i16 (cb_samples batch)" using batch by (simp add: realistic_batch_def)
  obtain r' ev where p: "push_samples r ?p 0 (cb_samples batch) events0 = (Ok (), r', ev)"
    using push_samples_total [OF rs i16 len b, of ?p 0] pos by auto
  obtain res2 r2 new where q: "push_samples r ?p 0 (cb_samples batch) [] = (res2, r2, new)"
    by (metis prod_cases3)
  have eq: "res2 = Ok ()" "r2 = r'" "ev = events0 @ new"
    using framedD [OF framed_push_samples q, of events0] p by simp_all
  show ?thesis
    using push_samples_ok [OF rs i16 _ p] pos q eq by (simp add: resampler_push_def)
qed

lemma push_accepted_ok:
  assumes rdy: "ready_for t xs b" and rb: "realistic_batch (cfg_sample_rate_hz (tl_configuration t)) b"
    and len: "int (length (xs @ cb_samples b)) \<le> 10 ^ 15"
  shows "\<exists>events t' r'. push_accepted t b = (Ok events, t') \<and> timeline_ok t' (xs @ cb_samples b) \<and>
    tl_resampler t' = Some r' \<and>
    rs_anchor r' = (case tl_resampler t of None \<Rightarrow> cb_first_frame b | Some r \<Rightarrow> rs_anchor r) \<and>
    list_all (event_ok r' (xs @ cb_samples b) (rs_next_output_tick r')) events"
proof -
  let ?rate = "cfg_sample_rate_hz (tl_configuration t)"
  obtain r events0 where r: "resampled r xs events0" "bounded r" "rs_source_rate_hz r = ?rate"
      "rs_process_generation r = tl_process_generation t"
      "rs_stream_generation r = tl_stream_generation t"
      "ev_position (cb_first_frame b) = ev_position (rs_anchor r) + int (length xs)"
      "rs_anchor r = (case tl_resampler t of None \<Rightarrow> cb_first_frame b | Some r \<Rightarrow> rs_anchor r)"
    and sel: "(case tl_resampler t of Some r \<Rightarrow> Ok r
       | None \<Rightarrow> rational_resampler_new (cb_first_frame b) ?rate
                   (tl_process_generation t) (tl_stream_generation t)) = Ok r"
  proof (cases "tl_resampler t")
    case None
    then have xs: "xs = []" using rdy by (simp add: ready_for_def)
    have ba: "bounded_anchor (cb_first_frame b) ?rate" using rb by (simp add: realistic_batch_def)
    then obtain r where n: "rational_resampler_new (cb_first_frame b) ?rate
        (tl_process_generation t) (tl_stream_generation t) = Ok r"
      by (simp add: rational_resampler_new_def bounded_anchor_def)
    from resampler_new_resampled [OF n] ba
    have "resampled r [] [] \<and> rs_anchor r = cb_first_frame b \<and> rs_source_rate_hz r = ?rate \<and>
        rs_process_generation r = tl_process_generation t \<and>
        rs_stream_generation r = tl_stream_generation t"
      by (simp add: bounded_anchor_def)
    then show thesis
      by (intro that [of r "[]"]) (use None xs n ba in simp_all)
  next
    case (Some r)
    then obtain events where ev: "resampled r xs events" using rdy by (auto simp: ready_for_def)
    show thesis
      by (rule that [of r events]) (use ev rdy Some in \<open>auto simp: ready_for_def\<close>)
  qed
  obtain events r' where p: "resampler_push r b = (Ok events, r')"
      "resampled r' (xs @ cb_samples b) (events0 @ events)" "rs_anchor r' = rs_anchor r"
      "rs_source_rate_hz r' = rs_source_rate_hz r"
      "rs_process_generation r' = rs_process_generation r"
      "rs_stream_generation r' = rs_stream_generation r"
    using resampler_push_ok [OF r(1,2) rb len r(6)] by blast
  have "list_all (event_ok r' (xs @ cb_samples b) (rs_next_output_tick r')) events"
    using p(2) by (auto simp: resampled_def events_ok_def)
  then show ?thesis
    using p r rdy sel unfolding push_accepted_def sel
    by (auto simp: Let_def advance_expected_realistic [OF rb] timeline_ok_def ready_for_def)
qed


lemma timeline_ready:
  assumes "timeline_ok t xs" "validate_position t b = Ok u" "tl_anchor t \<noteq> None"
  shows "ready_for t xs b"
  using assms
  by (auto simp: timeline_ok_def ready_for_def validate_position_def Let_def
      split: option.splits if_splits)

lemma timeline_fresh:
  assumes "timeline_ok t xs" "tl_anchor t = None"
  shows "xs = [] \<and> tl_resampler t = None \<and> ready_for (t\<lparr>tl_anchor := Some a\<rparr>) xs b"
  using assms by (auto simp: timeline_ok_def ready_for_def split: option.splits)

lemma ready_for_set_health [simp]: "ready_for (t\<lparr>tl_health := h\<rparr>) xs b = ready_for t xs b"
  by (simp add: ready_for_def split: option.split)

text \<open>Every way \<open>push\<close> can end, by the check that decided it.\<close>

lemma timeline_push_cases:
  assumes ok: "timeline_ok t xs" and rb: "realistic_batch (cfg_sample_rate_hz (tl_configuration t)) b"
  shows "(\<exists>e \<in> identity_errors. timeline_push t b obs = (Err e, t)) \<or>
    (\<exists>e t'. timeline_push t b obs = (Err e, t') \<and> timeline_ok t' []) \<or>
    (\<exists>t1. timeline_push t b obs = push_accepted t1 b \<and> ready_for t1 xs b \<and>
       tl_resampler t1 = tl_resampler t \<and> tl_configuration t1 = tl_configuration t)"
proof -
  note fail = advance_then_fail_cleared [OF rb]
  have inv: "timeline_ok (invalidate_active t) []" by (simp add: timeline_ok_def)
  let ?late = "sat_u64 (obs - ev_monotonic_millis (cb_first_frame b)) > 2000"
  consider (ident) e where "validate_identity t b = Err e"
    | (late) u where "validate_identity t b = Ok u" ?late
    | (pos) u e where "validate_identity t b = Ok u" "\<not> ?late" "validate_position t b = Err e"
    | (disc) u v e where "validate_identity t b = Ok u" "\<not> ?late" "validate_position t b = Ok v"
        "discontinuity_error t b = Some e"
    | (new) u v where "validate_identity t b = Ok u" "\<not> ?late" "validate_position t b = Ok v"
        "discontinuity_error t b = None" "tl_anchor t = None"
    | (old) u v a where "validate_identity t b = Ok u" "\<not> ?late" "validate_position t b = Ok v"
        "discontinuity_error t b = None" "tl_anchor t = Some a"
    by (cases "validate_identity t b"; cases "validate_position t b"; cases "discontinuity_error t b";
        cases "tl_anchor t"; blast)
  then show ?thesis
  proof cases
    case ident
    then have "e \<in> identity_errors"
      by (auto simp: validate_identity_def identity_errors_def split: if_splits)
    then show ?thesis using ident by (auto simp: timeline_push_def)
  next
    case late
    then show ?thesis
      using fail [of "invalidate_active (t\<lparr>tl_health := (tl_health t)
          \<lparr>th_late_batch_count := sat_u64 (th_late_batch_count (tl_health t) + 1)\<rparr>\<rparr>)"
          "LateData (sat_u64 (obs - ev_monotonic_millis (cb_first_frame b)))"]
      by (auto simp: timeline_push_def Let_def timeline_bounds)
  next
    case pos
    then show ?thesis
      using fail [of "invalidate_active t" e] inv
      by (cases e) (auto simp: timeline_push_def Let_def timeline_bounds)
  next
    case disc
    then show ?thesis
      using fail [of "invalidate_active t" e] by (auto simp: timeline_push_def Let_def timeline_bounds)
  next
    case new
    then show ?thesis
      using timeline_fresh [OF ok, of "anchor_from_batch b" b]
      by (auto simp: timeline_push_def Let_def timeline_bounds)
  next
    case old
    obtain res t1 where m: "validate_mapping t a b = (res, t1)" by fastforce
    have k: "t1 = t\<lparr>tl_health := tl_health t1\<rparr>" using validate_mapping_keeps [OF m] .
    have "ready_for t xs b" using timeline_ready [OF ok old(3)] old(5) by simp
    then have r: "ready_for t1 xs b" by (subst k) simp
    have s: "tl_resampler t1 = tl_resampler t" "tl_configuration t1 = tl_configuration t"
      by (subst k, simp)+
    show ?thesis
    proof (cases res)
      case (Inl e)
      then show ?thesis
        using old m fail [of "invalidate_active t1" e]
        by (auto simp: timeline_push_def Let_def timeline_bounds)
    next
      case (Inr w)
      then show ?thesis
        using old m r s by (auto simp: timeline_push_def Let_def timeline_bounds)
    qed
  qed
qed

text \<open>
  C10: a window never spans a rejected batch.  While \<open>xs\<close> are the samples accepted since the
  anchor, the next batch is either refused for its identity with no effect, or refused with the
  whole accumulated slot, resampler and anchor discarded, or accepted, and then every window it
  completes is the interpolation of exactly \<open>xs\<close> followed by the batch's samples, with the
  timeline's generations.  No other outcome exists: an accepted batch is never lost to an
  arithmetic error.
\<close>

theorem timeline_push_never_spans_rejection:
  assumes "timeline_ok t xs"
    and "realistic_batch (cfg_sample_rate_hz (tl_configuration t)) b"
    and "int (length (xs @ cb_samples b)) \<le> 10 ^ 15"
  shows "case timeline_push t b obs of
      (Inl e, t') \<Rightarrow> (if e \<in> identity_errors \<and> t' = t then True else timeline_ok t' [])
    | (Inr events, t') \<Rightarrow>
        timeline_ok t' (xs @ cb_samples b) \<and>
        (\<exists>r'. tl_resampler t' = Some r' \<and>
           rs_anchor r' = (case tl_resampler t of None \<Rightarrow> cb_first_frame b | Some r \<Rightarrow> rs_anchor r) \<and>
           list_all (event_ok r' (xs @ cb_samples b) (rs_next_output_tick r')) events)"
proof -
  consider (ident) e where "e \<in> identity_errors" "timeline_push t b obs = (Err e, t)"
    | (rej) e t' where "timeline_push t b obs = (Err e, t')" "timeline_ok t' []"
    | (acc) t1 where "timeline_push t b obs = push_accepted t1 b" "ready_for t1 xs b"
        "tl_resampler t1 = tl_resampler t" "tl_configuration t1 = tl_configuration t"
    using timeline_push_cases [OF assms(1,2)] by blast
  then show ?thesis
  proof cases
    case acc
    then show ?thesis using push_accepted_ok [of t1 xs b] assms(2,3) by auto
  qed simp_all
qed

theorem timeline_push_never_spans_rejection_witness:
  "let t = timeline_new (ProcessGeneration 1) (StreamGeneration 1)
             (cb_configuration (sample_batch 0 7 None [3, 4]));
       b = sample_batch 0 7 None [3, 4]
   in timeline_ok t [] \<and> realistic_batch (cfg_sample_rate_hz (tl_configuration t)) b \<and>
      is_ok (fst (timeline_push t b 20)) \<and>
      timeline_ok (snd (timeline_push t b 20)) [3, 4]"
proof -
  let ?b = "sample_batch 0 7 None [3, 4]"
  let ?t = "timeline_new (ProcessGeneration 1) (StreamGeneration 1) (cb_configuration ?b)"
  have o: "timeline_ok ?t []" by (simp add: timeline_new_def timeline_ok_def)
  have r: "realistic_batch (cfg_sample_rate_hz (tl_configuration ?t)) ?b"
    by (simp add: timeline_new_def realistic_batch_def valid_batch_def bounded_anchor_def
        sample_batch_def in_range_def)
  have p: "is_ok (fst (timeline_push ?t ?b 20))"
    by (simp add: timeline_push_def validate_identity_def validate_position_def discontinuity_error_def
        push_accepted_def timeline_new_def Let_def timeline_bounds rational_resampler_new_def
        resampler_push_def advance_expected_def sample_batch_def push_sample_def end_position_def
        checked_advance_def frame_count_def
        push_loop.simps loop_target_def push_output_def open_active_def mapping_for_tick_def
        window_accumulator_new_def incomplete_event_def interpolate_def audio_bounds
        checked_offset_u64_def capture_time_evidence_new_def ft8_receive_slot_new_def)
  have l: "int (length ([] @ cb_samples ?b)) \<le> 10 ^ 15" by (simp add: sample_batch_def)
  have s: "[] @ cb_samples ?b = [3, 4]" by (simp add: sample_batch_def)
  show ?thesis
    using o r p timeline_push_never_spans_rejection [OF o r l, of 20]
    unfolding Let_def s by (auto simp: is_ok_iff)
qed


lemma validate_drift_accepts:
  assumes "validate_drift t obs e = (Ok u, t')" "1000 \<le> e"
  shows "\<bar>(obs - e) * 1000000 sdiv e\<bar> \<le> 5000"
  using assms by (auto simp: validate_drift_def Let_def timeline_bounds split: option.split_asm if_split_asm)

lemma validate_mapping_accepts:
  assumes "validate_mapping t a b = (Ok u, t')"
  defines "f \<equiv> cb_first_frame b"
  defines "expected \<equiv> (ev_position f - ta_position a) * 1000 div cfg_sample_rate_hz (tl_configuration t)"
  defines "observed \<equiv> ev_monotonic_millis f - ta_monotonic_millis a"
  shows "ta_position a \<le> ev_position f \<and> 0 \<le> observed \<and> \<bar>observed - expected\<bar> \<le> 50 \<and>
    \<bar>(ev_utc_unix_millis f - ta_utc_unix_millis a) - observed\<bar> \<le> 20 \<and>
    (1000 \<le> expected \<longrightarrow> \<bar>(observed - expected) * 1000000 sdiv expected\<bar> \<le> 5000)"
proof -
  obtain fd sc j rm t1 where c: "\<not> ev_monotonic_millis f < ta_monotonic_millis a"
      "checked_u64 (ev_position f - ta_position a) = Some fd" "checked_u64 (fd * 1000) = Some sc"
      "checked_i64 (observed - sc div cfg_sample_rate_hz (tl_configuration t)) = Some j" "\<not> \<bar>j\<bar> > 50"
      "checked_i64 ((ev_utc_unix_millis f - ev_monotonic_millis f) -
         (ta_utc_unix_millis a - ta_monotonic_millis a)) = Some rm" "\<not> \<bar>rm\<bar> > 20"
      "validate_drift t1 observed (sc div cfg_sample_rate_hz (tl_configuration t)) = (Ok u, t')"
    using assms(1) unfolding f_def observed_def validate_mapping_def Let_def timeline_bounds
    by (simp split: option.split_asm if_split_asm del: checked_Some checked_None)
  then have "sc div cfg_sample_rate_hz (tl_configuration t) = expected"
    by (auto simp: expected_def)
  then show ?thesis
    using c validate_drift_accepts [of t1 observed expected u t'] by (auto simp: observed_def)
qed

text \<open>
  C34: a batch the timeline accepts after its anchor is consistent with it: same generations and
  configuration, at most 2 s old, exactly the next frame of the stream, without discontinuity
  unless nothing was expected yet; its monotonic stamp is within 50 ms and its UTC stamp within
  70 ms of the time extrapolated from the anchor by counting frames, and after the first second
  the estimated rate error is at most 5000 ppm.
\<close>

theorem accepted_batch_is_consistent:
  assumes "timeline_push t b obs = (Ok events, t')" and "tl_anchor t = Some a"
  defines "expected \<equiv> (ev_position (cb_first_frame b) - ta_position a) * 1000
                        div cfg_sample_rate_hz (tl_configuration t)"
  shows "cb_process_generation b = tl_process_generation t \<and>
    cb_stream_generation b = tl_stream_generation t \<and> cb_configuration b = tl_configuration t \<and>
    obs - ev_monotonic_millis (cb_first_frame b) \<le> 2000 \<and>
    (case tl_expected_position t of
       None \<Rightarrow> True
     | Some p \<Rightarrow> ev_position (cb_first_frame b) = p \<and> cb_discontinuity b = None) \<and>
    \<bar>ev_monotonic_millis (cb_first_frame b) - (ta_monotonic_millis a + expected)\<bar> \<le> 50 \<and>
    \<bar>ev_utc_unix_millis (cb_first_frame b) - (ta_utc_unix_millis a + expected)\<bar> \<le> 70 \<and>
    (1000 \<le> expected \<longrightarrow>
       \<bar>(ev_monotonic_millis (cb_first_frame b) - ta_monotonic_millis a - expected) * 1000000
         sdiv expected\<bar> \<le> 5000)"
proof -
  obtain u v w t1 where s: "validate_identity t b = Ok u"
      "\<not> sat_u64 (obs - ev_monotonic_millis (cb_first_frame b)) > 2000"
      "validate_position t b = Ok v" "discontinuity_error t b = None"
      "validate_mapping t a b = (Ok w, t1)"
    using assms(1,2)
    by (auto simp: timeline_push_def advance_then_fail_def Let_def timeline_bounds
        split: sum.split_asm if_split_asm option.split_asm prod.split_asm receive_timeline_error.split_asm)
  have "obs - ev_monotonic_millis (cb_first_frame b) \<le> 2000"
    using s(2) by (simp add: not_less saturate_le_iff)
  moreover have "case tl_expected_position t of None \<Rightarrow> True
     | Some p \<Rightarrow> ev_position (cb_first_frame b) = p \<and> cb_discontinuity b = None"
    using s(3,4) by (auto simp: validate_position_def discontinuity_error_def Let_def
        split: option.splits if_splits)
  ultimately show ?thesis
    using s(1) validate_mapping_accepts [OF s(5)] unfolding expected_def
    by (auto simp: validate_identity_def split: if_splits)
qed

definition sample_running_timeline :: ft8_receive_timeline where
  "sample_running_timeline =
     snd (timeline_push (timeline_new (ProcessGeneration 1) (StreamGeneration 1)
            (cb_configuration (sample_batch 0 7 None [3, 4]))) (sample_batch 0 7 None [3, 4]) 20)"

lemmas timeline_eval =
  timeline_push_def validate_identity_def validate_position_def discontinuity_error_def
  validate_mapping_def validate_drift_def push_accepted_def timeline_new_def timeline_bounds
  rational_resampler_new_def resampler_push_def advance_expected_def sample_batch_def
  end_position_def checked_advance_def frame_count_def push_sample_def push_loop.simps
  loop_target_def push_output_def open_active_def mapping_for_tick_def window_accumulator_new_def
  incomplete_event_def interpolate_def audio_bounds checked_offset_u64_def
  capture_time_evidence_new_def ft8_receive_slot_new_def anchor_from_batch_def

theorem accepted_batch_is_consistent_witness:
  "timeline_push sample_running_timeline (sample_batch 2 10 None [5]) 30
     = (Ok [], snd (timeline_push sample_running_timeline (sample_batch 2 10 None [5]) 30)) \<and>
   \<bar>ev_utc_unix_millis (cb_first_frame (sample_batch 2 10 None [5])) - 30007\<bar> \<le> 70"
proof -
  let ?b = "sample_batch 2 10 None [5]"
  have a: "tl_anchor sample_running_timeline
      = Some \<lparr>ta_position = 0, ta_utc_unix_millis = 30007, ta_monotonic_millis = 7\<rparr>"
    by (simp add: sample_running_timeline_def timeline_eval Let_def)
  have "fst (timeline_push sample_running_timeline ?b 30) = Ok []"
    by (simp add: sample_running_timeline_def timeline_eval Let_def)
  then have p: "timeline_push sample_running_timeline ?b 30
      = (Ok [], snd (timeline_push sample_running_timeline ?b 30))"
    by (metis prod.collapse)
  have r: "cfg_sample_rate_hz (tl_configuration sample_running_timeline) = 12000"
    by (simp add: sample_running_timeline_def timeline_eval Let_def)
  show ?thesis
    using p accepted_batch_is_consistent [OF p a] unfolding r by (simp add: sample_batch_def)
qed

end
