(* ===== verification/SP_Clock.thy ===== *)
theory SP_Clock
  imports SP_Time SP_Resampler
begin

text \<open>
  \<open>crates/operations/src/receive_clock.rs\<close>: the receive-clock monitor.  It compares successive
  paired UTC/monotonic samples, latches the first disagreement, requires a number of consecutive
  consistent samples to recover, and gates the windows of the receive timeline: a window is
  released only under a healthy, fresh mapping that agrees with the window's own evidence.

  The readings of \<open>SystemTime\<close> and \<open>Instant\<close> are arguments of \<open>system_clock_sample\<close>; a
  \<open>ReceiveClockSource\<close> is the result of its \<open>sample\<close> call.
\<close>

section \<open>Samples, configuration and faults\<close>

datatype receive_clock_error =
    ClockInvalidGeneration
  | ClockInvalidConfiguration
  | SystemClockBeforeEpoch
  | ClockArithmeticOverflow

datatype clock_process_generation = ClockProcessGeneration (clock_generation_get: int)

definition clock_process_generation_new ::
  "int \<Rightarrow> (receive_clock_error, clock_process_generation) result" where
  "clock_process_generation_new v =
     (if v = 0 then Err ClockInvalidGeneration else Ok (ClockProcessGeneration v))"

record generation_clock_sample =
  gcs_generation :: clock_process_generation
  gcs_sample :: clock_sample

definition duration_millis :: "int \<Rightarrow> (receive_clock_error, int) result" where
  "duration_millis ms = ok_or ClockArithmeticOverflow (checked_u64 ms)"

text \<open>\<open>before_ms\<close>, \<open>utc_ms\<close> and \<open>after_ms\<close> are the three platform readings, in milliseconds;
  \<open>utc_ms\<close> is \<open>None\<close> when the system clock is before the Unix epoch.\<close>

definition system_clock_sample ::
  "clock_process_generation \<Rightarrow> int \<Rightarrow> int option \<Rightarrow> int
   \<Rightarrow> (receive_clock_error, generation_clock_sample) result" where
  "system_clock_sample generation before_ms utc_ms after_ms =
     (case duration_millis before_ms of
        Inl e \<Rightarrow> Err e
      | Inr before \<Rightarrow>
          (case utc_ms of
             None \<Rightarrow> Err SystemClockBeforeEpoch
           | Some utc' \<Rightarrow>
               (case duration_millis after_ms of
                  Inl e \<Rightarrow> Err e
                | Inr after \<Rightarrow>
                    (case checked_u64 (before + sat_u64 (after - before) div 2) of
                       None \<Rightarrow> Err ClockArithmeticOverflow
                     | Some midpoint \<Rightarrow>
                         (case checked_i64 utc' of
                            None \<Rightarrow> Err ClockArithmeticOverflow
                          | Some u \<Rightarrow>
                              (case from_unix_millis u of
                                 Inl _ \<Rightarrow> Err SystemClockBeforeEpoch
                               | Inr instant \<Rightarrow>
                                   Ok \<lparr>gcs_generation = generation,
                                       gcs_sample = \<lparr>utc = instant, monotonic = midpoint\<rparr>\<rparr>))))))"

record receive_clock_config =
  sample_cadence_millis :: int
  freshness_millis :: int
  max_sample_gap_millis :: int
  jump_tolerance_millis :: int
  max_sampling_delay_millis :: int
  recovery_samples :: int

definition receive_clock_config_new ::
  "int \<Rightarrow> int \<Rightarrow> int \<Rightarrow> int \<Rightarrow> int \<Rightarrow> int \<Rightarrow> (receive_clock_error, receive_clock_config) result" where
  "receive_clock_config_new cadence freshness gap tolerance delay recovery =
     (if cadence < 10 \<or> cadence > 10000 \<or> freshness < cadence \<or> freshness > 60000
         \<or> gap < cadence \<or> gap > 300000 \<or> tolerance > 5000 \<or> delay > cadence
         \<or> recovery < 2 \<or> recovery > 10
      then Err ClockInvalidConfiguration
      else Ok \<lparr>sample_cadence_millis = cadence, freshness_millis = freshness,
               max_sample_gap_millis = gap, jump_tolerance_millis = tolerance,
               max_sampling_delay_millis = delay, recovery_samples = recovery\<rparr>)"

definition receive_clock_config_default :: receive_clock_config where
  "receive_clock_config_default =
     \<lparr>sample_cadence_millis = 1000, freshness_millis = 2500, max_sample_gap_millis = 5000,
      jump_tolerance_millis = 100, max_sampling_delay_millis = 250, recovery_samples = 3\<rparr>"

datatype receive_clock_fault =
    FaultProcessGenerationChanged
  | FaultTimelineRegressed
  | FaultUtcJump int
  | FaultStaleMapping int
  | FaultSamplingDelayed int
  | FaultSampleGap int
  | FaultWindowMisaligned int
  | FaultArithmeticOverflow

datatype receive_clock_state =
    ClockHealthy
  | ClockUnhealthy (clock_fault: receive_clock_fault) (recovery_progress: int) (recovery_required: int)

record receive_clock_snapshot =
  snap_generation :: clock_process_generation
  snap_state :: receive_clock_state
  snap_last_accepted :: clock_sample
  snap_observed_at :: monotonic_instant
  snap_mapping_age_millis :: int
  snap_next_sample_due :: monotonic_instant

datatype receive_clock_transition =
    TransHealthy receive_clock_snapshot
  | TransBecameUnhealthy receive_clock_snapshot
  | TransRecovering receive_clock_snapshot
  | TransRecovered receive_clock_snapshot
  | TransUnhealthy receive_clock_snapshot

datatype receive_clock_poll =
    NotDue monotonic_instant
  | Observed receive_clock_transition

record receive_window_alignment =
  align_slot :: ft8_receive_slot
  align_slot_start_monotonic :: monotonic_instant
  align_mapping_age_millis :: int

datatype clock_gated_timeline_event =
    WindowReady ft8_receive_window receive_window_alignment
  | WindowRejected ft8_receive_slot receive_clock_fault
  | GatedIncomplete incomplete_ft8_slot

section \<open>The monitor\<close>

record receive_clock_monitor =
  rcm_generation :: clock_process_generation
  rcm_config :: receive_clock_config
  rcm_state :: receive_clock_state
  rcm_last_accepted :: clock_sample
  rcm_recovery_last :: "clock_sample option"

definition receive_clock_monitor_new ::
  "generation_clock_sample \<Rightarrow> receive_clock_config \<Rightarrow> (receive_clock_error, receive_clock_monitor) result" where
  "receive_clock_monitor_new initial c =
     (case receive_clock_config_new (sample_cadence_millis c) (freshness_millis c)
             (max_sample_gap_millis c) (jump_tolerance_millis c) (max_sampling_delay_millis c)
             (recovery_samples c) of
        Inl e \<Rightarrow> Err e
      | Inr _ \<Rightarrow>
          Ok \<lparr>rcm_generation = gcs_generation initial, rcm_config = c, rcm_state = ClockHealthy,
              rcm_last_accepted = gcs_sample initial, rcm_recovery_last = None\<rparr>)"

definition next_sample_due :: "receive_clock_monitor \<Rightarrow> (receive_clock_error, monotonic_instant) result" where
  "next_sample_due m =
     ok_or ClockArithmeticOverflow
       (checked_u64 (monotonic (rcm_last_accepted m) + sample_cadence_millis (rcm_config m)))"

definition snapshot_unchecked :: "receive_clock_monitor \<Rightarrow> monotonic_instant \<Rightarrow> receive_clock_snapshot" where
  "snapshot_unchecked m observed_at =
     \<lparr>snap_generation = rcm_generation m, snap_state = rcm_state m,
      snap_last_accepted = rcm_last_accepted m, snap_observed_at = observed_at,
      snap_mapping_age_millis = sat_u64 (observed_at - monotonic (rcm_last_accepted m)),
      snap_next_sample_due = (case next_sample_due m of Inl _ \<Rightarrow> u64_max | Inr d \<Rightarrow> d)\<rparr>"

definition latch ::
  "receive_clock_monitor \<Rightarrow> receive_clock_fault \<Rightarrow> monotonic_instant \<Rightarrow> clock_sample option
   \<Rightarrow> receive_clock_transition \<times> receive_clock_monitor" where
  "latch m fault observed_at recovery_last =
     (let was_healthy = (rcm_state m = ClockHealthy);
          m1 = m\<lparr>rcm_state := ClockUnhealthy fault (if recovery_last \<noteq> None then 1 else 0)
                   (recovery_samples (rcm_config m)),
                 rcm_recovery_last := recovery_last\<rparr>
      in ((if was_healthy then TransBecameUnhealthy (snapshot_unchecked m1 observed_at)
           else TransUnhealthy (snapshot_unchecked m1 observed_at)), m1))"

definition clock_compare ::
  "receive_clock_config \<Rightarrow> clock_sample \<Rightarrow> clock_sample \<Rightarrow> receive_clock_fault option" where
  "clock_compare c previous current =
     (case checked_i64 (utc current - utc previous) of
        None \<Rightarrow> Some FaultArithmeticOverflow
      | Some utc_delta \<Rightarrow>
          (case checked_u64 (monotonic current - monotonic previous) of
             None \<Rightarrow> Some FaultTimelineRegressed
           | Some monotonic_delta \<Rightarrow>
               let divergence' = utc_delta - monotonic_delta in
               if utc_delta < 0 then
                 Some (FaultUtcJump (case checked_i64 divergence' of None \<Rightarrow> i64_min | Some d \<Rightarrow> d))
               else if monotonic_delta > max_sample_gap_millis c
               then Some (FaultSampleGap monotonic_delta)
               else let divergence = (case checked_i64 divergence' of
                          None \<Rightarrow> (if divergence' < 0 then i64_min else i64_max)
                        | Some d \<Rightarrow> d)
                    in if \<bar>divergence\<bar> > jump_tolerance_millis c
                       then Some (FaultUtcJump divergence) else None))"

definition clock_snapshot ::
  "receive_clock_monitor \<Rightarrow> monotonic_instant \<Rightarrow> receive_clock_snapshot \<times> receive_clock_monitor" where
  "clock_snapshot m observed_at =
     (let age = sat_u64 (observed_at - monotonic (rcm_last_accepted m));
          m1 = (if age > freshness_millis (rcm_config m) \<and> rcm_state m = ClockHealthy
                then m\<lparr>rcm_state := ClockUnhealthy (FaultStaleMapping age) 0
                         (recovery_samples (rcm_config m)),
                       rcm_recovery_last := None\<rparr>
                else m)
      in (snapshot_unchecked m1 observed_at, m1))"

definition clock_observe ::
  "receive_clock_monitor \<Rightarrow> generation_clock_sample \<Rightarrow> monotonic_instant
   \<Rightarrow> receive_clock_transition \<times> receive_clock_monitor" where
  "clock_observe m obs observed_at =
     (if gcs_generation obs \<noteq> rcm_generation m
      then latch m FaultProcessGenerationChanged observed_at None
      else case checked_u64 (observed_at - monotonic (gcs_sample obs)) of
        None \<Rightarrow> latch m FaultTimelineRegressed observed_at None
      | Some delay \<Rightarrow>
          if delay > max_sampling_delay_millis (rcm_config m)
          then latch m (FaultSamplingDelayed delay) observed_at None
          else (case rcm_state m of
            ClockHealthy \<Rightarrow>
              (case clock_compare (rcm_config m) (rcm_last_accepted m) (gcs_sample obs) of
                 Some fault \<Rightarrow> latch m fault observed_at None
               | None \<Rightarrow>
                   let (s, m1) = clock_snapshot (m\<lparr>rcm_last_accepted := gcs_sample obs\<rparr>) observed_at
                   in (TransHealthy s, m1))
          | ClockUnhealthy fault progress required \<Rightarrow>
              if fault = FaultProcessGenerationChanged
              then let (s, m1) = clock_snapshot m observed_at in (TransUnhealthy s, m1)
              else (case Option.bind (rcm_recovery_last m)
                           (\<lambda>previous. clock_compare (rcm_config m) previous (gcs_sample obs)) of
                 Some new_fault \<Rightarrow> latch m new_fault observed_at (Some (gcs_sample obs))
               | None \<Rightarrow>
                   let progress' = sat_u8 (progress + 1);
                       m1 = m\<lparr>rcm_recovery_last := Some (gcs_sample obs)\<rparr>
                   in if progress' \<ge> required
                      then let (s, m2) = clock_snapshot
                                 (m1\<lparr>rcm_last_accepted := gcs_sample obs, rcm_recovery_last := None,
                                     rcm_state := ClockHealthy\<rparr>) observed_at
                           in (TransRecovered s, m2)
                      else let (s, m2) = clock_snapshot
                                 (m1\<lparr>rcm_state := ClockUnhealthy fault progress' required\<rparr>) observed_at
                           in (TransRecovering s, m2))))"

definition align_window ::
  "receive_clock_monitor \<Rightarrow> ft8_receive_window \<Rightarrow> ft8_receive_slot \<Rightarrow> int
   \<Rightarrow> (receive_clock_fault, receive_window_alignment) result" where
  "align_window m window slot age =
     (let utc_delta = start_utc_unix_millis slot - utc (rcm_last_accepted m) in
      case checked_u64 (monotonic (rcm_last_accepted m) + utc_delta) of
        None \<Rightarrow> Err FaultArithmeticOverflow
      | Some predicted \<Rightarrow>
          (case checked_i64 (ev_monotonic_millis (win_mapping window) - predicted) of
             None \<Rightarrow> Err FaultArithmeticOverflow
           | Some divergence \<Rightarrow>
               if \<bar>divergence\<bar> > jump_tolerance_millis (rcm_config m)
               then Err (FaultWindowMisaligned divergence)
               else Ok \<lparr>align_slot = slot, align_slot_start_monotonic = predicted,
                        align_mapping_age_millis = age\<rparr>))"

definition clock_gate ::
  "receive_clock_monitor \<Rightarrow> receive_timeline_event \<Rightarrow> monotonic_instant
   \<Rightarrow> clock_gated_timeline_event \<times> receive_clock_monitor" where
  "clock_gate m event observed_at =
     (case event of
        Incomplete i \<Rightarrow> (GatedIncomplete i, m)
      | Window w \<Rightarrow>
          let slot = window_slot w; (snapshot, m1) = clock_snapshot m observed_at in
          (case snap_state snapshot of
             ClockUnhealthy fault _ _ \<Rightarrow> (WindowRejected slot fault, m1)
           | ClockHealthy \<Rightarrow>
               (case align_window m1 w slot (snap_mapping_age_millis snapshot) of
                  Inr alignment \<Rightarrow> (WindowReady w alignment, m1)
                | Inl fault \<Rightarrow>
                    (WindowRejected slot fault,
                     m1\<lparr>rcm_state := ClockUnhealthy fault 0 (recovery_samples (rcm_config m1)),
                        rcm_recovery_last := None\<rparr>))))"

text \<open>\<open>ReceiveClockDriver::poll\<close>, with the result of \<open>source.sample()\<close> as its argument.\<close>

definition driver_poll ::
  "(receive_clock_error, generation_clock_sample) result \<Rightarrow> receive_clock_monitor
   \<Rightarrow> (receive_clock_error, receive_clock_poll) result \<times> receive_clock_monitor" where
  "driver_poll sampled m =
     (case sampled of
        Inl e \<Rightarrow> (Err e, m)
      | Inr obs \<Rightarrow>
          (case next_sample_due m of
             Inl e \<Rightarrow> (Err e, m)
           | Inr due \<Rightarrow>
               if monotonic (gcs_sample obs) < due then (Ok (NotDue due), m)
               else let (t, m1) = clock_observe m obs (monotonic (gcs_sample obs))
                    in (Ok (Observed t), m1)))"

section \<open>Lemmas\<close>

interpretation clock_process_generation_value:
  checked_value clock_process_generation_new clock_generation_get "\<lambda>v. v \<noteq> 0"
  by unfold_locales (auto simp: clock_process_generation_new_def split: if_splits)

lemma system_clock_sample_midpoint:
  assumes "system_clock_sample g b u a = Ok s" "b \<le> a"
  shows "b \<le> monotonic (gcs_sample s) \<and> monotonic (gcs_sample s) \<le> a \<and> gcs_generation s = g \<and>
    u = Some (utc (gcs_sample s)) \<and> 0 \<le> utc (gcs_sample s)"
  using assms
  by (auto simp: system_clock_sample_def duration_millis_def from_unix_millis_def
      split: sum.splits option.splits if_splits)

lemma driver_not_due:
  assumes "driver_poll sampled m = (Ok (NotDue d), m')" shows "m' = m"
  using assms by (auto simp: driver_poll_def split: sum.splits if_splits prod.splits)

text \<open>The configurations \<open>ReceiveClockConfig::new\<close> accepts.\<close>

definition valid_clock_config :: "receive_clock_config \<Rightarrow> bool" where
  "valid_clock_config c \<longleftrightarrow>
     10 \<le> sample_cadence_millis c \<and> sample_cadence_millis c \<le> 10000 \<and>
     sample_cadence_millis c \<le> freshness_millis c \<and> freshness_millis c \<le> 60000 \<and>
     sample_cadence_millis c \<le> max_sample_gap_millis c \<and> max_sample_gap_millis c \<le> 300000 \<and>
     jump_tolerance_millis c \<le> 5000 \<and> max_sampling_delay_millis c \<le> sample_cadence_millis c \<and>
     2 \<le> recovery_samples c \<and> recovery_samples c \<le> 10"

lemma receive_clock_monitor_new_Ok:
  "receive_clock_monitor_new g c = Ok m \<longleftrightarrow>
     valid_clock_config c \<and>
     m = \<lparr>rcm_generation = gcs_generation g, rcm_config = c, rcm_state = ClockHealthy,
          rcm_last_accepted = gcs_sample g, rcm_recovery_last = None\<rparr>"
  by (auto simp: receive_clock_monitor_new_def receive_clock_config_new_def valid_clock_config_def)

lemma default_config_valid: "valid_clock_config receive_clock_config_default"
  by (simp add: valid_clock_config_def receive_clock_config_default_def)


text \<open>
  C11: the gate is exact.  A complete window is released, with the monitor unchanged, exactly when
  the monitor is healthy, the last accepted mapping is fresh, and the window's own monotonic
  evidence lies within the tolerance of the slot start predicted from that mapping; in every
  other case it is rejected for its slot and the monitor is unhealthy afterwards.
\<close>

theorem gate_releases_exactly_aligned_windows:
  "let slot = window_slot w;
       age = sat_u64 (at - monotonic (rcm_last_accepted m));
       predicted = monotonic (rcm_last_accepted m) + (start_utc_unix_millis slot - utc (rcm_last_accepted m));
       divergence = ev_monotonic_millis (win_mapping w) - predicted
   in if rcm_state m = ClockHealthy \<and> age \<le> freshness_millis (rcm_config m) \<and>
         is_u64 predicted \<and> is_i64 divergence \<and> \<bar>divergence\<bar> \<le> jump_tolerance_millis (rcm_config m)
      then clock_gate m (Window w) at =
             (WindowReady w \<lparr>align_slot = slot, align_slot_start_monotonic = predicted,
                             align_mapping_age_millis = age\<rparr>, m)
      else (\<exists>fault. fst (clock_gate m (Window w) at) = WindowRejected slot fault) \<and>
           rcm_state (snd (clock_gate m (Window w) at)) \<noteq> ClockHealthy"
proof (cases "rcm_state m = ClockHealthy \<and>
    sat_u64 (at - monotonic (rcm_last_accepted m)) \<le> freshness_millis (rcm_config m)")
  case True
  then have s: "clock_snapshot m at = (snapshot_unchecked m at, m)" by (simp add: clock_snapshot_def Let_def)
  show ?thesis
    using True
    by (auto simp: clock_gate_def s snapshot_unchecked_def align_window_def Let_def in_range_def
        split: option.splits)
next
  case False
  then have "rcm_state (snd (clock_snapshot m at)) \<noteq> ClockHealthy \<and>
      snap_state (fst (clock_snapshot m at)) = rcm_state (snd (clock_snapshot m at))"
    by (auto simp: clock_snapshot_def Let_def snapshot_unchecked_def)
  then show ?thesis
    using False
    by (cases "rcm_state (snd (clock_snapshot m at))") (auto simp: clock_gate_def Let_def split: prod.splits)
qed

section \<open>Recovery\<close>

text \<open>
  The monitor is driven by observations, window gating and snapshots in any order.  Only
  observations are evidence; \<open>observed is\<close> are those among the inputs \<open>is\<close>.
\<close>

datatype clock_input =
    ObserveInput generation_clock_sample monotonic_instant
  | GateInput receive_timeline_event monotonic_instant
  | SnapshotInput monotonic_instant

fun clock_step :: "receive_clock_monitor \<Rightarrow> clock_input \<Rightarrow> receive_clock_monitor" where
  "clock_step m (ObserveInput obs at) = snd (clock_observe m obs at)"
| "clock_step m (GateInput event at) = snd (clock_gate m event at)"
| "clock_step m (SnapshotInput at) = snd (clock_snapshot m at)"

fun observed :: "clock_input list \<Rightarrow> (generation_clock_sample \<times> monotonic_instant) list" where
  "observed [] = []"
| "observed (ObserveInput obs at # is) = (obs, at) # observed is"
| "observed (_ # is) = observed is"

lemma observed_append [simp]: "observed (xs @ ys) = observed xs @ observed ys"
  by (induction xs rule: observed.induct) auto

text \<open>An observation that is in time, and a list of them that is consistent throughout.\<close>

definition timely :: "clock_process_generation \<Rightarrow> receive_clock_config
    \<Rightarrow> generation_clock_sample \<times> monotonic_instant \<Rightarrow> bool" where
  "timely g c = (\<lambda>(obs, at). gcs_generation obs = g \<and> monotonic (gcs_sample obs) \<le> at \<and>
     at - monotonic (gcs_sample obs) \<le> max_sampling_delay_millis c)"

definition consistent_run :: "clock_process_generation \<Rightarrow> receive_clock_config
    \<Rightarrow> (generation_clock_sample \<times> monotonic_instant) list \<Rightarrow> bool" where
  "consistent_run g c os \<longleftrightarrow>
     list_all (timely g c) os \<and>
     successively (\<lambda>a b. clock_compare c (gcs_sample (fst a)) (gcs_sample (fst b)) = None) os"

definition last_n :: "nat \<Rightarrow> 'a list \<Rightarrow> 'a list" where
  "last_n n xs = drop (length xs - n) xs"

lemma last_n_snoc: "n \<le> length xs \<Longrightarrow> last_n (Suc n) (xs @ [x]) = last_n n xs @ [x]"
  by (simp add: last_n_def)

lemma last_last_n: "0 < n \<Longrightarrow> xs \<noteq> [] \<Longrightarrow> last (last_n n xs) = last xs"
  by (simp add: last_n_def)

lemma last_n_Nil_iff: "n \<le> length xs \<Longrightarrow> last_n n xs = [] \<longleftrightarrow> n = 0"
  by (auto simp: last_n_def)

text \<open>The progress counter counts the consistent observations at the end of the evidence.\<close>

definition recovery_inv :: "receive_clock_monitor
    \<Rightarrow> (generation_clock_sample \<times> monotonic_instant) list \<Rightarrow> bool" where
  "recovery_inv m os \<longleftrightarrow>
     valid_clock_config (rcm_config m) \<and>
     (case rcm_state m of
        ClockHealthy \<Rightarrow> True
      | ClockUnhealthy fault p required \<Rightarrow>
          required = recovery_samples (rcm_config m) \<and> 0 \<le> p \<and> p < required \<and>
          (fault = FaultProcessGenerationChanged \<longrightarrow> p = 0) \<and> nat p \<le> length os \<and>
          consistent_run (rcm_generation m) (rcm_config m) (last_n (nat p) os) \<and>
          rcm_recovery_last m = (if p = 0 then None else Some (gcs_sample (fst (last os)))))"

lemma consistent_run_Nil [simp]: "consistent_run g c []"
  by (simp add: consistent_run_def)

lemma consistent_run_snoc:
  assumes "consistent_run g c os" "timely g c x"
    and "os \<noteq> [] \<Longrightarrow> clock_compare c (gcs_sample (fst (last os))) (gcs_sample (fst x)) = None"
  shows "consistent_run g c (os @ [x])"
  using assms by (cases os rule: rev_cases) (auto simp: consistent_run_def successively_append_iff)

lemma clock_snapshot_snd:
  "snd (clock_snapshot m at) = m \<or>
   rcm_state m = ClockHealthy \<and>
   snd (clock_snapshot m at) = m\<lparr>rcm_state := ClockUnhealthy
     (FaultStaleMapping (sat_u64 (at - monotonic (rcm_last_accepted m)))) 0 (recovery_samples (rcm_config m)),
     rcm_recovery_last := None\<rparr>"
  by (auto simp: clock_snapshot_def Let_def)

lemma recovery_inv_latched:
  assumes "valid_clock_config (rcm_config m)"
  shows "recovery_inv (m\<lparr>rcm_state := ClockUnhealthy f 0 (recovery_samples (rcm_config m)),
                         rcm_recovery_last := None\<rparr>) os"
  using assms by (simp add: recovery_inv_def valid_clock_config_def last_n_def)

lemma recovery_inv_snapshot:
  assumes "recovery_inv m os" shows "recovery_inv (snd (clock_snapshot m at)) os"
proof -
  have "valid_clock_config (rcm_config m)" using assms by (simp add: recovery_inv_def)
  then show ?thesis using clock_snapshot_snd [of m at] assms recovery_inv_latched [of m] by metis
qed

lemma recovery_inv_gate:
  assumes "recovery_inv m os" shows "recovery_inv (snd (clock_gate m event at)) os"
proof -
  have s: "recovery_inv (snd (clock_snapshot m at)) os" using recovery_inv_snapshot [OF assms] .
  then have "valid_clock_config (rcm_config (snd (clock_snapshot m at)))"
    by (simp add: recovery_inv_def)
  note l = recovery_inv_latched [OF this]
  show ?thesis
    using assms s l
    by (auto simp: clock_gate_def Let_def split: receive_timeline_event.split
        receive_clock_state.split sum.split prod.split)
qed


lemma latch_snd [simp]:
  "snd (latch m f at None) =
     m\<lparr>rcm_state := ClockUnhealthy f 0 (recovery_samples (rcm_config m)), rcm_recovery_last := None\<rparr>"
  "snd (latch m f at (Some s)) =
     m\<lparr>rcm_state := ClockUnhealthy f 1 (recovery_samples (rcm_config m)), rcm_recovery_last := Some s\<rparr>"
  by (simp_all add: latch_def Let_def)

text \<open>
  What one observation does to an unhealthy monitor: it makes the monitor start over, or adds
  itself to the consistent observations; in the latter case the monitor is healthy again when
  enough have been collected.
\<close>

lemma observe_untimely:
  assumes "\<not> timely (rcm_generation m) (rcm_config m) (obs, at)"
  shows "\<exists>f. clock_observe m obs at = latch m f at None"
  using assms by (auto simp: clock_observe_def timely_def split: option.split)

lemma observe_timely_unhealthy:
  assumes v: "valid_clock_config (rcm_config m)" and t: "timely (rcm_generation m) (rcm_config m) (obs, at)"
    and st: "rcm_state m = ClockUnhealthy f p req" and f: "f \<noteq> FaultProcessGenerationChanged"
  shows "snd (clock_observe m obs at) =
    (case Option.bind (rcm_recovery_last m) (\<lambda>s. clock_compare (rcm_config m) s (gcs_sample obs)) of
       Some nf \<Rightarrow> snd (latch m nf at (Some (gcs_sample obs)))
     | None \<Rightarrow>
         if sat_u8 (p + 1) \<ge> req
         then snd (clock_snapshot (m\<lparr>rcm_last_accepted := gcs_sample obs, rcm_recovery_last := None,
                                     rcm_state := ClockHealthy\<rparr>) at)
         else m\<lparr>rcm_recovery_last := Some (gcs_sample obs),
                rcm_state := ClockUnhealthy f (sat_u8 (p + 1)) req\<rparr>)"
proof -
  have d: "0 \<le> at - monotonic (gcs_sample obs)" "at - monotonic (gcs_sample obs) \<le> u64_max"
    "gcs_generation obs = rcm_generation m"
    "\<not> at - monotonic (gcs_sample obs) > max_sampling_delay_millis (rcm_config m)"
    using v t by (auto simp: timely_def valid_clock_config_def)
  have u: "snd (clock_snapshot m' at) = m'" if "rcm_state m' \<noteq> ClockHealthy" for m'
    using clock_snapshot_snd [of m' at] that by auto
  have "snd (clock_snapshot (m\<lparr>rcm_recovery_last := Some (gcs_sample obs),
            rcm_state := ClockUnhealthy f (sat_u8 (p + 1)) req\<rparr>) at) =
          m\<lparr>rcm_recovery_last := Some (gcs_sample obs),
            rcm_state := ClockUnhealthy f (sat_u8 (p + 1)) req\<rparr>"
    by (rule u) simp
  then show ?thesis
    using d st f by (simp add: clock_observe_def Let_def case_prod_beta split: option.split)
qed

lemma observe_timely_generation:
  assumes "valid_clock_config (rcm_config m)" "timely (rcm_generation m) (rcm_config m) (obs, at)"
    and "rcm_state m = ClockUnhealthy FaultProcessGenerationChanged p req"
  shows "snd (clock_observe m obs at) = m"
  using assms clock_snapshot_snd [of m at]
  by (auto simp: clock_observe_def timely_def valid_clock_config_def case_prod_beta split: option.split)

text \<open>
  What one observation does to an unhealthy monitor: it makes the monitor start over, or adds
  itself to the consistent observations; in the latter case the monitor is healthy again when
  enough have been collected.
\<close>

lemma observe_unhealthy:
  assumes inv: "recovery_inv m os" and st: "rcm_state m = ClockUnhealthy f p req"
  shows "recovery_inv (snd (clock_observe m obs at)) (os @ [(obs, at)]) \<and>
    (rcm_state (snd (clock_observe m obs at)) = ClockHealthy \<longrightarrow>
       nat (recovery_samples (rcm_config m)) \<le> length (os @ [(obs, at)]) \<and>
       consistent_run (rcm_generation m) (rcm_config m)
         (last_n (nat (recovery_samples (rcm_config m))) (os @ [(obs, at)])))"
proof -
  let ?c = "rcm_config m" and ?g = "rcm_generation m" and ?os = "os @ [(obs, at)]"
  have v: "valid_clock_config ?c" and req: "req = recovery_samples ?c" and p: "0 \<le> p" "p < req"
    and gen0: "f = FaultProcessGenerationChanged \<longrightarrow> p = 0" and len: "nat p \<le> length os"
    and run: "consistent_run ?g ?c (last_n (nat p) os)"
    and rl: "rcm_recovery_last m = (if p = 0 then None else Some (gcs_sample (fst (last os))))"
    using inv st by (simp_all add: recovery_inv_def)
  have req10: "2 \<le> req" "req \<le> 10" using v req by (simp_all add: valid_clock_config_def)
  let ?cmp = "Option.bind (rcm_recovery_last m) (\<lambda>s. clock_compare ?c s (gcs_sample obs))"
  consider (bad) "\<not> timely ?g ?c (obs, at)"
    | (gen) "timely ?g ?c (obs, at)" "f = FaultProcessGenerationChanged"
    | (jump) nf where "timely ?g ?c (obs, at)" "f \<noteq> FaultProcessGenerationChanged" "?cmp = Some nf"
    | (ok) "timely ?g ?c (obs, at)" "f \<noteq> FaultProcessGenerationChanged" "?cmp = None"
    by fastforce
  then show ?thesis
  proof cases
    case bad
    then show ?thesis using observe_untimely [OF bad] recovery_inv_latched [OF v] by fastforce
  next
    case gen
    then have "snd (clock_observe m obs at) = m"
      using observe_timely_generation [OF v] st by simp
    then show ?thesis
      using v st req p rl gen gen0 by (auto simp: recovery_inv_def last_n_def)
  next
    case jump
    have s: "snd (clock_observe m obs at) = m\<lparr>rcm_state := ClockUnhealthy nf 1 req,
        rcm_recovery_last := Some (gcs_sample obs)\<rparr>"
      using observe_timely_unhealthy [OF v jump(1) st jump(2)] jump(3) req by simp
    have "nf \<noteq> FaultProcessGenerationChanged"
      using jump(3) by (auto simp: clock_compare_def Let_def bind_eq_Some_conv split: option.splits if_splits)
    then show ?thesis
      using s v req req10 jump(1)
      by (simp add: recovery_inv_def last_n_def consistent_run_def)
  next
    case ok
    have ln: "last_n (Suc (nat p)) ?os = last_n (nat p) os @ [(obs, at)]" using last_n_snoc [OF len] .
    have run': "consistent_run ?g ?c (last_n (Suc (nat p)) ?os)"
      unfolding ln
    proof (rule consistent_run_snoc [OF run ok(1)])
      assume "last_n (nat p) os \<noteq> []"
      then have "0 < nat p" "os \<noteq> []" using last_n_Nil_iff [OF len] by (auto simp: last_n_def)
      then show "clock_compare ?c (gcs_sample (fst (last (last_n (nat p) os)))) (gcs_sample (fst (obs, at))) = None"
        using ok(3) rl last_last_n [of "nat p" os] by simp
    qed
    have sat: "sat_u8 (p + 1) = p + 1" using p req10 by simp
    have np: "nat (p + 1) = Suc (nat p)" using p by simp
    note s = observe_timely_unhealthy [OF v ok(1) st ok(2)]
    show ?thesis
    proof (cases "p + 1 \<ge> req")
      case True
      let ?m = "m\<lparr>rcm_last_accepted := gcs_sample obs, rcm_recovery_last := None,
                  rcm_state := ClockHealthy\<rparr>"
      have "recovery_inv ?m ?os" using v by (simp add: recovery_inv_def)
      moreover have "snd (clock_observe m obs at) = snd (clock_snapshot ?m at)"
        using s ok(3) True sat by simp
      moreover have "nat req = Suc (nat p)" using True p np by (metis add_le_imp_le_right zless_imp_add1_zle antisym)
      ultimately show ?thesis
        using recovery_inv_snapshot [of ?m ?os at] run' len req by simp
    next
      case False
      then have "snd (clock_observe m obs at) = m\<lparr>rcm_recovery_last := Some (gcs_sample obs),
          rcm_state := ClockUnhealthy f (p + 1) req\<rparr>"
        using s ok(3) sat by simp
      then show ?thesis
        using v req p run' len ok(2) False np by (simp add: recovery_inv_def)
    qed
  qed
qed

lemma clock_step_inv:
  assumes "recovery_inv m os"
  shows "recovery_inv (clock_step m i) (os @ observed [i])"
proof (cases i)
  case (ObserveInput obs at)
  show ?thesis
  proof (cases "rcm_state m")
    case ClockHealthy
    have v: "valid_clock_config (rcm_config m)" using assms by (simp add: recovery_inv_def)
    note l = recovery_inv_latched [OF v]
    have h: "recovery_inv (m\<lparr>rcm_last_accepted := gcs_sample obs\<rparr>) os'" for os'
      using v ClockHealthy by (simp add: recovery_inv_def)
    show ?thesis
      using ClockHealthy ObserveInput l recovery_inv_snapshot [OF h]
      by (auto simp: clock_observe_def case_prod_beta Let_def split: option.split)
  next
    case (ClockUnhealthy f p req)
    then show ?thesis using observe_unhealthy [OF assms] ObserveInput by simp
  qed
qed (use assms recovery_inv_gate recovery_inv_snapshot in auto)

lemma clock_run_inv:
  assumes "recovery_inv m os"
  shows "recovery_inv (foldl clock_step m is) (os @ observed is)"
  using assms
proof (induction "is" arbitrary: m os)
  case (Cons i "is")
  then show ?case
    using Cons.IH [OF clock_step_inv [OF Cons.prems, of i]] observed_append [of "[i]" "is"] by simp
qed simp


lemma unhealthy_step_to_healthy:
  assumes "rcm_state m \<noteq> ClockHealthy" "rcm_state (clock_step m i) = ClockHealthy"
  shows "\<exists>obs at. i = ObserveInput obs at"
proof (cases i)
  case (GateInput event at)
  then show ?thesis
    using assms clock_snapshot_snd [of m at]
    by (auto simp: clock_gate_def Let_def split: receive_timeline_event.splits
        receive_clock_state.splits sum.splits prod.splits)
next
  case (SnapshotInput at)
  then show ?thesis using assms clock_snapshot_snd [of m at] by auto
qed simp

lemma clock_step_config: "rcm_config (clock_step m i) = rcm_config m \<and>
    rcm_generation (clock_step m i) = rcm_generation m"
proof -
  have s: "rcm_config (snd (clock_snapshot m at)) = rcm_config m \<and>
      rcm_generation (snd (clock_snapshot m at)) = rcm_generation m" for m at
    by (simp add: clock_snapshot_def Let_def)
  show ?thesis
    using s
    by (cases i) (auto simp: clock_observe_def clock_gate_def latch_def Let_def case_prod_beta
        split: option.splits receive_clock_state.splits receive_timeline_event.splits sum.splits)
qed

lemma clock_run_config: "rcm_config (foldl clock_step m is) = rcm_config m \<and>
    rcm_generation (foldl clock_step m is) = rcm_generation m"
  by (induction "is" arbitrary: m) (auto simp: clock_step_config)

text \<open>
  C12: recovery is earned.  Starting from a freshly constructed monitor, after any sequence of
  observations, gated windows and snapshots, if the monitor is unhealthy and the next input makes
  it healthy, then that input is an observation, and it and the observations before it end in at
  least \<open>recovery_samples\<close> consecutive ones that are all of the monitor's generation, all observed
  within the sampling delay, and each consistent with the one before.
\<close>

theorem recovery_needs_consistent_samples:
  assumes new: "receive_clock_monitor_new initial c = Ok m0"
    and unhealthy: "rcm_state (foldl clock_step m0 is) \<noteq> ClockHealthy"
    and healthy: "rcm_state (foldl clock_step m0 (is @ [i])) = ClockHealthy"
  shows "\<exists>obs at. i = ObserveInput obs at \<and>
    nat (recovery_samples c) \<le> length (observed (is @ [i])) \<and>
    consistent_run (gcs_generation initial) c (last_n (nat (recovery_samples c)) (observed (is @ [i])))"
proof -
  let ?m = "foldl clock_step m0 is"
  have c: "rcm_config ?m = c" "rcm_generation ?m = gcs_generation initial"
    using new clock_run_config [of m0 "is"] by (auto simp: receive_clock_monitor_new_Ok)
  have "recovery_inv m0 []" using new by (simp add: receive_clock_monitor_new_Ok recovery_inv_def)
  then have inv: "recovery_inv ?m (observed is)" using clock_run_inv [of m0 "[]" "is"] by simp
  obtain obs at where i: "i = ObserveInput obs at"
    using unhealthy_step_to_healthy [OF unhealthy, of i] healthy by auto
  obtain f p req where "rcm_state ?m = ClockUnhealthy f p req"
    using unhealthy by (cases "rcm_state ?m") auto
  from observe_unhealthy [OF inv this, of obs at] show ?thesis
    using healthy i c by auto
qed

definition sample_obs :: "int \<Rightarrow> int \<Rightarrow> clock_input" where
  "sample_obs u mt = ObserveInput \<lparr>gcs_generation = ClockProcessGeneration 1,
     gcs_sample = \<lparr>utc = u, monotonic = mt\<rparr>\<rparr> mt"

definition sample_monitor :: receive_clock_monitor where
  "sample_monitor =
     \<lparr>rcm_generation = ClockProcessGeneration 1, rcm_config = receive_clock_config_default,
      rcm_state = ClockHealthy, rcm_last_accepted = \<lparr>utc = 90000, monotonic = 1000\<rparr>,
      rcm_recovery_last = None\<rparr>"

lemmas clock_eval =
  clock_observe_def clock_compare_def clock_snapshot_def snapshot_unchecked_def latch_def
  sample_obs_def sample_monitor_def receive_clock_config_default_def

theorem recovery_needs_consistent_samples_witness:
  "rcm_state (foldl clock_step sample_monitor
     [sample_obs 95000 2000, sample_obs 96000 3000, sample_obs 97000 4000])
     = ClockUnhealthy (FaultUtcJump 4000) 2 3 \<and>
   rcm_state (foldl clock_step sample_monitor
     ([sample_obs 95000 2000, sample_obs 96000 3000, sample_obs 97000 4000] @ [sample_obs 98000 5000]))
     = ClockHealthy \<and>
   3 \<le> length (observed [sample_obs 95000 2000, sample_obs 96000 3000, sample_obs 97000 4000,
                           sample_obs 98000 5000])"
proof -
  let ?is = "[sample_obs 95000 2000, sample_obs 96000 3000, sample_obs 97000 4000]"
  have n: "receive_clock_monitor_new \<lparr>gcs_generation = ClockProcessGeneration 1,
      gcs_sample = \<lparr>utc = 90000, monotonic = 1000\<rparr>\<rparr> receive_clock_config_default = Ok sample_monitor"
    by (simp add: receive_clock_monitor_new_Ok default_config_valid sample_monitor_def)
  have u: "rcm_state (foldl clock_step sample_monitor ?is) = ClockUnhealthy (FaultUtcJump 4000) 2 3"
    and h: "rcm_state (foldl clock_step sample_monitor (?is @ [sample_obs 98000 5000])) = ClockHealthy"
    by (simp_all add: clock_eval Let_def)
  show ?thesis
    using u h recovery_needs_consistent_samples [OF n, of ?is "sample_obs 98000 5000"]
    by (simp add: receive_clock_config_default_def)
qed

text \<open>
  A change of process generation is not final.  An observation of another generation latches
  \<open>ProcessGenerationChanged\<close>, and timely observations of the monitor's own generation leave that
  fault in place; but one late observation replaces the fault by \<open>SamplingDelayed\<close>, and three
  consistent observations then make the same monitor healthy again.
\<close>

theorem generation_fault_is_not_final:
  "let other = ObserveInput \<lparr>gcs_generation = ClockProcessGeneration 2,
         gcs_sample = \<lparr>utc = 91000, monotonic = 2000\<rparr>\<rparr> 2000;
       late = ObserveInput \<lparr>gcs_generation = ClockProcessGeneration 1,
         gcs_sample = \<lparr>utc = 92000, monotonic = 3000\<rparr>\<rparr> 4000;
       good = [sample_obs 94000 5000, sample_obs 95000 6000, sample_obs 96000 7000]
   in rcm_state (foldl clock_step sample_monitor [other])
        = ClockUnhealthy FaultProcessGenerationChanged 0 3 \<and>
      rcm_state (foldl clock_step sample_monitor (other # good))
        = ClockUnhealthy FaultProcessGenerationChanged 0 3 \<and>
      rcm_state (foldl clock_step sample_monitor (other # late # good)) = ClockHealthy"
  by (simp add: clock_eval Let_def)

end
