(* ===== verification/SP_Spectrum.thy ===== *)
theory SP_Spectrum
  imports SP_Resampler
begin

text \<open>
  \<open>crates/audio/src/spectrum.rs\<close>: the bounded spectrum and waterfall model.  Everything but the
  DSP itself is modelled: configuration checks, chunk continuity, the row loop, fixed-capacity
  retention, publication tokens.  The floating-point part (Hann window, the \<open>rustfft\<close> transform,
  the logarithm) is the parameter \<open>level\<close>: \<open>level n xs i\<close> is the rounded level in millidecibels
  of bin \<open>i\<close> of the \<open>n\<close>-point transform of \<open>xs\<close>, \<open>None\<close> when its amplitude is not positive.  The
  scratch length requested by \<open>rustfft\<close> is an argument of the constructor.  \<open>usize\<close> has 64 bits.
\<close>

section \<open>Configuration\<close>

datatype spectrum_model_error =
    InvalidFftSize
  | InvalidOverlap
  | InvalidPassband
  | InvalidRowCapacity
  | InvalidPublicationCadence
  | CpuBoundExceeded
  | MemoryBoundExceeded
  | DependencyScratchExceeded
  | EmptyChunk
  | ChunkTooLarge
  | ChunkOutsideSlot
  | SpectrumArithmeticOverflow

definition MIN_SPECTRUM_FFT_SIZE :: nat where "MIN_SPECTRUM_FFT_SIZE = 256"
definition MAX_SPECTRUM_FFT_SIZE :: nat where "MAX_SPECTRUM_FFT_SIZE = 4096"
definition MAX_WATERFALL_ROWS :: nat where "MAX_WATERFALL_ROWS = 120"
definition MAX_SPECTRUM_BINS :: nat where "MAX_SPECTRUM_BINS = MAX_SPECTRUM_FFT_SIZE div 2 + 1"
definition MAX_SPECTRUM_CHUNK_SAMPLES :: nat where "MAX_SPECTRUM_CHUNK_SAMPLES = 4096"
definition MAX_SPECTRUM_ROWS_PER_PUSH :: nat where "MAX_SPECTRUM_ROWS_PER_PUSH = 64"
definition MIN_PUBLICATION_MILLIS :: int where "MIN_PUBLICATION_MILLIS = 50"
definition MAX_PUBLICATION_MILLIS :: int where "MAX_PUBLICATION_MILLIS = 2000"
definition MAX_MODEL_BYTES :: nat where "MAX_MODEL_BYTES = 2 * 1024 * 1024"
definition MAX_FFT_SCRATCH_COMPLEX :: nat where "MAX_FFT_SCRATCH_COMPLEX = MAX_SPECTRUM_FFT_SIZE * 4"
definition MAGNITUDE_FLOOR_MILLIDECIBELS :: int where "MAGNITUDE_FLOOR_MILLIDECIBELS = - 120000"

lemmas spectrum_bounds =
  MIN_SPECTRUM_FFT_SIZE_def MAX_SPECTRUM_FFT_SIZE_def MAX_WATERFALL_ROWS_def MAX_SPECTRUM_BINS_def
  MAX_SPECTRUM_CHUNK_SAMPLES_def MAX_SPECTRUM_ROWS_PER_PUSH_def MIN_PUBLICATION_MILLIS_def
  MAX_PUBLICATION_MILLIS_def MAX_MODEL_BYTES_def MAX_FFT_SCRATCH_COMPLEX_def
  MAGNITUDE_FLOOR_MILLIDECIBELS_def

fun is_power_of_two :: "nat \<Rightarrow> bool" where
  "is_power_of_two n = (if n = 0 then False else if n = 1 then True
                        else n mod 2 = 0 \<and> is_power_of_two (n div 2))"

declare is_power_of_two.simps [simp del]

definition div_ceil :: "nat \<Rightarrow> nat \<Rightarrow> nat" where
  "div_ceil a b = (if a mod b = 0 then a div b else a div b + 1)"

record spectrum_config =
  sc_fft_size :: nat
  sc_overlap_samples :: nat
  sc_first_bin :: nat
  sc_last_bin :: nat
  sc_waterfall_rows :: nat
  sc_publication_millis :: int
  sc_estimated_model_bytes :: nat

definition hop_samples :: "spectrum_config \<Rightarrow> nat" where
  "hop_samples c = sc_fft_size c - sc_overlap_samples c"

definition bin_count :: "spectrum_config \<Rightarrow> nat" where
  "bin_count c = sc_last_bin c - sc_first_bin c + 1"

definition spectrum_config_new ::
  "nat \<Rightarrow> nat \<Rightarrow> nat \<Rightarrow> nat \<Rightarrow> nat \<Rightarrow> int \<Rightarrow> (spectrum_model_error, spectrum_config) result" where
  "spectrum_config_new fft_size overlap min_hz max_hz rows publication =
     (if \<not> (MIN_SPECTRUM_FFT_SIZE \<le> fft_size \<and> fft_size \<le> MAX_SPECTRUM_FFT_SIZE)
         \<or> \<not> is_power_of_two fft_size then Err InvalidFftSize
      else if overlap \<ge> fft_size \<or> overlap > fft_size * 3 div 4 then Err InvalidOverlap
      else if min_hz \<ge> max_hz \<or> int max_hz > FT8_RECEIVE_SAMPLE_RATE_HZ div 2 then Err InvalidPassband
      else if \<not> (1 \<le> rows \<and> rows \<le> MAX_WATERFALL_ROWS) then Err InvalidRowCapacity
      else if \<not> in_range MIN_PUBLICATION_MILLIS MAX_PUBLICATION_MILLIS publication
      then Err InvalidPublicationCadence
      else case (checked_usize (min_hz * fft_size), checked_usize (max_hz * fft_size)) of
        (Some lo, Some hi) \<Rightarrow>
          let first_bin = div_ceil lo (nat FT8_RECEIVE_SAMPLE_RATE_HZ);
              last_bin = hi div nat FT8_RECEIVE_SAMPLE_RATE_HZ
          in if last_bin < first_bin then Err InvalidPassband
             else let bins = last_bin - first_bin + 1 in
               if bins = 0 \<or> bins > MAX_SPECTRUM_BINS then Err InvalidPassband
               else if div_ceil MAX_SPECTRUM_CHUNK_SAMPLES (fft_size - overlap) > MAX_SPECTRUM_ROWS_PER_PUSH
               then Err CpuBoundExceeded
               else (case checked_usize (rows * (bins * 16 + 128) + fft_size * 64) of
                  None \<Rightarrow> Err SpectrumArithmeticOverflow
                | Some bytes \<Rightarrow>
                    if bytes > MAX_MODEL_BYTES then Err MemoryBoundExceeded
                    else Ok \<lparr>sc_fft_size = fft_size, sc_overlap_samples = overlap,
                             sc_first_bin = first_bin, sc_last_bin = last_bin,
                             sc_waterfall_rows = rows, sc_publication_millis = publication,
                             sc_estimated_model_bytes = bytes\<rparr>)
      | _ \<Rightarrow> Err SpectrumArithmeticOverflow)"

definition spectrum_config_default :: spectrum_config where
  "spectrum_config_default =
     (case spectrum_config_new 1024 512 0 5000 60 250 of
        Inr c \<Rightarrow> c
      | Inl _ \<Rightarrow>
          \<lparr>sc_fft_size = 1024, sc_overlap_samples = 512, sc_first_bin = 0, sc_last_bin = 426,
           sc_waterfall_rows = 60, sc_publication_millis = 250, sc_estimated_model_bytes = 520192\<rparr>)"

section \<open>Chunks, rows and the model\<close>

datatype spectrum_discontinuity =
    SpectrumProcessGenerationChanged
  | SpectrumStreamGenerationChanged
  | TimelineDiscontinuity
  | ClockHealthLost

record canonical_spectrum_chunk =
  ch_process_generation :: process_generation
  ch_stream_generation :: stream_generation
  ch_slot :: ft8_receive_slot
  ch_start_sample_offset :: nat
  ch_discontinuity :: "spectrum_discontinuity option"
  ch_samples :: "int list"

definition chunk_new ::
  "process_generation \<Rightarrow> stream_generation \<Rightarrow> ft8_receive_slot \<Rightarrow> nat
   \<Rightarrow> spectrum_discontinuity option \<Rightarrow> int list
   \<Rightarrow> (spectrum_model_error, canonical_spectrum_chunk) result" where
  "chunk_new pg sg slot start disc samples =
     (if samples = [] then Err EmptyChunk
      else if length samples > MAX_SPECTRUM_CHUNK_SAMPLES then Err ChunkTooLarge
      else case checked_usize (start + length samples) of
        None \<Rightarrow> Err SpectrumArithmeticOverflow
      | Some end' \<Rightarrow>
          if end' > FT8_RECEIVE_WINDOW_SAMPLES then Err ChunkOutsideSlot
          else Ok \<lparr>ch_process_generation = pg, ch_stream_generation = sg, ch_slot = slot,
                   ch_start_sample_offset = start, ch_discontinuity = disc, ch_samples = samples\<rparr>)"

definition chunk_from_window ::
  "ft8_receive_window \<Rightarrow> nat \<Rightarrow> nat \<Rightarrow> spectrum_discontinuity option
   \<Rightarrow> (spectrum_model_error, canonical_spectrum_chunk) result" where
  "chunk_from_window w start count disc =
     (case checked_usize (start + count) of
        None \<Rightarrow> Err SpectrumArithmeticOverflow
      | Some end' \<Rightarrow>
          if end' > length (win_samples w) then Err ChunkOutsideSlot
          else chunk_new (win_process_generation w) (win_stream_generation w) (window_slot w)
                 start disc (take count (drop start (win_samples w))))"

record spectrum_bin =
  bin_index :: nat
  bin_frequency :: nat
  bin_magnitude :: int

record spectrum_row =
  row_sequence :: int
  row_process_generation :: process_generation
  row_stream_generation :: stream_generation
  row_slot :: ft8_receive_slot
  row_start_sample_offset :: nat
  row_start_utc_unix_micros :: int
  row_discontinuity :: "spectrum_discontinuity option"
  row_bins :: "spectrum_bin list"

record spectrum_push_result =
  push_produced_rows :: nat
  push_retained_rows :: nat
  push_publication_pending :: bool
  push_coalesced_publications :: int
  push_evicted_rows :: int

record waterfall_snapshot =
  wf_config :: spectrum_config
  wf_rows :: "spectrum_row list"
  wf_coalesced_publications :: int
  wf_evicted_rows :: int

record chunk_cursor =
  cur_process_generation :: process_generation
  cur_stream_generation :: stream_generation
  cur_slot :: ft8_receive_slot
  cur_next_sample_offset :: nat

record spectrum_model =
  sm_config :: spectrum_config
  sm_pending_samples :: "int list"
  sm_pending_start_offset :: nat
  sm_cursor :: "chunk_cursor option"
  sm_rows :: "spectrum_row list"
  sm_pending_discontinuity :: "spectrum_discontinuity option"
  sm_next_sequence :: int
  sm_last_publication_utc_micros :: "int option"
  sm_publication_pending :: bool
  sm_coalesced_publications :: int
  sm_evicted_rows :: int

definition spectrum_model_new ::
  "nat \<Rightarrow> spectrum_config \<Rightarrow> (spectrum_model_error, spectrum_model) result" where
  "spectrum_model_new scratch_len c =
     (if scratch_len > MAX_FFT_SCRATCH_COMPLEX then Err DependencyScratchExceeded
      else Ok \<lparr>sm_config = c, sm_pending_samples = [], sm_pending_start_offset = 0, sm_cursor = None,
               sm_rows = [], sm_pending_discontinuity = None, sm_next_sequence = 0,
               sm_last_publication_utc_micros = None, sm_publication_pending = False,
               sm_coalesced_publications = 0, sm_evicted_rows = 0\<rparr>)"

definition spectrum_reset :: "spectrum_discontinuity \<Rightarrow> spectrum_model \<Rightarrow> spectrum_model" where
  "spectrum_reset reason m =
     m\<lparr>sm_pending_samples := [], sm_cursor := None, sm_rows := [],
       sm_pending_discontinuity := Some reason, sm_last_publication_utc_micros := None,
       sm_publication_pending := False\<rparr>"

definition prepare_chunk ::
  "spectrum_model \<Rightarrow> canonical_spectrum_chunk \<Rightarrow> (spectrum_model_error, unit) result \<times> spectrum_model" where
  "prepare_chunk m0 chunk =
     (let m = (case ch_discontinuity chunk of None \<Rightarrow> m0 | Some reason \<Rightarrow> spectrum_reset reason m0) in
      case sm_cursor m of
        None \<Rightarrow> (Ok (), m)
      | Some cursor \<Rightarrow>
          if cur_process_generation cursor \<noteq> ch_process_generation chunk
          then (Ok (), spectrum_reset SpectrumProcessGenerationChanged m)
          else if cur_stream_generation cursor \<noteq> ch_stream_generation chunk
          then (Ok (), spectrum_reset SpectrumStreamGenerationChanged m)
          else if cur_slot cursor = ch_slot chunk
                  \<and> cur_next_sample_offset cursor = ch_start_sample_offset chunk
          then (Ok (), m)
          else (case checked_i64 (start_utc_unix_millis (cur_slot cursor) + FT8_RECEIVE_SLOT_MILLIS) of
                  None \<Rightarrow> (Err SpectrumArithmeticOverflow, m)
                | Some next_slot_start \<Rightarrow>
                    if cur_next_sample_offset cursor = FT8_RECEIVE_WINDOW_SAMPLES
                       \<and> ch_start_sample_offset chunk = 0
                       \<and> start_utc_unix_millis (ch_slot chunk) = next_slot_start
                    then (Ok (), m\<lparr>sm_pending_samples := [], sm_pending_start_offset := 0\<rparr>)
                    else (Ok (), spectrum_reset TimelineDiscontinuity m)))"

definition mark_publication :: "spectrum_model \<Rightarrow> int \<Rightarrow> spectrum_model" where
  "mark_publication m row_utc =
     (let due = (case sm_last_publication_utc_micros m of
                   None \<Rightarrow> True
                 | Some previous \<Rightarrow>
                     sat_i64 (row_utc - previous) \<ge> sc_publication_millis (sm_config m) * 1000)
      in if due
         then m\<lparr>sm_coalesced_publications :=
                  (if sm_publication_pending m then sat_u64 (sm_coalesced_publications m + 1)
                   else sm_coalesced_publications m),
                sm_publication_pending := True,
                sm_last_publication_utc_micros := Some row_utc\<rparr>
         else m)"

definition bin_frequency_millihertz :: "nat \<Rightarrow> nat \<Rightarrow> (spectrum_model_error, nat) result" where
  "bin_frequency_millihertz index fft_size =
     (case checked_usize (index * nat FT8_RECEIVE_SAMPLE_RATE_HZ * 1000 + fft_size div 2) of
        None \<Rightarrow> Err SpectrumArithmeticOverflow
      | Some numerator \<Rightarrow>
          if int (numerator div fft_size) \<le> u32_max then Ok (numerator div fft_size)
          else Err SpectrumArithmeticOverflow)"

definition row_start_utc_micros :: "ft8_receive_slot \<Rightarrow> nat \<Rightarrow> (spectrum_model_error, int) result" where
  "row_start_utc_micros slot sample_offset =
     (case checked_i128 (start_utc_unix_millis slot * 1000) of
        None \<Rightarrow> Err SpectrumArithmeticOverflow
      | Some slot_micros \<Rightarrow>
          ok_or SpectrumArithmeticOverflow
            (checked_i64 (slot_micros + int sample_offset * 1000000 sdiv FT8_RECEIVE_SAMPLE_RATE_HZ)))"

type_synonym level_fn = "nat \<Rightarrow> int list \<Rightarrow> nat \<Rightarrow> int option"

definition bin_of :: "level_fn \<Rightarrow> spectrum_config \<Rightarrow> int list \<Rightarrow> nat \<Rightarrow> (spectrum_model_error, spectrum_bin) result" where
  "bin_of level c samples index =
     (let millidecibels = (case level (sc_fft_size c) samples index of
                             None \<Rightarrow> MAGNITUDE_FLOOR_MILLIDECIBELS
                           | Some v \<Rightarrow> saturate MAGNITUDE_FLOOR_MILLIDECIBELS i32_max v)
      in if int index > u16_max then Err SpectrumArithmeticOverflow
         else (case bin_frequency_millihertz index (sc_fft_size c) of
                 Inl e \<Rightarrow> Err e
               | Inr f \<Rightarrow> Ok \<lparr>bin_index = index, bin_frequency = f, bin_magnitude = millidecibels\<rparr>))"

fun bins_of :: "level_fn \<Rightarrow> spectrum_config \<Rightarrow> int list \<Rightarrow> nat list
    \<Rightarrow> (spectrum_model_error, spectrum_bin list) result" where
  "bins_of level c samples [] = Ok []"
| "bins_of level c samples (i # is) =
     (case bin_of level c samples i of
        Inl e \<Rightarrow> Err e
      | Inr b \<Rightarrow> map_ok ((#) b) (bins_of level c samples is))"

definition produce_row ::
  "level_fn \<Rightarrow> spectrum_model \<Rightarrow> process_generation \<Rightarrow> stream_generation \<Rightarrow> ft8_receive_slot
   \<Rightarrow> (spectrum_model_error, unit) result \<times> spectrum_model" where
  "produce_row level m pg sg slot =
     (let c = sm_config m in
      case bins_of level c (take (sc_fft_size c) (sm_pending_samples m))
             [sc_first_bin c..<sc_last_bin c + 1] of
        Inl e \<Rightarrow> (Err e, m)
      | Inr bins \<Rightarrow>
          (case checked_u64 (sm_next_sequence m + 1) of
             None \<Rightarrow> (Err SpectrumArithmeticOverflow, m)
           | Some next_seq \<Rightarrow>
               let m1 = m\<lparr>sm_next_sequence := next_seq\<rparr> in
               (case row_start_utc_micros slot (sm_pending_start_offset m1) of
                  Inl e \<Rightarrow> (Err e, m1)
                | Inr start_utc \<Rightarrow>
                    let row = \<lparr>row_sequence = sm_next_sequence m, row_process_generation = pg,
                               row_stream_generation = sg, row_slot = slot,
                               row_start_sample_offset = sm_pending_start_offset m1,
                               row_start_utc_unix_micros = start_utc,
                               row_discontinuity = sm_pending_discontinuity m1,
                               row_bins = bins\<rparr>;
                        m2 = m1\<lparr>sm_pending_discontinuity := None\<rparr>;
                        m3 = (if length (sm_rows m2) = sc_waterfall_rows c
                              then m2\<lparr>sm_rows := tl (sm_rows m2),
                                      sm_evicted_rows := sat_u64 (sm_evicted_rows m2 + 1)\<rparr>
                              else m2);
                        m4 = mark_publication (m3\<lparr>sm_rows := sm_rows m3 @ [row]\<rparr>) start_utc;
                        hop = hop_samples c;
                        m5 = m4\<lparr>sm_pending_samples := drop hop (sm_pending_samples m4)\<rparr>
                    in if int (sm_pending_start_offset m5 + hop) \<le> u32_max
                       then (Ok (), m5\<lparr>sm_pending_start_offset := sm_pending_start_offset m5 + hop\<rparr>)
                       else (Err SpectrumArithmeticOverflow, m5))))"

text \<open>The row loop of \<open>push\<close>; it stops with an error when the work bound is reached.\<close>

function row_loop ::
  "level_fn \<Rightarrow> spectrum_model \<Rightarrow> canonical_spectrum_chunk \<Rightarrow> nat
   \<Rightarrow> (spectrum_model_error, nat) result \<times> spectrum_model" where
  "row_loop level m chunk produced =
     (if length (sm_pending_samples m) \<ge> sc_fft_size (sm_config m) then
        if produced \<ge> MAX_SPECTRUM_ROWS_PER_PUSH then (Err CpuBoundExceeded, m)
        else (case produce_row level m (ch_process_generation chunk) (ch_stream_generation chunk)
                     (ch_slot chunk) of
                (Inl e, m1) \<Rightarrow> (Err e, m1)
              | (Inr _, m1) \<Rightarrow> row_loop level m1 chunk (produced + 1))
      else (Ok produced, m))"
  by pat_completeness auto

termination
  by (relation "measure (\<lambda>(_, _, _, produced). MAX_SPECTRUM_ROWS_PER_PUSH - produced)") auto

declare row_loop.simps [simp del]

definition spectrum_push ::
  "level_fn \<Rightarrow> spectrum_model \<Rightarrow> canonical_spectrum_chunk
   \<Rightarrow> (spectrum_model_error, spectrum_push_result) result \<times> spectrum_model" where
  "spectrum_push level m chunk =
     (case prepare_chunk m chunk of
        (Inl e, m1) \<Rightarrow> (Err e, m1)
      | (Inr _, m1) \<Rightarrow>
          let m2 = (if sm_pending_samples m1 = []
                    then m1\<lparr>sm_pending_start_offset := ch_start_sample_offset chunk\<rparr> else m1);
              m3 = m2\<lparr>sm_pending_samples := sm_pending_samples m2 @ ch_samples chunk\<rparr>
          in (case row_loop level m3 chunk 0 of
                (Inl e, m4) \<Rightarrow> (Err e, m4)
              | (Inr produced, m4) \<Rightarrow>
                  (case checked_usize (ch_start_sample_offset chunk + length (ch_samples chunk)) of
                     None \<Rightarrow> (Err SpectrumArithmeticOverflow, m4)
                   | Some end' \<Rightarrow>
                       if int end' > u32_max then (Err SpectrumArithmeticOverflow, m4)
                       else let m5 = m4\<lparr>sm_cursor := Some
                                \<lparr>cur_process_generation = ch_process_generation chunk,
                                 cur_stream_generation = ch_stream_generation chunk,
                                 cur_slot = ch_slot chunk, cur_next_sample_offset = end'\<rparr>\<rparr>
                            in if int produced > u16_max \<or> int (length (sm_rows m5)) > u16_max
                               then (Err SpectrumArithmeticOverflow, m5)
                               else (Ok \<lparr>push_produced_rows = produced,
                                         push_retained_rows = length (sm_rows m5),
                                         push_publication_pending = sm_publication_pending m5,
                                         push_coalesced_publications = sm_coalesced_publications m5,
                                         push_evicted_rows = sm_evicted_rows m5\<rparr>, m5))))"

definition take_snapshot :: "spectrum_model \<Rightarrow> waterfall_snapshot option \<times> spectrum_model" where
  "take_snapshot m =
     (if \<not> sm_publication_pending m then (None, m)
      else (Some \<lparr>wf_config = sm_config m, wf_rows = sm_rows m,
                  wf_coalesced_publications = sm_coalesced_publications m,
                  wf_evicted_rows = sm_evicted_rows m\<rparr>,
            m\<lparr>sm_publication_pending := False\<rparr>))"

section \<open>Lemmas\<close>

definition valid_spectrum_config :: "spectrum_config \<Rightarrow> bool" where
  "valid_spectrum_config c \<longleftrightarrow>
     256 \<le> sc_fft_size c \<and> sc_fft_size c \<le> 4096 \<and> sc_overlap_samples c < sc_fft_size c \<and>
     sc_first_bin c \<le> sc_last_bin c \<and> sc_last_bin c \<le> sc_fft_size c div 2 \<and>
     1 \<le> sc_waterfall_rows c \<and> sc_waterfall_rows c \<le> 120 \<and>
     div_ceil 4096 (hop_samples c) \<le> 64 \<and>
     50 \<le> sc_publication_millis c \<and> sc_publication_millis c \<le> 2000"

lemma spectrum_config_new_valid:
  assumes "spectrum_config_new fft ov lo hi rows pub = Ok c"
  shows "valid_spectrum_config c \<and> sc_estimated_model_bytes c \<le> 2 * 1024 * 1024"
proof -
  have h: "hi \<le> 6000 \<Longrightarrow> hi * fft div 12000 \<le> fft div 2"
  proof -
    assume "hi \<le> 6000"
    then have "hi * fft div 12000 \<le> 6000 * fft div 12000" by (intro div_le_mono mult_le_mono1)
    then show "hi * fft div 12000 \<le> fft div 2" by simp
  qed
  show ?thesis
    using assms h
    by (auto simp: spectrum_config_new_def valid_spectrum_config_def spectrum_bounds audio_bounds
        hop_samples_def Let_def checked_usize_def in_range_def split: if_splits)
qed

lemma hop_pos: "valid_spectrum_config c \<Longrightarrow> 1 \<le> hop_samples c \<and> hop_samples c \<le> sc_fft_size c"
  by (auto simp: valid_spectrum_config_def hop_samples_def)

definition valid_chunk :: "canonical_spectrum_chunk \<Rightarrow> bool" where
  "valid_chunk ch \<longleftrightarrow>
     ch_samples ch \<noteq> [] \<and> length (ch_samples ch) \<le> 4096 \<and>
     ch_start_sample_offset ch + length (ch_samples ch) \<le> 180000 \<and>
     0 \<le> start_utc_unix_millis (ch_slot ch) \<and> start_utc_unix_millis (ch_slot ch) \<le> 10 ^ 15"

lemma chunk_new_valid:
  assumes "chunk_new pg sg slot start disc xs = Ok ch"
    and "0 \<le> start_utc_unix_millis slot" "start_utc_unix_millis slot \<le> 10 ^ 15"
  shows "valid_chunk ch \<and> ch_samples ch = xs \<and> ch_start_sample_offset ch = start \<and> ch_slot ch = slot"
  using assms by (auto simp: chunk_new_def valid_chunk_def spectrum_bounds audio_bounds checked_usize_def
      split: if_splits option.splits)

definition valid_row :: "spectrum_config \<Rightarrow> spectrum_row \<Rightarrow> bool" where
  "valid_row c row \<longleftrightarrow>
     row_start_sample_offset row + sc_fft_size c \<le> 180000 \<and>
     length (row_bins row) = bin_count c \<and>
     map bin_index (row_bins row) = [sc_first_bin c..<sc_last_bin c + 1] \<and>
     list_all (\<lambda>b. - 120000 \<le> bin_magnitude b \<and> bin_magnitude b \<le> i32_max) (row_bins row)"

definition rows_ok :: "spectrum_model \<Rightarrow> bool" where
  "rows_ok m \<longleftrightarrow>
     valid_spectrum_config (sm_config m) \<and>
     length (sm_rows m) \<le> sc_waterfall_rows (sm_config m) \<and>
     list_all (valid_row (sm_config m)) (sm_rows m) \<and>
     sorted_wrt (<) (map row_sequence (sm_rows m)) \<and>
     list_all (\<lambda>row. row_sequence row < sm_next_sequence m) (sm_rows m) \<and> 0 \<le> sm_next_sequence m"

lemma bin_of_total:
  assumes "valid_spectrum_config c" "i \<le> sc_last_bin c"
  shows "\<exists>b. bin_of level c xs i = Ok b \<and> bin_index b = i \<and> - 120000 \<le> bin_magnitude b \<and>
    bin_magnitude b \<le> i32_max"
proof -
  have i: "i \<le> sc_fft_size c div 2" "i \<le> 2048" and f: "256 \<le> sc_fft_size c" "sc_fft_size c \<le> 4096"
    using assms by (auto simp: valid_spectrum_config_def)
  let ?n = "i * 12000 * 1000 + sc_fft_size c div 2"
  have n: "?n \<le> 18446744073709551615" using i f by simp
  have "?n div sc_fft_size c \<le> ?n" by simp
  moreover have "?n \<le> 12000001 * sc_fft_size c" using i by simp
  then have "?n div sc_fft_size c \<le> 12000001"
    using f by (metis div_le_mono nonzero_mult_div_cancel_right not_numeral_le_zero le_zero_eq)
  ultimately have "int (?n div sc_fft_size c) \<le> u32_max" by linarith
  then have "\<exists>q. bin_frequency_millihertz i (sc_fft_size c) = Ok q"
    using n by (simp add: bin_frequency_millihertz_def audio_bounds checked_usize_def)
  moreover have "- 120000 \<le> saturate (- 120000) i32_max v \<and> saturate (- 120000) i32_max v \<le> i32_max" for v
    by (rule saturate_bounds) simp
  ultimately show ?thesis
    using i by (auto simp: bin_of_def Let_def spectrum_bounds split: option.split)
qed

lemma bins_of_total:
  assumes "valid_spectrum_config c" "\<forall>i \<in> set is. i \<le> sc_last_bin c"
  shows "\<exists>bs. bins_of level c xs is = Ok bs \<and> map bin_index bs = is \<and>
    list_all (\<lambda>b. - 120000 \<le> bin_magnitude b \<and> bin_magnitude b \<le> i32_max) bs"
  using assms
proof (induction "is")
  case (Cons i "is")
  then show ?case using bin_of_total [of c i level xs] by fastforce
qed simp

lemma row_start_total:
  assumes "0 \<le> start_utc_unix_millis slot" "start_utc_unix_millis slot \<le> 10 ^ 15" "off \<le> 180000"
  shows "\<exists>t. row_start_utc_micros slot off = Ok t"
proof -
  have "int off * 1000000 div 12000 \<le> 15000000" using assms(3) by simp
  moreover have "0 \<le> int off * 1000000 div 12000" by simp
  ultimately show ?thesis
    using assms(1,2) by (simp add: row_start_utc_micros_def audio_bounds)
qed


lemma mark_publication_keeps [simp]:
  "sm_config (mark_publication m u) = sm_config m"
  "sm_rows (mark_publication m u) = sm_rows m"
  "sm_pending_samples (mark_publication m u) = sm_pending_samples m"
  "sm_pending_start_offset (mark_publication m u) = sm_pending_start_offset m"
  "sm_next_sequence (mark_publication m u) = sm_next_sequence m"
  "sm_cursor (mark_publication m u) = sm_cursor m"
  by (simp_all add: mark_publication_def Let_def)

lemma sorted_wrt_tl: "sorted_wrt P xs \<Longrightarrow> sorted_wrt P (tl xs)"
  by (cases xs) auto

lemma rows_ok_push:
  assumes ok: "rows_ok m" and row: "valid_row (sm_config m) row" "row_sequence row = sm_next_sequence m"
    and rows: "sm_rows m' = (if length (sm_rows m) = sc_waterfall_rows (sm_config m)
                             then tl (sm_rows m) else sm_rows m) @ [row]"
    and keep: "sm_config m' = sm_config m" "sm_next_sequence m' = sm_next_sequence m + 1"
  shows "rows_ok m'"
proof -
  let ?old = "if length (sm_rows m) = sc_waterfall_rows (sm_config m) then tl (sm_rows m) else sm_rows m"
  have v: "valid_spectrum_config (sm_config m)" using ok by (simp add: rows_ok_def)
  then have "length ?old < sc_waterfall_rows (sm_config m)"
    using ok by (auto simp: rows_ok_def valid_spectrum_config_def)
  moreover have "set ?old \<subseteq> set (sm_rows m)" by (cases "sm_rows m") auto
  then have "list_all (valid_row (sm_config m)) ?old"
    "list_all (\<lambda>r. row_sequence r < sm_next_sequence m) ?old"
    using ok unfolding rows_ok_def list_all_iff by blast+
  moreover have "sorted_wrt (<) (map row_sequence ?old)"
    using ok by (simp add: rows_ok_def map_tl sorted_wrt_tl)
  ultimately show ?thesis
    using ok row rows keep
    unfolding rows_ok_def list_all_iff
    by (fastforce simp: sorted_wrt_append)
qed

lemma produce_row_ok:
  assumes ok: "rows_ok m" and len: "sc_fft_size (sm_config m) \<le> length (sm_pending_samples m)"
    and inside: "sm_pending_start_offset m + length (sm_pending_samples m) \<le> 180000"
    and slot: "0 \<le> start_utc_unix_millis slot" "start_utc_unix_millis slot \<le> 10 ^ 15"
    and seq: "sm_next_sequence m < u64_max"
  shows "\<exists>m'. produce_row level m pg sg slot = (Ok (), m') \<and> rows_ok m' \<and>
    sm_config m' = sm_config m \<and> sm_cursor m' = sm_cursor m \<and>
    sm_pending_samples m' = drop (hop_samples (sm_config m)) (sm_pending_samples m) \<and>
    sm_pending_start_offset m' = sm_pending_start_offset m + hop_samples (sm_config m) \<and>
    sm_next_sequence m' = sm_next_sequence m + 1"
proof -
  let ?c = "sm_config m" and ?x = "take (sc_fft_size (sm_config m)) (sm_pending_samples m)"
  have v: "valid_spectrum_config ?c" using ok by (simp add: rows_ok_def)
  have ib: "\<forall>i \<in> set [sc_first_bin ?c..<sc_last_bin ?c + 1]. i \<le> sc_last_bin ?c" by auto
  obtain bs where bs: "bins_of level ?c ?x [sc_first_bin ?c..<sc_last_bin ?c + 1] = Ok bs"
      "map bin_index bs = [sc_first_bin ?c..<sc_last_bin ?c + 1]"
      "list_all (\<lambda>b. - 120000 \<le> bin_magnitude b \<and> bin_magnitude b \<le> i32_max) bs"
    using bins_of_total [OF v ib, of level ?x] by blast
  have lb: "length bs = bin_count ?c"
    using arg_cong [OF bs(2), of length] v
    by (simp add: bin_count_def valid_spectrum_config_def)
  obtain u where u: "row_start_utc_micros slot (sm_pending_start_offset m) = Ok u"
    using row_start_total [OF slot, of "sm_pending_start_offset m"] inside by auto
  have hop: "hop_samples ?c \<le> length (sm_pending_samples m)" using hop_pos [OF v] len by linarith
  have off: "int (sm_pending_start_offset m) + int (hop_samples ?c) \<le> u32_max" using hop inside by simp
  have s: "checked_u64 (sm_next_sequence m + 1) = Some (sm_next_sequence m + 1)"
    using ok seq by (simp add: rows_ok_def)
  define row where "row = \<lparr>row_sequence = sm_next_sequence m, row_process_generation = pg,
    row_stream_generation = sg, row_slot = slot, row_start_sample_offset = sm_pending_start_offset m,
    row_start_utc_unix_micros = u, row_discontinuity = sm_pending_discontinuity m, row_bins = bs\<rparr>"
  have vr: "valid_row ?c row" using bs lb len inside by (simp add: valid_row_def row_def)
  define m' where "m' = snd (produce_row level m pg sg slot)"
  have p: "produce_row level m pg sg slot = (Ok (), m')" and keep:
    "sm_config m' = ?c" "sm_cursor m' = sm_cursor m" "sm_next_sequence m' = sm_next_sequence m + 1"
    "sm_pending_samples m' = drop (hop_samples ?c) (sm_pending_samples m)"
    "sm_pending_start_offset m' = sm_pending_start_offset m + hop_samples ?c"
    and rows: "sm_rows m' = (if length (sm_rows m) = sc_waterfall_rows ?c
                             then tl (sm_rows m) else sm_rows m) @ [row]"
    using bs(1) u s off unfolding m'_def row_def produce_row_def Let_def
    by (simp_all add: bs(1) del: upt_Suc)
  have "rows_ok m'" using rows_ok_push [OF ok vr _ rows keep(1,3)] by (simp add: row_def)
  then show ?thesis using p keep by blast
qed

text \<open>How many rows a number of pending samples gives.\<close>

definition rows_due :: "spectrum_config \<Rightarrow> nat \<Rightarrow> nat" where
  "rows_due c n = (if n < sc_fft_size c then 0 else (n - sc_fft_size c) div hop_samples c + 1)"

lemma rows_due_step:
  assumes "valid_spectrum_config c" "sc_fft_size c \<le> n"
  shows "rows_due c n = Suc (rows_due c (n - hop_samples c))"
proof -
  have h: "0 < hop_samples c" "hop_samples c \<le> sc_fft_size c" using hop_pos [OF assms(1)] by simp_all
  obtain k where k: "n = sc_fft_size c + k" using assms(2) le_Suc_ex by blast
  show ?thesis
  proof (cases "k < hop_samples c")
    case True
    then have "n - hop_samples c < sc_fft_size c" using k h by simp
    then show ?thesis using True k by (simp add: rows_due_def)
  next
    case False
    then obtain j where j: "k = hop_samples c + j" using le_Suc_ex by (metis not_le)
    have "n - hop_samples c = sc_fft_size c + j" using k j by simp
    then show ?thesis using k j h by (simp add: rows_due_def div_add_self1)
  qed
qed

lemma pred_div_ceil:
  assumes "0 < h" shows "4095 div h + 1 \<le> div_ceil 4096 h"
proof (cases "4096 mod h = 0")
  case True
  have "4095 div h * h \<le> 4095" by simp
  also have "(4095::nat) < 4096" by simp
  also have "4096 = 4096 div h * h" using True by (metis mod_0_imp_dvd dvd_div_mult_self)
  finally have "4095 div h < 4096 div h" using assms by simp
  then show ?thesis using True by (simp add: div_ceil_def)
next
  case False
  have "4095 div h \<le> 4096 div h" by (rule div_le_mono) simp
  then show ?thesis using False by (simp add: div_ceil_def)
qed

lemma rows_due_bound:
  assumes "valid_spectrum_config c" "n < sc_fft_size c + 4096"
  shows "rows_due c n \<le> 64"
proof (cases "n < sc_fft_size c")
  case False
  have h: "0 < hop_samples c" using hop_pos [OF assms(1)] by simp
  have "(n - sc_fft_size c) div hop_samples c \<le> 4095 div hop_samples c"
    using False assms(2) by (intro div_le_mono) simp
  then show ?thesis
    using False assms(1) pred_div_ceil [OF h] by (simp add: rows_due_def valid_spectrum_config_def)
qed (simp add: rows_due_def)

lemma row_loop_ok:
  assumes "rows_ok m" "sm_pending_start_offset m + length (sm_pending_samples m) \<le> 180000"
    and "0 \<le> start_utc_unix_millis (ch_slot chunk)" "start_utc_unix_millis (ch_slot chunk) \<le> 10 ^ 15"
    and "produced + rows_due (sm_config m) (length (sm_pending_samples m)) \<le> 64"
    and "sm_next_sequence m + int (rows_due (sm_config m) (length (sm_pending_samples m))) \<le> u64_max"
  shows "\<exists>m'. row_loop level m chunk produced =
      (Ok (produced + rows_due (sm_config m) (length (sm_pending_samples m))), m') \<and>
    rows_ok m' \<and> sm_config m' = sm_config m \<and> sm_cursor m' = sm_cursor m \<and>
    length (sm_pending_samples m') < sc_fft_size (sm_config m) \<and>
    sm_pending_start_offset m' + length (sm_pending_samples m')
      = sm_pending_start_offset m + length (sm_pending_samples m) \<and>
    sm_next_sequence m' = sm_next_sequence m + int (rows_due (sm_config m) (length (sm_pending_samples m)))"
  using assms
proof (induction level m chunk produced rule: row_loop.induct)
  case (1 level m chunk produced)
  let ?c = "sm_config m" and ?n = "length (sm_pending_samples m)"
  have v: "valid_spectrum_config ?c" using "1.prems"(1) by (simp add: rows_ok_def)
  show ?case
  proof (cases "sc_fft_size ?c \<le> ?n")
    case False
    then have "row_loop level m chunk produced = (Ok produced, m)" by (simp add: row_loop.simps)
    then show ?thesis using False "1.prems"(1) by (simp add: rows_due_def)
  next
    case True
    note step = rows_due_step [OF v True]
    obtain m1 where m1: "produce_row level m (ch_process_generation chunk) (ch_stream_generation chunk)
          (ch_slot chunk) = (Ok (), m1)" "rows_ok m1" "sm_config m1 = ?c" "sm_cursor m1 = sm_cursor m"
        "sm_pending_samples m1 = drop (hop_samples ?c) (sm_pending_samples m)"
        "sm_pending_start_offset m1 = sm_pending_start_offset m + hop_samples ?c"
        "sm_next_sequence m1 = sm_next_sequence m + 1"
      using produce_row_ok [OF "1.prems"(1) True "1.prems"(2,3,4)] "1.prems"(6) step by fastforce
    have hop: "hop_samples ?c \<le> ?n" using hop_pos [OF v] True by linarith
    have lt: "\<not> MAX_SPECTRUM_ROWS_PER_PUSH \<le> produced"
      using "1.prems"(5) step by (simp add: spectrum_bounds)
    have l: "row_loop level m chunk produced = row_loop level m1 chunk (produced + 1)"
      using True lt m1(1) by (subst row_loop.simps) simp
    show ?thesis
      using "1.IH" [OF True lt m1(1) [symmetric] refl] m1 "1.prems" step hop l
      by (auto simp: algebra_simps)
  qed
qed


text \<open>The state of a model between two successful pushes.\<close>

definition spectrum_ok :: "spectrum_model \<Rightarrow> bool" where
  "spectrum_ok m \<longleftrightarrow>
     rows_ok m \<and> length (sm_pending_samples m) < sc_fft_size (sm_config m) \<and>
     (case sm_cursor m of
        None \<Rightarrow> sm_pending_samples m = []
      | Some c \<Rightarrow>
          cur_next_sample_offset c \<le> 180000 \<and>
          0 \<le> start_utc_unix_millis (cur_slot c) \<and> start_utc_unix_millis (cur_slot c) \<le> 10 ^ 15 \<and>
          (sm_pending_samples m = [] \<or>
           sm_pending_start_offset m + length (sm_pending_samples m) = cur_next_sample_offset c))"

lemma spectrum_new_ok:
  assumes "spectrum_model_new n c = Ok m" "valid_spectrum_config c" shows "spectrum_ok m"
  using assms by (auto simp: spectrum_model_new_def spectrum_ok_def rows_ok_def valid_spectrum_config_def
      split: if_splits)

lemma spectrum_reset_ok: "spectrum_ok m \<Longrightarrow> spectrum_ok (spectrum_reset reason m)"
  by (auto simp: spectrum_reset_def spectrum_ok_def rows_ok_def)

lemma take_snapshot_ok: "spectrum_ok m \<Longrightarrow> spectrum_ok (snd (take_snapshot m))"
  by (cases "sm_cursor m") (simp_all add: take_snapshot_def spectrum_ok_def rows_ok_def Let_def)

lemma prepare_chunk_ok:
  assumes "spectrum_ok m"
  shows "\<exists>m1. prepare_chunk m chunk = (Ok (), m1) \<and> rows_ok m1 \<and> sm_config m1 = sm_config m \<and>
    sm_next_sequence m1 = sm_next_sequence m \<and>
    length (sm_pending_samples m1) < sc_fft_size (sm_config m) \<and>
    (sm_pending_samples m1 = [] \<or>
     sm_pending_start_offset m1 + length (sm_pending_samples m1) = ch_start_sample_offset chunk)"
proof -
  have main: "\<exists>m1. (case sm_cursor m of
        None \<Rightarrow> (Ok (), m)
      | Some cursor \<Rightarrow>
          if cur_process_generation cursor \<noteq> ch_process_generation chunk
          then (Ok (), spectrum_reset SpectrumProcessGenerationChanged m)
          else if cur_stream_generation cursor \<noteq> ch_stream_generation chunk
          then (Ok (), spectrum_reset SpectrumStreamGenerationChanged m)
          else if cur_slot cursor = ch_slot chunk
                  \<and> cur_next_sample_offset cursor = ch_start_sample_offset chunk
          then (Ok (), m)
          else (case checked_i64 (start_utc_unix_millis (cur_slot cursor) + FT8_RECEIVE_SLOT_MILLIS) of
                  None \<Rightarrow> (Err SpectrumArithmeticOverflow, m)
                | Some next_slot_start \<Rightarrow>
                    if cur_next_sample_offset cursor = FT8_RECEIVE_WINDOW_SAMPLES
                       \<and> ch_start_sample_offset chunk = 0
                       \<and> start_utc_unix_millis (ch_slot chunk) = next_slot_start
                    then (Ok (), m\<lparr>sm_pending_samples := [], sm_pending_start_offset := 0\<rparr>)
                    else (Ok (), spectrum_reset TimelineDiscontinuity m))) = (Ok (), m1) \<and>
    rows_ok m1 \<and> sm_config m1 = sm_config m \<and> sm_next_sequence m1 = sm_next_sequence m \<and>
    length (sm_pending_samples m1) < sc_fft_size (sm_config m) \<and>
    (sm_pending_samples m1 = [] \<or>
     sm_pending_start_offset m1 + length (sm_pending_samples m1) = ch_start_sample_offset chunk)"
    if "spectrum_ok m" for m
    using that
    by (auto simp: spectrum_ok_def rows_ok_def spectrum_reset_def audio_bounds split: option.splits)
  have k: "sm_config (spectrum_reset r m) = sm_config m"
    "sm_next_sequence (spectrum_reset r m) = sm_next_sequence m" for r
    by (simp_all add: spectrum_reset_def)
  show ?thesis
  proof (cases "ch_discontinuity chunk")
    case None
    then show ?thesis using main [OF assms] by (simp add: prepare_chunk_def)
  next
    case (Some r)
    then have "prepare_chunk m chunk = (Ok (), spectrum_reset r m)"
      by (simp add: prepare_chunk_def spectrum_reset_def Let_def)
    moreover have "sm_pending_samples (spectrum_reset r m) = []" by (simp add: spectrum_reset_def)
    ultimately show ?thesis using spectrum_reset_ok [OF assms, of r] k by (simp add: spectrum_ok_def)
  qed
qed

lemma spectrum_push_total:
  assumes ok: "spectrum_ok m" and ch: "valid_chunk chunk" and seq: "sm_next_sequence m + 64 \<le> u64_max"
  shows "\<exists>res m'. spectrum_push level m chunk = (Ok res, m') \<and> spectrum_ok m' \<and>
    sm_config m' = sm_config m \<and> push_produced_rows res \<le> 64 \<and>
    push_retained_rows res = length (sm_rows m') \<and>
    push_retained_rows res \<le> sc_waterfall_rows (sm_config m) \<and>
    sm_next_sequence m' = sm_next_sequence m + int (push_produced_rows res)"
proof -
  obtain m1 where m1: "prepare_chunk m chunk = (Ok (), m1)" "rows_ok m1" "sm_config m1 = sm_config m"
      "sm_next_sequence m1 = sm_next_sequence m"
      "length (sm_pending_samples m1) < sc_fft_size (sm_config m)"
      "sm_pending_samples m1 = [] \<or>
       sm_pending_start_offset m1 + length (sm_pending_samples m1) = ch_start_sample_offset chunk"
    using prepare_chunk_ok [OF ok, of chunk] by blast
  let ?m2 = "if sm_pending_samples m1 = []
             then m1\<lparr>sm_pending_start_offset := ch_start_sample_offset chunk\<rparr> else m1"
  let ?m3 = "?m2\<lparr>sm_pending_samples := sm_pending_samples ?m2 @ ch_samples chunk\<rparr>"
  let ?n = "length (sm_pending_samples ?m3)"
  have v: "valid_spectrum_config (sm_config m)" using ok by (simp add: spectrum_ok_def rows_ok_def)
  have r3: "rows_ok ?m3" "sm_config ?m3 = sm_config m" "sm_next_sequence ?m3 = sm_next_sequence m"
    using m1 by (auto simp: rows_ok_def)
  have end3: "sm_pending_start_offset ?m3 + ?n = ch_start_sample_offset chunk + length (ch_samples chunk)"
    using m1(6) by auto
  have cv: "ch_start_sample_offset chunk + length (ch_samples chunk) \<le> 180000"
    "0 \<le> start_utc_unix_millis (ch_slot chunk)" "start_utc_unix_millis (ch_slot chunk) \<le> 10 ^ 15"
    "length (ch_samples chunk) \<le> 4096"
    using ch by (simp_all add: valid_chunk_def)
  have "?n < sc_fft_size (sm_config m) + 4096" using m1(5) cv(4) by (auto split: if_splits)
  then have due: "rows_due (sm_config m) ?n \<le> 64" using rows_due_bound [OF v] by blast
  obtain m4 where m4: "row_loop level ?m3 chunk 0 = (Ok (rows_due (sm_config m) ?n), m4)" "rows_ok m4"
      "sm_config m4 = sm_config m" "length (sm_pending_samples m4) < sc_fft_size (sm_config m)"
      "sm_pending_start_offset m4 + length (sm_pending_samples m4) = sm_pending_start_offset ?m3 + ?n"
      "sm_next_sequence m4 = sm_next_sequence m + int (rows_due (sm_config m) ?n)"
    using row_loop_ok [OF r3(1) _ cv(2,3), of 0 level] due end3 cv(1) seq unfolding r3(2,3) by fastforce
  have rl: "length (sm_rows m4) \<le> sc_waterfall_rows (sm_config m)" "length (sm_rows m4) \<le> 120"
    using m4(2,3) v by (auto simp: rows_ok_def valid_spectrum_config_def)
  define m5 where "m5 = m4\<lparr>sm_cursor := Some
      \<lparr>cur_process_generation = ch_process_generation chunk,
       cur_stream_generation = ch_stream_generation chunk, cur_slot = ch_slot chunk,
       cur_next_sample_offset = ch_start_sample_offset chunk + length (ch_samples chunk)\<rparr>\<rparr>"
  have "spectrum_ok m5"
    using m4 end3 cv unfolding spectrum_ok_def m5_def rows_ok_def by simp
  moreover have "spectrum_push level m chunk =
      (Ok \<lparr>push_produced_rows = rows_due (sm_config m) ?n, push_retained_rows = length (sm_rows m5),
           push_publication_pending = sm_publication_pending m5,
           push_coalesced_publications = sm_coalesced_publications m5,
           push_evicted_rows = sm_evicted_rows m5\<rparr>, m5)"
    using m4(1) cv(1) rl due unfolding spectrum_push_def m1(1)
    by (simp add: Let_def m5_def checked_usize_def)
  ultimately show ?thesis
    using m4 rl due by (simp add: m5_def)
qed

text \<open>
  C27: one push of a bounded chunk is bounded and total.  Between pushes the model keeps fewer than
  one transform of samples and at most the configured number of rows, in sequence order, each row
  inside one slot with its bins in order and no level below the floor; a push of a constructed
  chunk always succeeds (the work bound it also checks is never reached), computes at most 64
  rows, and keeps this invariant, for any spectrum the transform may return.
\<close>

theorem spectrum_push_total_and_bounded:
  assumes ok: "spectrum_ok m" and ch: "valid_chunk chunk" and seq: "sm_next_sequence m + 64 \<le> u64_max"
  shows "\<exists>res m'. spectrum_push level m chunk = (Ok res, m') \<and> spectrum_ok m' \<and>
    sm_config m' = sm_config m \<and> push_produced_rows res \<le> 64 \<and>
    push_retained_rows res = length (sm_rows m') \<and>
    push_retained_rows res \<le> sc_waterfall_rows (sm_config m) \<and>
    sm_next_sequence m' = sm_next_sequence m + int (push_produced_rows res)"
  using spectrum_push_total [OF ok ch seq] .

lemma spectrum_config_default_new:
  "spectrum_config_new 1024 512 0 5000 60 250 =
     Ok \<lparr>sc_fft_size = 1024, sc_overlap_samples = 512, sc_first_bin = 0, sc_last_bin = 426,
         sc_waterfall_rows = 60, sc_publication_millis = 250, sc_estimated_model_bytes = 483136\<rparr>"
proof -
  have "is_power_of_two 1024" by (simp add: is_power_of_two.simps)
  then show ?thesis
    by (simp add: spectrum_config_new_def spectrum_bounds audio_bounds div_ceil_def checked_usize_def
        in_range_def Let_def)
qed

lemma spectrum_config_default_eq:
  "spectrum_config_default =
     \<lparr>sc_fft_size = 1024, sc_overlap_samples = 512, sc_first_bin = 0, sc_last_bin = 426,
      sc_waterfall_rows = 60, sc_publication_millis = 250, sc_estimated_model_bytes = 483136\<rparr>"
  by (simp add: spectrum_config_default_def spectrum_config_default_new)

theorem spectrum_push_total_and_bounded_witness:
  "\<exists>m res m'. spectrum_model_new 1024 spectrum_config_default = Ok m \<and> spectrum_ok m \<and>
     spectrum_push (\<lambda>_ _ _. None) m
       \<lparr>ch_process_generation = ProcessGeneration 1, ch_stream_generation = StreamGeneration 1,
        ch_slot = Ft8ReceiveSlot 15000, ch_start_sample_offset = 0, ch_discontinuity = None,
        ch_samples = [1, 2, 3]\<rparr> = (Ok res, m') \<and> spectrum_ok m' \<and> push_retained_rows res \<le> 60"
proof -
  obtain m where m: "spectrum_model_new 1024 spectrum_config_default = Ok m"
    by (simp add: spectrum_model_new_def spectrum_bounds)
  have v: "valid_spectrum_config spectrum_config_default"
    using spectrum_config_new_valid [OF spectrum_config_default_new] by (simp add: spectrum_config_default_eq)
  have ok: "spectrum_ok m" using spectrum_new_ok [OF m v] .
  let ?ch = "\<lparr>ch_process_generation = ProcessGeneration 1, ch_stream_generation = StreamGeneration 1,
        ch_slot = Ft8ReceiveSlot 15000, ch_start_sample_offset = 0, ch_discontinuity = None,
        ch_samples = [1, 2, 3]\<rparr>"
  have ch: "valid_chunk ?ch" by (simp add: valid_chunk_def)
  have s: "sm_next_sequence m + 64 \<le> u64_max" "sm_config m = spectrum_config_default"
    using m by (auto simp: spectrum_model_new_def split: if_splits)
  show ?thesis
    using m ok spectrum_push_total_and_bounded [OF ok ch s(1), of "\<lambda>_ _ _. None"] s(2)
    by (auto simp: spectrum_config_default_eq)
qed

end
