(* ===== verification/SP_Protocol.thy ===== *)
theory SP_Protocol
  imports SP_Callsign SP_Radio "HOL-Library.Char_ord" "HOL-Library.List_Lexorder"
    "HOL-Library.Product_Lexorder" "HOL-Library.Multiset"
begin

text \<open>
  \<open>crates/protocol/src/lib.rs\<close>: the owned values of the offline FT8 boundary.  Checked messages
  and their classification, decode results with the deterministic order they are sorted in, the
  decoder configuration, and bounded PCM buffers.  Error texts that only explain a failure are
  kept where the source compares or stores them.
\<close>

section \<open>Messages\<close>

definition FT8_MESSAGE_BITS :: nat where "FT8_MESSAGE_BITS = 77"
definition FT8_PCM_SAMPLE_RATE_HZ :: int where "FT8_PCM_SAMPLE_RATE_HZ = 12000"
definition FT8_FRAME_SAMPLES :: int where "FT8_FRAME_SAMPLES = 151680"
definition FT8_SLOT_SAMPLES :: int where "FT8_SLOT_SAMPLES = 180000"
definition MAX_OFFLINE_PCM_SAMPLES :: nat where "MAX_OFFLINE_PCM_SAMPLES = 24000000"

lemmas protocol_bounds =
  FT8_MESSAGE_BITS_def FT8_PCM_SAMPLE_RATE_HZ_def FT8_FRAME_SAMPLES_def FT8_SLOT_SAMPLES_def
  MAX_OFFLINE_PCM_SAMPLES_def

datatype ft8_message_class =
    GeneralCall
  | DirectedGrid
  | SignalReport
  | RogerSignalReport
  | Roger
  | Ending73
  | EndingRr73

definition requires_recipient :: "ft8_message_class \<Rightarrow> bool" where
  "requires_recipient c \<longleftrightarrow> c \<noteq> GeneralCall"

datatype ft8_outcome_kind =
    KindResolved
  | KindUnresolvedHash
  | KindUnsupported
  | KindAmbiguous
  | KindFreeText

datatype ft8_message_error =
    InvalidCanonicalText
  | InvalidAddressing
  | InvalidDetail
  | NotResolved ft8_outcome_kind

definition validate_text :: "string \<Rightarrow> nat \<Rightarrow> (unit, unit) result" where
  "validate_text s limit =
     (if s = [] \<or> length s > limit \<or> \<not> list_all (\<lambda>b. is_ascii b \<and> \<not> is_ascii_control b) s
      then Err () else Ok ())"

record resolved_ft8_message =
  rm_canonical_text :: string
  rm_sender :: full_callsign
  rm_recipient :: "full_callsign option"
  rm_class :: ft8_message_class

definition resolved_message_new ::
  "string \<Rightarrow> full_callsign \<Rightarrow> full_callsign option \<Rightarrow> ft8_message_class
   \<Rightarrow> (ft8_message_error, resolved_ft8_message) result" where
  "resolved_message_new text sender recipient cl =
     (case validate_text text 64 of
        Inl _ \<Rightarrow> Err InvalidCanonicalText
      | Inr _ \<Rightarrow>
          if requires_recipient cl \<noteq> (recipient \<noteq> None) then Err InvalidAddressing
          else Ok \<lparr>rm_canonical_text = text, rm_sender = sender, rm_recipient = recipient,
                   rm_class = cl\<rparr>)"

text \<open>The three outcomes that carry a text and an explanation have one shape and one check.\<close>

record detailed_message =
  dm_canonical_text :: string
  dm_detail :: string

definition detailed_message_new :: "string \<Rightarrow> string \<Rightarrow> (ft8_message_error, detailed_message) result" where
  "detailed_message_new text detail =
     (case validate_text text 64 of
        Inl _ \<Rightarrow> Err InvalidCanonicalText
      | Inr _ \<Rightarrow>
          (case validate_text detail 128 of
             Inl _ \<Rightarrow> Err InvalidDetail
           | Inr _ \<Rightarrow> Ok \<lparr>dm_canonical_text = text, dm_detail = detail\<rparr>))"

definition unresolved_hash_new :: "string \<Rightarrow> string \<Rightarrow> (ft8_message_error, detailed_message) result" where
  "unresolved_hash_new text detail = detailed_message_new text detail"

definition unsupported_new :: "string \<Rightarrow> string \<Rightarrow> (ft8_message_error, detailed_message) result" where
  "unsupported_new text detail = detailed_message_new text detail"

definition ambiguous_new :: "string \<Rightarrow> string \<Rightarrow> (ft8_message_error, detailed_message) result" where
  "ambiguous_new text detail = detailed_message_new text detail"

lemmas outcome_new_defs = unresolved_hash_new_def unsupported_new_def ambiguous_new_def

datatype free_text_message = FreeTextFt8Message (free_text: string)

definition free_text_new :: "string \<Rightarrow> (ft8_message_error, free_text_message) result" where
  "free_text_new text =
     (case validate_text text 64 of
        Inl _ \<Rightarrow> Err InvalidCanonicalText
      | Inr _ \<Rightarrow> Ok (FreeTextFt8Message text))"

datatype classified_ft8_message =
    Resolved resolved_ft8_message
  | UnresolvedHash detailed_message
  | Unsupported detailed_message
  | Ambiguous detailed_message
  | FreeText free_text_message

fun msg_kind :: "classified_ft8_message \<Rightarrow> ft8_outcome_kind" where
  "msg_kind (Resolved m) = KindResolved"
| "msg_kind (UnresolvedHash m) = KindUnresolvedHash"
| "msg_kind (Unsupported m) = KindUnsupported"
| "msg_kind (Ambiguous m) = KindAmbiguous"
| "msg_kind (FreeText m) = KindFreeText"

fun msg_canonical_text :: "classified_ft8_message \<Rightarrow> string" where
  "msg_canonical_text (Resolved m) = rm_canonical_text m"
| "msg_canonical_text (UnresolvedHash m) = dm_canonical_text m"
| "msg_canonical_text (Unsupported m) = dm_canonical_text m"
| "msg_canonical_text (Ambiguous m) = dm_canonical_text m"
| "msg_canonical_text (FreeText m) = free_text m"

definition try_into_resolved :: "classified_ft8_message \<Rightarrow> (ft8_message_error, resolved_ft8_message) result" where
  "try_into_resolved m =
     (case m of Resolved r \<Rightarrow> Ok r | _ \<Rightarrow> Err (NotResolved (msg_kind m)))"

section \<open>Decode results and their order\<close>

record ft8_decode_metadata =
  md_start_offset_millis :: int
  md_audio_frequency_hz :: int
  md_signal_to_noise_db :: int

record ft8_decode =
  dec_metadata :: ft8_decode_metadata
  dec_message :: classified_ft8_message

text \<open>The derived \<open>Ord\<close> of the outcome kinds is their order of declaration.\<close>

fun kind_rank :: "ft8_outcome_kind \<Rightarrow> nat" where
  "kind_rank KindResolved = 0"
| "kind_rank KindUnresolvedHash = 1"
| "kind_rank KindUnsupported = 2"
| "kind_rank KindAmbiguous = 3"
| "kind_rank KindFreeText = 4"

lemma kind_rank_inject [simp]: "kind_rank a = kind_rank b \<longleftrightarrow> a = b"
  by (cases a; cases b) simp_all

instantiation ft8_outcome_kind :: linorder
begin

definition less_eq_ft8_outcome_kind :: "ft8_outcome_kind \<Rightarrow> ft8_outcome_kind \<Rightarrow> bool" where
  "a \<le> b \<longleftrightarrow> kind_rank a \<le> kind_rank b"

definition less_ft8_outcome_kind :: "ft8_outcome_kind \<Rightarrow> ft8_outcome_kind \<Rightarrow> bool" where
  "a < b \<longleftrightarrow> kind_rank a < kind_rank b"

instance
  by standard (auto simp: less_eq_ft8_outcome_kind_def less_ft8_outcome_kind_def dest: antisym)

end

text \<open>
  The tuple \<open>deterministic_cmp\<close> compares: tuples compare lexicographically and \<open>&str\<close> by bytes.
  \<open>slice::sort_by\<close> is a stable sort, that is \<open>sort_key\<close>.
\<close>

definition deterministic_key :: "ft8_decode \<Rightarrow> int \<times> int \<times> string \<times> ft8_outcome_kind \<times> int" where
  "deterministic_key d =
     (md_start_offset_millis (dec_metadata d), md_audio_frequency_hz (dec_metadata d),
      msg_canonical_text (dec_message d), msg_kind (dec_message d),
      md_signal_to_noise_db (dec_metadata d))"

definition sort_deterministically :: "ft8_decode list \<Rightarrow> ft8_decode list" where
  "sort_deterministically ds = sort_key deterministic_key ds"

datatype ft8_decode_depth = DepthNormal | DepthDeep

record ft8_decode_config =
  dc_minimum_audio_frequency :: int
  dc_maximum_audio_frequency :: int
  dc_sync_threshold_milli :: int
  dc_depth :: ft8_decode_depth
  dc_maximum_candidates :: int

datatype ft8_codec_error =
    NotRepresentable string
  | InvalidPackedMessage string
  | CodecAdapter string

datatype ft8_decode_error =
    InvalidDecodeConfiguration string
  | UnsupportedPcmWindow
  | DecodeCodec ft8_codec_error
  | InvalidResultMetadata

definition decode_config_new ::
  "int \<Rightarrow> int \<Rightarrow> int \<Rightarrow> ft8_decode_depth \<Rightarrow> int \<Rightarrow> (ft8_decode_error, ft8_decode_config) result" where
  "decode_config_new min_hz max_hz sync depth cands =
     (if min_hz > max_hz \<or> max_hz > 5956
      then Err (InvalidDecodeConfiguration
             ''FT8 search frequencies must be ordered below the canonical Nyquist bound'')
      else if \<not> in_range 1 5000 sync
      then Err (InvalidDecodeConfiguration
             ''FT8 sync threshold must be between 1 and 5,000 milli-units'')
      else if \<not> in_range 1 1000 cands
      then Err (InvalidDecodeConfiguration ''FT8 maximum candidates must be between 1 and 1,000'')
      else Ok \<lparr>dc_minimum_audio_frequency = min_hz, dc_maximum_audio_frequency = max_hz,
               dc_sync_threshold_milli = sync, dc_depth = depth, dc_maximum_candidates = cands\<rparr>)"

definition bounded_error :: "(string \<Rightarrow> 'a) \<Rightarrow> string \<Rightarrow> (ft8_message_error, 'a) result" where
  "bounded_error ctor detail =
     (case validate_text detail 128 of Inl _ \<Rightarrow> Err InvalidDetail | Inr _ \<Rightarrow> Ok (ctor detail))"

section \<open>PCM buffers\<close>

datatype pcm_sample_format = Signed16LittleEndian

datatype pcm_error =
    PcmInvalidSampleRate
  | PcmInvalidChannelCount
  | IncompleteFrame
  | BufferTooLarge

record pcm_format =
  pf_sample_rate_hz :: int
  pf_channels :: int
  pf_sample_format :: pcm_sample_format

definition pcm_format_new :: "int \<Rightarrow> int \<Rightarrow> pcm_sample_format \<Rightarrow> (pcm_error, pcm_format) result" where
  "pcm_format_new rate channels fmt =
     (if \<not> in_range 1 384000 rate then Err PcmInvalidSampleRate
      else if \<not> in_range 1 8 channels then Err PcmInvalidChannelCount
      else Ok \<lparr>pf_sample_rate_hz = rate, pf_channels = channels, pf_sample_format = fmt\<rparr>)"

record pcm_duration =
  pd_frames :: int
  pd_microseconds :: int

record pcm_buffer =
  pb_format :: pcm_format
  pb_duration :: pcm_duration
  pb_samples :: "int list"

definition pcm_buffer_new :: "pcm_format \<Rightarrow> int list \<Rightarrow> (pcm_error, pcm_buffer) result" where
  "pcm_buffer_new fmt samples =
     (if length samples > MAX_OFFLINE_PCM_SAMPLES then Err BufferTooLarge
      else let channels = pf_channels fmt; len = int (length samples) in
        if len mod channels \<noteq> 0 then Err IncompleteFrame
        else (case checked_u32 (len div channels) of
                None \<Rightarrow> Err BufferTooLarge
              | Some frames \<Rightarrow>
                  Ok \<lparr>pb_format = fmt,
                      pb_duration = \<lparr>pd_frames = frames,
                        pd_microseconds = sat_u64 (frames * 1000000) div pf_sample_rate_hz fmt\<rparr>,
                      pb_samples = samples\<rparr>))"

datatype ft8_waveform_placement =
    FrameOnly
  | FullSlot int

datatype ft8_waveform_error =
    InvalidAmplitude
  | InvalidWaveformConfiguration string
  | WaveformCodec ft8_codec_error
  | WaveformPcm pcm_error

definition amplitude_permille_new :: "int \<Rightarrow> (ft8_waveform_error, int) result" where
  "amplitude_permille_new v = (if in_range 1 1000 v then Ok v else Err InvalidAmplitude)"

record ft8_waveform_request =
  wr_message :: resolved_ft8_message
  wr_format :: pcm_format
  wr_audio_frequency :: int
  wr_amplitude :: int
  wr_placement :: ft8_waveform_placement

section \<open>Lemmas\<close>

definition valid_text :: "nat \<Rightarrow> string \<Rightarrow> bool" where
  "valid_text n s \<longleftrightarrow> s \<noteq> [] \<and> length s \<le> n \<and> (\<forall>b \<in> set s. is_ascii b \<and> \<not> is_ascii_control b)"

lemma validate_text_Ok [simp]: "validate_text s n = Inr u \<longleftrightarrow> valid_text n s"
  by (auto simp: validate_text_def valid_text_def list_all_iff)

lemma validate_text_Err [simp]: "validate_text s n = Inl u \<longleftrightarrow> \<not> valid_text n s"
  by (auto simp: validate_text_def valid_text_def list_all_iff)

text \<open>What every constructor of a classified message guarantees.\<close>

fun valid_message :: "classified_ft8_message \<Rightarrow> bool" where
  "valid_message (Resolved m) \<longleftrightarrow> valid_text 64 (rm_canonical_text m) \<and>
     requires_recipient (rm_class m) = (rm_recipient m \<noteq> None)"
| "valid_message (UnresolvedHash m) \<longleftrightarrow> valid_text 64 (dm_canonical_text m) \<and> valid_text 128 (dm_detail m)"
| "valid_message (Unsupported m) \<longleftrightarrow> valid_text 64 (dm_canonical_text m) \<and> valid_text 128 (dm_detail m)"
| "valid_message (Ambiguous m) \<longleftrightarrow> valid_text 64 (dm_canonical_text m) \<and> valid_text 128 (dm_detail m)"
| "valid_message (FreeText m) \<longleftrightarrow> valid_text 64 (free_text m)"

lemma resolved_message_new_Ok:
  "resolved_message_new t s r c = Inr m \<longleftrightarrow>
     valid_text 64 t \<and> requires_recipient c = (r \<noteq> None) \<and>
     m = \<lparr>rm_canonical_text = t, rm_sender = s, rm_recipient = r, rm_class = c\<rparr>"
  by (auto simp: resolved_message_new_def split: sum.splits if_splits)

lemma detailed_message_new_Ok:
  "detailed_message_new t d = Inr m \<longleftrightarrow>
     valid_text 64 t \<and> valid_text 128 d \<and> m = \<lparr>dm_canonical_text = t, dm_detail = d\<rparr>"
  by (auto simp: detailed_message_new_def split: sum.splits)

lemma detailed_message_new_Err:
  "detailed_message_new t d = Inl e \<longleftrightarrow>
     \<not> valid_text 64 t \<and> e = InvalidCanonicalText \<or>
     valid_text 64 t \<and> \<not> valid_text 128 d \<and> e = InvalidDetail"
  by (auto simp: detailed_message_new_def split: sum.splits)

lemma free_text_new_Ok:
  "free_text_new t = Inr m \<longleftrightarrow> valid_text 64 t \<and> m = FreeTextFt8Message t"
  by (auto simp: free_text_new_def split: sum.splits)

lemma free_text_new_Err:
  "free_text_new t = Inl e \<longleftrightarrow> \<not> valid_text 64 t \<and> e = InvalidCanonicalText"
  by (auto simp: free_text_new_def split: sum.splits)

definition valid_pcm_format :: "pcm_format \<Rightarrow> bool" where
  "valid_pcm_format f \<longleftrightarrow> in_range 1 384000 (pf_sample_rate_hz f) \<and> in_range 1 8 (pf_channels f)"

definition valid_pcm_buffer :: "pcm_buffer \<Rightarrow> bool" where
  "valid_pcm_buffer b \<longleftrightarrow> valid_pcm_format (pb_format b) \<and>
     length (pb_samples b) \<le> MAX_OFFLINE_PCM_SAMPLES \<and>
     int (length (pb_samples b)) = pd_frames (pb_duration b) * pf_channels (pb_format b) \<and>
     pd_microseconds (pb_duration b) = pd_frames (pb_duration b) * 1000000 div pf_sample_rate_hz (pb_format b)"

lemma pcm_format_new_Ok:
  "pcm_format_new r c f = Inr p \<longleftrightarrow>
     in_range 1 384000 r \<and> in_range 1 8 c \<and>
     p = \<lparr>pf_sample_rate_hz = r, pf_channels = c, pf_sample_format = f\<rparr>"
  by (auto simp: pcm_format_new_def)

lemma frames_u32:
  assumes "length (samples :: 'a list) \<le> MAX_OFFLINE_PCM_SAMPLES" "1 \<le> c"
  shows "0 \<le> int (length samples) div c" "int (length samples) div c \<le> 24000000"
proof -
  show "0 \<le> int (length samples) div c" using assms(2) by (simp add: pos_imp_zdiv_nonneg_iff)
  have "int (length samples) div c \<le> int (length samples)"
    using assms(2) zdiv_mono2 [of "int (length samples)" 1 c] by simp
  then show "int (length samples) div c \<le> 24000000" using assms(1) by (simp add: protocol_bounds)
qed

lemma pcm_buffer_new_Ok:
  assumes "valid_pcm_format f"
  shows "pcm_buffer_new f samples = Inr b \<longleftrightarrow>
     length samples \<le> MAX_OFFLINE_PCM_SAMPLES \<and> int (length samples) mod pf_channels f = 0 \<and>
     b = \<lparr>pb_format = f,
          pb_duration = \<lparr>pd_frames = int (length samples) div pf_channels f,
            pd_microseconds = int (length samples) div pf_channels f * 1000000 div pf_sample_rate_hz f\<rparr>,
          pb_samples = samples\<rparr>"
proof (cases "length samples \<le> MAX_OFFLINE_PCM_SAMPLES \<and> int (length samples) mod pf_channels f = 0")
  case True
  then have le: "length samples \<le> MAX_OFFLINE_PCM_SAMPLES" by simp
  have c: "1 \<le> pf_channels f" using assms by (simp add: valid_pcm_format_def in_range_def)
  from frames_u32 [OF le c] True show ?thesis
    by (auto simp: pcm_buffer_new_def Let_def)
qed (auto simp: pcm_buffer_new_def Let_def)

lemma pcm_buffer_new_valid:
  assumes "valid_pcm_format f" "pcm_buffer_new f samples = Inr b"
  shows "valid_pcm_buffer b \<and> pb_samples b = samples \<and> pb_format b = f"
  using assms pcm_buffer_new_Ok [OF assms(1)]
  by (auto simp: valid_pcm_buffer_def dvd_eq_mod_eq_0 [symmetric])

text \<open>A valid buffer is the one its constructor builds from its own format and samples.\<close>

lemma pcm_buffer_new_rebuild:
  assumes "valid_pcm_buffer b"
  shows "pcm_buffer_new (pb_format b) (pb_samples b) = Ok b"
proof -
  have c: "1 \<le> pf_channels (pb_format b)" and v: "valid_pcm_format (pb_format b)"
    and l: "int (length (pb_samples b)) = pd_frames (pb_duration b) * pf_channels (pb_format b)"
    using assms by (auto simp: valid_pcm_buffer_def valid_pcm_format_def in_range_def)
  have "int (length (pb_samples b)) mod pf_channels (pb_format b) = 0"
    "int (length (pb_samples b)) div pf_channels (pb_format b) = pd_frames (pb_duration b)"
    using c l by simp_all
  then show ?thesis
    using assms unfolding pcm_buffer_new_Ok [OF v] valid_pcm_buffer_def by simp
qed

interpretation amplitude_value: checked_value amplitude_permille_new "\<lambda>v. v" "in_range 1 1000"
  by unfold_locales (auto simp: amplitude_permille_new_def split: if_splits)

interpretation pcm_format_value:
  checked_value "\<lambda>(r, c, f). pcm_format_new r c f"
    "\<lambda>p. (pf_sample_rate_hz p, pf_channels p, pf_sample_format p)"
    "\<lambda>(r, c, f). in_range 1 384000 r \<and> in_range 1 8 c"
  by unfold_locales (auto simp: pcm_format_new_def split: if_splits)

lemma sort_keys_eq:
  assumes "mset xs = mset ys"
  shows "map deterministic_key (sort_deterministically xs) = map deterministic_key (sort_deterministically ys)"
proof -
  let ?k = deterministic_key
  have "sort (map ?k (sort_key ?k ys)) = map ?k (sort_key ?k xs)"
    by (rule properties_for_sort) (use assms in \<open>simp_all add: mset_map\<close>)
  then show ?thesis by (simp add: sorted_sort_id sort_deterministically_def)
qed

text \<open>
  The order of decode results is canonical up to equal keys.  Sorting keeps the results, sorts
  them by time, frequency, text, kind and SNR, and for two lists that hold the same results in any
  order the sorted keys agree; where no two different results have the same key the sorted lists
  themselves agree.
\<close>

theorem decode_order_canonical:
  assumes "mset xs = mset ys"
  shows "mset (sort_deterministically xs) = mset xs \<and>
    sorted (map deterministic_key (sort_deterministically xs)) \<and>
    map deterministic_key (sort_deterministically xs) = map deterministic_key (sort_deterministically ys) \<and>
    (inj_on deterministic_key (set xs) \<longrightarrow> sort_deterministically xs = sort_deterministically ys)"
proof -
  let ?k = deterministic_key
  have "map ?k (sort_key ?k xs) = map ?k (sort_key ?k ys)"
    using sort_keys_eq [OF assms] by (simp add: sort_deterministically_def)
  moreover have "sort_key ?k xs = sort_key ?k ys" if "inj_on ?k (set xs)"
    by (rule sort_key_inj_key_eq) (use assms that in simp_all)
  ultimately show ?thesis by (simp add: sort_deterministically_def)
qed

definition plain_decode :: "int \<Rightarrow> string \<Rightarrow> ft8_decode" where
  "plain_decode hz t =
     \<lparr>dec_metadata = \<lparr>md_start_offset_millis = 100, md_audio_frequency_hz = hz, md_signal_to_noise_db = - 7\<rparr>,
      dec_message = FreeText (FreeTextFt8Message t)\<rparr>"

theorem decode_order_canonical_witness:
  "sort_deterministically [plain_decode 1500 ''B'', plain_decode 900 ''A''] =
   sort_deterministically [plain_decode 900 ''A'', plain_decode 1500 ''B'']"
proof -
  have "inj_on deterministic_key (set [plain_decode 1500 ''B'', plain_decode 900 ''A''])"
    by (simp add: deterministic_key_def plain_decode_def)
  moreover have "mset [plain_decode 1500 ''B'', plain_decode 900 ''A''] =
      mset [plain_decode 900 ''A'', plain_decode 1500 ''B'']"
    by simp
  ultimately show ?thesis using decode_order_canonical by blast
qed

end
