(* ===== verification/SP_Wave.thy ===== *)
theory SP_Wave
  imports SP_Protocol
begin

text \<open>
  \<open>crates/protocol/src/wave_file.rs\<close>: the in-memory RIFF/WAVE encoder and parser.  A byte slice
  is a \<open>string\<close>.  The parser walks the chunks by offset; \<open>chunk_scan\<close> is its specification on
  the list of chunks, and the round trip is one instance of it.
\<close>

section \<open>Little-endian fields\<close>

definition u16_to_le :: "int \<Rightarrow> string" where
  "u16_to_le x = [char_of (nat (x mod 256)), char_of (nat (x div 256 mod 256))]"

definition u32_to_le :: "int \<Rightarrow> string" where
  "u32_to_le x = u16_to_le x @ u16_to_le (x div 65536)"

definition i16_to_le :: "int \<Rightarrow> string" where
  "i16_to_le x = u16_to_le (x mod 65536)"

definition u16_from_le :: "char \<Rightarrow> char \<Rightarrow> int" where
  "u16_from_le a b = int (byte_val a) + 256 * int (byte_val b)"

definition i16_from_le :: "char \<Rightarrow> char \<Rightarrow> int" where
  "i16_from_le a b = (let v = u16_from_le a b in if v \<ge> 32768 then v - 65536 else v)"

datatype pcm_wave_error =
    FileTooLarge
  | InvalidStructure
  | WaveTruncated
  | UnsupportedFormat
  | MissingOrDuplicateChunk
  | WavePcm pcm_error

definition read_u16 :: "string \<Rightarrow> nat \<Rightarrow> (pcm_wave_error, int) result" where
  "read_u16 bytes offset =
     (case checked_usize (offset + 2) of
        None \<Rightarrow> Err WaveTruncated
      | Some end' \<Rightarrow>
          if end' \<le> length bytes then Ok (u16_from_le (bytes ! offset) (bytes ! (offset + 1)))
          else Err WaveTruncated)"

definition read_u32 :: "string \<Rightarrow> nat \<Rightarrow> (pcm_wave_error, int) result" where
  "read_u32 bytes offset =
     (case checked_usize (offset + 4) of
        None \<Rightarrow> Err WaveTruncated
      | Some end' \<Rightarrow>
          if end' \<le> length bytes
          then Ok (u16_from_le (bytes ! offset) (bytes ! (offset + 1))
                   + 65536 * u16_from_le (bytes ! (offset + 2)) (bytes ! (offset + 3)))
          else Err WaveTruncated)"

section \<open>Encoder\<close>

definition encode_pcm_wave :: "pcm_buffer \<Rightarrow> (pcm_wave_error, string) result" where
  "encode_pcm_wave buffer =
     (case Option.bind (checked_usize (length (pb_samples buffer) * 2)) (\<lambda>n. checked_u32 (int n)) of
        None \<Rightarrow> Err FileTooLarge
      | Some sample_bytes \<Rightarrow>
     (case checked_u32 (36 + sample_bytes) of
        None \<Rightarrow> Err FileTooLarge
      | Some riff_size \<Rightarrow>
     (case checked_u16 (pf_channels (pb_format buffer) * 2) of
        None \<Rightarrow> Err FileTooLarge
      | Some block_align \<Rightarrow>
     (case checked_u32 (pf_sample_rate_hz (pb_format buffer) * block_align) of
        None \<Rightarrow> Err FileTooLarge
      | Some byte_rate \<Rightarrow>
          Ok (''RIFF'' @ u32_to_le riff_size @ ''WAVEfmt '' @ u32_to_le 16 @ u16_to_le 1
              @ u16_to_le (pf_channels (pb_format buffer))
              @ u32_to_le (pf_sample_rate_hz (pb_format buffer))
              @ u32_to_le byte_rate @ u16_to_le block_align @ u16_to_le 16
              @ ''data'' @ u32_to_le sample_bytes
              @ concat (map i16_to_le (pb_samples buffer)))))))"

section \<open>Parser\<close>

definition parse_format :: "string \<Rightarrow> (pcm_wave_error, pcm_format) result" where
  "parse_format bytes =
     (if length bytes < 16 then Err WaveTruncated
      else case (read_u16 bytes 0, read_u16 bytes 2, read_u32 bytes 4, read_u32 bytes 8,
                 read_u16 bytes 12, read_u16 bytes 14) of
        (Inr encoding, Inr channels, Inr sample_rate, Inr byte_rate, Inr block_align, Inr bits) \<Rightarrow>
          (case checked_u16 (channels * 2) of
             None \<Rightarrow> Err UnsupportedFormat
           | Some expected_align \<Rightarrow>
               (case checked_u32 (sample_rate * expected_align) of
                  None \<Rightarrow> Err UnsupportedFormat
                | Some expected_rate \<Rightarrow>
                    if encoding \<noteq> 1 \<or> bits \<noteq> 16 \<or> block_align \<noteq> expected_align
                       \<or> byte_rate \<noteq> expected_rate
                    then Err UnsupportedFormat
                    else map_err WavePcm (pcm_format_new sample_rate channels Signed16LittleEndian)))
      | _ \<Rightarrow> Err WaveTruncated)"

definition slice :: "string \<Rightarrow> nat \<Rightarrow> nat \<Rightarrow> string" where
  "slice bytes a b = take (b - a) (drop a bytes)"

text \<open>One matched chunk: the \<open>match id\<close> of the loop.\<close>

definition take_chunk ::
  "string \<Rightarrow> string \<Rightarrow> pcm_format option \<times> string option
   \<Rightarrow> (pcm_wave_error, pcm_format option \<times> string option) result" where
  "take_chunk ident body found =
     (if ident = ''fmt '' then
        (if fst found \<noteq> None then Err MissingOrDuplicateChunk
         else map_ok (\<lambda>f. (Some f, snd found)) (parse_format body))
      else if ident = ''data'' then
        (if snd found \<noteq> None then Err MissingOrDuplicateChunk
         else Ok (fst found, Some body))
      else Ok found)"

function wave_loop ::
  "string \<Rightarrow> nat \<Rightarrow> nat \<Rightarrow> pcm_format option \<times> string option
   \<Rightarrow> (pcm_wave_error, pcm_format option \<times> string option) result" where
  "wave_loop bytes riff_size offset found =
     (if \<not> offset < riff_size then Ok found
      else case checked_usize (offset + 8) of
        None \<Rightarrow> Err InvalidStructure
      | Some header_end \<Rightarrow>
          if header_end > riff_size then Err WaveTruncated
          else case read_u32 bytes (offset + 4) of
            Inl e \<Rightarrow> Err e
          | Inr chunk_size \<Rightarrow>
              (case checked_usize (header_end + nat chunk_size) of
                 None \<Rightarrow> Err FileTooLarge
               | Some chunk_end \<Rightarrow>
                   if chunk_end > riff_size then Err WaveTruncated
                   else case take_chunk (slice bytes offset (offset + 4))
                                        (slice bytes header_end chunk_end) found of
                     Inl e \<Rightarrow> Err e
                   | Inr found' \<Rightarrow>
                       (case checked_usize (chunk_end + nat chunk_size mod 2) of
                          None \<Rightarrow> Err FileTooLarge
                        | Some offset' \<Rightarrow>
                            if offset' > riff_size then Err WaveTruncated
                            else wave_loop bytes riff_size offset' found')))"
  by pat_completeness auto
termination
  by (relation "measure (\<lambda>(bytes, riff_size, offset, found). riff_size - offset)")
    (auto simp: checked_usize_def split: if_splits)

declare wave_loop.simps [simp del]

fun samples_of :: "string \<Rightarrow> int list" where
  "samples_of (a # b # rest) = i16_from_le a b # samples_of rest"
| "samples_of _ = []"

definition finish_wave :: "pcm_format option \<times> string option \<Rightarrow> (pcm_wave_error, pcm_buffer) result" where
  "finish_wave found =
     (case fst found of
        None \<Rightarrow> Err MissingOrDuplicateChunk
      | Some fmt \<Rightarrow>
          (case snd found of
             None \<Rightarrow> Err MissingOrDuplicateChunk
           | Some body \<Rightarrow>
               if length body mod 2 \<noteq> 0 \<or> length body div 2 > MAX_OFFLINE_PCM_SAMPLES
               then Err FileTooLarge
               else map_err WavePcm (pcm_buffer_new fmt (samples_of body))))"

definition decode_pcm_wave :: "string \<Rightarrow> (pcm_wave_error, pcm_buffer) result" where
  "decode_pcm_wave bytes =
     (if length bytes < 12 then Err WaveTruncated
      else if slice bytes 0 4 \<noteq> ''RIFF'' \<or> slice bytes 8 12 \<noteq> ''WAVE'' then Err InvalidStructure
      else case read_u32 bytes 4 of
        Inl e \<Rightarrow> Err e
      | Inr chunk_size \<Rightarrow>
          (case checked_usize (nat chunk_size + 8) of
             None \<Rightarrow> Err FileTooLarge
           | Some riff_size \<Rightarrow>
               if riff_size > length bytes then Err WaveTruncated
               else if riff_size < 12 then Err InvalidStructure
               else case wave_loop bytes riff_size 12 (None, None) of
                 Inl e \<Rightarrow> Err e
               | Inr found \<Rightarrow> finish_wave found))"

section \<open>Fields\<close>

lemma u16_le_length [simp]: "length (u16_to_le x) = 2" "length (u32_to_le x) = 4" "length (i16_to_le x) = 2"
  by (simp_all add: u16_to_le_def u32_to_le_def i16_to_le_def)

lemma byte_of_int [simp]: "0 \<le> x \<Longrightarrow> x < 256 \<Longrightarrow> int (byte_val (char_of (nat x))) = x"
  by (simp add: nat_less_iff)

lemma byte_val_bound: "int (byte_val c) < 256"
  by (metis of_char_mod_256 of_nat_less_numeral_iff mod_less_divisor zero_less_numeral)

lemma u16_from_le_range: "0 \<le> u16_from_le a b" "u16_from_le a b < 65536"
  unfolding u16_from_le_def using byte_val_bound [of a] byte_val_bound [of b] by linarith+

lemma i16_from_le_range: "i16_from_le a b \<in> {i16_min..i16_max}"
  using u16_from_le_range [of a b] by (auto simp: i16_from_le_def Let_def)

lemma u16_le_mod: "u16_from_le (u16_to_le x ! 0) (u16_to_le x ! 1) = x mod 65536"
proof -
  have "x mod (256 * 256) = 256 * (x div 256 mod 256) + x mod 256"
    by (rule zmod_zmult2_eq) simp
  then show ?thesis by (simp add: u16_from_le_def u16_to_le_def)
qed

lemma u16_le_inverse:
  "0 \<le> x \<Longrightarrow> x < 65536 \<Longrightarrow> u16_from_le (u16_to_le x ! 0) (u16_to_le x ! 1) = x"
  using u16_le_mod [of x] by simp

lemma read_u16_at:
  assumes "0 \<le> x" "x < 65536" "n = length pre" "n + 2 \<le> 18446744073709551615"
  shows "read_u16 (pre @ u16_to_le x @ post) n = Ok x"
  using assms u16_le_inverse [OF assms(1,2)]
  by (simp add: read_u16_def checked_usize_def nth_append u16_to_le_def)

lemma read_u32_at:
  assumes "0 \<le> x" "x < 4294967296" "n = length pre" "n + 4 \<le> 18446744073709551615"
  shows "read_u32 (pre @ u32_to_le x @ post) n = Ok x"
proof -
  obtain a b c d where abcd: "u32_to_le x = [a, b, c, d]"
      "u16_to_le x = [a, b]" "u16_to_le (x div 65536) = [c, d]"
    by (simp add: u32_to_le_def u16_to_le_def)
  have hi: "0 \<le> x div 65536" "x div 65536 < 65536" using assms(1,2) by simp_all
  have "u16_from_le a b = x mod 65536" using u16_le_mod [of x] abcd(2) by simp
  moreover have "u16_from_le c d = x div 65536" using u16_le_inverse [OF hi] abcd(3) by simp
  ultimately have "u16_from_le a b + 65536 * u16_from_le c d = x" by simp
  then show ?thesis
    using assms(3,4) unfolding abcd(1) by (simp add: read_u32_def checked_usize_def nth_append)
qed

lemma i16_le_inverse:
  assumes "x \<in> {i16_min..i16_max}"
  shows "i16_from_le (i16_to_le x ! 0) (i16_to_le x ! 1) = x"
proof -
  have "u16_from_le (i16_to_le x ! 0) (i16_to_le x ! 1) = x mod 65536"
    using u16_le_inverse [of "x mod 65536"] by (simp add: i16_to_le_def)
  moreover have "x mod 65536 = (if 0 \<le> x then x else x + 65536)"
    using assms mod_pos_pos_trivial [of "x + 65536" 65536] by (auto simp: mod_pos_pos_trivial)
  ultimately show ?thesis using assms by (auto simp: i16_from_le_def Let_def split: if_splits)
qed

lemma samples_of_encode:
  assumes "set xs \<subseteq> {i16_min..i16_max}"
  shows "samples_of (concat (map i16_to_le xs)) = xs"
  using assms
proof (induction xs)
  case (Cons x xs)
  obtain a b where ab: "i16_to_le x = [a, b]" by (simp add: i16_to_le_def u16_to_le_def)
  then show ?case using Cons i16_le_inverse [of x] by simp
qed simp

lemma samples_of_range: "set (samples_of bs) \<subseteq> {i16_min..i16_max}"
  by (induction bs rule: samples_of.induct) (use i16_from_le_range in auto)

lemma samples_of_length: "length (samples_of bs) = length bs div 2"
  by (induction bs rule: samples_of.induct) auto

lemma concat_i16_length [simp]: "length (concat (map i16_to_le xs)) = 2 * length xs"
  by (induction xs) simp_all

section \<open>Files as chunk lists\<close>

text \<open>A chunk: its four-byte identifier, its body and the padding after a body of odd length.\<close>

type_synonym wave_chunk = "string \<times> string \<times> string"

fun wf_chunk :: "wave_chunk \<Rightarrow> bool" where
  "wf_chunk (ident, body, pad) \<longleftrightarrow>
     length ident = 4 \<and> length body < 4294967296 \<and> length pad = length body mod 2"

fun chunk_bytes :: "wave_chunk \<Rightarrow> string" where
  "chunk_bytes (ident, body, pad) = ident @ u32_to_le (int (length body)) @ body @ pad"

definition chunks_bytes :: "wave_chunk list \<Rightarrow> string" where
  "chunks_bytes cs = concat (map chunk_bytes cs)"

definition riff_file :: "wave_chunk list \<Rightarrow> string \<Rightarrow> string" where
  "riff_file cs rest =
     ''RIFF'' @ u32_to_le (int (4 + length (chunks_bytes cs))) @ ''WAVE'' @ chunks_bytes cs @ rest"

fun chunk_scan ::
  "wave_chunk list \<Rightarrow> pcm_format option \<times> string option
   \<Rightarrow> (pcm_wave_error, pcm_format option \<times> string option) result" where
  "chunk_scan [] found = Ok found"
| "chunk_scan ((ident, body, pad) # cs) found =
     (case take_chunk ident body found of Inl e \<Rightarrow> Err e | Inr found' \<Rightarrow> chunk_scan cs found')"

definition wave_meaning :: "wave_chunk list \<Rightarrow> (pcm_wave_error, pcm_buffer) result" where
  "wave_meaning cs =
     (case chunk_scan cs (None, None) of Inl e \<Rightarrow> Err e | Inr found \<Rightarrow> finish_wave found)"

lemma chunks_bytes_simps [simp]:
  "chunks_bytes [] = []" "chunks_bytes (c # cs) = chunk_bytes c @ chunks_bytes cs"
  by (simp_all add: chunks_bytes_def)

lemma slice_middle: "a = length pre \<Longrightarrow> b = length pre + length mid \<Longrightarrow> slice (pre @ mid @ post) a b = mid"
  by (simp add: slice_def)

lemma wave_loop_chunks:
  assumes "list_all wf_chunk cs" "offset = length pre" "riff = length pre + length (chunks_bytes cs)"
    and "riff \<le> 18446744073709551615"
  shows "wave_loop (pre @ chunks_bytes cs @ post) riff offset found = chunk_scan cs found"
  using assms
proof (induction cs arbitrary: pre offset found)
  case Nil
  then show ?case by (simp add: wave_loop.simps)
next
  case (Cons c cs)
  obtain ident body pad where c: "c = (ident, body, pad)" by (cases c)
  let ?n = "length body" and ?rest = "chunks_bytes cs @ post"
  let ?bytes = "pre @ chunks_bytes (c # cs) @ post"
  have wf: "length ident = 4" "?n < 4294967296" "length pad = ?n mod 2" using Cons.prems(1) c by auto
  have riff: "riff = length pre + 8 + ?n + ?n mod 2 + length (chunks_bytes cs)"
    using Cons.prems(3) c wf by simp
  have "read_u32 ((pre @ ident) @ u32_to_le (int ?n) @ (body @ pad @ ?rest)) (offset + 4) = Ok (int ?n)"
    by (rule read_u32_at) (use wf Cons.prems riff in auto)
  then have size: "read_u32 ?bytes (offset + 4) = Ok (int ?n)" using c by simp
  have "slice (pre @ ident @ (u32_to_le (int ?n) @ body @ pad @ ?rest)) offset (offset + 4) = ident"
    by (rule slice_middle) (use wf Cons.prems in auto)
  then have ids: "slice ?bytes offset (offset + 4) = ident" using c by simp
  have "slice ((pre @ ident @ u32_to_le (int ?n)) @ body @ (pad @ ?rest)) (offset + 8) (offset + 8 + ?n) = body"
    by (rule slice_middle) (use wf Cons.prems in auto)
  then have bod: "slice ?bytes (offset + 8) (offset + 8 + ?n) = body" using c by simp
  have next_pre: "?bytes = (pre @ chunk_bytes c) @ ?rest" by simp
  have step: "wave_loop ?bytes riff offset found =
      (case take_chunk ident body found of
         Inl e \<Rightarrow> Err e
       | Inr found' \<Rightarrow> wave_loop ?bytes riff (offset + 8 + ?n + ?n mod 2) found')"
    using size ids bod riff Cons.prems(2,4)
    by (subst wave_loop.simps) (simp add: checked_usize_def split: sum.split)
  have IH: "wave_loop ((pre @ chunk_bytes c) @ ?rest) riff (offset + 8 + ?n + ?n mod 2) found' =
      chunk_scan cs found'" for found'
    by (rule Cons.IH) (use Cons.prems c wf riff in auto)
  show ?case unfolding step unfolding next_pre IH by (simp add: c)
qed

lemma u16_le_char_inverse: "u16_to_le (u16_from_le a b) = [a, b]"
proof -
  have a: "int (byte_val a) < 256" and b: "int (byte_val b) < 256" by (rule byte_val_bound)+
  have "u16_from_le a b mod 256 = int (byte_val a)" "u16_from_le a b div 256 = int (byte_val b)"
    using a b by (auto simp: u16_from_le_def simp del: of_char_of)
  then show ?thesis using b by (simp add: u16_to_le_def)
qed

lemma u32_le_char_inverse:
  "u32_to_le (u16_from_le a b + 65536 * u16_from_le c d) = [a, b, c, d]"
proof -
  let ?l = "u16_from_le a b" and ?h = "u16_from_le c d"
  have l: "0 \<le> ?l" "?l < 65536" by (rule u16_from_le_range)+
  have "(?l + 65536 * ?h) div 65536 = ?h" using l by simp
  moreover have "u16_to_le (?l + 65536 * ?h) = u16_to_le ?l"
  proof -
    have e: "?l + 65536 * ?h = ?l + (256 * ?h) * 256" by simp
    have "(?l + 65536 * ?h) mod 256 = ?l mod 256" unfolding e by (rule mod_mult_self1)
    moreover have "(?l + 65536 * ?h) div 256 = ?l div 256 + 256 * ?h" unfolding e by simp
    ultimately show ?thesis by (simp add: u16_to_le_def)
  qed
  ultimately show ?thesis by (simp add: u32_to_le_def u16_le_char_inverse)
qed

lemma read_u32_Ok:
  assumes "read_u32 bytes n = Inr x"
  shows "n + 4 \<le> length bytes" "0 \<le> x" "x < 4294967296" "slice bytes n (n + 4) = u32_to_le x"
proof -
  show le: "n + 4 \<le> length bytes"
    using assms by (auto simp: read_u32_def checked_usize_def split: if_splits)
  let ?l = "u16_from_le (bytes ! n) (bytes ! (n + 1))" and ?h = "u16_from_le (bytes ! (n + 2)) (bytes ! (n + 3))"
  have x: "x = ?l + 65536 * ?h"
    using assms by (auto simp: read_u32_def checked_usize_def split: if_splits)
  show "0 \<le> x" "x < 4294967296"
    unfolding x using u16_from_le_range [of "bytes ! n" "bytes ! (n + 1)"]
      u16_from_le_range [of "bytes ! (n + 2)" "bytes ! (n + 3)"] by linarith+
  have "slice bytes n (n + 4) = [bytes ! n, bytes ! (n + 1), bytes ! (n + 2), bytes ! (n + 3)]"
    using le by (auto simp: slice_def numeral_eq_Suc take_Suc_conv_app_nth)
  then show "slice bytes n (n + 4) = u32_to_le x" unfolding x u32_le_char_inverse .
qed

lemma slice_split: "a \<le> b \<Longrightarrow> b \<le> c \<Longrightarrow> slice bs a c = slice bs a b @ slice bs b c"
proof -
  assume le: "a \<le> b" "b \<le> c"
  have "take (c - a) (drop a bs) = take (b - a) (drop a bs) @ take (c - b) (drop (b - a) (drop a bs))"
    using take_add [of "b - a" "c - b" "drop a bs"] le by simp
  then show ?thesis using le by (simp add: slice_def)
qed

lemma slice_length [simp]: "b \<le> length bs \<Longrightarrow> length (slice bs a b) = b - a"
  by (simp add: slice_def)

lemma wave_loop_Ok_chunks:
  assumes "wave_loop bytes riff offset found = Inr found'" "offset \<le> riff" "riff \<le> length bytes"
  shows "\<exists>cs. list_all wf_chunk cs \<and> slice bytes offset riff = chunks_bytes cs \<and>
     chunk_scan cs found = Inr found'"
  using assms
proof (induction bytes riff offset found rule: wave_loop.induct)
  case (1 bytes riff offset found)
  show ?case
  proof (cases "offset < riff")
    case False
    then have "slice bytes offset riff = chunks_bytes []" "found' = found"
      using "1.prems" by (simp_all add: slice_def wave_loop.simps)
    then show ?thesis by (intro exI [of _ "[]"]) simp
  next
    case True
    obtain size where he: "checked_usize (offset + 8) = Some (offset + 8)" "\<not> offset + 8 > riff"
        and size: "read_u32 bytes (offset + 4) = Inr size"
      using "1.prems"(1) True
      by (subst (asm) wave_loop.simps) (auto simp: checked_usize_def split: if_splits sum.splits)
    let ?e = "offset + 8 + nat size" and ?o = "offset + 8 + nat size + nat size mod 2"
    obtain f where
        ce: "checked_usize ?e = Some ?e" "\<not> ?e > riff"
        and f: "take_chunk (slice bytes offset (offset + 4)) (slice bytes (offset + 8) ?e) found = Inr f"
        and off: "checked_usize ?o = Some ?o" "\<not> ?o > riff"
        and rest: "wave_loop bytes riff ?o f = Inr found'"
      using "1.prems"(1) True he size
      by (subst (asm) wave_loop.simps) (auto simp: checked_usize_def split: if_splits sum.splits)
    obtain cs where cs: "list_all wf_chunk cs" "slice bytes ?o riff = chunks_bytes cs"
        "chunk_scan cs f = Inr found'"
      using "1.IH" [OF _ he size ce f off rest] True off(2) "1.prems"(3) by auto
    let ?c = "(slice bytes offset (offset + 4), slice bytes (offset + 8) ?e, slice bytes ?e ?o)"
    note sz = read_u32_Ok [OF size]
    have le: "?o \<le> length bytes" "?e \<le> length bytes" using off(2) "1.prems"(3) by simp_all
    have "nat size < 4294967296" using sz(2,3) by linarith
    then have "wf_chunk ?c" using le by simp
    moreover have "slice bytes offset riff = chunks_bytes (?c # cs)"
    proof -
      have "int (length (slice bytes (offset + 8) ?e)) = size" using le sz(2) by simp
      then have "chunk_bytes ?c = slice bytes offset (offset + 4) @ slice bytes (offset + 4) (offset + 8)
          @ slice bytes (offset + 8) ?e @ slice bytes ?e ?o"
        using sz(4) by (simp add: add.assoc)
      also have "\<dots> = slice bytes offset ?o"
        by (simp add: slice_split [symmetric])
      finally show ?thesis using cs(2) off(2) by (simp add: slice_split [of offset ?o riff])
    qed
    ultimately show ?thesis using cs f by (intro exI [of _ "?c # cs"]) simp
  qed
qed

lemma decode_riff_file:
  assumes "list_all wf_chunk cs" "4 + length (chunks_bytes cs) < 4294967296"
  shows "decode_pcm_wave (riff_file cs rest) = wave_meaning cs"
proof -
  let ?n = "4 + length (chunks_bytes cs)" and ?bytes = "riff_file cs rest"
  have "read_u32 (''RIFF'' @ u32_to_le (int ?n) @ (''WAVE'' @ chunks_bytes cs @ rest)) 4 = Ok (int ?n)"
    by (rule read_u32_at) (use assms(2) in simp_all)
  then have size: "read_u32 ?bytes 4 = Ok (int ?n)" by (simp only: riff_file_def)
  have magic: "slice ?bytes 0 4 = ''RIFF''" "slice ?bytes 8 12 = ''WAVE''"
    by (simp_all add: slice_def riff_file_def u32_to_le_def u16_to_le_def)
  have "wave_loop ((''RIFF'' @ u32_to_le (int ?n) @ ''WAVE'') @ chunks_bytes cs @ rest) (?n + 8) 12 (None, None)
      = chunk_scan cs (None, None)"
    by (rule wave_loop_chunks) (use assms in simp_all)
  then have loop: "wave_loop ?bytes (?n + 8) 12 (None, None) = chunk_scan cs (None, None)"
    by (simp add: riff_file_def)
  have len: "length ?bytes = ?n + 8 + length rest" by (simp add: riff_file_def)
  show ?thesis
    unfolding decode_pcm_wave_def wave_meaning_def magic size sum.case nat_int
    using len loop assms(2) by (simp add: checked_usize_def)
qed

lemma decode_Ok_riff_file:
  assumes "decode_pcm_wave bytes = Inr b"
  shows "\<exists>cs rest. bytes = riff_file cs rest \<and> list_all wf_chunk cs \<and>
    4 + length (chunks_bytes cs) < 4294967296"
proof -
  obtain size found where magic: "slice bytes 0 4 = ''RIFF''" "slice bytes 8 12 = ''WAVE''"
      and size: "read_u32 bytes 4 = Inr size" and le: "nat size + 8 \<le> length bytes" "12 \<le> nat size + 8"
      and loop: "wave_loop bytes (nat size + 8) 12 (None, None) = Inr found"
    using assms by (auto simp: decode_pcm_wave_def checked_usize_def split: if_splits sum.splits)
  obtain cs where cs: "list_all wf_chunk cs" "slice bytes 12 (nat size + 8) = chunks_bytes cs"
    using wave_loop_Ok_chunks [OF loop le(2,1)] by blast
  note sz = read_u32_Ok [OF size]
  have "length (slice bytes 12 (nat size + 8)) = nat size + 8 - 12" using le(1) by (rule slice_length)
  then have n: "4 + length (chunks_bytes cs) = nat size" using cs(2) le(2) by simp
  let ?rest = "drop (nat size + 8) bytes"
  have "bytes = slice bytes 0 (length bytes)" by (simp add: slice_def)
  also have "\<dots> = slice bytes 0 4 @ slice bytes 4 8 @ slice bytes 8 12 @ slice bytes 12 (nat size + 8)
      @ slice bytes (nat size + 8) (length bytes)"
    using le slice_split [of 0 4 "length bytes" bytes] slice_split [of 4 8 "length bytes" bytes]
      slice_split [of 8 12 "length bytes" bytes] slice_split [of 12 "nat size + 8" "length bytes" bytes]
    by simp
  also have "slice bytes 4 8 = u32_to_le (int (4 + length (chunks_bytes cs)))"
    using sz(2,4) n by simp
  finally have "bytes = riff_file cs ?rest"
    using magic cs(2) by (simp add: riff_file_def slice_def)
  moreover have "4 + length (chunks_bytes cs) < 4294967296" using n sz(2,3) by linarith
  ultimately show ?thesis using cs(1) by blast
qed


definition encode_chunks :: "pcm_buffer \<Rightarrow> wave_chunk list" where
  "encode_chunks b =
     [(''fmt '', u16_to_le 1 @ u16_to_le (pf_channels (pb_format b)) @ u32_to_le (pf_sample_rate_hz (pb_format b))
        @ u32_to_le (pf_sample_rate_hz (pb_format b) * (pf_channels (pb_format b) * 2))
        @ u16_to_le (pf_channels (pb_format b) * 2) @ u16_to_le 16, []),
      (''data'', concat (map i16_to_le (pb_samples b)), [])]"

lemma parse_format_encoded:
  assumes "valid_pcm_format f"
  shows "parse_format (u16_to_le 1 @ u16_to_le (pf_channels f) @ u32_to_le (pf_sample_rate_hz f)
        @ u32_to_le (pf_sample_rate_hz f * (pf_channels f * 2))
        @ u16_to_le (pf_channels f * 2) @ u16_to_le 16) = Ok f"
proof -
  let ?c = "pf_channels f" and ?r = "pf_sample_rate_hz f"
  let ?s = "u16_to_le 1 @ u16_to_le ?c @ u32_to_le ?r @ u32_to_le (?r * (?c * 2)) @ u16_to_le (?c * 2) @ u16_to_le 16"
  have c: "1 \<le> ?c" "?c \<le> 8" and r: "1 \<le> ?r" "?r \<le> 384000"
    using assms by (auto simp: valid_pcm_format_def in_range_def)
  have "?r * (?c * 2) \<le> 384000 * 16" by (intro mult_mono) (use c r in auto)
  then have rate: "0 \<le> ?r * (?c * 2)" "?r * (?c * 2) < 4294967296" using c r by auto
  have "read_u16 ([] @ u16_to_le 1 @ (u16_to_le ?c @ u32_to_le ?r @ u32_to_le (?r * (?c * 2)) @ u16_to_le (?c * 2) @ u16_to_le 16)) 0 = Ok 1"
    by (rule read_u16_at) simp_all
  moreover have "read_u16 (u16_to_le 1 @ u16_to_le ?c @ (u32_to_le ?r @ u32_to_le (?r * (?c * 2)) @ u16_to_le (?c * 2) @ u16_to_le 16)) 2 = Ok ?c"
    by (rule read_u16_at) (use c in simp_all)
  moreover have "read_u32 ((u16_to_le 1 @ u16_to_le ?c) @ u32_to_le ?r @ (u32_to_le (?r * (?c * 2)) @ u16_to_le (?c * 2) @ u16_to_le 16)) 4 = Ok ?r"
    by (rule read_u32_at) (use r in simp_all)
  moreover have "read_u32 ((u16_to_le 1 @ u16_to_le ?c @ u32_to_le ?r) @ u32_to_le (?r * (?c * 2)) @ (u16_to_le (?c * 2) @ u16_to_le 16)) 8 = Ok (?r * (?c * 2))"
    by (rule read_u32_at) (use rate in simp_all)
  moreover have "read_u16 ((u16_to_le 1 @ u16_to_le ?c @ u32_to_le ?r @ u32_to_le (?r * (?c * 2))) @ u16_to_le (?c * 2) @ u16_to_le 16) 12 = Ok (?c * 2)"
    by (rule read_u16_at) (use c in simp_all)
  moreover have "read_u16 ((u16_to_le 1 @ u16_to_le ?c @ u32_to_le ?r @ u32_to_le (?r * (?c * 2)) @ u16_to_le (?c * 2)) @ u16_to_le 16 @ []) 14 = Ok 16"
    by (rule read_u16_at) simp_all
  ultimately have "read_u16 ?s 0 = Ok 1" "read_u16 ?s 2 = Ok ?c" "read_u32 ?s 4 = Ok ?r"
      "read_u32 ?s 8 = Ok (?r * (?c * 2))" "read_u16 ?s 12 = Ok (?c * 2)" "read_u16 ?s 14 = Ok 16"
    by simp_all
  moreover have "pcm_format_new ?r ?c Signed16LittleEndian = Ok f"
    using assms by (cases f) (auto simp: pcm_format_new_Ok valid_pcm_format_def intro: pcm_sample_format.exhaust)
  moreover have "checked_u16 (?c * 2) = Some (?c * 2)" "checked_u32 (?r * (?c * 2)) = Some (?r * (?c * 2))"
    by (rule checked_in; use c rate in linarith)+
  ultimately show ?thesis
    unfolding parse_format_def by simp
qed

lemma encode_is_riff_file:
  assumes "valid_pcm_buffer b"
  shows "encode_pcm_wave b = Ok (riff_file (encode_chunks b) [])"
    and "list_all wf_chunk (encode_chunks b)"
    and "length (chunks_bytes (encode_chunks b)) = 32 + 2 * length (pb_samples b)"
    and "2 * length (pb_samples b) \<le> 48000000"
proof -
  let ?c = "pf_channels (pb_format b)" and ?r = "pf_sample_rate_hz (pb_format b)" and ?n = "length (pb_samples b)"
  have c: "1 \<le> ?c" "?c \<le> 8" and r: "1 \<le> ?r" "?r \<le> 384000" and n: "?n \<le> 24000000"
    using assms by (auto simp: valid_pcm_buffer_def valid_pcm_format_def in_range_def protocol_bounds)
  have "?r * (?c * 2) \<le> 384000 * 16" by (intro mult_mono) (use c r in auto)
  then have rate: "0 \<le> ?r * (?c * 2)" "?r * (?c * 2) \<le> u32_max" using c r by (simp, linarith)
  show "2 * ?n \<le> 48000000" using n by simp
  show "list_all wf_chunk (encode_chunks b)" using n by (simp add: encode_chunks_def)
  show len: "length (chunks_bytes (encode_chunks b)) = 32 + 2 * ?n" by (simp add: encode_chunks_def)
  have "checked_usize (?n * 2) = Some (?n * 2)" using n by (simp add: checked_usize_def)
  moreover have "checked_u32 (int (?n * 2)) = Some (int (?n * 2))" "checked_u32 (36 + int (?n * 2)) = Some (36 + int (?n * 2))"
      "checked_u16 (?c * 2) = Some (?c * 2)" "checked_u32 (?r * (?c * 2)) = Some (?r * (?c * 2))"
    by (rule checked_in; use c rate n in linarith)+
  moreover have "int (4 + length (chunks_bytes (encode_chunks b))) = 36 + int (?n * 2)" unfolding len by simp
  ultimately show "encode_pcm_wave b = Ok (riff_file (encode_chunks b) [])"
    unfolding encode_pcm_wave_def riff_file_def by (simp add: encode_chunks_def mult.commute [of 2])
qed

lemma encode_decode:
  assumes "valid_pcm_buffer b" "set (pb_samples b) \<subseteq> {i16_min..i16_max}"
  shows "decode_pcm_wave (riff_file (encode_chunks b) rest) = Ok b"
proof -
  note enc = encode_is_riff_file [OF assms(1)]
  have v: "valid_pcm_format (pb_format b)" and n: "length (pb_samples b) \<le> MAX_OFFLINE_PCM_SAMPLES"
    using assms(1) by (auto simp: valid_pcm_buffer_def)
  have "chunk_scan (encode_chunks b) (None, None) =
      Ok (Some (pb_format b), Some (concat (map i16_to_le (pb_samples b))))"
    unfolding encode_chunks_def using parse_format_encoded [OF v] by (simp add: take_chunk_def)
  moreover have "finish_wave (Some (pb_format b), Some (concat (map i16_to_le (pb_samples b)))) = Ok b"
    using n samples_of_encode [OF assms(2)] pcm_buffer_new_rebuild [OF assms(1)] by (simp add: finish_wave_def)
  ultimately have "wave_meaning (encode_chunks b) = Ok b" by (simp add: wave_meaning_def)
  moreover have "4 + length (chunks_bytes (encode_chunks b)) < 4294967296" using enc(3,4) by linarith
  ultimately show ?thesis using decode_riff_file [OF enc(2)] by simp
qed

text \<open>
  Encoding is total on valid buffers and is undone by the parser.  Every valid buffer of 16-bit
  samples is encoded to a file of 44 header bytes and two bytes per sample, and parsing this
  file, whatever follows it, gives the same buffer.
\<close>

theorem wave_round_trip:
  assumes "valid_pcm_buffer b" "set (pb_samples b) \<subseteq> {i16_min..i16_max}"
  shows "\<exists>bytes. encode_pcm_wave b = Ok bytes \<and> length bytes = 44 + 2 * length (pb_samples b) \<and>
    decode_pcm_wave (bytes @ rest) = Ok b"
proof -
  note enc = encode_is_riff_file [OF assms(1)]
  have "riff_file (encode_chunks b) [] @ rest = riff_file (encode_chunks b) rest" by (simp add: riff_file_def)
  moreover have "length (riff_file (encode_chunks b) []) = 44 + 2 * length (pb_samples b)"
    using enc(3) by (simp add: riff_file_def)
  ultimately show ?thesis using enc(1) encode_decode [OF assms] by simp
qed

definition tiny_buffer :: pcm_buffer where
  "tiny_buffer =
     \<lparr>pb_format = \<lparr>pf_sample_rate_hz = 12000, pf_channels = 1, pf_sample_format = Signed16LittleEndian\<rparr>,
      pb_duration = \<lparr>pd_frames = 3, pd_microseconds = 250\<rparr>, pb_samples = [0, -1, 32767]\<rparr>"

lemma tiny_buffer_valid: "valid_pcm_buffer tiny_buffer"
  by (simp add: valid_pcm_buffer_def valid_pcm_format_def in_range_def protocol_bounds tiny_buffer_def)

theorem wave_round_trip_witness:
  "\<exists>bytes. encode_pcm_wave tiny_buffer = Ok bytes \<and> length bytes = 50 \<and>
     decode_pcm_wave (bytes @ ''xyz'') = Ok tiny_buffer"
  using wave_round_trip [OF tiny_buffer_valid, of "''xyz''"] by (simp add: tiny_buffer_def)

text \<open>Space the chunks found so far take at least.\<close>

fun found_space :: "pcm_format option \<times> string option \<Rightarrow> nat" where
  "found_space (f, d) = (if f = None then 0 else 24) + (case d of None \<Rightarrow> 0 | Some body \<Rightarrow> 8 + length body)"

lemma parse_format_Ok:
  "parse_format body = Inr f \<Longrightarrow> valid_pcm_format f \<and> 16 \<le> length body"
  by (auto simp: parse_format_def pcm_format_new_Ok valid_pcm_format_def split: if_splits sum.splits option.splits
      simp del: checked_Some checked_None)

lemma take_chunk_Ok:
  assumes "take_chunk ident body found = Inr found'"
    and "\<And>f. fst found = Some f \<Longrightarrow> valid_pcm_format f"
  shows "found_space found' \<le> found_space found + 8 + length body \<and>
    (\<forall>f. fst found' = Some f \<longrightarrow> valid_pcm_format f)"
  using assms parse_format_Ok [of body]
  by (cases found) (auto simp: take_chunk_def split: if_splits)

lemma chunk_scan_Ok:
  assumes "chunk_scan cs found = Inr found'" "list_all wf_chunk cs"
    and "\<And>f. fst found = Some f \<Longrightarrow> valid_pcm_format f"
  shows "found_space found' \<le> found_space found + length (chunks_bytes cs) \<and>
    (\<forall>f. fst found' = Some f \<longrightarrow> valid_pcm_format f)"
  using assms
proof (induction cs found rule: chunk_scan.induct)
  case (2 ident body pad cs found)
  obtain f1 where f1: "take_chunk ident body found = Inr f1" "chunk_scan cs f1 = Inr found'"
    using "2.prems"(1) by (auto split: sum.splits)
  note t = take_chunk_Ok [OF f1(1) "2.prems"(3)]
  show ?case using "2.IH" [OF f1] t "2.prems"(2) by auto
qed simp

text \<open>
  Whatever the parser accepts is a valid buffer of 16-bit samples, no longer than the bytes it
  came from, and writing it out again gives a file that parses to the same buffer.
\<close>

theorem wave_decode_sound:
  assumes "decode_pcm_wave bytes = Ok b"
  shows "valid_pcm_buffer b \<and> set (pb_samples b) \<subseteq> {i16_min..i16_max} \<and>
    44 + 2 * length (pb_samples b) \<le> length bytes \<and>
    (\<exists>bytes'. encode_pcm_wave b = Ok bytes' \<and> decode_pcm_wave bytes' = Ok b)"
proof -
  obtain cs rest where cs: "bytes = riff_file cs rest" "list_all wf_chunk cs"
      "4 + length (chunks_bytes cs) < 4294967296"
    using decode_Ok_riff_file [OF assms] by blast
  have "wave_meaning cs = Ok b" using assms decode_riff_file [OF cs(2,3)] cs(1) by simp
  then obtain f body where fb: "chunk_scan cs (None, None) = Inr (Some f, Some body)"
      "even (length body)" "pcm_buffer_new f (samples_of body) = Inr b"
    by (auto simp: wave_meaning_def finish_wave_def even_iff_mod_2_eq_zero split: sum.splits option.splits if_splits)
  have sp: "32 + length body \<le> length (chunks_bytes cs)" and f: "valid_pcm_format f"
    using chunk_scan_Ok [OF fb(1) cs(2)] by simp_all
  note b = pcm_buffer_new_valid [OF f fb(3)]
  have i16: "set (pb_samples b) \<subseteq> {i16_min..i16_max}" using b samples_of_range by simp
  have "44 + 2 * length (pb_samples b) \<le> length bytes"
    using b samples_of_length [of body] fb(2) sp cs(1) by (simp add: riff_file_def)
  then show ?thesis
    using b i16 encode_is_riff_file(1) encode_decode by blast
qed

theorem wave_decode_sound_witness:
  "\<exists>bytes. decode_pcm_wave bytes = Ok tiny_buffer \<and> valid_pcm_buffer tiny_buffer \<and> 50 \<le> length bytes"
proof -
  have d: "decode_pcm_wave (riff_file (encode_chunks tiny_buffer) []) = Ok tiny_buffer"
    by (rule encode_decode [OF tiny_buffer_valid]) (simp add: tiny_buffer_def)
  then show ?thesis using wave_decode_sound [OF d] by (auto simp: tiny_buffer_def)
qed

end
