(* ===== verification/SP_Codec.thy ===== *)
theory SP_Codec
  imports Complex_Main SP_Protocol
begin

unbundle bit_operations_syntax

text \<open>
  \<open>crates/protocol/src/offline_adapter.rs\<close>: the private conversion layer around the \<open>mfsk_core\<close>
  FT8 library.  The library is a parameter, the record \<open>mfsk_core\<close> of the functions the adapter
  calls; nothing is assumed of them but what a theorem names.  Callsign hash tables are a type
  parameter of that record.  A \<open>[u8; 77]\<close> is a list of naturals, \<open>PackedFt8Bits\<close> a list of booleans.
  A floating-point value reaches the adapter's own code only through the three rounding functions:
  it is a rational or not finite.
\<close>

section \<open>The decoder library\<close>

datatype f32 = Finite rat | NonFinite

text \<open>One raw decode: \<open>freq_hz\<close>, \<open>dt_sec * 1000.0\<close>, \<open>snr_db + 8.0\<close> and the message bits.\<close>

record raw_decode =
  raw_freq_hz :: f32
  raw_dt_millis :: f32
  raw_snr_calibrated :: f32
  raw_message77 :: "nat list"

record 'h mfsk_core =
  table_new :: 'h
  table_insert :: "'h \<Rightarrow> string \<Rightarrow> 'h"
  pack77 :: "string \<Rightarrow> string \<Rightarrow> string \<Rightarrow> nat list option"
  pack77_type1 :: "string \<Rightarrow> string \<Rightarrow> string \<Rightarrow> nat list option"
  pack77_type4 :: "string \<Rightarrow> string \<Rightarrow> string \<Rightarrow> bool \<Rightarrow> nat list option"
  ihashcall :: "string \<Rightarrow> nat \<Rightarrow> nat"
  unpack77_with_hash :: "nat list \<Rightarrow> 'h \<Rightarrow> string option"
  decode_block :: "int list \<Rightarrow> ft8_decode_config \<Rightarrow> raw_decode list"
  message_to_tones :: "nat list \<Rightarrow> nat list"
  tones_to_i16 :: "nat list \<Rightarrow> int \<Rightarrow> int \<Rightarrow> int list"

section \<open>Words of a message text\<close>

text \<open>Length in bytes of a white-space character (Unicode \<open>White_Space\<close>) at the start, 0 if none.\<close>

definition ws_len :: "string \<Rightarrow> nat" where
  "ws_len s =
     (case map of_char s :: nat list of
        [] \<Rightarrow> 0
      | a # r \<Rightarrow>
          if (9 \<le> a \<and> a \<le> 13) \<or> a = 32 then 1
          else case r of
            [] \<Rightarrow> 0
          | b # r' \<Rightarrow>
              if a = 194 \<and> (b = 133 \<or> b = 160) then 2
              else case r' of
                [] \<Rightarrow> 0
              | c # _ \<Rightarrow>
                  if (a = 225 \<and> b = 154 \<and> c = 128)
                     \<or> (a = 226 \<and> b = 128 \<and> (128 \<le> c \<and> c \<le> 138 \<or> c = 168 \<or> c = 169 \<or> c = 175))
                     \<or> (a = 226 \<and> b = 129 \<and> c = 159)
                     \<or> (a = 227 \<and> b = 128 \<and> c = 128)
                  then 3 else 0)"

definition flush_word :: "string \<Rightarrow> string list" where
  "flush_word w = (if w = [] then [] else [w])"

function split_words :: "string \<Rightarrow> string \<Rightarrow> string list" where
  "split_words w s =
     (if s = [] then flush_word w
      else if 0 < ws_len s then flush_word w @ split_words [] (drop (ws_len s) s)
      else split_words (w @ [hd s]) (tl s))"
  by pat_completeness auto
termination
  by (relation "measure (\<lambda>(w, s). length s)") auto

declare split_words.simps [simp del]

definition split_whitespace :: "string \<Rightarrow> string list" where
  "split_whitespace s = split_words [] s"

definition strip_suffix_char :: "char \<Rightarrow> string \<Rightarrow> string option" where
  "strip_suffix_char c s = (if s \<noteq> [] \<and> last s = c then Some (butlast s) else None)"

fun contains_sub :: "string \<Rightarrow> string \<Rightarrow> bool" where
  "contains_sub p [] \<longleftrightarrow> p = []"
| "contains_sub p (c # cs) \<longleftrightarrow> take (length p) (c # cs) = p \<or> contains_sub p cs"

section \<open>Helpers of the adapter\<close>

definition is_grid :: "string \<Rightarrow> bool" where
  "is_grid v \<longleftrightarrow> length v = 4
     \<and> 65 \<le> byte_val (v ! 0) \<and> byte_val (v ! 0) \<le> 82
     \<and> 65 \<le> byte_val (v ! 1) \<and> byte_val (v ! 1) \<le> 82
     \<and> is_ascii_digit (v ! 2) \<and> is_ascii_digit (v ! 3)"

definition is_report :: "string \<Rightarrow> bool" where
  "is_report v \<longleftrightarrow> length v = 3 \<and> (v ! 0 = CHR ''+'' \<or> v ! 0 = CHR ''-'')
     \<and> is_ascii_digit (v ! 1) \<and> is_ascii_digit (v ! 2)"

definition roger_report :: "string \<Rightarrow> bool" where
  "roger_report payload = (case strip_prefix ''R'' payload of None \<Rightarrow> False | Some r \<Rightarrow> is_report r)"

definition read_bits :: "nat list \<Rightarrow> nat \<Rightarrow> nat \<Rightarrow> nat" where
  "read_bits bits start len = foldl (\<lambda>v b. push_bit 1 v OR b) 0 (take len (drop start bits))"

definition write_bits :: "nat list \<Rightarrow> nat \<Rightarrow> nat \<Rightarrow> nat \<Rightarrow> nat list" where
  "write_bits bits start len v =
     foldl (\<lambda>bs index. bs[start + index := drop_bit (len - 1 - index) v AND 1]) bits [0..<len]"

definition unbracket :: "string \<Rightarrow> string" where
  "unbracket token =
     (case Option.bind (strip_prefix ''<'' token) (strip_suffix_char (CHR ''>'')) of
        None \<Rightarrow> token | Some v \<Rightarrow> v)"

definition parse_identity :: "string \<Rightarrow> (unit, full_callsign) result" where
  "parse_identity token = map_err (\<lambda>_. ()) (full_callsign_from_str (unbracket token))"

definition same_identity :: "string \<Rightarrow> full_callsign \<Rightarrow> bool" where
  "same_identity token expected \<longleftrightarrow> unbracket token = original expected"

definition classify_payload :: "string \<Rightarrow> ft8_message_class option" where
  "classify_payload payload =
     (if payload = ''RRR'' then Some Roger
      else if payload = ''73'' then Some Ending73
      else if payload = ''RR73'' then Some EndingRr73
      else if is_grid payload then Some DirectedGrid
      else if is_report payload then Some SignalReport
      else if roger_report payload then Some RogerSignalReport
      else None)"

fun payload_matches :: "ft8_message_class \<Rightarrow> string \<Rightarrow> bool" where
  "payload_matches DirectedGrid p = is_grid p"
| "payload_matches SignalReport p = is_report p"
| "payload_matches RogerSignalReport p = roger_report p"
| "payload_matches Roger p = (p = ''RRR'')"
| "payload_matches Ending73 p = (p = ''73'')"
| "payload_matches EndingRr73 p = (p = ''RR73'')"
| "payload_matches GeneralCall p = False"

definition show_2digits :: "int \<Rightarrow> string" where
  "show_2digits v = (if v < 10 then CHR ''0'' # show_uint v else show_uint v)"

definition normalize_standard_report :: "string \<Rightarrow> string" where
  "normalize_standard_report text =
     (let words = split_whitespace text in
      if length words \<le> 2 then text
      else let payload = words ! 2;
               (prefix, numeric) = (case strip_prefix ''R'' payload of
                                      Some n \<Rightarrow> (''R'', n) | None \<Rightarrow> ('''', payload))
           in case numeric of
                [] \<Rightarrow> text
              | sign # digits \<Rightarrow>
                  if \<not> (sign = CHR ''+'' \<or> sign = CHR ''-'') \<or> length digits \<ge> 2 then text
                  else case parse_uint u8_max digits of
                    None \<Rightarrow> text
                  | Some v \<Rightarrow>
                      words ! 0 @ '' '' @ words ! 1 @ '' '' @ prefix @ [sign] @ show_2digits v)"

section \<open>Classification\<close>

definition directed_class_from_bits :: "nat list \<Rightarrow> nat \<Rightarrow> ft8_message_class option" where
  "directed_class_from_bits bits i3 =
     (if i3 = 1 \<or> i3 = 2 then
        (let grid_or_report = read_bits bits 59 15 in
         if grid_or_report \<le> 32400 then Some DirectedGrid
         else let report_code = grid_or_report - 32400; b = bits ! 58 in
           if b = 0 \<and> report_code = 2 then Some Roger
           else if b = 0 \<and> report_code = 3 then Some EndingRr73
           else if b = 0 \<and> report_code = 4 then Some Ending73
           else if b = 0 \<and> report_code \<ge> 5 then Some SignalReport
           else if b = 1 \<and> report_code \<ge> 5 then Some RogerSignalReport
           else None)
      else if i3 = 4 \<and> bits ! 73 = 0 then
        (let code = read_bits bits 71 2 in
         if code = 1 then Some Roger
         else if code = 2 then Some EndingRr73
         else if code = 3 then Some Ending73
         else None)
      else None)"

definition resolved_from_words ::
  "string \<Rightarrow> string \<Rightarrow> string option \<Rightarrow> ft8_message_class \<Rightarrow> (unit, resolved_ft8_message) result" where
  "resolved_from_words text sender recipient cl =
     (case parse_identity sender of
        Inl _ \<Rightarrow> Err ()
      | Inr s \<Rightarrow>
          (case recipient of
             None \<Rightarrow> map_err (\<lambda>_. ()) (resolved_message_new text s None cl)
           | Some r \<Rightarrow>
               (case parse_identity r of
                  Inl _ \<Rightarrow> Err ()
                | Inr r' \<Rightarrow> map_err (\<lambda>_. ()) (resolved_message_new text s (Some r') cl))))"

definition adapter_error :: "string \<Rightarrow> ft8_codec_error" where
  "adapter_error detail = CodecAdapter detail"

definition unsupported_outcome :: "string \<Rightarrow> string \<Rightarrow> (ft8_codec_error, classified_ft8_message) result" where
  "unsupported_outcome text detail =
     map_err (\<lambda>_. adapter_error ''unsupported FT8 message exceeded the owned boundary'')
       (map_ok Unsupported (unsupported_new text detail))"

definition finish_resolved ::
  "string \<Rightarrow> (unit, resolved_ft8_message) result \<Rightarrow> (ft8_codec_error, classified_ft8_message) result" where
  "finish_resolved text r =
     (case r of
        Inr m \<Rightarrow> Ok (Resolved m)
      | Inl _ \<Rightarrow>
          map_err (\<lambda>_. adapter_error ''ambiguous FT8 message exceeded the owned boundary'')
            (map_ok Ambiguous (ambiguous_new text
               ''decoded FT8 identity cannot be mapped unambiguously to owned full callsigns'')))"

definition directed_outcome ::
  "string \<Rightarrow> ft8_message_class option \<Rightarrow> string \<Rightarrow> string \<Rightarrow> string
   \<Rightarrow> (ft8_codec_error, classified_ft8_message) result" where
  "directed_outcome text bit_class sender recipient payload =
     (case (case bit_class of Some c \<Rightarrow> Some c | None \<Rightarrow> classify_payload payload) of
        Some c \<Rightarrow> finish_resolved text (resolved_from_words text sender (Some recipient) c)
      | None \<Rightarrow> unsupported_outcome text
                  ''directed FT8 payload is outside the reviewed Phase 1 message classes'')"

definition classify_supported ::
  "string \<Rightarrow> ft8_message_class option \<Rightarrow> (ft8_codec_error, classified_ft8_message) result" where
  "classify_supported text bit_class =
     (case split_whitespace text of
        [a, b] \<Rightarrow>
          if a = ''CQ'' then finish_resolved text (resolved_from_words text b None GeneralCall)
          else unsupported_outcome text
                 ''FT8 message shape is outside the reviewed Phase 1 message matrix''
      | [a, b, c] \<Rightarrow>
          if a = ''CQ'' \<and> is_grid c
          then finish_resolved text (resolved_from_words text b None GeneralCall)
          else directed_outcome text bit_class a b c
      | _ \<Rightarrow> unsupported_outcome text
               ''FT8 message shape is outside the reviewed Phase 1 message matrix'')"

definition classify_bits ::
  "'h mfsk_core \<Rightarrow> nat list \<Rightarrow> 'h \<Rightarrow> (ft8_codec_error, classified_ft8_message) result" where
  "classify_bits k bits hashes =
     (let n3 = read_bits bits 71 3;
          i3 = read_bits bits 74 3;
          decoded = unpack77_with_hash k bits hashes
      in if i3 = 0 \<and> n3 = 0 then
           (case decoded of
              None \<Rightarrow> Err (InvalidPackedMessage ''empty FT8 free-text payload'')
            | Some text \<Rightarrow>
                map_err (\<lambda>_. adapter_error ''decoded FT8 free text exceeded the owned boundary'')
                  (map_ok FreeText (free_text_new text)))
         else if \<not> (i3 = 1 \<or> i3 = 2 \<or> i3 = 4) then
           (let ty = show_nat i3 @ ''/'' @ show_nat n3 in
            unsupported_outcome
              (case decoded of Some t \<Rightarrow> t | None \<Rightarrow> ''UNSUPPORTED FT8 TYPE '' @ ty)
              (''FT8 type '' @ ty @ '' is outside the reviewed Phase 1 message matrix''))
         else
           (case decoded of
              None \<Rightarrow> Err (InvalidPackedMessage ''FT8 payload could not be unpacked'')
            | Some t \<Rightarrow>
                let text = normalize_standard_report t in
                if contains_sub ''<...>'' text then
                  map_err (\<lambda>_. adapter_error ''unresolved FT8 message exceeded the owned boundary'')
                    (map_ok UnresolvedHash (unresolved_hash_new text
                       ''at least one FT8 callsign hash is not present in the supplied resolution context''))
                else classify_supported text (directed_class_from_bits bits i3)))"

definition u8_of_bool :: "bool \<Rightarrow> nat" where
  "u8_of_bool b = (if b then 1 else 0)"

definition decode_bits ::
  "'h mfsk_core \<Rightarrow> 'h \<Rightarrow> bool list \<Rightarrow> (ft8_codec_error, classified_ft8_message) result" where
  "decode_bits k hashes bits = classify_bits k (map u8_of_bool bits) hashes"

section \<open>Encoding\<close>

definition with_known_calls :: "'h mfsk_core \<Rightarrow> full_callsign list \<Rightarrow> 'h" where
  "with_known_calls k calls = foldl (\<lambda>h c. table_insert k h (original c)) (table_new k) calls"

definition pack_message :: "'h mfsk_core \<Rightarrow> resolved_ft8_message \<Rightarrow> (ft8_codec_error, nat list option) result" where
  "pack_message k m =
     (let words = split_whitespace (rm_canonical_text m); cl = rm_class m;
          mismatch = Err (NotRepresentable
            ''canonical text does not exactly match its owned FT8 class and identities'')
      in case words of
           [a, sender] \<Rightarrow>
             if cl = GeneralCall \<and> a = ''CQ'' \<and> same_identity sender (rm_sender m) \<and> CHR ''/'' \<in> set sender
             then Ok (map_option (\<lambda>bits. write_bits bits 0 12 (ihashcall k sender 12))
                        (pack77_type4 k sender '''' '''' True))
             else mismatch
         | [a, b, c] \<Rightarrow>
             if cl = GeneralCall \<and> a = ''CQ'' \<and> same_identity b (rm_sender m) \<and> is_grid c
             then Ok (pack77 k ''CQ'' b c)
             else if cl \<noteq> GeneralCall \<and> same_identity a (rm_sender m)
                  \<and> (case rm_recipient m of None \<Rightarrow> False | Some r \<Rightarrow> same_identity b r)
                  \<and> payload_matches cl c
             then Ok (if cl = DirectedGrid then pack77_type1 k a b c else pack77 k a b c)
             else mismatch
         | _ \<Rightarrow> mismatch)"

definition verification_hashes :: "'h mfsk_core \<Rightarrow> 'h \<Rightarrow> resolved_ft8_message \<Rightarrow> 'h" where
  "verification_hashes k hashes m =
     (let h = table_insert k hashes (original (rm_sender m)) in
      case rm_recipient m of None \<Rightarrow> h | Some r \<Rightarrow> table_insert k h (original r))"

definition encode_owned :: "'h mfsk_core \<Rightarrow> 'h \<Rightarrow> resolved_ft8_message \<Rightarrow> (ft8_codec_error, nat list) result" where
  "encode_owned k hashes m =
     (case pack_message k m of
        Inl e \<Rightarrow> Err e
      | Inr None \<Rightarrow> Err (NotRepresentable ''the reviewed FT8 message encoder cannot represent this message'')
      | Inr (Some encoded) \<Rightarrow>
          (case unpack77_with_hash k encoded (verification_hashes k hashes m) of
             None \<Rightarrow> Err (adapter_error ''the reviewed FT8 encoder produced a payload it could not unpack'')
           | Some t \<Rightarrow>
               if normalize_standard_report t \<noteq> rm_canonical_text m
               then Err (NotRepresentable
                      ''encoding would normalize or discard part of the owned message identity'')
               else Ok encoded))"

definition codec_encode :: "'h mfsk_core \<Rightarrow> 'h \<Rightarrow> resolved_ft8_message \<Rightarrow> (ft8_codec_error, bool list) result" where
  "codec_encode k hashes m = map_ok (map (\<lambda>b. b \<noteq> 0)) (encode_owned k hashes m)"

section \<open>Decoding recordings\<close>

text \<open>\<open>f32::round\<close>: half-way cases away from zero.\<close>

definition round_away :: "rat \<Rightarrow> int" where
  "round_away x = (if 0 \<le> x then \<lfloor>x + 1 / 2\<rfloor> else - \<lfloor>- x + 1 / 2\<rfloor>)"

text \<open>
  The bounds are the integer limits converted to \<open>f32\<close>: \<open>u32::MAX\<close> and \<open>i32::MAX\<close> round up to a
  power of two, which the saturating \<open>as\<close> cast then maps to the limit itself.
\<close>

fun rounded_u32 :: "f32 \<Rightarrow> (ft8_decode_error, int) result" where
  "rounded_u32 NonFinite = Err InvalidResultMetadata"
| "rounded_u32 (Finite x) =
     (if x < 0 \<or> x > 4294967296 then Err InvalidResultMetadata else Ok (sat_u32 (round_away x)))"

fun rounded_i32 :: "f32 \<Rightarrow> (ft8_decode_error, int) result" where
  "rounded_i32 NonFinite = Err InvalidResultMetadata"
| "rounded_i32 (Finite x) =
     (if x < - 2147483648 \<or> x > 2147483648 then Err InvalidResultMetadata
      else Ok (saturate i32_min i32_max (round_away x)))"

fun rounded_i16 :: "f32 \<Rightarrow> (ft8_decode_error, int) result" where
  "rounded_i16 NonFinite = Err InvalidResultMetadata"
| "rounded_i16 (Finite x) =
     (if x < - 32768 \<or> x > 32767 then Err InvalidResultMetadata
      else Ok (saturate i16_min i16_max (round_away x)))"

definition own_decode :: "'h mfsk_core \<Rightarrow> 'h \<Rightarrow> raw_decode \<Rightarrow> (ft8_decode_error, ft8_decode) result" where
  "own_decode k hashes raw =
     (case rounded_u32 (raw_freq_hz raw) of
        Inl e \<Rightarrow> Err e
      | Inr frequency \<Rightarrow>
     (case rounded_i32 (raw_dt_millis raw) of
        Inl e \<Rightarrow> Err e
      | Inr start_offset \<Rightarrow>
     (case rounded_i16 (raw_snr_calibrated raw) of
        Inl e \<Rightarrow> Err e
      | Inr snr \<Rightarrow>
     (case decode_bits k hashes (map (\<lambda>b. b \<noteq> 0) (raw_message77 raw)) of
        Inl e \<Rightarrow> Err (DecodeCodec e)
      | Inr message \<Rightarrow>
          Ok \<lparr>dec_metadata = \<lparr>md_start_offset_millis = start_offset,
                md_audio_frequency_hz = frequency, md_signal_to_noise_db = snr\<rparr>,
              dec_message = message\<rparr>))))"

definition same_decode :: "ft8_decode \<Rightarrow> ft8_decode \<Rightarrow> bool" where
  "same_decode a b \<longleftrightarrow>
     md_start_offset_millis (dec_metadata a) = md_start_offset_millis (dec_metadata b)
     \<and> md_audio_frequency_hz (dec_metadata a) = md_audio_frequency_hz (dec_metadata b)
     \<and> dec_message a = dec_message b"

fun merge_candidate :: "ft8_decode list \<Rightarrow> ft8_decode \<Rightarrow> ft8_decode list" where
  "merge_candidate [] c = [c]"
| "merge_candidate (x # xs) c =
     (if same_decode x c
      then (if md_signal_to_noise_db (dec_metadata c) > md_signal_to_noise_db (dec_metadata x)
            then c # xs else x # xs)
      else x # merge_candidate xs c)"

fun own_loop ::
  "'h mfsk_core \<Rightarrow> 'h \<Rightarrow> ft8_decode list \<Rightarrow> raw_decode list \<Rightarrow> (ft8_decode_error, ft8_decode list) result" where
  "own_loop k hashes owned [] = Ok owned"
| "own_loop k hashes owned (raw # raws) =
     (case own_decode k hashes raw of
        Inl e \<Rightarrow> Err e
      | Inr c \<Rightarrow> own_loop k hashes (merge_candidate owned c) raws)"

definition offline_decode ::
  "'h mfsk_core \<Rightarrow> bool \<Rightarrow> 'h \<Rightarrow> pcm_buffer \<Rightarrow> ft8_decode_config
   \<Rightarrow> (ft8_decode_error, ft8_decode list) result" where
  "offline_decode k tuning_env_set hashes pcm config =
     (if pf_sample_rate_hz (pb_format pcm) \<noteq> FT8_PCM_SAMPLE_RATE_HZ
         \<or> pf_channels (pb_format pcm) \<noteq> 1
         \<or> pd_frames (pb_duration pcm) \<noteq> FT8_SLOT_SAMPLES
      then Err UnsupportedPcmWindow
      else if tuning_env_set
      then Err (InvalidDecodeConfiguration ''private decoder tuning environment must be unset'')
      else map_ok sort_deterministically
             (own_loop k hashes [] (decode_block k (pb_samples pcm) config)))"

section \<open>Synthesis\<close>

definition synthesize ::
  "'h mfsk_core \<Rightarrow> 'h \<Rightarrow> ft8_waveform_request \<Rightarrow> (ft8_waveform_error, pcm_buffer) result" where
  "synthesize k hashes req =
     (if pf_sample_rate_hz (wr_format req) \<noteq> FT8_PCM_SAMPLE_RATE_HZ \<or> pf_channels (wr_format req) \<noteq> 1
      then Err (InvalidWaveformConfiguration ''FT8 synthesis requires mono signed 16-bit PCM at 12,000 Hz'')
      else if wr_audio_frequency req > 5956
      then Err (InvalidWaveformConfiguration ''FT8 tone 7 must remain below the 6,000 Hz Nyquist frequency'')
      else case codec_encode k hashes (wr_message req) of
        Inl e \<Rightarrow> Err (WaveformCodec e)
      | Inr bits \<Rightarrow>
          (let tones = message_to_tones k (map u8_of_bool bits) in
           case checked_u32 (32767 * wr_amplitude req) of
             None \<Rightarrow> Err (InvalidWaveformConfiguration ''PCM amplitude calculation overflowed'')
           | Some product \<Rightarrow>
          (case checked_i16 (product div 1000) of
             None \<Rightarrow> Err (InvalidWaveformConfiguration ''PCM amplitude exceeded signed 16-bit range'')
           | Some amplitude \<Rightarrow>
               let frame = tones_to_i16 k tones (wr_audio_frequency req) amplitude in
               if int (length frame) \<noteq> FT8_FRAME_SAMPLES \<or> (\<exists>s \<in> set frame. \<bar>s\<bar> > amplitude)
               then Err (InvalidWaveformConfiguration ''private FT8 synthesis violated the owned PCM bounds'')
               else (case wr_placement req of
                    FrameOnly \<Rightarrow> map_err WaveformPcm (pcm_buffer_new (wr_format req) frame)
                  | FullSlot start_frame \<Rightarrow>
                      (case checked_u32 (start_frame + FT8_FRAME_SAMPLES) of
                         None \<Rightarrow> Err (InvalidWaveformConfiguration ''full-slot frame placement overflowed'')
                       | Some end_frame \<Rightarrow>
                           if end_frame > FT8_SLOT_SAMPLES
                           then Err (InvalidWaveformConfiguration
                                  ''full-slot placement cannot contain the complete FT8 frame'')
                           else let slot = replicate (nat FT8_SLOT_SAMPLES) 0 in
                             map_err WaveformPcm (pcm_buffer_new (wr_format req)
                               (take (nat start_frame) slot @ frame @ drop (nat end_frame) slot)))))))"

section \<open>Classification is safe\<close>

lemma full_callsign_original: "full_callsign_from_str v = Inr c \<Longrightarrow> original c = v"
  by (auto simp: full_callsign_from_str_def split: sum.splits option.splits)

lemma parse_identity_Ok:
  "parse_identity w = Inr c \<Longrightarrow> same_identity w c \<and> full_callsign_from_str (original c) = Inr c"
  using full_callsign_original by (auto simp: parse_identity_def same_identity_def)

lemma same_identity_parse:
  "same_identity w c \<Longrightarrow> full_callsign_from_str (original c) = Inr c \<Longrightarrow> parse_identity w = Inr c"
  by (simp add: same_identity_def parse_identity_def)

text \<open>The words of a resolved text name exactly its parties, in a shape that fits its class.\<close>

definition addresses_match :: "resolved_ft8_message \<Rightarrow> bool" where
  "addresses_match m \<longleftrightarrow>
     (case split_whitespace (rm_canonical_text m) of
        [a, b] \<Rightarrow> a = ''CQ'' \<and> same_identity b (rm_sender m) \<and> rm_recipient m = None \<and> rm_class m = GeneralCall
      | [a, b, c] \<Rightarrow>
          a = ''CQ'' \<and> is_grid c \<and> same_identity b (rm_sender m) \<and> rm_recipient m = None \<and> rm_class m = GeneralCall
          \<or> same_identity a (rm_sender m) \<and> rm_class m \<noteq> GeneralCall \<and>
            (\<exists>r. rm_recipient m = Some r \<and> same_identity b r)
      | _ \<Rightarrow> False)"

lemma resolved_from_words_Ok:
  "resolved_from_words t s r c = Inr m \<Longrightarrow>
     valid_text 64 t \<and> requires_recipient c = (r \<noteq> None) \<and> rm_canonical_text m = t \<and> rm_class m = c \<and>
     same_identity s (rm_sender m) \<and>
     (case r of None \<Rightarrow> rm_recipient m = None
      | Some w \<Rightarrow> \<exists>rc. rm_recipient m = Some rc \<and> same_identity w rc)"
  by (auto simp: resolved_from_words_def resolved_message_new_Ok dest!: parse_identity_Ok
      split: sum.splits option.splits)

lemma finish_resolved_Ok:
  "finish_resolved t r = Inr m \<Longrightarrow>
     (\<exists>x. m = Resolved x \<and> r = Inr x) \<or>
     (valid_message m \<and> msg_kind m = KindAmbiguous \<and> msg_canonical_text m = t)"
  by (auto simp: finish_resolved_def outcome_new_defs detailed_message_new_Ok split: sum.splits)

lemma unsupported_outcome_Ok:
  "unsupported_outcome t d = Inr m \<Longrightarrow>
     valid_message m \<and> msg_kind m = KindUnsupported \<and> msg_canonical_text m = t"
  by (auto simp: unsupported_outcome_def outcome_new_defs detailed_message_new_Ok)

definition supported_ok :: "string \<Rightarrow> classified_ft8_message \<Rightarrow> bool" where
  "supported_ok t m \<longleftrightarrow> valid_message m \<and> msg_canonical_text m = t \<and> (\<forall>r. m = Resolved r \<longrightarrow> addresses_match r)"

lemma finish_resolved_ok:
  assumes "finish_resolved t (resolved_from_words t s r c) = Inr m"
    and "\<And>x. resolved_from_words t s r c = Inr x \<Longrightarrow> addresses_match x"
  shows "supported_ok t m"
  using finish_resolved_Ok [OF assms(1)]
proof (elim disjE exE conjE)
  fix x
  assume x: "m = Resolved x" "resolved_from_words t s r c = Inr x"
  show ?thesis
    using resolved_from_words_Ok [OF x(2)] assms(2) [OF x(2)] x(1) by (cases r) (auto simp: supported_ok_def)
next
  assume "valid_message m" "msg_kind m = KindAmbiguous" "msg_canonical_text m = t"
  then show ?thesis by (auto simp: supported_ok_def)
qed

lemma unsupported_outcome_ok: "unsupported_outcome t d = Inr m \<Longrightarrow> supported_ok t m"
  using unsupported_outcome_Ok [of t d m] by (auto simp: supported_ok_def)

lemma words_shape:
  "(\<exists>a b. ws = [a, b]) \<or> (\<exists>a b c. ws = [a, b, c]) \<or> (length ws \<noteq> 2 \<and> length ws \<noteq> 3)"
  by (auto simp: numeral_eq_Suc length_Suc_conv)

lemma classify_supported_other:
  assumes "length (split_whitespace t) \<noteq> 2" "length (split_whitespace t) \<noteq> 3"
  shows "classify_supported t bc = unsupported_outcome t
         ''FT8 message shape is outside the reviewed Phase 1 message matrix''"
  using assms by (auto simp: classify_supported_def split: list.split)

lemma classify_supported_ok:
  assumes "classify_supported t bc = Inr m"
  shows "supported_ok t m"
proof -
  have gen: "addresses_match x"
    if "resolved_from_words t b None GeneralCall = Inr x"
      "split_whitespace t = [''CQ'', b] \<or> (\<exists>c. split_whitespace t = [''CQ'', b, c] \<and> is_grid c)" for b x
    using resolved_from_words_Ok [OF that(1)] that(2) by (auto simp: addresses_match_def)
  have dir: "addresses_match x"
    if "resolved_from_words t a (Some b) c = Inr x" "split_whitespace t = [a, b, p]" for a b c p x
    using resolved_from_words_Ok [OF that(1)] that(2) by (auto simp: addresses_match_def requires_recipient_def)
  consider (two) a b where "split_whitespace t = [a, b]" | (three) a b c where "split_whitespace t = [a, b, c]"
    | (other) "classify_supported t bc = unsupported_outcome t
         ''FT8 message shape is outside the reviewed Phase 1 message matrix''"
    using words_shape [of "split_whitespace t"] classify_supported_other by blast
  then show ?thesis
  proof cases
    case two
    then show ?thesis
      using assms gen by (auto simp: classify_supported_def intro: finish_resolved_ok unsupported_outcome_ok split: if_splits)
  next
    case three
    then show ?thesis
      using assms gen dir [of a b _ _ c]
      by (auto simp: classify_supported_def directed_outcome_def intro: finish_resolved_ok unsupported_outcome_ok
          split: if_splits option.splits)
  next
    case other
    then show ?thesis using assms unsupported_outcome_ok by simp
  qed
qed

lemma valid_text_Cons:
  "valid_text n (c # cs) \<longleftrightarrow> is_ascii c \<and> \<not> is_ascii_control c \<and> length cs < n \<and> (cs = [] \<or> valid_text n cs)"
  by (auto simp: valid_text_def)

lemma detail_texts_valid:
  "valid_text 128 ''FT8 message shape is outside the reviewed Phase 1 message matrix''"
  "valid_text 128 ''directed FT8 payload is outside the reviewed Phase 1 message classes''"
  "valid_text 128 ''decoded FT8 identity cannot be mapped unambiguously to owned full callsigns''"
  "valid_text 128 ''at least one FT8 callsign hash is not present in the supplied resolution context''"
  by code_simp+

lemma unsupported_outcome_total:
  "valid_text 64 t \<Longrightarrow> valid_text 128 d \<Longrightarrow> \<exists>m. unsupported_outcome t d = Inr m"
  by (simp add: unsupported_outcome_def outcome_new_defs detailed_message_new_Ok)

lemma finish_resolved_total: "valid_text 64 t \<Longrightarrow> \<exists>m. finish_resolved t r = Inr m"
  by (cases r) (simp_all add: finish_resolved_def outcome_new_defs detailed_message_new_Ok detail_texts_valid)

lemma classify_supported_total:
  "valid_text 64 t \<Longrightarrow> \<exists>m. classify_supported t bc = Inr m"
  using unsupported_outcome_total [OF _ detail_texts_valid(1), of t]
    unsupported_outcome_total [OF _ detail_texts_valid(2), of t] finish_resolved_total [of t]
  by (auto simp: classify_supported_def directed_outcome_def split: list.split option.split)

lemma u8_bits: "b \<in> set (map u8_of_bool bits) \<Longrightarrow> b \<le> 1"
  by (auto simp: u8_of_bool_def)

lemma read_bits_bound:
  assumes "\<forall>b \<in> set bits. b \<le> 1" shows "read_bits bits s n < 2 ^ n"
proof -
  have step: "foldl (\<lambda>v b. push_bit 1 v OR b) 0 xs < 2 ^ length xs" if "\<forall>b \<in> set xs. b \<le> 1" for xs :: "nat list"
    using that
  proof (induction xs rule: rev_induct)
    case (snoc x xs)
    let ?v = "foldl (\<lambda>v b. push_bit 1 v OR b) 0 xs"
    have "x = 0 \<or> x = 1" using snoc.prems by auto
    then have "push_bit 1 ?v OR x = 2 * ?v + x"
      by (auto simp: push_bit_eq_mult or_Suc_0_eq)
    then show ?case using snoc by auto
  qed simp
  let ?l = "take n (drop s bits)"
  have "read_bits bits s n < 2 ^ length ?l"
    unfolding read_bits_def by (rule step) (use assms in \<open>auto dest!: in_set_takeD in_set_dropD\<close>)
  also have "\<dots> \<le> 2 ^ n" by (intro power_increasing) auto
  finally show ?thesis .
qed

lemma type_detail_valid:
  assumes "i < 8" "n < 8"
  shows "valid_text 128 (''FT8 type '' @ (show_nat i @ ''/'' @ show_nat n) @ '' is outside the reviewed Phase 1 message matrix'')"
proof -
  have d: "show_nat k = [digit_char k] \<and> is_ascii (digit_char k) \<and> \<not> is_ascii_control (digit_char k)" if "k < 8" for k
    using that by (subst show_nat.simps) (simp add: is_ascii_def is_ascii_control_def)
  show ?thesis using d [OF assms(1)] d [OF assms(2)]
    by (simp add: valid_text_Cons) (simp add: is_ascii_def is_ascii_control_def)
qed


text \<open>A library that renders every payload as one fixed text and packs everything alike.\<close>

definition fixed_core :: "string \<Rightarrow> nat list \<Rightarrow> raw_decode list \<Rightarrow> int list \<Rightarrow> unit mfsk_core" where
  "fixed_core t bits raws frame =
     \<lparr>table_new = (), table_insert = (\<lambda>_ _. ()), pack77 = (\<lambda>_ _ _. Some bits),
      pack77_type1 = (\<lambda>_ _ _. Some bits), pack77_type4 = (\<lambda>_ _ _ _. Some bits), ihashcall = (\<lambda>_ _. 0),
      unpack77_with_hash = (\<lambda>_ _. Some t), decode_block = (\<lambda>_ _. raws), message_to_tones = id,
      tones_to_i16 = (\<lambda>_ _ _. frame)\<rparr>"

definition type1_bits :: "bool list" where
  "type1_bits = replicate 76 False @ [True]"

lemma sample_text_facts:
  "split_whitespace ''K1ABC W9XYZ -07'' = [''K1ABC'', ''W9XYZ'', ''-07'']"
  "normalize_standard_report ''K1ABC W9XYZ -07'' = ''K1ABC W9XYZ -07''"
  "normalize_standard_report ''K1ABC W9XYZ -7'' = ''K1ABC W9XYZ -07''"
  "valid_text 64 ''K1ABC W9XYZ -07''" "valid_text 64 ''K1ABC W9XYZ -7''"
  "\<not> contains_sub ''<...>'' ''K1ABC W9XYZ -07''"
  by code_simp+


section \<open>Encoding is undone by decoding\<close>

lemma payload_class:
  assumes "payload_matches c p" "\<not> (c = DirectedGrid \<and> p = ''RR73'')"
  shows "classify_payload p = Some c"
proof -
  have rr: "roger_report p \<longleftrightarrow> (\<exists>r. p = CHR ''R'' # r \<and> is_report r)"
    by (auto simp: roger_report_def strip_prefix_Some split: option.split)
  have g: "is_grid p \<Longrightarrow> length p = 4 \<and> 65 \<le> byte_val (p ! 0) \<and> 65 \<le> byte_val (p ! 1)" by (simp add: is_grid_def)
  have r: "is_report q \<Longrightarrow> length q = 3 \<and> byte_val (q ! 0) \<in> {43, 45}" for q by (auto simp: is_report_def)
  show ?thesis
  proof (cases c)
    case DirectedGrid
    then show ?thesis using assms g by (auto simp: classify_payload_def)
  next
    case SignalReport
    then have p: "is_report p" using assms by simp
    then have "\<not> is_grid p" using r [OF p] g by auto
    then show ?thesis using SignalReport p r [OF p] by (auto simp: classify_payload_def)
  next
    case RogerSignalReport
    then obtain q where q: "p = CHR ''R'' # q" "is_report q" using assms rr by auto
    have len: "length p = 4" "byte_val (p ! 1) \<in> {43, 45}" using q r [OF q(2)] by auto
    have "\<not> is_grid p" "\<not> is_report p" using len g r [of p] by auto
    moreover have "p \<noteq> ''RR73''" using len by auto
    ultimately show ?thesis using RogerSignalReport len assms by (auto simp: classify_payload_def)
  qed (use assms in \<open>auto simp: classify_payload_def\<close>)
qed

lemma CQ_not_callsign: "full_callsign_from_str ''CQ'' \<noteq> Inr c"
proof -
  have "full_callsign_from_str ''CQ'' = Inl MissingBaseCall" by code_simp
  then show ?thesis by simp
qed

definition parsed_call :: "full_callsign \<Rightarrow> bool" where
  "parsed_call c \<longleftrightarrow> full_callsign_from_str (original c) = Inr c"

lemma classify_own_text:
  assumes pack: "pack_message k m = Inr p" and valid: "valid_message (Resolved m)"
    and parsed: "parsed_call (rm_sender m)" "\<And>r. rm_recipient m = Some r \<Longrightarrow> parsed_call r"
    and cls: "rm_class m = GeneralCall \<or> bc = Some (rm_class m) \<or>
      bc = None \<and> \<not> (rm_class m = DirectedGrid \<and> split_whitespace (rm_canonical_text m) ! 2 = ''RR73'')"
  shows "classify_supported (rm_canonical_text m) bc = Ok (Resolved m)"
proof -
  let ?t = "rm_canonical_text m"
  have t: "valid_text 64 ?t" "requires_recipient (rm_class m) = (rm_recipient m \<noteq> None)" using valid by auto
  have gen: "resolved_from_words ?t b None GeneralCall = Inr m"
    if "same_identity b (rm_sender m)" "rm_class m = GeneralCall" for b
    using that t same_identity_parse [OF that(1)] parsed(1)
    by (cases m) (auto simp: resolved_from_words_def resolved_message_new_Ok parsed_call_def requires_recipient_def)
  have dir: "resolved_from_words ?t a (Some b) (rm_class m) = Inr m"
    if "same_identity a (rm_sender m)" "rm_recipient m = Some r" "same_identity b r" for a b r
    using that t same_identity_parse [OF that(1)] same_identity_parse [OF that(3)] parsed
    by (cases m) (auto simp: resolved_from_words_def resolved_message_new_Ok parsed_call_def)
  have notCQ: "a \<noteq> ''CQ''" if "same_identity a (rm_sender m)" for a
  proof
    assume "a = ''CQ''"
    moreover have "unbracket ''CQ'' = ''CQ''" by code_simp
    ultimately have "original (rm_sender m) = ''CQ''" using that by (simp add: same_identity_def)
    then show False using parsed(1) CQ_not_callsign by (simp add: parsed_call_def)
  qed
  consider (two) b where "split_whitespace ?t = [''CQ'', b]" "rm_class m = GeneralCall" "same_identity b (rm_sender m)"
    | (three) b c where "split_whitespace ?t = [''CQ'', b, c]" "is_grid c" "rm_class m = GeneralCall"
        "same_identity b (rm_sender m)"
    | (directed) a b c r where "split_whitespace ?t = [a, b, c]" "rm_class m \<noteq> GeneralCall"
        "same_identity a (rm_sender m)" "rm_recipient m = Some r" "same_identity b r" "payload_matches (rm_class m) c"
    using pack by (auto simp: pack_message_def Let_def split: list.splits if_splits option.splits)
  then show ?thesis
  proof cases
    case two
    then show ?thesis using gen by (simp add: classify_supported_def finish_resolved_def)
  next
    case three
    then show ?thesis using gen by (simp add: classify_supported_def finish_resolved_def)
  next
    case directed
    then have "(case bc of Some c' \<Rightarrow> Some c' | None \<Rightarrow> classify_payload c) = Some (rm_class m)"
      using cls payload_class [OF directed(6)] by auto
    then show ?thesis using directed notCQ dir
      by (simp add: classify_supported_def directed_outcome_def finish_resolved_def)
  qed
qed


definition type4_bits :: "nat list" where
  "type4_bits = replicate 74 0 @ [1, 0, 0]"

definition report_message :: resolved_ft8_message where
  "report_message =
     \<lparr>rm_canonical_text = ''K1ABC W9XYZ -07'',
      rm_sender = \<lparr>original = ''K1ABC'', base = BaseCallsign ''K1ABC''\<rparr>,
      rm_recipient = Some \<lparr>original = ''W9XYZ'', base = BaseCallsign ''W9XYZ''\<rparr>,
      rm_class = SignalReport\<rparr>"

lemma report_message_calls:
  "parsed_call (rm_sender report_message)" "rm_recipient report_message = Some r \<Longrightarrow> parsed_call r"
proof -
  have "full_callsign_from_str ''K1ABC'' = Inr \<lparr>original = ''K1ABC'', base = BaseCallsign ''K1ABC''\<rparr>"
    "full_callsign_from_str ''W9XYZ'' = Inr \<lparr>original = ''W9XYZ'', base = BaseCallsign ''W9XYZ''\<rparr>"
    by code_simp+
  then show "parsed_call (rm_sender report_message)" "rm_recipient report_message = Some r \<Longrightarrow> parsed_call r"
    by (auto simp: parsed_call_def report_message_def)
qed


section \<open>Decode results\<close>

text \<open>The identity under which two raw decodes are one result, and the strongest of each.\<close>

definition decode_identity :: "ft8_decode \<Rightarrow> int \<times> int \<times> classified_ft8_message" where
  "decode_identity d = (md_start_offset_millis (dec_metadata d), md_audio_frequency_hz (dec_metadata d), dec_message d)"

abbreviation snr_of :: "ft8_decode \<Rightarrow> int" where
  "snr_of d \<equiv> md_signal_to_noise_db (dec_metadata d)"

definition strongest :: "ft8_decode set \<Rightarrow> ft8_decode set" where
  "strongest D = {d \<in> D. \<forall>e \<in> D. decode_identity e = decode_identity d \<longrightarrow> snr_of e \<le> snr_of d}"

lemma same_decode_iff: "same_decode a b \<longleftrightarrow> decode_identity a = decode_identity b"
  by (simp add: same_decode_def decode_identity_def)

lemma decode_eqI: "decode_identity a = decode_identity b \<Longrightarrow> snr_of a = snr_of b \<Longrightarrow> a = b"
  by (cases a; cases b) (auto simp: decode_identity_def intro!: ft8_decode_metadata.equality)

lemma merge_identities:
  "set (map decode_identity (merge_candidate xs c)) = insert (decode_identity c) (set (map decode_identity xs))"
  by (induction xs) (auto simp: same_decode_iff)

lemma merge_distinct:
  "distinct (map decode_identity xs) \<Longrightarrow> distinct (map decode_identity (merge_candidate xs c))"
proof (induction xs)
  case (Cons x xs)
  then show ?case using merge_identities [of xs c] by (auto simp: same_decode_iff)
qed simp

lemma merge_set:
  assumes "distinct (map decode_identity xs)"
  shows "set (merge_candidate xs c) = strongest (insert c (set xs))"
proof -
  have mem: "d \<in> set (merge_candidate xs c) \<longleftrightarrow>
      d = c \<and> (\<forall>x \<in> set xs. decode_identity x = decode_identity c \<longrightarrow> snr_of x < snr_of c \<or> x = c) \<or>
      d \<in> set xs \<and> (decode_identity d = decode_identity c \<longrightarrow> snr_of c \<le> snr_of d)" for d
    using assms
  proof (induction xs)
    case (Cons x xs)
    have other: "decode_identity y \<noteq> decode_identity x" if "y \<in> set xs" for y
      using Cons.prems that by (force simp: image_iff)
    show ?case
    proof (cases "decode_identity x = decode_identity c")
      case True
      then show ?thesis using other decode_eqI [OF True] by (auto simp: same_decode_iff)
    next
      case False
      then show ?thesis using Cons by (auto simp: same_decode_iff)
    qed
  qed simp
  have inj: "\<And>x y. x \<in> set xs \<Longrightarrow> y \<in> set xs \<Longrightarrow> decode_identity x = decode_identity y \<Longrightarrow> x = y"
    using assms by (auto simp: distinct_map inj_on_def)
  show ?thesis
    using inj decode_eqI unfolding set_eq_iff mem strongest_def by (auto simp: less_le)
qed

lemma strongest_insert_strongest:
  assumes "finite D"
  shows "strongest (insert c (strongest D)) = strongest (insert c D)"
proof -
  have top: "\<exists>e \<in> strongest D. decode_identity e = decode_identity d \<and> snr_of d \<le> snr_of e" if "d \<in> D" for d
  proof -
    let ?G = "{e \<in> D. decode_identity e = decode_identity d}"
    have "finite ?G" "?G \<noteq> {}" using assms that by auto
    then have "Max (snr_of ` ?G) \<in> snr_of ` ?G" by (intro Max_in) auto
    then obtain e where em: "e \<in> ?G" "Max (snr_of ` ?G) = snr_of e" by blast
    have "snr_of x \<le> snr_of e" if "x \<in> ?G" for x
      unfolding em(2) [symmetric] by (rule Max_ge) (use \<open>finite ?G\<close> that in auto)
    note e = em(1) this
    then have "e \<in> strongest D" by (auto simp: strongest_def)
    then show ?thesis using e that by auto
  qed
  have sub: "strongest D \<subseteq> D" by (auto simp: strongest_def)
  show ?thesis
  proof (intro set_eqI iffI)
    fix d assume d: "d \<in> strongest (insert c (strongest D))"
    have "snr_of e \<le> snr_of d" if "e \<in> insert c D" "decode_identity e = decode_identity d" for e
    proof (cases "e = c")
      case True
      then show ?thesis using d that(2) by (auto simp: strongest_def)
    next
      case False
      then have "e \<in> D" using that(1) by simp
      then obtain f where "f \<in> strongest D" "decode_identity f = decode_identity e" "snr_of e \<le> snr_of f"
        using top by blast
      then show ?thesis using d that(2) by (fastforce simp: strongest_def [of "insert c (strongest D)"])
    qed
    moreover have "d \<in> insert c D" using d sub by (auto simp: strongest_def [of "insert c (strongest D)"])
    ultimately show "d \<in> strongest (insert c D)" by (simp add: strongest_def)
  next
    fix d assume "d \<in> strongest (insert c D)"
    then show "d \<in> strongest (insert c (strongest D))" by (auto simp: strongest_def)
  qed
qed

lemma own_loop_Ok:
  assumes "own_loop k h owned raws = Inr ds" "distinct (map decode_identity owned)"
    and "set owned = strongest D" "finite D"
  shows "(\<forall>raw \<in> set raws. \<exists>d. own_decode k h raw = Inr d) \<and> distinct (map decode_identity ds) \<and>
    set ds = strongest (D \<union> {d. \<exists>raw \<in> set raws. own_decode k h raw = Inr d})"
  using assms
proof (induction raws arbitrary: owned D)
  case (Cons raw raws)
  obtain c where c: "own_decode k h raw = Inr c" "own_loop k h (merge_candidate owned c) raws = Inr ds"
    using Cons.prems(1) by (auto split: sum.splits)
  have "set (merge_candidate owned c) = strongest (insert c D)"
    using merge_set [OF Cons.prems(2)] Cons.prems(3) strongest_insert_strongest [OF Cons.prems(4)] by simp
  note IH = Cons.IH [OF c(2) merge_distinct [OF Cons.prems(2)] this] 
  have "insert c D \<union> {d. \<exists>r \<in> set raws. own_decode k h r = Inr d} =
      D \<union> {d. \<exists>r \<in> set (raw # raws). own_decode k h r = Inr d}"
    using c(1) by auto
  then show ?case using IH Cons.prems(4) c(1) by simp
qed simp

lemma own_loop_total:
  "(\<And>raw. raw \<in> set raws \<Longrightarrow> \<exists>d. own_decode k h raw = Inr d) \<Longrightarrow> \<exists>ds. own_loop k h owned raws = Inr ds"
proof (induction raws arbitrary: owned)
  case (Cons raw raws)
  then obtain d where "own_decode k h raw = Inr d" by auto
  then show ?case using Cons by simp
qed simp

lemma decode_bits_block [simp]: "decode_bits (k\<lparr>decode_block := f\<rparr>) h bits = decode_bits k h bits"
  by (simp add: decode_bits_def classify_bits_def Let_def)

lemma own_decode_block [simp]: "own_decode (k\<lparr>decode_block := f\<rparr>) h raw = own_decode k h raw"
  unfolding own_decode_def decode_bits_block ..

lemma own_loop_block [simp]: "own_loop (k\<lparr>decode_block := f\<rparr>) h owned raws = own_loop k h owned raws"
  by (induction raws arbitrary: owned) (auto split: sum.split)

lemma strongest_empty [simp]: "strongest {} = {}"
  by (simp add: strongest_def)

text \<open>
  C23: the offline decoder merges and orders its results.  A successful decode holds exactly one
  result for every start, frequency and message the library reported, the one with the greatest
  SNR, sorted by the deterministic key; had the library reported the same raw decodes in any
  other order, the decode would succeed with the same results and the same sequence of keys.
\<close>

theorem decode_merges_and_orders:
  assumes ok: "offline_decode k env h pcm cfg = Ok ds"
    and perm: "mset raws = mset (decode_block k (pb_samples pcm) cfg)"
  shows "set ds = strongest {d. \<exists>raw \<in> set raws. own_decode k h raw = Ok d} \<and>
    distinct (map decode_identity ds) \<and> sorted (map deterministic_key ds) \<and>
    (\<exists>ds'. offline_decode (k\<lparr>decode_block := \<lambda>_ _. raws\<rparr>) env h pcm cfg = Ok ds' \<and>
       mset ds' = mset ds \<and> map deterministic_key ds' = map deterministic_key ds)"
proof -
  let ?raws = "decode_block k (pb_samples pcm) cfg"
  have same: "set raws = set ?raws" using perm by (metis set_mset_mset)
  obtain u where u: "own_loop k h [] ?raws = Inr u" "ds = sort_deterministically u"
    using ok by (auto simp: offline_decode_def split: if_splits)
  note U = own_loop_Ok [OF u(1), of "{}"]
  have "\<exists>v. own_loop k h [] raws = Inr v" by (rule own_loop_total) (use U same in simp)
  then obtain v where v: "own_loop k h [] raws = Inr v" ..
  note V = own_loop_Ok [OF v, of "{}"]
  have sets: "set u = set v" using U V same by simp
  have du: "distinct u" "distinct v" using U V by (auto simp: distinct_map)
  have m: "mset v = mset u" using du sets by (metis set_eq_iff_mset_eq_distinct)
  have key: "map deterministic_key (sort_deterministically v) = map deterministic_key (sort_deterministically u)"
    by (rule sort_keys_eq [OF m])
  have dec: "offline_decode (k\<lparr>decode_block := \<lambda>_ _. raws\<rparr>) env h pcm cfg = Ok (sort_deterministically v)"
    using ok v by (auto simp: offline_decode_def split: if_splits)
  have "distinct (map decode_identity u)" using U by simp
  then have "distinct (map decode_identity ds)"
    unfolding u(2) sort_deterministically_def distinct_map by simp
  then show ?thesis
    using dec key m U u(2) same by (simp add: sort_deterministically_def)
qed

definition slot_pcm :: pcm_buffer where
  "slot_pcm =
     \<lparr>pb_format = \<lparr>pf_sample_rate_hz = 12000, pf_channels = 1, pf_sample_format = Signed16LittleEndian\<rparr>,
      pb_duration = \<lparr>pd_frames = 180000, pd_microseconds = 15000000\<rparr>, pb_samples = replicate 180000 0\<rparr>"

definition search_config :: ft8_decode_config where
  "search_config =
     \<lparr>dc_minimum_audio_frequency = 200, dc_maximum_audio_frequency = 3000, dc_sync_threshold_milli = 1000,
      dc_depth = DepthNormal, dc_maximum_candidates = 100\<rparr>"

definition raw_at :: "rat \<Rightarrow> nat list \<Rightarrow> raw_decode" where
  "raw_at snr bits =
     \<lparr>raw_freq_hz = Finite 1500, raw_dt_millis = Finite 100, raw_snr_calibrated = Finite snr, raw_message77 = bits\<rparr>"

lemma round_away_of_int [simp]: "round_away (of_int n) = n"
proof -
  have "\<lfloor>(of_int m :: rat) + 1 / 2\<rfloor> = m" for m by (rule floor_unique) simp_all
  from this [of n] this [of "- n"] show ?thesis by (simp add: round_away_def)
qed

lemma round_away_numeral [simp]: "round_away (numeral n) = numeral n" "round_away (- numeral n) = - numeral n"
  using round_away_of_int [of "numeral n"] round_away_of_int [of "- numeral n"] by simp_all

lemma own_decode_raw_at:
  assumes "decode_bits k h (map (\<lambda>b. b \<noteq> 0) bits) = Ok m"
  shows "own_decode k h (raw_at (- numeral n) bits) =
    (if (numeral n :: rat) \<le> 32768 then
       Ok \<lparr>dec_metadata = \<lparr>md_start_offset_millis = 100, md_audio_frequency_hz = 1500,
             md_signal_to_noise_db = saturate i16_min i16_max (- numeral n)\<rparr>, dec_message = m\<rparr>
     else Err InvalidResultMetadata)"
  using assms by (auto simp: own_decode_def raw_at_def not_le)

definition rr73_core :: "raw_decode list \<Rightarrow> unit mfsk_core" where
  "rr73_core raws = fixed_core ''K1ABC W9XYZ RR73'' [] raws []"

text \<open>A type 1 payload whose grid field is a grid, and one whose report code is \<open>RR73\<close>.\<close>

definition grid_bits :: "nat list" where
  "grid_bits = replicate 59 0 @ [0,0,0,0,0,0,0,0,0,0,0,0,0,0,0] @ [0, 0, 1]"

definition rr73_bits :: "nat list" where
  "rr73_bits = replicate 59 0 @ [1,1,1,1,1,1,0,1,0,0,1,0,0,1,1] @ [0, 0, 1]"

definition rr73_message :: "ft8_message_class \<Rightarrow> classified_ft8_message" where
  "rr73_message cl = Resolved
     \<lparr>rm_canonical_text = ''K1ABC W9XYZ RR73'',
      rm_sender = \<lparr>original = ''K1ABC'', base = BaseCallsign ''K1ABC''\<rparr>,
      rm_recipient = Some \<lparr>original = ''W9XYZ'', base = BaseCallsign ''W9XYZ''\<rparr>, rm_class = cl\<rparr>"

lemma rr73_fields:
  "map u8_of_bool (map (\<lambda>b. b \<noteq> 0) grid_bits) = grid_bits"
  "map u8_of_bool (map (\<lambda>b. b \<noteq> 0) rr73_bits) = rr73_bits"
  "read_bits grid_bits 74 3 = 1" "read_bits rr73_bits 74 3 = 1"
  "read_bits grid_bits 59 15 = 0" "read_bits rr73_bits 59 15 = 32403" "rr73_bits ! 58 = 0"
  by (simp_all add: grid_bits_def rr73_bits_def u8_of_bool_def read_bits_def nth_append
      push_bit_eq_mult or_Suc_0_eq)

lemma rr73_classified:
  "classify_supported ''K1ABC W9XYZ RR73'' (Some DirectedGrid) = Ok (rr73_message DirectedGrid)"
  "classify_supported ''K1ABC W9XYZ RR73'' (Some EndingRr73) = Ok (rr73_message EndingRr73)"
  "normalize_standard_report ''K1ABC W9XYZ RR73'' = ''K1ABC W9XYZ RR73''"
  "\<not> contains_sub ''<...>'' ''K1ABC W9XYZ RR73''"
  by code_simp+

lemma rr73_decodes:
  "decode_bits (rr73_core raws) () (map (\<lambda>b. b \<noteq> 0) grid_bits) = Ok (rr73_message DirectedGrid)"
  "decode_bits (rr73_core raws) () (map (\<lambda>b. b \<noteq> 0) rr73_bits) = Ok (rr73_message EndingRr73)"
  unfolding decode_bits_def classify_bits_def rr73_fields Let_def
  by (simp_all add: rr73_core_def fixed_core_def rr73_classified directed_class_from_bits_def rr73_fields)

theorem decode_merges_and_orders_witness:
  "\<exists>ds. offline_decode (rr73_core [raw_at (- 7) grid_bits, raw_at (- 9) grid_bits]) False () slot_pcm search_config
      = Ok ds \<and> distinct (map decode_identity ds) \<and> sorted (map deterministic_key ds)"
proof -
  let ?raws = "[raw_at (- 7) grid_bits, raw_at (- 9) grid_bits]"
  let ?k = "rr73_core ?raws"
  have "\<exists>ds. own_loop ?k () [] ?raws = Inr ds"
    by (rule own_loop_total) (auto simp: own_decode_raw_at [OF rr73_decodes(1)])
  then obtain ds where "offline_decode ?k False () slot_pcm search_config = Ok ds"
    by (auto simp: offline_decode_def slot_pcm_def protocol_bounds rr73_core_def fixed_core_def)
  then show ?thesis
    using decode_merges_and_orders [of ?k False "()" slot_pcm search_config ds ?raws]
    by (auto simp: rr73_core_def fixed_core_def)
qed

text \<open>
  The final order still depends on the library where keys tie.  Two payloads that render as the
  same text \<open>... RR73\<close>, one a grid and one an ending, at the same time, frequency and SNR are
  different results with the same key, and they come out in the order the library reported them.
\<close>

theorem decode_order_depends_on_library:
  "\<exists>a b. offline_decode (rr73_core [a, b]) False () slot_pcm search_config \<noteq>
       offline_decode (rr73_core [b, a]) False () slot_pcm search_config \<and>
     is_ok (offline_decode (rr73_core [a, b]) False () slot_pcm search_config) \<and>
     is_ok (offline_decode (rr73_core [b, a]) False () slot_pcm search_config)"
proof -
  let ?a = "raw_at (- 7) grid_bits" and ?b = "raw_at (- 7) rr73_bits"
  let ?d = "\<lambda>cl. \<lparr>dec_metadata = \<lparr>md_start_offset_millis = 100, md_audio_frequency_hz = 1500,
      md_signal_to_noise_db = - 7\<rparr>, dec_message = rr73_message cl\<rparr>"
  have own: "own_decode (rr73_core raws) () ?a = Ok (?d DirectedGrid)"
    "own_decode (rr73_core raws) () ?b = Ok (?d EndingRr73)" for raws
    using own_decode_raw_at [OF rr73_decodes(1)] own_decode_raw_at [OF rr73_decodes(2)] by simp_all
  have key: "deterministic_key (?d c) = deterministic_key (?d c')" for c c'
    by (simp add: deterministic_key_def rr73_message_def)
  have ne: "?d DirectedGrid \<noteq> ?d EndingRr73" by (simp add: rr73_message_def)
  have srt: "sort_deterministically [?d c, ?d c'] = [?d c, ?d c']" for c c'
    using key [of c c'] by (simp add: sort_deterministically_def)
  have blk: "decode_block (rr73_core raws) xs cfg = raws" for raws xs cfg
    by (simp add: rr73_core_def fixed_core_def)
  have "own_loop (rr73_core raws) () [] [?a, ?b] = Ok [?d DirectedGrid, ?d EndingRr73]"
    "own_loop (rr73_core raws) () [] [?b, ?a] = Ok [?d EndingRr73, ?d DirectedGrid]" for raws
    using own by (simp_all add: same_decode_def rr73_message_def)
  then have "offline_decode (rr73_core [?a, ?b]) False () slot_pcm search_config = Ok [?d DirectedGrid, ?d EndingRr73]"
    "offline_decode (rr73_core [?b, ?a]) False () slot_pcm search_config = Ok [?d EndingRr73, ?d DirectedGrid]"
    using srt blk by (simp_all add: offline_decode_def slot_pcm_def protocol_bounds)
  then show ?thesis using ne by (intro exI [of _ ?a] exI [of _ ?b]) simp
qed

section \<open>Synthesis is bounded\<close>

text \<open>Where a frame of the given placement ends up.\<close>

definition placed_samples :: "ft8_waveform_placement \<Rightarrow> int list \<Rightarrow> int list" where
  "placed_samples p frame =
     (case p of
        FrameOnly \<Rightarrow> frame
      | FullSlot s \<Rightarrow> replicate (nat s) 0 @ frame @ replicate (nat (FT8_SLOT_SAMPLES - FT8_FRAME_SAMPLES - s)) 0)"

definition placement_fits :: "ft8_waveform_placement \<Rightarrow> bool" where
  "placement_fits p = (case p of FrameOnly \<Rightarrow> True | FullSlot s \<Rightarrow> 0 \<le> s \<and> s \<le> FT8_SLOT_SAMPLES - FT8_FRAME_SAMPLES)"

lemma amplitude_ok:
  assumes "in_range 1 1000 a"
  shows "checked_u32 (32767 * a) = Some (32767 * a)" "checked_i16 (32767 * a div 1000) = Some (32767 * a div 1000)"
proof -
  have a: "1 \<le> a" "a \<le> 1000" using assms by (simp_all add: in_range_def)
  show "checked_u32 (32767 * a) = Some (32767 * a)" by (rule checked_in) (use a in linarith)+
  have "32767 * a div 1000 \<le> 32767 * 1000 div 1000" by (rule zdiv_mono1) (use a in simp_all)
  moreover have "0 \<le> 32767 * a div 1000" using a by simp
  ultimately show "checked_i16 (32767 * a div 1000) = Some (32767 * a div 1000)" by (intro checked_in) simp_all
qed

lemma placed_length:
  assumes "placement_fits p" "int (length frame) = FT8_FRAME_SAMPLES"
  shows "length (placed_samples p frame) = (if p = FrameOnly then 151680 else 180000)"
  using assms by (auto simp: placed_samples_def placement_fits_def protocol_bounds split: ft8_waveform_placement.splits)

lemma slot_is_placed:
  assumes "0 \<le> s" "s \<le> FT8_SLOT_SAMPLES - FT8_FRAME_SAMPLES"
  shows "take (nat s) (replicate (nat FT8_SLOT_SAMPLES) 0) @ frame
      @ drop (nat (s + FT8_FRAME_SAMPLES)) (replicate (nat FT8_SLOT_SAMPLES) 0) = placed_samples (FullSlot s) frame"
proof -
  have "nat 180000 - nat (s + 151680) = nat (180000 - 151680 - s)" using assms(1) by simp
  moreover have "min (nat s) (nat 180000) = nat s" using assms by (simp add: protocol_bounds)
  ultimately show ?thesis using assms by (simp add: placed_samples_def protocol_bounds min_def)
qed

lemma synthesize_frame:
  fixes frame
  assumes fmt: "pf_sample_rate_hz (wr_format req) = 12000" "pf_channels (wr_format req) = 1" "wr_audio_frequency req \<le> 5956"
    and amp: "in_range 1 1000 (wr_amplitude req)" and bits: "codec_encode k h (wr_message req) = Inr bits"
    and frame: "frame = tones_to_i16 k (message_to_tones k (map u8_of_bool bits)) (wr_audio_frequency req)
      (32767 * wr_amplitude req div 1000)"
  shows "synthesize k h req =
        (if length frame \<noteq> 151680 \<or> (\<exists>s \<in> set frame. \<bar>s\<bar> > 32767 * wr_amplitude req div 1000)
         then Err (InvalidWaveformConfiguration ''private FT8 synthesis violated the owned PCM bounds'')
         else case wr_placement req of
             FrameOnly \<Rightarrow> map_err WaveformPcm (pcm_buffer_new (wr_format req) frame)
           | FullSlot s \<Rightarrow>
               (case checked_u32 (s + FT8_FRAME_SAMPLES) of
                  None \<Rightarrow> Err (InvalidWaveformConfiguration ''full-slot frame placement overflowed'')
                | Some end_frame \<Rightarrow>
                    if end_frame > FT8_SLOT_SAMPLES
                    then Err (InvalidWaveformConfiguration ''full-slot placement cannot contain the complete FT8 frame'')
                    else map_err WaveformPcm (pcm_buffer_new (wr_format req)
                      (take (nat s) (replicate (nat FT8_SLOT_SAMPLES) 0) @ frame
                       @ drop (nat end_frame) (replicate (nat FT8_SLOT_SAMPLES) 0)))))"
  unfolding synthesize_def bits sum.case Let_def amplitude_ok [OF amp] option.case frame [symmetric]
  using fmt by (simp add: FT8_PCM_SAMPLE_RATE_HZ_def FT8_FRAME_SAMPLES_def)

lemma synthesize_placed:
  fixes frame
  assumes fmt: "pf_sample_rate_hz (wr_format req) = 12000" "pf_channels (wr_format req) = 1" "wr_audio_frequency req \<le> 5956"
    and amp: "in_range 1 1000 (wr_amplitude req)" and bits: "codec_encode k h (wr_message req) = Inr bits"
    and frame: "frame = tones_to_i16 k (message_to_tones k (map u8_of_bool bits)) (wr_audio_frequency req)
      (32767 * wr_amplitude req div 1000)"
    and start: "\<And>s. wr_placement req = FullSlot s \<Longrightarrow> in_range 0 u32_max s"
  shows "synthesize k h req = Ok buf \<longleftrightarrow>
    length frame = 151680 \<and> (\<forall>s \<in> set frame. \<bar>s\<bar> \<le> 32767 * wr_amplitude req div 1000) \<and>
    placement_fits (wr_placement req) \<and>
    pcm_buffer_new (wr_format req) (placed_samples (wr_placement req) frame) = Ok buf"
proof (cases "wr_placement req")
  case FrameOnly
  then show ?thesis unfolding synthesize_frame [OF fmt amp bits frame] by (auto simp: placed_samples_def placement_fits_def not_le)
next
  case (FullSlot s)
  have s: "0 \<le> s" using start [OF FullSlot] by (simp add: in_range_def)
  show ?thesis
  proof (cases "s \<le> FT8_SLOT_SAMPLES - FT8_FRAME_SAMPLES")
    case fits: True
    then have "checked_u32 (s + FT8_FRAME_SAMPLES) = Some (s + FT8_FRAME_SAMPLES)" "\<not> s + FT8_FRAME_SAMPLES > FT8_SLOT_SAMPLES"
      using s by (auto simp: protocol_bounds intro!: checked_in)
    then show ?thesis
      unfolding synthesize_frame [OF fmt amp bits frame] FullSlot using s fits slot_is_placed [OF s fits, of frame]
      by (auto simp: placement_fits_def not_le)
  next
    case False
    then show ?thesis unfolding synthesize_frame [OF fmt amp bits frame] FullSlot
      by (auto simp: placement_fits_def protocol_bounds split: option.splits)
  qed
qed

lemma placed_buffer:
  assumes fmt: "valid_pcm_format f" "pf_sample_rate_hz f = 12000" "pf_channels f = 1"
    and fits: "placement_fits p" "length frame = 151680"
  shows "pcm_buffer_new f (placed_samples p frame) = Ok buf \<longleftrightarrow>
    pb_format buf = f \<and> pb_samples buf = placed_samples p frame \<and>
    pd_frames (pb_duration buf) = (if p = FrameOnly then 151680 else 180000) \<and>
    pd_microseconds (pb_duration buf) = (if p = FrameOnly then 12640000 else 15000000)"
proof -
  have len: "length (placed_samples p frame) = (if p = FrameOnly then 151680 else 180000)"
    using placed_length [OF fits(1)] fits(2) by (simp add: protocol_bounds)
  show ?thesis
    using fmt(2,3) unfolding pcm_buffer_new_Ok [OF fmt(1)] len
    by (cases buf; cases "pb_duration buf") (auto simp: protocol_bounds)
qed

text \<open>
  Synthesis produces exactly a placed, amplitude-bounded frame.  For a checked request it succeeds
  if and only if the format is 12 kHz mono, the tones stay below Nyquist, the message can be
  packed, the library returned a whole frame within the requested amplitude and the frame fits;
  the buffer is then the frame alone, or one whole slot that is silent around it.
\<close>

theorem synthesis_places_bounded_frame:
  assumes fmt: "valid_pcm_format (wr_format req)" and amp: "in_range 1 1000 (wr_amplitude req)"
    and start: "\<And>s. wr_placement req = FullSlot s \<Longrightarrow> in_range 0 u32_max s"
  shows "synthesize k h req = Ok buf \<longleftrightarrow>
    (\<exists>bits frame. codec_encode k h (wr_message req) = Ok bits \<and>
       frame = tones_to_i16 k (message_to_tones k (map u8_of_bool bits)) (wr_audio_frequency req)
                 (32767 * wr_amplitude req div 1000) \<and>
       pf_sample_rate_hz (wr_format req) = 12000 \<and> pf_channels (wr_format req) = 1 \<and>
       wr_audio_frequency req \<le> 5956 \<and> length frame = 151680 \<and>
       (\<forall>s \<in> set frame. \<bar>s\<bar> \<le> 32767 * wr_amplitude req div 1000) \<and> placement_fits (wr_placement req) \<and>
       pb_format buf = wr_format req \<and> pb_samples buf = placed_samples (wr_placement req) frame \<and>
       pd_frames (pb_duration buf) = (if wr_placement req = FrameOnly then 151680 else 180000) \<and>
       pd_microseconds (pb_duration buf) = (if wr_placement req = FrameOnly then 12640000 else 15000000))"
proof (cases "pf_sample_rate_hz (wr_format req) = 12000 \<and> pf_channels (wr_format req) = 1 \<and> wr_audio_frequency req \<le> 5956")
  case False
  then show ?thesis by (auto simp: synthesize_def protocol_bounds)
next
  case True
  then have c: "pf_sample_rate_hz (wr_format req) = 12000" "pf_channels (wr_format req) = 1" "wr_audio_frequency req \<le> 5956"
    by simp_all
  show ?thesis
  proof (cases "codec_encode k h (wr_message req)")
    case (Inl e)
    then show ?thesis using c by (simp add: synthesize_def protocol_bounds)
  next
    case (Inr bits)
    define frame where "frame = tones_to_i16 k (message_to_tones k (map u8_of_bool bits)) (wr_audio_frequency req)
      (32767 * wr_amplitude req div 1000)"
    have "synthesize k h req = Ok buf \<longleftrightarrow>
      length frame = 151680 \<and> (\<forall>s \<in> set frame. \<bar>s\<bar> \<le> 32767 * wr_amplitude req div 1000) \<and>
      placement_fits (wr_placement req) \<and>
      pcm_buffer_new (wr_format req) (placed_samples (wr_placement req) frame) = Ok buf"
      by (rule synthesize_placed [OF c amp Inr frame_def]) (rule start)
    then show ?thesis
      using c Inr placed_buffer [OF fmt c(1,2)] frame_def by auto
  qed
qed

lemma fixed_core_fields:
  "pack77 (fixed_core t bits raws frame) = (\<lambda>_ _ _. Some bits)"
  "pack77_type1 (fixed_core t bits raws frame) = (\<lambda>_ _ _. Some bits)"
  "pack77_type4 (fixed_core t bits raws frame) = (\<lambda>_ _ _ _. Some bits)"
  "ihashcall (fixed_core t bits raws frame) = (\<lambda>_ _. 0)"
  "unpack77_with_hash (fixed_core t bits raws frame) = (\<lambda>_ _. Some t)"
  by (simp_all add: fixed_core_def)

lemma fixed_core_encode:
  "codec_encode (fixed_core t bits raws frame) () m = codec_encode (fixed_core t bits [] []) () m"
  unfolding codec_encode_def encode_owned_def pack_message_def fixed_core_fields ..

theorem synthesis_places_bounded_frame_witness:
  "\<exists>buf. synthesize (fixed_core ''K1ABC W9XYZ -7'' type4_bits [] (replicate 151680 0)) ()
       \<lparr>wr_message = report_message,
        wr_format = \<lparr>pf_sample_rate_hz = 12000, pf_channels = 1, pf_sample_format = Signed16LittleEndian\<rparr>,
        wr_audio_frequency = 1500, wr_amplitude = 500, wr_placement = FullSlot 6000\<rparr> = Ok buf \<and>
     pd_microseconds (pb_duration buf) = 15000000"
proof -
  let ?k = "fixed_core ''K1ABC W9XYZ -7'' type4_bits [] (replicate 151680 0)"
  let ?f = "\<lparr>pf_sample_rate_hz = 12000, pf_channels = 1, pf_sample_format = Signed16LittleEndian\<rparr>"
  let ?r = "\<lparr>wr_message = report_message, wr_format = ?f, wr_audio_frequency = 1500, wr_amplitude = 500,
      wr_placement = FullSlot 6000\<rparr>"
  let ?s = "placed_samples (FullSlot 6000) (replicate 151680 0)"
  let ?b = "\<lparr>pb_format = ?f, pb_duration = \<lparr>pd_frames = 180000, pd_microseconds = 15000000\<rparr>, pb_samples = ?s\<rparr>"
  have enc: "codec_encode ?k () report_message = Ok (map (\<lambda>b. b \<noteq> 0) type4_bits)"
    by (rule trans [OF fixed_core_encode]) code_simp
  have "synthesize ?k () ?r = Ok ?b"
    using synthesis_places_bounded_frame [of ?r ?k "()" ?b] enc
    by (simp add: valid_pcm_format_def in_range_def fixed_core_def placement_fits_def protocol_bounds)
  then show ?thesis by auto
qed

end
