(* ===== verification/SP_Receive_Record.thy ===== *)
theory SP_Receive_Record
  imports SP_Ids SP_Resampler SP_Protocol
begin

text \<open>
  \<open>crates/storage/src/receive.rs\<close>, values: the receive record, its checks, the columns of the
  three receive tables it is written to, and the reconstruction of a record from those columns.
  A SQL \<open>INTEGER\<close> is an \<open>int\<close>, \<open>TEXT\<close> a \<open>string\<close> and a nullable column an \<open>option\<close>.  The
  table operations are in \<open>SP_Store\<close>.
\<close>

section \<open>Errors and checked integers\<close>

datatype db_failure = ConstraintViolation | SequenceExhausted

datatype storage_error =
    Database db_failure
  | SchemaTooNew int int
  | InvalidIdentity id_error
  | IdentityCollision
  | InvalidSequence
  | InvalidReceiveRecord string
  | InvalidPersistedReceiveValue string
  | InvalidPageLimit
  | InvalidReceiveEventPayload

definition to_i64 :: "int \<Rightarrow> (storage_error, int) result" where
  "to_i64 v = ok_or InvalidSequence (checked_i64 v)"

definition from_column :: "int \<Rightarrow> int \<Rightarrow> int \<Rightarrow> string \<Rightarrow> (storage_error, int) result" where
  "from_column lo hi v field = ok_or (InvalidPersistedReceiveValue field) (checked lo hi v)"

definition to_u64 :: "int \<Rightarrow> string \<Rightarrow> (storage_error, int) result" where
  "to_u64 = from_column 0 u64_max"

definition to_u32 :: "int \<Rightarrow> string \<Rightarrow> (storage_error, int) result" where
  "to_u32 = from_column 0 u32_max"

definition to_u16 :: "int \<Rightarrow> string \<Rightarrow> (storage_error, int) result" where
  "to_u16 = from_column 0 u16_max"

definition to_u8 :: "int \<Rightarrow> string \<Rightarrow> (storage_error, int) result" where
  "to_u8 = from_column 0 u8_max"

definition to_i32 :: "int \<Rightarrow> string \<Rightarrow> (storage_error, int) result" where
  "to_i32 = from_column i32_min i32_max"

definition to_i16 :: "int \<Rightarrow> string \<Rightarrow> (storage_error, int) result" where
  "to_i16 = from_column i16_min i16_max"

definition sequence_from_i64 :: "int \<Rightarrow> (storage_error, int) result" where
  "sequence_from_i64 v = ok_or InvalidSequence (checked_u64 v)"

lemmas column_defs = to_u64_def to_u32_def to_u16_def to_u8_def to_i32_def to_i16_def from_column_def

definition persisted :: "string \<Rightarrow> ('e, 'a) result \<Rightarrow> (storage_error, 'a) result" where
  "persisted field r = map_err (\<lambda>_. InvalidPersistedReceiveValue field) r"

section \<open>Clock evidence\<close>

datatype stored_clock_fault =
    StoredProcessGenerationChanged
  | StoredTimelineRegressed
  | StoredUtcJump int
  | StoredStaleMapping int
  | StoredSamplingDelayed int
  | StoredSampleGap int
  | StoredWindowMisaligned int
  | StoredArithmeticOverflow

datatype stored_clock_health =
    StoredHealthy int
  | StoredUnhealthy stored_clock_fault int int int

definition MAX_CLOCK_MAPPING_AGE_MILLIS :: int where "MAX_CLOCK_MAPPING_AGE_MILLIS = 86400000"

fun clock_health_validate :: "stored_clock_health \<Rightarrow> (storage_error, unit) result" where
  "clock_health_validate (StoredHealthy age) =
     (if age \<le> MAX_CLOCK_MAPPING_AGE_MILLIS then Ok ()
      else Err (InvalidReceiveRecord ''clock health or recovery bounds are invalid''))"
| "clock_health_validate (StoredUnhealthy fault progress required age) =
     (if in_range 2 10 required \<and> progress < required \<and> age \<le> MAX_CLOCK_MAPPING_AGE_MILLIS then Ok ()
      else Err (InvalidReceiveRecord ''clock health or recovery bounds are invalid''))"

fun clock_is_healthy :: "stored_clock_health \<Rightarrow> bool" where
  "clock_is_healthy (StoredHealthy age) = True"
| "clock_is_healthy (StoredUnhealthy fault progress required age) = False"

section \<open>Records\<close>

record receive_diagnostic_summary =
  rd_audio :: input_health
  rd_timeline :: receive_timeline_health
  rd_clock :: stored_clock_health

record receive_window_context =
  rc_receive_window_id :: receive_window_id
  rc_service_instance_id :: service_instance_id
  rc_process_generation :: process_generation
  rc_stream_generation :: stream_generation
  rc_slot :: ft8_receive_slot
  rc_device_identity :: input_device_identity
  rc_configuration :: input_configuration
  rc_capture_mapping :: capture_time_evidence

record receive_record =
  rr_context :: receive_window_context
  rr_diagnostics :: receive_diagnostic_summary
  rr_decodes :: "ft8_decode list"
  rr_recorded_utc_millis :: int

definition MAX_STORED_DECODES_PER_WINDOW :: nat where "MAX_STORED_DECODES_PER_WINDOW = 128"
definition MAX_RECEIVE_PAGE_SIZE :: nat where "MAX_RECEIVE_PAGE_SIZE = 100"

lemmas storage_bounds =
  MAX_CLOCK_MAPPING_AGE_MILLIS_def MAX_STORED_DECODES_PER_WINDOW_def MAX_RECEIVE_PAGE_SIZE_def

definition validate_decode_metadata :: "ft8_decode_metadata \<Rightarrow> (storage_error, unit) result" where
  "validate_decode_metadata m =
     (if \<not> in_range (- 60000) 60000 (md_start_offset_millis m) \<or> md_audio_frequency_hz m > 6000
         \<or> \<not> in_range (- 100) 100 (md_signal_to_noise_db m)
      then Err (InvalidReceiveRecord ''decode metadata is outside durable bounds'')
      else Ok ())"

fun validate_decodes :: "ft8_decode list \<Rightarrow> (storage_error, unit) result" where
  "validate_decodes [] = Ok ()"
| "validate_decodes (d # ds) = rbind (validate_decode_metadata (dec_metadata d)) (\<lambda>_. validate_decodes ds)"

definition receive_record_new ::
  "receive_window_context \<Rightarrow> receive_diagnostic_summary \<Rightarrow> ft8_decode list \<Rightarrow> int
   \<Rightarrow> (storage_error, receive_record) result" where
  "receive_record_new ctx diag decodes recorded =
     (if ev_utc_unix_millis (rc_capture_mapping ctx) \<noteq> start_utc_unix_millis (rc_slot ctx)
      then Err (InvalidReceiveRecord ''capture mapping must begin at the declared FT8 slot'')
      else if recorded < 0
      then Err (InvalidReceiveRecord ''recorded UTC time must be nonnegative'')
      else if length decodes > MAX_STORED_DECODES_PER_WINDOW
      then Err (InvalidReceiveRecord ''decode count exceeds the bounded window limit'')
      else if \<not> in_range (- 100000) 100000 (th_drift_parts_per_million (rd_timeline diag))
      then Err (InvalidReceiveRecord ''timeline drift is outside durable bounds'')
      else rbind (clock_health_validate (rd_clock diag)) (\<lambda>_.
           rbind (validate_decodes decodes) (\<lambda>_.
             if \<not> clock_is_healthy (rd_clock diag) \<and> decodes \<noteq> []
             then Err (InvalidReceiveRecord ''unhealthy clock evidence cannot carry decoder-ready results'')
             else Ok \<lparr>rr_context = ctx, rr_diagnostics = diag,
                      rr_decodes = sort_deterministically decodes, rr_recorded_utc_millis = recorded\<rparr>)))"

section \<open>Names of enumerations\<close>

fun platform_to_str :: "input_platform \<Rightarrow> string" where
  "platform_to_str MacOsCoreAudio = ''macos_core_audio''"
| "platform_to_str WindowsWasapi = ''windows_wasapi''"
| "platform_to_str LinuxAlsa = ''linux_alsa''"
| "platform_to_str LinuxJack = ''linux_jack''"

definition str_to_platform :: "string \<Rightarrow> (storage_error, input_platform) result" where
  "str_to_platform v =
     (if v = ''macos_core_audio'' then Ok MacOsCoreAudio
      else if v = ''windows_wasapi'' then Ok WindowsWasapi
      else if v = ''linux_alsa'' then Ok LinuxAlsa
      else if v = ''linux_jack'' then Ok LinuxJack
      else Err (InvalidPersistedReceiveValue ''input platform''))"

fun sample_format_to_str :: "input_sample_format \<Rightarrow> string" where
  "sample_format_to_str Signed8 = ''signed_8''"
| "sample_format_to_str Signed16 = ''signed_16''"
| "sample_format_to_str Signed24 = ''signed_24''"
| "sample_format_to_str Signed32 = ''signed_32''"
| "sample_format_to_str Signed64 = ''signed_64''"
| "sample_format_to_str Unsigned8 = ''unsigned_8''"
| "sample_format_to_str Unsigned16 = ''unsigned_16''"
| "sample_format_to_str Unsigned24 = ''unsigned_24''"
| "sample_format_to_str Unsigned32 = ''unsigned_32''"
| "sample_format_to_str Unsigned64 = ''unsigned_64''"
| "sample_format_to_str Float32 = ''float_32''"
| "sample_format_to_str Float64 = ''float_64''"

definition str_to_sample_format :: "string \<Rightarrow> (storage_error, input_sample_format) result" where
  "str_to_sample_format v =
     (if v = ''signed_8'' then Ok Signed8
      else if v = ''signed_16'' then Ok Signed16
      else if v = ''signed_24'' then Ok Signed24
      else if v = ''signed_32'' then Ok Signed32
      else if v = ''signed_64'' then Ok Signed64
      else if v = ''unsigned_8'' then Ok Unsigned8
      else if v = ''unsigned_16'' then Ok Unsigned16
      else if v = ''unsigned_24'' then Ok Unsigned24
      else if v = ''unsigned_32'' then Ok Unsigned32
      else if v = ''unsigned_64'' then Ok Unsigned64
      else if v = ''float_32'' then Ok Float32
      else if v = ''float_64'' then Ok Float64
      else Err (InvalidPersistedReceiveValue ''input sample format''))"

fun message_class_to_str :: "ft8_message_class \<Rightarrow> string" where
  "message_class_to_str GeneralCall = ''general_call''"
| "message_class_to_str DirectedGrid = ''directed_grid''"
| "message_class_to_str SignalReport = ''signal_report''"
| "message_class_to_str RogerSignalReport = ''roger_signal_report''"
| "message_class_to_str Roger = ''roger''"
| "message_class_to_str Ending73 = ''ending_73''"
| "message_class_to_str EndingRr73 = ''ending_rr73''"

definition str_to_message_class :: "string \<Rightarrow> (storage_error, ft8_message_class) result" where
  "str_to_message_class v =
     (if v = ''general_call'' then Ok GeneralCall
      else if v = ''directed_grid'' then Ok DirectedGrid
      else if v = ''signal_report'' then Ok SignalReport
      else if v = ''roger_signal_report'' then Ok RogerSignalReport
      else if v = ''roger'' then Ok Roger
      else if v = ''ending_73'' then Ok Ending73
      else if v = ''ending_rr73'' then Ok EndingRr73
      else Err (InvalidPersistedReceiveValue ''FT8 message class''))"

section \<open>Columns\<close>

record durable_clock =
  clk_state :: string
  clk_fault_kind :: "string option"
  clk_fault_value :: "int option"
  clk_recovery_progress :: int
  clk_recovery_required :: int
  clk_mapping_age_millis :: int

fun fault_columns :: "stored_clock_fault \<Rightarrow> (storage_error, string \<times> int option) result" where
  "fault_columns StoredProcessGenerationChanged = Ok (''process_generation_changed'', None)"
| "fault_columns StoredTimelineRegressed = Ok (''timeline_regressed'', None)"
| "fault_columns (StoredUtcJump d) = Ok (''utc_jump'', Some d)"
| "fault_columns (StoredStaleMapping a) = map_ok (\<lambda>v. (''stale_mapping'', Some v)) (to_i64 a)"
| "fault_columns (StoredSamplingDelayed a) = map_ok (\<lambda>v. (''sampling_delayed'', Some v)) (to_i64 a)"
| "fault_columns (StoredSampleGap a) = map_ok (\<lambda>v. (''sample_gap'', Some v)) (to_i64 a)"
| "fault_columns (StoredWindowMisaligned d) = Ok (''window_misaligned'', Some d)"
| "fault_columns StoredArithmeticOverflow = Ok (''arithmetic_overflow'', None)"

definition durable_clock_columns :: "stored_clock_health \<Rightarrow> (storage_error, durable_clock) result" where
  "durable_clock_columns clock =
     rbind (clock_health_validate clock) (\<lambda>_.
       case clock of
         StoredHealthy age \<Rightarrow>
           Ok \<lparr>clk_state = ''healthy'', clk_fault_kind = None, clk_fault_value = None,
               clk_recovery_progress = 0, clk_recovery_required = 0, clk_mapping_age_millis = age\<rparr>
       | StoredUnhealthy fault progress required age \<Rightarrow>
           rbind (fault_columns fault) (\<lambda>(kind, v).
             Ok \<lparr>clk_state = ''unhealthy'', clk_fault_kind = Some kind, clk_fault_value = v,
                 clk_recovery_progress = progress, clk_recovery_required = required,
                 clk_mapping_age_millis = age\<rparr>))"

record window_row =
  wr_sequence :: int
  wr_receive_window_id :: string
  wr_service_instance_id :: string
  wr_process_generation :: int
  wr_stream_generation :: int
  wr_slot_start_utc_millis :: int
  wr_device_platform :: string
  wr_device_opaque_id :: string
  wr_sample_rate_hz :: int
  wr_channels :: int
  wr_sample_format :: string
  wr_selected_channel :: int
  wr_capture_position_frames :: int
  wr_capture_utc_millis :: int
  wr_capture_monotonic_millis :: int
  wr_recorded_utc_millis :: int

definition window_row_of :: "int \<Rightarrow> receive_record \<Rightarrow> (storage_error, window_row) result" where
  "window_row_of sequence r =
     (let ctx = rr_context r; cfg = rc_configuration ctx; m = rc_capture_mapping ctx in
      rbind (to_i64 (process_generation_get (rc_process_generation ctx))) (\<lambda>pg.
      rbind (to_i64 (stream_generation_get (rc_stream_generation ctx))) (\<lambda>sg.
      rbind (to_i64 (ev_position m)) (\<lambda>pos.
      rbind (to_i64 (ev_monotonic_millis m)) (\<lambda>mono_ms.
        Ok \<lparr>wr_sequence = sequence,
            wr_receive_window_id = receive_window_id_str (rc_receive_window_id ctx),
            wr_service_instance_id = service_instance_id_str (rc_service_instance_id ctx),
            wr_process_generation = pg, wr_stream_generation = sg,
            wr_slot_start_utc_millis = start_utc_unix_millis (rc_slot ctx),
            wr_device_platform = platform_to_str (identity_platform (rc_device_identity ctx)),
            wr_device_opaque_id = opaque_id (rc_device_identity ctx),
            wr_sample_rate_hz = cfg_sample_rate_hz cfg, wr_channels = cfg_channels cfg,
            wr_sample_format = sample_format_to_str (cfg_sample_format cfg),
            wr_selected_channel = cfg_selected_channel cfg,
            wr_capture_position_frames = pos, wr_capture_utc_millis = ev_utc_unix_millis m,
            wr_capture_monotonic_millis = mono_ms,
            wr_recorded_utc_millis = rr_recorded_utc_millis r\<rparr>)))))"

record diagnostics_row =
  dr_receive_window_id :: string
  dr_audio_latency_millis :: int
  dr_audio_drift_parts_per_million :: int
  dr_audio_overflow_count :: int
  dr_audio_clipped_sample_count :: int
  dr_audio_max_callback_delay_millis :: int
  dr_timeline_max_jitter_millis :: int
  dr_timeline_drift_parts_per_million :: int
  dr_timeline_incomplete_slot_count :: int
  dr_timeline_late_batch_count :: int
  dr_clock :: durable_clock

definition diagnostics_row_of :: "receive_record \<Rightarrow> (storage_error, diagnostics_row) result" where
  "diagnostics_row_of r =
     (let d = rr_diagnostics r; a = rd_audio d; t = rd_timeline d in
      rbind (durable_clock_columns (rd_clock d)) (\<lambda>clock.
      rbind (to_i64 (ih_overflow_count a)) (\<lambda>overflow.
      rbind (to_i64 (ih_clipped_sample_count a)) (\<lambda>clipped.
      rbind (to_i64 (th_incomplete_slot_count t)) (\<lambda>incomplete.
      rbind (to_i64 (th_late_batch_count t)) (\<lambda>late.
      rbind (to_i64 (clk_mapping_age_millis clock)) (\<lambda>age.
        Ok \<lparr>dr_receive_window_id = receive_window_id_str (rc_receive_window_id (rr_context r)),
            dr_audio_latency_millis = ih_latency_millis a,
            dr_audio_drift_parts_per_million = ih_drift_parts_per_million a,
            dr_audio_overflow_count = overflow, dr_audio_clipped_sample_count = clipped,
            dr_audio_max_callback_delay_millis = ih_max_callback_delay_millis a,
            dr_timeline_max_jitter_millis = th_max_jitter_millis t,
            dr_timeline_drift_parts_per_million = th_drift_parts_per_million t,
            dr_timeline_incomplete_slot_count = incomplete, dr_timeline_late_batch_count = late,
            dr_clock = clock\<lparr>clk_mapping_age_millis := age\<rparr>\<rparr>)))))))"

record message_columns =
  mc_outcome_kind :: string
  mc_canonical_text :: string
  mc_detail :: "string option"
  mc_message_class :: "string option"
  mc_sender :: "string option"
  mc_recipient :: "string option"

fun durable_message_columns :: "classified_ft8_message \<Rightarrow> message_columns" where
  "durable_message_columns (Resolved m) =
     \<lparr>mc_outcome_kind = ''resolved'', mc_canonical_text = rm_canonical_text m, mc_detail = None,
      mc_message_class = Some (message_class_to_str (rm_class m)),
      mc_sender = Some (original (rm_sender m)),
      mc_recipient = map_option original (rm_recipient m)\<rparr>"
| "durable_message_columns (UnresolvedHash m) =
     \<lparr>mc_outcome_kind = ''unresolved_hash'', mc_canonical_text = dm_canonical_text m,
      mc_detail = Some (dm_detail m), mc_message_class = None, mc_sender = None, mc_recipient = None\<rparr>"
| "durable_message_columns (Unsupported m) =
     \<lparr>mc_outcome_kind = ''unsupported'', mc_canonical_text = dm_canonical_text m,
      mc_detail = Some (dm_detail m), mc_message_class = None, mc_sender = None, mc_recipient = None\<rparr>"
| "durable_message_columns (Ambiguous m) =
     \<lparr>mc_outcome_kind = ''ambiguous'', mc_canonical_text = dm_canonical_text m,
      mc_detail = Some (dm_detail m), mc_message_class = None, mc_sender = None, mc_recipient = None\<rparr>"
| "durable_message_columns (FreeText m) =
     \<lparr>mc_outcome_kind = ''free_text'', mc_canonical_text = free_text m, mc_detail = None,
      mc_message_class = None, mc_sender = None, mc_recipient = None\<rparr>"

record decode_row =
  de_receive_window_id :: string
  de_decode_index :: int
  de_start_offset_millis :: int
  de_audio_frequency_hz :: int
  de_signal_to_noise_db :: int
  de_message :: message_columns

definition decode_row_of :: "string \<Rightarrow> nat \<Rightarrow> ft8_decode \<Rightarrow> (storage_error, decode_row) result" where
  "decode_row_of wid index d =
     rbind (to_i64 (int index)) (\<lambda>i.
       Ok \<lparr>de_receive_window_id = wid, de_decode_index = i,
           de_start_offset_millis = md_start_offset_millis (dec_metadata d),
           de_audio_frequency_hz = md_audio_frequency_hz (dec_metadata d),
           de_signal_to_noise_db = md_signal_to_noise_db (dec_metadata d),
           de_message = durable_message_columns (dec_message d)\<rparr>)"

section \<open>Reconstruction\<close>

definition reconstruct_clock_fault ::
  "string option \<Rightarrow> int option \<Rightarrow> (storage_error, stored_clock_fault) result" where
  "reconstruct_clock_fault fk v =
     (case (fk, v) of
        (Some k, None) \<Rightarrow>
          if k = ''process_generation_changed'' then Ok StoredProcessGenerationChanged
          else if k = ''timeline_regressed'' then Ok StoredTimelineRegressed
          else if k = ''arithmetic_overflow'' then Ok StoredArithmeticOverflow
          else Err (InvalidPersistedReceiveValue ''clock fault shape'')
      | (Some k, Some n) \<Rightarrow>
          if k = ''utc_jump'' then Ok (StoredUtcJump n)
          else if k = ''stale_mapping'' then map_ok StoredStaleMapping (to_u64 n ''stale mapping age'')
          else if k = ''sampling_delayed'' then map_ok StoredSamplingDelayed (to_u64 n ''sampling delay'')
          else if k = ''sample_gap'' then map_ok StoredSampleGap (to_u64 n ''sample gap'')
          else if k = ''window_misaligned'' then Ok (StoredWindowMisaligned n)
          else Err (InvalidPersistedReceiveValue ''clock fault shape'')
      | _ \<Rightarrow> Err (InvalidPersistedReceiveValue ''clock fault shape''))"

definition reconstruct_clock :: "durable_clock \<Rightarrow> (storage_error, stored_clock_health) result" where
  "reconstruct_clock c =
     rbind (to_u64 (clk_mapping_age_millis c) ''clock mapping age'') (\<lambda>age.
     rbind (if clk_state c = ''healthy'' \<and> clk_fault_kind c = None \<and> clk_fault_value c = None
               \<and> clk_recovery_progress c = 0 \<and> clk_recovery_required c = 0
            then Ok (StoredHealthy age)
            else if clk_state c = ''unhealthy'' then
              rbind (reconstruct_clock_fault (clk_fault_kind c) (clk_fault_value c)) (\<lambda>fault.
              rbind (to_u8 (clk_recovery_progress c) ''clock recovery progress'') (\<lambda>progress.
              rbind (to_u8 (clk_recovery_required c) ''clock recovery required'') (\<lambda>required.
                Ok (StoredUnhealthy fault progress required age))))
            else Err (InvalidPersistedReceiveValue ''clock state shape'')) (\<lambda>clock.
     rbind (persisted ''clock health'' (clock_health_validate clock)) (\<lambda>_. Ok clock)))"

definition require_column :: "string \<Rightarrow> 'a option \<Rightarrow> (storage_error, 'a) result" where
  "require_column field v = ok_or (InvalidPersistedReceiveValue field) v"

definition reconstruct_resolved :: "message_columns \<Rightarrow> (storage_error, classified_ft8_message) result" where
  "reconstruct_resolved raw =
     rbind (require_column ''resolved sender'' (mc_sender raw)) (\<lambda>sender.
     rbind (persisted ''resolved sender callsign'' (full_callsign_from_str sender)) (\<lambda>s.
     rbind (case mc_recipient raw of
              None \<Rightarrow> Ok None
            | Some v \<Rightarrow> map_ok Some (persisted ''resolved recipient callsign'' (full_callsign_from_str v))) (\<lambda>r.
     rbind (require_column ''resolved message class'' (mc_message_class raw)) (\<lambda>name.
     rbind (str_to_message_class name) (\<lambda>cl.
       map_ok Resolved (persisted ''resolved message''
         (resolved_message_new (mc_canonical_text raw) s r cl)))))))"

definition reconstruct_message :: "message_columns \<Rightarrow> (storage_error, classified_ft8_message) result" where
  "reconstruct_message raw =
     (if mc_outcome_kind raw = ''resolved'' then reconstruct_resolved raw
      else if mc_outcome_kind raw = ''unresolved_hash'' then
        rbind (require_column ''unresolved detail'' (mc_detail raw)) (\<lambda>d.
          map_ok UnresolvedHash (persisted ''unresolved message'' (unresolved_hash_new (mc_canonical_text raw) d)))
      else if mc_outcome_kind raw = ''unsupported'' then
        rbind (require_column ''unsupported detail'' (mc_detail raw)) (\<lambda>d.
          map_ok Unsupported (persisted ''unsupported message'' (unsupported_new (mc_canonical_text raw) d)))
      else if mc_outcome_kind raw = ''ambiguous'' then
        rbind (require_column ''ambiguous detail'' (mc_detail raw)) (\<lambda>d.
          map_ok Ambiguous (persisted ''ambiguous message'' (ambiguous_new (mc_canonical_text raw) d)))
      else if mc_outcome_kind raw = ''free_text'' then
        map_ok FreeText (persisted ''free-text message'' (free_text_new (mc_canonical_text raw)))
      else Err (InvalidPersistedReceiveValue ''decode outcome classification''))"

fun reconstruct_decodes :: "nat \<Rightarrow> decode_row list \<Rightarrow> (storage_error, ft8_decode list) result" where
  "reconstruct_decodes i [] = Ok []"
| "reconstruct_decodes i (row # rows) =
     rbind (ok_or InvalidSequence (checked_i64 (int i))) (\<lambda>expected.
       if de_decode_index row \<noteq> expected
       then Err (InvalidPersistedReceiveValue ''decode indices are not contiguous'')
       else
         rbind (to_i32 (de_start_offset_millis row) ''decode offset'') (\<lambda>offset.
         rbind (to_u32 (de_audio_frequency_hz row) ''decode frequency'') (\<lambda>freq.
         rbind (to_i16 (de_signal_to_noise_db row) ''decode SNR'') (\<lambda>snr.
         rbind (reconstruct_message (de_message row)) (\<lambda>msg.
         rbind (reconstruct_decodes (i + 1) rows) (\<lambda>rest.
           Ok (\<lparr>dec_metadata = \<lparr>md_start_offset_millis = offset, md_audio_frequency_hz = freq,
                 md_signal_to_noise_db = snr\<rparr>, dec_message = msg\<rparr> # rest)))))))"

text \<open>\<open>read_decodes\<close> on the rows of one window, already ordered by their index.\<close>

definition read_decodes :: "decode_row list \<Rightarrow> (storage_error, ft8_decode list) result" where
  "read_decodes rows =
     rbind (reconstruct_decodes 0 rows) (\<lambda>decodes.
       if sort_deterministically decodes \<noteq> decodes
       then Err (InvalidPersistedReceiveValue ''decode order is nondeterministic'')
       else Ok decodes)"

record sequenced_receive_record =
  sr_sequence :: int
  sr_record :: receive_record

definition reconstruct_context :: "window_row \<Rightarrow> (storage_error, receive_window_context) result" where
  "reconstruct_context w =
     rbind (map_err InvalidIdentity (receive_window_id_from_str (wr_receive_window_id w))) (\<lambda>wid.
     rbind (str_to_platform (wr_device_platform w)) (\<lambda>platform.
     rbind (persisted ''device identity'' (input_device_identity_new platform (wr_device_opaque_id w))) (\<lambda>device.
     rbind (to_u32 (wr_sample_rate_hz w) ''sample rate'') (\<lambda>rate.
     rbind (to_u16 (wr_channels w) ''channel count'') (\<lambda>channels.
     rbind (str_to_sample_format (wr_sample_format w)) (\<lambda>format.
     rbind (to_u16 (wr_selected_channel w) ''selected channel'') (\<lambda>selected.
     rbind (persisted ''input configuration'' (input_configuration_new rate channels format selected)) (\<lambda>cfg.
     rbind (map_err InvalidIdentity (service_instance_id_from_str (wr_service_instance_id w))) (\<lambda>svc.
     rbind (to_u64 (wr_process_generation w) ''process'') (\<lambda>p.
     rbind (persisted ''process generation'' (process_generation_new p)) (\<lambda>pg.
     rbind (to_u64 (wr_stream_generation w) ''stream'') (\<lambda>s.
     rbind (persisted ''stream generation'' (stream_generation_new s)) (\<lambda>sg.
     rbind (persisted ''FT8 slot'' (ft8_receive_slot_new (wr_slot_start_utc_millis w))) (\<lambda>slot.
     rbind (to_u64 (wr_capture_position_frames w) ''capture position'') (\<lambda>pos.
     rbind (to_u64 (wr_capture_monotonic_millis w) ''capture monotonic time'') (\<lambda>mono_ms.
     rbind (persisted ''capture mapping'' (capture_time_evidence_new pos (wr_capture_utc_millis w) mono_ms)) (\<lambda>m.
       Ok \<lparr>rc_receive_window_id = wid, rc_service_instance_id = svc, rc_process_generation = pg,
           rc_stream_generation = sg, rc_slot = slot, rc_device_identity = device,
           rc_configuration = cfg, rc_capture_mapping = m\<rparr>)))))))))))))))))"

definition reconstruct_diagnostics ::
  "stored_clock_health \<Rightarrow> diagnostics_row \<Rightarrow> (storage_error, receive_diagnostic_summary) result" where
  "reconstruct_diagnostics clock d =
     rbind (to_u32 (dr_audio_latency_millis d) ''audio latency'') (\<lambda>latency.
     rbind (to_i32 (dr_audio_drift_parts_per_million d) ''audio drift'') (\<lambda>drift.
     rbind (to_u64 (dr_audio_overflow_count d) ''audio overflow count'') (\<lambda>overflow.
     rbind (to_u64 (dr_audio_clipped_sample_count d) ''audio clipped count'') (\<lambda>clipped.
     rbind (to_u32 (dr_audio_max_callback_delay_millis d) ''callback delay'') (\<lambda>delay.
     rbind (persisted ''audio health'' (input_health_new latency drift overflow clipped delay)) (\<lambda>audio.
     rbind (to_u32 (dr_timeline_max_jitter_millis d) ''timeline jitter'') (\<lambda>jitter.
     rbind (to_i32 (dr_timeline_drift_parts_per_million d) ''timeline drift'') (\<lambda>tdrift.
     rbind (to_u64 (dr_timeline_incomplete_slot_count d) ''incomplete slot count'') (\<lambda>incomplete.
     rbind (to_u64 (dr_timeline_late_batch_count d) ''late batch count'') (\<lambda>late.
       Ok \<lparr>rd_audio = audio,
           rd_timeline = \<lparr>th_max_jitter_millis = jitter, th_drift_parts_per_million = tdrift,
             th_incomplete_slot_count = incomplete, th_late_batch_count = late\<rparr>,
           rd_clock = clock\<rparr>))))))))))"

definition reconstruct_receive ::
  "window_row \<Rightarrow> diagnostics_row \<Rightarrow> decode_row list \<Rightarrow> (storage_error, sequenced_receive_record) result" where
  "reconstruct_receive w d rows =
     rbind (sequence_from_i64 (wr_sequence w)) (\<lambda>sequence.
     rbind (reconstruct_clock (dr_clock d)) (\<lambda>clock.
     rbind (reconstruct_context w) (\<lambda>ctx.
     rbind (reconstruct_diagnostics clock d) (\<lambda>diag.
     rbind (read_decodes rows) (\<lambda>decodes.
     rbind (persisted ''receive record invariants''
              (receive_record_new ctx diag decodes (wr_recorded_utc_millis w))) (\<lambda>r.
       Ok \<lparr>sr_sequence = sequence, sr_record = r\<rparr>))))))"

section \<open>Valid records\<close>

fun valid_fault :: "stored_clock_fault \<Rightarrow> bool" where
  "valid_fault (StoredUtcJump d) \<longleftrightarrow> is_i64 d"
| "valid_fault (StoredStaleMapping a) \<longleftrightarrow> is_u64 a"
| "valid_fault (StoredSamplingDelayed a) \<longleftrightarrow> is_u64 a"
| "valid_fault (StoredSampleGap a) \<longleftrightarrow> is_u64 a"
| "valid_fault (StoredWindowMisaligned d) \<longleftrightarrow> is_i64 d"
| "valid_fault _ \<longleftrightarrow> True"

fun valid_clock_health :: "stored_clock_health \<Rightarrow> bool" where
  "valid_clock_health (StoredHealthy age) \<longleftrightarrow> in_range 0 86400000 age"
| "valid_clock_health (StoredUnhealthy f p n age) \<longleftrightarrow>
     valid_fault f \<and> 2 \<le> n \<and> n \<le> 10 \<and> 0 \<le> p \<and> p < n \<and> in_range 0 86400000 age"

text \<open>What the constructors of the parts of a record guarantee: the integer ranges and checks.\<close>

definition valid_context :: "receive_window_context \<Rightarrow> bool" where
  "valid_context c \<longleftrightarrow>
     valid_id ''rxw_'' (receive_window_id_str (rc_receive_window_id c)) \<and>
     valid_id ''svc_'' (service_instance_id_str (rc_service_instance_id c)) \<and>
     in_range 1 u64_max (process_generation_get (rc_process_generation c)) \<and>
     in_range 1 u64_max (stream_generation_get (rc_stream_generation c)) \<and>
     is_ok (ft8_receive_slot_new (start_utc_unix_millis (rc_slot c))) \<and>
     start_utc_unix_millis (rc_slot c) \<le> i64_max \<and>
     input_device_identity_new (identity_platform (rc_device_identity c)) (opaque_id (rc_device_identity c))
       = Ok (rc_device_identity c) \<and>
     list_ex utf8_start (opaque_id (rc_device_identity c)) \<and>
     valid_configuration (rc_configuration c) \<and>
     is_u64 (ev_position (rc_capture_mapping c)) \<and> is_u64 (ev_monotonic_millis (rc_capture_mapping c)) \<and>
     0 \<le> ev_utc_unix_millis (rc_capture_mapping c)"

definition valid_audio_health :: "input_health \<Rightarrow> bool" where
  "valid_audio_health a \<longleftrightarrow>
     in_range 0 60000 (ih_latency_millis a) \<and> in_range (- 100000) 100000 (ih_drift_parts_per_million a) \<and>
     is_u64 (ih_overflow_count a) \<and> is_u64 (ih_clipped_sample_count a) \<and>
     in_range 0 60000 (ih_max_callback_delay_millis a)"

definition valid_diagnostics :: "receive_diagnostic_summary \<Rightarrow> bool" where
  "valid_diagnostics d \<longleftrightarrow>
     valid_audio_health (rd_audio d) \<and> valid_clock_health (rd_clock d) \<and>
     is_u32 (th_max_jitter_millis (rd_timeline d)) \<and>
     in_range (- 100000) 100000 (th_drift_parts_per_million (rd_timeline d)) \<and>
     is_u64 (th_incomplete_slot_count (rd_timeline d)) \<and> is_u64 (th_late_batch_count (rd_timeline d))"

fun callsigns_parsed :: "classified_ft8_message \<Rightarrow> bool" where
  "callsigns_parsed (Resolved m) \<longleftrightarrow>
     full_callsign_from_str (original (rm_sender m)) = Ok (rm_sender m) \<and>
     (case rm_recipient m of None \<Rightarrow> True | Some r \<Rightarrow> full_callsign_from_str (original r) = Ok r)"
| "callsigns_parsed _ \<longleftrightarrow> True"

definition valid_decode :: "ft8_decode \<Rightarrow> bool" where
  "valid_decode d \<longleftrightarrow>
     valid_message (dec_message d) \<and> callsigns_parsed (dec_message d) \<and>
     in_range (- 60000) 60000 (md_start_offset_millis (dec_metadata d)) \<and>
     in_range 0 6000 (md_audio_frequency_hz (dec_metadata d)) \<and>
     in_range (- 100) 100 (md_signal_to_noise_db (dec_metadata d))"

definition valid_record :: "receive_record \<Rightarrow> bool" where
  "valid_record r \<longleftrightarrow>
     valid_context (rr_context r) \<and> valid_diagnostics (rr_diagnostics r) \<and>
     ev_utc_unix_millis (rc_capture_mapping (rr_context r)) = start_utc_unix_millis (rc_slot (rr_context r)) \<and>
     length (rr_decodes r) \<le> 128 \<and> list_all valid_decode (rr_decodes r) \<and>
     sort_deterministically (rr_decodes r) = rr_decodes r \<and>
     (rr_decodes r \<noteq> [] \<longrightarrow> clock_is_healthy (rd_clock (rr_diagnostics r))) \<and>
     0 \<le> rr_recorded_utc_millis r"

lemma sort_deterministically_idem [simp]:
  "sort_deterministically (sort_deterministically ds) = sort_deterministically ds"
  by (simp add: sort_deterministically_def sorted_sort_id sort_key_id_if_sorted)

lemma sort_deterministically_set [simp]: "set (sort_deterministically ds) = set ds"
  "length (sort_deterministically ds) = length ds"
  by (simp_all add: sort_deterministically_def)

lemma validate_decodes_Ok: "validate_decodes ds = Inr u \<longleftrightarrow> (\<forall>d \<in> set ds. validate_decode_metadata (dec_metadata d) = Ok ())"
  by (induction ds) auto

lemma clock_health_validate_Ok: "valid_clock_health c \<Longrightarrow> clock_health_validate c = Ok ()"
  by (cases c) (auto simp: in_range_def storage_bounds)

lemma receive_record_new_valid:
  assumes "receive_record_new ctx diag ds t = Ok r" "valid_context ctx" "valid_diagnostics diag"
    and "\<And>d. d \<in> set ds \<Longrightarrow> valid_message (dec_message d) \<and> callsigns_parsed (dec_message d) \<and>
      0 \<le> md_audio_frequency_hz (dec_metadata d)"
  shows "valid_record r \<and> rr_context r = ctx \<and> rr_diagnostics r = diag \<and>
    rr_decodes r = sort_deterministically ds \<and> rr_recorded_utc_millis r = t"
proof -
  have r: "r = \<lparr>rr_context = ctx, rr_diagnostics = diag, rr_decodes = sort_deterministically ds,
      rr_recorded_utc_millis = t\<rparr>" "validate_decodes ds = Ok ()"
      "ev_utc_unix_millis (rc_capture_mapping ctx) = start_utc_unix_millis (rc_slot ctx)" "0 \<le> t"
      "length ds \<le> 128" "ds = [] \<or> clock_is_healthy (rd_clock diag)"
    using assms(1) by (auto simp: receive_record_new_def storage_bounds split: if_splits)
  have "valid_decode d" if "d \<in> set ds" for d
    using assms(4) [OF that] r(2) that unfolding validate_decodes_Ok
    by (auto simp: valid_decode_def validate_decode_metadata_def in_range_def split: if_splits)
  moreover have "sort_deterministically ds = [] \<longleftrightarrow> ds = []" by (metis length_0_conv sort_deterministically_set(2))
  ultimately show ?thesis
    using r assms(2,3) by (auto simp: valid_record_def list_all_iff)
qed

section \<open>Columns are read back\<close>

lemma platform_round_trip [simp]: "str_to_platform (platform_to_str p) = Ok p"
  by (cases p) (simp_all add: str_to_platform_def)

lemma sample_format_round_trip [simp]: "str_to_sample_format (sample_format_to_str f) = Ok f"
  by (cases f) (simp_all add: str_to_sample_format_def)

lemma message_class_round_trip [simp]: "str_to_message_class (message_class_to_str c) = Ok c"
  by (cases c) (simp_all add: str_to_message_class_def)

lemma from_column_in [simp]: "lo \<le> v \<Longrightarrow> v \<le> hi \<Longrightarrow> from_column lo hi v f = Ok v"
  by (simp add: from_column_def)

lemma to_i64_Ok [simp]: "to_i64 v = Inr w \<longleftrightarrow> w = v \<and> i64_min \<le> v \<and> v \<le> i64_max"
  by (auto simp: to_i64_def)

lemma fault_round_trip:
  assumes "fault_columns f = Inr (k, v)" "valid_fault f"
  shows "reconstruct_clock_fault (Some k) v = Ok f"
proof -
  have "rbind (fault_columns f) (\<lambda>(k, v). reconstruct_clock_fault (Some k) v) =
      rbind (fault_columns f) (\<lambda>_. Ok f)"
    using assms(2)
    by (cases f) (simp_all add: reconstruct_clock_fault_def to_u64_def to_i64_def from_column_def checked_def in_range_def)
  then show ?thesis unfolding assms(1) by simp
qed

lemma clock_round_trip:
  assumes cols: "durable_clock_columns c = Inr cols" and v: "valid_clock_health c"
  shows "reconstruct_clock cols = Ok c" "in_range 0 86400000 (clk_mapping_age_millis cols)"
proof -
  note vv = clock_health_validate_Ok [OF v]
  have "reconstruct_clock cols = Ok c \<and> in_range 0 86400000 (clk_mapping_age_millis cols)"
  proof (cases c)
    case (StoredHealthy age)
    then show ?thesis using cols v vv
      by (auto simp: durable_clock_columns_def reconstruct_clock_def to_u64_def in_range_def persisted_def)
  next
    case (StoredUnhealthy f p n age)
    then obtain k w where kw: "fault_columns f = Inr (k, w)"
        "cols = \<lparr>clk_state = ''unhealthy'', clk_fault_kind = Some k, clk_fault_value = w,
          clk_recovery_progress = p, clk_recovery_required = n, clk_mapping_age_millis = age\<rparr>"
      using cols vv by (auto simp: durable_clock_columns_def)
    then show ?thesis using StoredUnhealthy v vv fault_round_trip [OF kw(1)]
      by (auto simp: reconstruct_clock_def to_u64_def to_u8_def in_range_def persisted_def)
  qed
  then show "reconstruct_clock cols = Ok c" "in_range 0 86400000 (clk_mapping_age_millis cols)" by simp_all
qed

lemma message_round_trip:
  assumes "valid_message m" "callsigns_parsed m"
  shows "reconstruct_message (durable_message_columns m) = Ok m"
  using assms
proof (cases m)
  case (Resolved x)
  have "resolved_message_new (rm_canonical_text x) (rm_sender x) (rm_recipient x) (rm_class x) = Ok x"
    using assms Resolved by (cases x) (auto simp: resolved_message_new_Ok)
  then show ?thesis using assms Resolved
    by (cases "rm_recipient x") (auto simp: reconstruct_message_def reconstruct_resolved_def require_column_def persisted_def)
qed (auto simp: reconstruct_message_def require_column_def persisted_def outcome_new_defs
    detailed_message_new_Ok free_text_new_Ok)

text \<open>The rows of the decodes of one window.\<close>

fun decode_rows :: "string \<Rightarrow> nat \<Rightarrow> ft8_decode list \<Rightarrow> (storage_error, decode_row list) result" where
  "decode_rows wid i [] = Ok []"
| "decode_rows wid i (d # ds) =
     rbind (decode_row_of wid i d) (\<lambda>row. rbind (decode_rows wid (i + 1) ds) (\<lambda>rows. Ok (row # rows)))"

lemma decode_rows_round_trip:
  assumes "decode_rows wid i ds = Inr rows" "list_all valid_decode ds"
  shows "reconstruct_decodes i rows = Ok ds"
  using assms
proof (induction ds arbitrary: i rows)
  case (Cons d ds)
  obtain row rest where rr: "decode_row_of wid i d = Inr row" "decode_rows wid (i + 1) ds = Inr rest" "rows = row # rest"
    using Cons.prems(1) by auto
  have v: "valid_decode d" using Cons.prems by simp
  note m = message_round_trip [of "dec_message d"]
  have "reconstruct_decodes (i + 1) rest = Ok ds" using Cons.IH rr(2) Cons.prems(2) by simp
  then show ?case using rr v m
    by (auto simp: decode_row_of_def valid_decode_def in_range_def to_i32_def to_u32_def to_i16_def)
qed simp

lemma context_round_trip:
  assumes "window_row_of n r = Inr w" "valid_context (rr_context r)"
  shows "reconstruct_context w = Ok (rr_context r)"
proof -
  let ?c = "rr_context r" and ?cfg = "rc_configuration (rr_context r)"
  have w: "w = \<lparr>wr_sequence = n,
      wr_receive_window_id = receive_window_id_str (rc_receive_window_id ?c),
      wr_service_instance_id = service_instance_id_str (rc_service_instance_id ?c),
      wr_process_generation = process_generation_get (rc_process_generation ?c),
      wr_stream_generation = stream_generation_get (rc_stream_generation ?c),
      wr_slot_start_utc_millis = start_utc_unix_millis (rc_slot ?c),
      wr_device_platform = platform_to_str (identity_platform (rc_device_identity ?c)),
      wr_device_opaque_id = opaque_id (rc_device_identity ?c),
      wr_sample_rate_hz = cfg_sample_rate_hz ?cfg, wr_channels = cfg_channels ?cfg,
      wr_sample_format = sample_format_to_str (cfg_sample_format ?cfg),
      wr_selected_channel = cfg_selected_channel ?cfg,
      wr_capture_position_frames = ev_position (rc_capture_mapping ?c),
      wr_capture_utc_millis = ev_utc_unix_millis (rc_capture_mapping ?c),
      wr_capture_monotonic_millis = ev_monotonic_millis (rc_capture_mapping ?c),
      wr_recorded_utc_millis = rr_recorded_utc_millis r\<rparr>"
    using assms(1) by (auto simp: window_row_of_def Let_def)
  note v = assms(2) [unfolded valid_context_def in_range_def]
  have cfg: "1 \<le> cfg_channels ?cfg" "cfg_channels ?cfg \<le> 32" "0 \<le> cfg_selected_channel ?cfg"
      "cfg_selected_channel ?cfg < 32" "8000 \<le> cfg_sample_rate_hz ?cfg" "cfg_sample_rate_hz ?cfg \<le> 384000"
    using v by (auto simp: valid_configuration_def)
  have "input_configuration_new (cfg_sample_rate_hz ?cfg) (cfg_channels ?cfg) (cfg_sample_format ?cfg)
      (cfg_selected_channel ?cfg) = Ok ?cfg"
    using v cfg input_configuration_new_Ok [of "cfg_channels ?cfg" "cfg_selected_channel ?cfg"] by (cases ?cfg) simp
  moreover have "receive_window_id_from_str (receive_window_id_str (rc_receive_window_id ?c)) = Ok (rc_receive_window_id ?c)"
    "service_instance_id_from_str (service_instance_id_str (rc_service_instance_id ?c)) = Ok (rc_service_instance_id ?c)"
    using v by (simp_all add: receive_window_id_from_str_def service_instance_id_from_str_def id_from_str_Ok)
  moreover have "process_generation_new (process_generation_get (rc_process_generation ?c)) = Ok (rc_process_generation ?c)"
    "stream_generation_new (stream_generation_get (rc_stream_generation ?c)) = Ok (rc_stream_generation ?c)"
    using v by (auto simp: process_generation_new_def stream_generation_new_def)
  moreover have "ft8_receive_slot_new (start_utc_unix_millis (rc_slot ?c)) = Ok (rc_slot ?c)"
    using v by (auto simp: ft8_receive_slot_new_def split: if_splits)
  moreover have "capture_time_evidence_new (ev_position (rc_capture_mapping ?c)) (ev_utc_unix_millis (rc_capture_mapping ?c))
      (ev_monotonic_millis (rc_capture_mapping ?c)) = Ok (rc_capture_mapping ?c)"
    using v by (simp add: capture_time_evidence_new_def)
  ultimately show ?thesis
    using v cfg unfolding w reconstruct_context_def by (simp add: to_u32_def to_u16_def to_u64_def persisted_def)
qed

lemma diagnostics_round_trip:
  assumes "diagnostics_row_of r = Inr d" "valid_diagnostics (rr_diagnostics r)"
  shows "reconstruct_clock (dr_clock d) = Ok (rd_clock (rr_diagnostics r))"
    and "reconstruct_diagnostics (rd_clock (rr_diagnostics r)) d = Ok (rr_diagnostics r)"
proof -
  let ?a = "rd_audio (rr_diagnostics r)" and ?t = "rd_timeline (rr_diagnostics r)"
  obtain clk where clk: "durable_clock_columns (rd_clock (rr_diagnostics r)) = Inr clk"
      and d: "d = \<lparr>dr_receive_window_id = receive_window_id_str (rc_receive_window_id (rr_context r)),
            dr_audio_latency_millis = ih_latency_millis ?a,
            dr_audio_drift_parts_per_million = ih_drift_parts_per_million ?a,
            dr_audio_overflow_count = ih_overflow_count ?a,
            dr_audio_clipped_sample_count = ih_clipped_sample_count ?a,
            dr_audio_max_callback_delay_millis = ih_max_callback_delay_millis ?a,
            dr_timeline_max_jitter_millis = th_max_jitter_millis ?t,
            dr_timeline_drift_parts_per_million = th_drift_parts_per_million ?t,
            dr_timeline_incomplete_slot_count = th_incomplete_slot_count ?t,
            dr_timeline_late_batch_count = th_late_batch_count ?t, dr_clock = clk\<rparr>"
    using assms(1) by (auto simp: diagnostics_row_of_def Let_def)
  have v: "valid_clock_health (rd_clock (rr_diagnostics r))" using assms(2) by (simp add: valid_diagnostics_def)
  show "reconstruct_clock (dr_clock d) = Ok (rd_clock (rr_diagnostics r))"
    unfolding d using clock_round_trip(1) [OF clk v] by simp
  note w = assms(2) [unfolded valid_diagnostics_def valid_audio_health_def in_range_def]
  have "input_health_new (ih_latency_millis ?a) (ih_drift_parts_per_million ?a) (ih_overflow_count ?a)
      (ih_clipped_sample_count ?a) (ih_max_callback_delay_millis ?a) = Ok ?a"
    using w by (simp add: input_health_new_def audio_bounds)
  then show "reconstruct_diagnostics (rd_clock (rr_diagnostics r)) d = Ok (rr_diagnostics r)"
    unfolding d reconstruct_diagnostics_def using w
    by (simp add: to_u32_def to_i32_def to_u64_def persisted_def)
qed

lemma record_rebuild:
  assumes "valid_record r"
  shows "receive_record_new (rr_context r) (rr_diagnostics r) (rr_decodes r) (rr_recorded_utc_millis r) = Ok r"
proof -
  have "validate_decodes (rr_decodes r) = Ok ()"
    using assms by (auto simp: validate_decodes_Ok valid_record_def list_all_iff valid_decode_def
        validate_decode_metadata_def in_range_def)
  moreover have "clock_health_validate (rd_clock (rr_diagnostics r)) = Ok ()"
    using assms by (auto simp: valid_record_def valid_diagnostics_def intro: clock_health_validate_Ok)
  ultimately show ?thesis
    using assms by (auto simp: receive_record_new_def valid_record_def valid_diagnostics_def storage_bounds)
qed

lemma record_round_trip:
  assumes "valid_record r" "window_row_of n r = Inr w" "diagnostics_row_of r = Inr d"
    and "decode_rows wid 0 (rr_decodes r) = Inr rows" "is_u64 n"
  shows "reconstruct_receive w d rows = Ok \<lparr>sr_sequence = n, sr_record = r\<rparr>"
proof -
  have v: "valid_context (rr_context r)" "valid_diagnostics (rr_diagnostics r)" "list_all valid_decode (rr_decodes r)"
      "sort_deterministically (rr_decodes r) = rr_decodes r"
    using assms(1) by (simp_all add: valid_record_def)
  have "wr_sequence w = n" "wr_recorded_utc_millis w = rr_recorded_utc_millis r"
    using assms(2) by (auto simp: window_row_of_def Let_def)
  moreover have "read_decodes rows = Ok (rr_decodes r)"
    using decode_rows_round_trip [OF assms(4) v(3)] v(4) by (simp add: read_decodes_def)
  ultimately show ?thesis
    using context_round_trip [OF assms(2) v(1)] diagnostics_round_trip [OF assms(3) v(2)]
      record_rebuild [OF assms(1)] assms(5)
    by (simp add: reconstruct_receive_def sequence_from_i64_def persisted_def in_range_def)
qed

end
