(* ===== verification/SP_Store.thy ===== *)
theory SP_Store
  imports SP_Receive_Record
begin

text \<open>
  \<open>crates/storage/src/lib.rs\<close>, the operations of \<open>crates/storage/src/receive.rs\<close> and the schema
  they run on (\<open>crates/storage/migrations\<close>).  The database is a record of tables; each statement
  of the source is one function on it.  An \<open>INSERT\<close> checks the \<open>CHECK\<close>, \<open>UNIQUE\<close> and
  \<open>PRIMARY KEY\<close> constraints of the schema, \<open>AUTOINCREMENT\<close> hands out one more than the largest
  key ever used, and \<open>ON DELETE CASCADE\<close> removes the dependent rows.  An operation that returns
  an error inside its transaction leaves the database unchanged.  Failures of the file system
  or of locking are outside the model; \<open>json_valid\<close> is a parameter.
\<close>

section \<open>Tables\<close>

record command_row =
  cr_request_id :: string
  cr_command_id :: string
  cr_canonical_command :: string
  cr_original_result :: string
  cr_accepted_utc_millis :: int

record event_row =
  er_sequence :: int
  er_event_id :: string
  er_service_instance_id :: string
  er_event_json :: string
  er_occurred_utc_millis :: int

record database =
  db_user_version :: int
  db_commands :: "command_row list"
  db_events :: "event_row list"
  db_event_counter :: int
  db_windows :: "window_row list"
  db_window_counter :: int
  db_diagnostics :: "diagnostics_row list"
  db_decodes :: "decode_row list"

definition empty_database :: database where
  "empty_database =
     \<lparr>db_user_version = 0, db_commands = [], db_events = [], db_event_counter = 0,
      db_windows = [], db_window_counter = 0, db_diagnostics = [], db_decodes = []\<rparr>"

definition SCHEMA_VERSION :: int where "SCHEMA_VERSION = 2"

definition migrate :: "database \<Rightarrow> (storage_error, unit) result \<times> database" where
  "migrate db =
     (if db_user_version db > SCHEMA_VERSION
      then (Err (SchemaTooNew (db_user_version db) SCHEMA_VERSION), db)
      else let db1 = (if db_user_version db < 1 then db\<lparr>db_user_version := 1\<rparr> else db);
               db2 = (if db_user_version db < 2 then db1\<lparr>db_user_version := 2\<rparr> else db1)
           in (Ok (), db2))"

text \<open>SQL \<open>length\<close> of a text counts characters: the bytes that do not continue one.\<close>

definition sql_length :: "string \<Rightarrow> nat" where
  "sql_length s = length (filter utf8_start s)"

definition sql_id_check :: "string \<Rightarrow> string \<Rightarrow> bool" where
  "sql_id_check prefix v \<longleftrightarrow>
     12 \<le> sql_length v \<and> sql_length v \<le> 68 \<and> take 4 v = prefix \<and> list_all payload_byte_ok (drop 4 v)"

definition sql_text_check :: "nat \<Rightarrow> string \<Rightarrow> bool" where
  "sql_text_check n v \<longleftrightarrow> 1 \<le> sql_length v \<and> sql_length v \<le> n \<and> CHR 0x00 \<notin> set v"

definition window_checks :: "window_row \<Rightarrow> bool" where
  "window_checks w \<longleftrightarrow>
     sql_id_check ''rxw_'' (wr_receive_window_id w) \<and> sql_id_check ''svc_'' (wr_service_instance_id w) \<and>
     wr_process_generation w > 0 \<and> wr_stream_generation w > 0 \<and>
     wr_slot_start_utc_millis w \<ge> 0 \<and> wr_slot_start_utc_millis w smod 15000 = 0 \<and>
     wr_device_platform w \<in> {''macos_core_audio'', ''windows_wasapi'', ''linux_alsa'', ''linux_jack''} \<and>
     sql_text_check 256 (wr_device_opaque_id w) \<and>
     in_range 8000 384000 (wr_sample_rate_hz w) \<and> in_range 1 32 (wr_channels w) \<and>
     wr_sample_format w \<in> {''signed_8'', ''signed_16'', ''signed_24'', ''signed_32'', ''signed_64'',
       ''unsigned_8'', ''unsigned_16'', ''unsigned_24'', ''unsigned_32'', ''unsigned_64'', ''float_32'', ''float_64''} \<and>
     wr_selected_channel w \<ge> 0 \<and> wr_selected_channel w < wr_channels w \<and>
     wr_capture_position_frames w \<ge> 0 \<and> wr_capture_utc_millis w \<ge> 0 \<and>
     wr_capture_monotonic_millis w \<ge> 0 \<and> wr_recorded_utc_millis w \<ge> 0"

definition valued_faults :: "string set" where
  "valued_faults = {''utc_jump'', ''stale_mapping'', ''sampling_delayed'', ''sample_gap'', ''window_misaligned''}"

definition plain_faults :: "string set" where
  "plain_faults = {''process_generation_changed'', ''timeline_regressed'', ''arithmetic_overflow''}"

definition clock_checks :: "durable_clock \<Rightarrow> bool" where
  "clock_checks c \<longleftrightarrow>
     clk_state c \<in> {''healthy'', ''unhealthy''} \<and>
     (case clk_fault_kind c of None \<Rightarrow> True | Some k \<Rightarrow> k \<in> valued_faults \<union> plain_faults) \<and>
     in_range 0 10 (clk_recovery_progress c) \<and> in_range 0 10 (clk_recovery_required c) \<and>
     in_range 0 86400000 (clk_mapping_age_millis c) \<and>
     (clk_state c = ''healthy'' \<and> clk_fault_kind c = None \<and> clk_fault_value c = None \<and>
        clk_recovery_progress c = 0 \<and> clk_recovery_required c = 0 \<or>
      clk_state c = ''unhealthy'' \<and> clk_fault_kind c \<noteq> None \<and>
        in_range 2 10 (clk_recovery_required c) \<and> clk_recovery_progress c < clk_recovery_required c) \<and>
     (case clk_fault_kind c of
        None \<Rightarrow> clk_fault_value c = None
      | Some k \<Rightarrow> k \<in> valued_faults \<and> clk_fault_value c \<noteq> None \<or> k \<in> plain_faults \<and> clk_fault_value c = None)"

definition diagnostics_checks :: "diagnostics_row \<Rightarrow> bool" where
  "diagnostics_checks d \<longleftrightarrow>
     in_range 0 60000 (dr_audio_latency_millis d) \<and>
     in_range (- 100000) 100000 (dr_audio_drift_parts_per_million d) \<and>
     dr_audio_overflow_count d \<ge> 0 \<and> dr_audio_clipped_sample_count d \<ge> 0 \<and>
     in_range 0 60000 (dr_audio_max_callback_delay_millis d) \<and>
     in_range 0 4294967295 (dr_timeline_max_jitter_millis d) \<and>
     in_range (- 100000) 100000 (dr_timeline_drift_parts_per_million d) \<and>
     dr_timeline_incomplete_slot_count d \<ge> 0 \<and> dr_timeline_late_batch_count d \<ge> 0 \<and>
     clock_checks (dr_clock d)"

definition message_checks :: "message_columns \<Rightarrow> bool" where
  "message_checks m \<longleftrightarrow>
     sql_text_check 64 (mc_canonical_text m) \<and>
     (case mc_detail m of None \<Rightarrow> True | Some d \<Rightarrow> sql_text_check 128 d) \<and>
     (case mc_message_class m of None \<Rightarrow> True
      | Some c \<Rightarrow> c \<in> {''general_call'', ''directed_grid'', ''signal_report'', ''roger_signal_report'',
                      ''roger'', ''ending_73'', ''ending_rr73''}) \<and>
     (case mc_sender m of None \<Rightarrow> True | Some s \<Rightarrow> 1 \<le> sql_length s \<and> sql_length s \<le> 32) \<and>
     (case mc_recipient m of None \<Rightarrow> True | Some s \<Rightarrow> 1 \<le> sql_length s \<and> sql_length s \<le> 32) \<and>
     (mc_outcome_kind m = ''resolved'' \<and> mc_detail m = None \<and> mc_message_class m \<noteq> None \<and> mc_sender m \<noteq> None \<or>
      mc_outcome_kind m \<in> {''unresolved_hash'', ''unsupported'', ''ambiguous''} \<and> mc_detail m \<noteq> None \<and>
        mc_message_class m = None \<and> mc_sender m = None \<and> mc_recipient m = None \<or>
      mc_outcome_kind m = ''free_text'' \<and> mc_detail m = None \<and>
        mc_message_class m = None \<and> mc_sender m = None \<and> mc_recipient m = None) \<and>
     (case mc_message_class m of None \<Rightarrow> True
      | Some c \<Rightarrow> (c = ''general_call'') = (mc_recipient m = None))"

definition decode_checks :: "decode_row \<Rightarrow> bool" where
  "decode_checks r \<longleftrightarrow>
     in_range 0 127 (de_decode_index r) \<and> in_range (- 60000) 60000 (de_start_offset_millis r) \<and>
     in_range 0 6000 (de_audio_frequency_hz r) \<and> in_range (- 100) 100 (de_signal_to_noise_db r) \<and>
     message_checks (de_message r)"

section \<open>Receive windows\<close>

type_synonym window_key = "string \<times> int \<times> int \<times> int \<times> string \<times> string \<times> int \<times> int \<times> string \<times> int"

definition window_key :: "window_row \<Rightarrow> window_key" where
  "window_key w =
     (wr_service_instance_id w, wr_process_generation w, wr_stream_generation w, wr_slot_start_utc_millis w,
      wr_device_platform w, wr_device_opaque_id w, wr_sample_rate_hz w, wr_channels w, wr_sample_format w,
      wr_selected_channel w)"

definition context_key :: "receive_window_context \<Rightarrow> window_key" where
  "context_key c =
     (service_instance_id_str (rc_service_instance_id c), process_generation_get (rc_process_generation c),
      stream_generation_get (rc_stream_generation c), start_utc_unix_millis (rc_slot c),
      platform_to_str (identity_platform (rc_device_identity c)), opaque_id (rc_device_identity c),
      cfg_sample_rate_hz (rc_configuration c), cfg_channels (rc_configuration c),
      sample_format_to_str (cfg_sample_format (rc_configuration c)), cfg_selected_channel (rc_configuration c))"

definition context_id :: "receive_window_context \<Rightarrow> string" where
  "context_id c = receive_window_id_str (rc_receive_window_id c)"

definition find_existing_sequence ::
  "database \<Rightarrow> receive_window_context \<Rightarrow> (storage_error, int option) result" where
  "find_existing_sequence db ctx =
     rbind (to_i64 (process_generation_get (rc_process_generation ctx))) (\<lambda>_.
     rbind (to_i64 (stream_generation_get (rc_stream_generation ctx))) (\<lambda>_.
       Ok (map_option wr_sequence
             (find (\<lambda>w. wr_receive_window_id w = context_id ctx \<or> window_key w = context_key ctx)
                (db_windows db)))))"

definition insert_window :: "database \<Rightarrow> receive_record \<Rightarrow> (storage_error, int \<times> database) result" where
  "insert_window db r =
     (let n = db_window_counter db + 1 in
      rbind (window_row_of n r) (\<lambda>w.
        if n > i64_max then Err (Database SequenceExhausted)
        else if \<not> window_checks w
                \<or> (\<exists>v \<in> set (db_windows db). wr_receive_window_id v = wr_receive_window_id w
                     \<or> window_key v = window_key w)
        then Err (Database ConstraintViolation)
        else Ok (n, db\<lparr>db_windows := db_windows db @ [w], db_window_counter := n\<rparr>)))"

definition insert_diagnostics :: "database \<Rightarrow> receive_record \<Rightarrow> (storage_error, database) result" where
  "insert_diagnostics db r =
     rbind (diagnostics_row_of r) (\<lambda>d.
       if \<not> diagnostics_checks d
          \<or> (\<exists>e \<in> set (db_diagnostics db). dr_receive_window_id e = dr_receive_window_id d)
          \<or> (\<forall>w \<in> set (db_windows db). wr_receive_window_id w \<noteq> dr_receive_window_id d)
       then Err (Database ConstraintViolation)
       else Ok (db\<lparr>db_diagnostics := db_diagnostics db @ [d]\<rparr>))"

definition insert_decode :: "database \<Rightarrow> string \<Rightarrow> nat \<Rightarrow> ft8_decode \<Rightarrow> (storage_error, database) result" where
  "insert_decode db wid index d =
     rbind (decode_row_of wid index d) (\<lambda>row.
       if \<not> decode_checks row
          \<or> (\<exists>e \<in> set (db_decodes db). de_receive_window_id e = wid \<and> de_decode_index e = de_decode_index row)
          \<or> (\<forall>w \<in> set (db_windows db). wr_receive_window_id w \<noteq> wid)
       then Err (Database ConstraintViolation)
       else Ok (db\<lparr>db_decodes := db_decodes db @ [row]\<rparr>))"

fun insert_decodes :: "database \<Rightarrow> string \<Rightarrow> nat \<Rightarrow> ft8_decode list \<Rightarrow> (storage_error, database) result" where
  "insert_decodes db wid index [] = Ok db"
| "insert_decodes db wid index (d # ds) =
     rbind (insert_decode db wid index d) (\<lambda>db'. insert_decodes db' wid (index + 1) ds)"

definition read_receive_by_sequence ::
  "database \<Rightarrow> int \<Rightarrow> (storage_error, sequenced_receive_record option) result" where
  "read_receive_by_sequence db sequence =
     (case find (\<lambda>w. wr_sequence w = sequence) (db_windows db) of
        None \<Rightarrow> Ok None
      | Some w \<Rightarrow>
          (case find (\<lambda>d. dr_receive_window_id d = wr_receive_window_id w) (db_diagnostics db) of
             None \<Rightarrow> Ok None
           | Some d \<Rightarrow>
               map_ok Some (reconstruct_receive w d
                 (sort_key de_decode_index
                    (filter (\<lambda>e. de_receive_window_id e = wr_receive_window_id w) (db_decodes db))))))"

datatype receive_insert_outcome = ReceiveInserted (outcome_sequence: int) | ReceiveExisting (outcome_sequence: int)

text \<open>The body both transactions share, up to the commit.\<close>

definition receive_in_transaction ::
  "database \<Rightarrow> receive_record \<Rightarrow> (storage_error, receive_insert_outcome \<times> database) result" where
  "receive_in_transaction db r =
     rbind (find_existing_sequence db (rr_context r)) (\<lambda>found.
       case found of
         Some sequence \<Rightarrow>
           rbind (read_receive_by_sequence db sequence) (\<lambda>read.
           rbind (ok_or (InvalidPersistedReceiveValue ''missing collided receive record'') read) (\<lambda>existing.
             if sr_record existing \<noteq> r then Err IdentityCollision
             else Ok (ReceiveExisting (sr_sequence existing), db)))
       | None \<Rightarrow>
           rbind (insert_window db r) (\<lambda>(n, db1).
           rbind (sequence_from_i64 n) (\<lambda>sequence.
           rbind (insert_diagnostics db1 r) (\<lambda>db2.
           rbind (insert_decodes db2 (context_id (rr_context r)) 0 (rr_decodes r)) (\<lambda>db3.
             Ok (ReceiveInserted sequence, db3))))))"

definition commit_or_rollback ::
  "database \<Rightarrow> (storage_error, 'a \<times> database) result \<Rightarrow> (storage_error, 'a) result \<times> database" where
  "commit_or_rollback db res = (case res of Inl e \<Rightarrow> (Err e, db) | Inr (a, db') \<Rightarrow> (Ok a, db'))"

definition record_receive ::
  "database \<Rightarrow> receive_record \<Rightarrow> (storage_error, receive_insert_outcome) result \<times> database" where
  "record_receive db r = commit_or_rollback db (receive_in_transaction db r)"

definition receive_record_by_id ::
  "database \<Rightarrow> receive_window_id \<Rightarrow> (storage_error, sequenced_receive_record option) result" where
  "receive_record_by_id db wid =
     (case find (\<lambda>w. wr_receive_window_id w = receive_window_id_str wid) (db_windows db) of
        None \<Rightarrow> Ok None
      | Some w \<Rightarrow>
          rbind (read_receive_by_sequence db (wr_sequence w)) (\<lambda>r.
            case r of
              None \<Rightarrow> Err (InvalidPersistedReceiveValue ''receive diagnostics are missing'')
            | Some x \<Rightarrow> Ok (Some x)))"

record receive_page =
  rp_records :: "sequenced_receive_record list"
  rp_earliest_sequence :: "int option"
  rp_latest_sequence :: "int option"
  rp_has_more :: bool

definition min_column :: "int list \<Rightarrow> int option" where
  "min_column xs = (if xs = [] then None else Some (Min (set xs)))"

definition max_column :: "int list \<Rightarrow> int option" where
  "max_column xs = (if xs = [] then None else Some (Max (set xs)))"

definition optional_sequence :: "int option \<Rightarrow> (storage_error, int option) result" where
  "optional_sequence v = (case v of None \<Rightarrow> Ok None | Some n \<Rightarrow> map_ok Some (sequence_from_i64 n))"

fun read_sequences :: "database \<Rightarrow> int list \<Rightarrow> (storage_error, sequenced_receive_record list) result" where
  "read_sequences db [] = Ok []"
| "read_sequences db (n # ns) =
     rbind (read_receive_by_sequence db n) (\<lambda>r.
     rbind (ok_or (InvalidPersistedReceiveValue ''receive sequence disappeared during query'') r) (\<lambda>x.
     rbind (read_sequences db ns) (\<lambda>xs. Ok (x # xs))))"

definition query_receive_page :: "database \<Rightarrow> int \<Rightarrow> nat \<Rightarrow> (storage_error, receive_page) result" where
  "query_receive_page db after_sequence limit =
     (if \<not> (1 \<le> limit \<and> limit \<le> MAX_RECEIVE_PAGE_SIZE) then Err InvalidPageLimit
      else let sequences = map wr_sequence (db_windows db) in
        rbind (optional_sequence (min_column sequences)) (\<lambda>earliest.
        rbind (optional_sequence (max_column sequences)) (\<lambda>latest.
        rbind (to_i64 after_sequence) (\<lambda>after.
        rbind (to_i64 (int (limit + 1))) (\<lambda>fetch_limit.
        rbind (read_sequences db (take (nat fetch_limit) (sort (filter (\<lambda>n. n > after) sequences)))) (\<lambda>records.
          Ok \<lparr>rp_records = take limit records, rp_earliest_sequence = earliest,
              rp_latest_sequence = latest, rp_has_more = length records > limit\<rparr>))))))"

definition prune_receive_before :: "database \<Rightarrow> int \<Rightarrow> (storage_error, nat) result \<times> database" where
  "prune_receive_before db first_retained =
     (case to_i64 first_retained of
        Inl e \<Rightarrow> (Err e, db)
      | Inr n \<Rightarrow>
          let gone = filter (\<lambda>w. wr_sequence w < n) (db_windows db);
              ids = set (map wr_receive_window_id gone)
          in (Ok (length gone),
              db\<lparr>db_windows := filter (\<lambda>w. \<not> wr_sequence w < n) (db_windows db),
                 db_diagnostics := filter (\<lambda>d. dr_receive_window_id d \<notin> ids) (db_diagnostics db),
                 db_decodes := filter (\<lambda>e. de_receive_window_id e \<notin> ids) (db_decodes db)\<rparr>))"

section \<open>Events\<close>

definition insert_event ::
  "(string \<Rightarrow> bool) \<Rightarrow> database \<Rightarrow> string \<Rightarrow> string \<Rightarrow> string \<Rightarrow> int \<Rightarrow> (storage_error, int \<times> database) result" where
  "insert_event json_valid db eid svc json occurred =
     (let n = db_event_counter db + 1 in
      if n > i64_max then Err (Database SequenceExhausted)
      else if \<not> json_valid json \<or> occurred < 0 \<or> (\<exists>e \<in> set (db_events db). er_event_id e = eid)
      then Err (Database ConstraintViolation)
      else Ok (n, db\<lparr>db_events := db_events db @
                      [\<lparr>er_sequence = n, er_event_id = eid, er_service_instance_id = svc,
                        er_event_json = json, er_occurred_utc_millis = occurred\<rparr>],
                    db_event_counter := n\<rparr>))"

definition append_event ::
  "(string \<Rightarrow> bool) \<Rightarrow> database \<Rightarrow> event_id \<Rightarrow> service_instance_id \<Rightarrow> string \<Rightarrow> int
   \<Rightarrow> (storage_error, int) result \<times> database" where
  "append_event json_valid db eid svc json occurred =
     commit_or_rollback db
       (rbind (insert_event json_valid db (event_id_str eid) (service_instance_id_str svc) json occurred)
          (\<lambda>(n, db'). rbind (sequence_from_i64 n) (\<lambda>sequence. Ok (sequence, db'))))"

record receive_event_commit =
  rec_receive :: receive_insert_outcome
  rec_event_sequence :: int

definition event_in_transaction ::
  "(string \<Rightarrow> bool) \<Rightarrow> database \<Rightarrow> receive_record \<Rightarrow> event_id \<Rightarrow> int \<Rightarrow> string
   \<Rightarrow> (storage_error, int \<times> database) result" where
  "event_in_transaction json_valid db r eid occurred json =
     (let svc = service_instance_id_str (rc_service_instance_id (rr_context r)) in
      case find (\<lambda>e. er_event_id e = event_id_str eid) (db_events db) of
        Some e \<Rightarrow>
          if er_service_instance_id e \<noteq> svc \<or> er_event_json e \<noteq> json \<or> er_occurred_utc_millis e \<noteq> occurred
          then Err IdentityCollision
          else rbind (sequence_from_i64 (er_sequence e)) (\<lambda>n. Ok (n, db))
      | None \<Rightarrow>
          rbind (insert_event json_valid db (event_id_str eid) svc json occurred) (\<lambda>(n, db').
          rbind (sequence_from_i64 n) (\<lambda>sequence. Ok (sequence, db'))))"

definition record_receive_with_event_builder ::
  "(string \<Rightarrow> bool) \<Rightarrow> database \<Rightarrow> receive_record \<Rightarrow> event_id \<Rightarrow> int \<Rightarrow> (int \<Rightarrow> (storage_error, string) result)
   \<Rightarrow> (storage_error, receive_event_commit) result \<times> database" where
  "record_receive_with_event_builder json_valid db r eid occurred build =
     commit_or_rollback db
       (rbind (receive_in_transaction db r) (\<lambda>(receive, db1).
        rbind (build (outcome_sequence receive)) (\<lambda>json.
        rbind (event_in_transaction json_valid db1 r eid occurred json) (\<lambda>(n, db2).
          Ok (\<lparr>rec_receive = receive, rec_event_sequence = n\<rparr>, db2)))))"

definition record_receive_with_event ::
  "(string \<Rightarrow> bool) \<Rightarrow> database \<Rightarrow> receive_record \<Rightarrow> event_id \<Rightarrow> string \<Rightarrow> int
   \<Rightarrow> (storage_error, receive_event_commit) result \<times> database" where
  "record_receive_with_event json_valid db r eid json occurred =
     record_receive_with_event_builder json_valid db r eid occurred (\<lambda>_. Ok json)"

record stored_event =
  se_sequence :: int
  se_event_id :: event_id
  se_service_instance_id :: service_instance_id
  se_event_json :: string
  se_occurred_utc_millis :: int

record replay_window =
  rw_events :: "stored_event list"
  rw_earliest_sequence :: "int option"
  rw_latest_sequence :: "int option"
  rw_has_more :: bool

fun read_events :: "event_row list \<Rightarrow> (storage_error, stored_event list) result" where
  "read_events [] = Ok []"
| "read_events (e # es) =
     rbind (sequence_from_i64 (er_sequence e)) (\<lambda>n.
     rbind (map_err InvalidIdentity (event_id_from_str (er_event_id e))) (\<lambda>eid.
     rbind (map_err InvalidIdentity (service_instance_id_from_str (er_service_instance_id e))) (\<lambda>svc.
     rbind (read_events es) (\<lambda>rest.
       Ok (\<lparr>se_sequence = n, se_event_id = eid, se_service_instance_id = svc,
            se_event_json = er_event_json e, se_occurred_utc_millis = er_occurred_utc_millis e\<rparr> # rest)))))"

definition usize_max :: nat where "usize_max = 18446744073709551615"

definition replay_events ::
  "database \<Rightarrow> service_instance_id \<Rightarrow> int \<Rightarrow> nat \<Rightarrow> (storage_error, replay_window) result" where
  "replay_events db svc after_sequence limit =
     (let own = filter (\<lambda>e. er_service_instance_id e = service_instance_id_str svc) (db_events db);
          sequences = map er_sequence own
      in rbind (optional_sequence (min_column sequences)) (\<lambda>earliest.
         rbind (optional_sequence (max_column sequences)) (\<lambda>latest.
         rbind (to_i64 after_sequence) (\<lambda>after.
         rbind (to_i64 (int (min (limit + 1) usize_max))) (\<lambda>fetch_limit.
         rbind (read_events (take (nat fetch_limit)
                  (sort_key er_sequence (filter (\<lambda>e. er_sequence e > after) own)))) (\<lambda>events.
           Ok \<lparr>rw_events = take limit events, rw_earliest_sequence = earliest,
               rw_latest_sequence = latest, rw_has_more = length events > limit\<rparr>))))))"

definition prune_events_before :: "database \<Rightarrow> int \<Rightarrow> (storage_error, nat) result \<times> database" where
  "prune_events_before db first_retained =
     (case to_i64 first_retained of
        Inl e \<Rightarrow> (Err e, db)
      | Inr n \<Rightarrow> (Ok (length (filter (\<lambda>e. er_sequence e < n) (db_events db))),
                   db\<lparr>db_events := filter (\<lambda>e. \<not> er_sequence e < n) (db_events db)\<rparr>))"

section \<open>Accepted commands\<close>

record accepted_command =
  ac_request_id :: request_id
  ac_command_id :: command_id
  ac_canonical_command :: string
  ac_original_result :: string
  ac_accepted_utc_millis :: int

datatype accept_outcome = AcceptInserted accepted_command | AcceptExisting accepted_command

definition command_row_of :: "accepted_command \<Rightarrow> command_row" where
  "command_row_of c =
     \<lparr>cr_request_id = request_id_str (ac_request_id c), cr_command_id = command_id_str (ac_command_id c),
      cr_canonical_command = ac_canonical_command c, cr_original_result = ac_original_result c,
      cr_accepted_utc_millis = ac_accepted_utc_millis c\<rparr>"

definition command_insertable :: "database \<Rightarrow> command_row \<Rightarrow> bool" where
  "command_insertable db row \<longleftrightarrow>
     cr_accepted_utc_millis row \<ge> 0 \<and>
     (\<forall>c \<in> set (db_commands db). cr_request_id c \<noteq> cr_request_id row \<and> cr_command_id c \<noteq> cr_command_id row)"

definition record_accepted_command :: "database \<Rightarrow> accepted_command \<Rightarrow> (storage_error, unit) result \<times> database" where
  "record_accepted_command db c =
     (if command_insertable db (command_row_of c)
      then (Ok (), db\<lparr>db_commands := db_commands db @ [command_row_of c]\<rparr>)
      else (Err (Database ConstraintViolation), db))"

definition read_accepted_command :: "database \<Rightarrow> request_id \<Rightarrow> (storage_error, accepted_command option) result" where
  "read_accepted_command db rid =
     (case find (\<lambda>c. cr_request_id c = request_id_str rid) (db_commands db) of
        None \<Rightarrow> Ok None
      | Some row \<Rightarrow>
          rbind (map_err InvalidIdentity (request_id_from_str (cr_request_id row))) (\<lambda>r.
          rbind (map_err InvalidIdentity (command_id_from_str (cr_command_id row))) (\<lambda>c.
            Ok (Some \<lparr>ac_request_id = r, ac_command_id = c, ac_canonical_command = cr_canonical_command row,
                      ac_original_result = cr_original_result row,
                      ac_accepted_utc_millis = cr_accepted_utc_millis row\<rparr>))))"

definition accept_or_existing :: "database \<Rightarrow> accepted_command \<Rightarrow> (storage_error, accept_outcome) result \<times> database" where
  "accept_or_existing db c =
     (if command_insertable db (command_row_of c)
      then (Ok (AcceptInserted c), db\<lparr>db_commands := db_commands db @ [command_row_of c]\<rparr>)
      else commit_or_rollback db
        (rbind (read_accepted_command db (ac_request_id c)) (\<lambda>r.
         rbind (ok_or IdentityCollision r) (\<lambda>existing. Ok (AcceptExisting existing, db)))))"

section \<open>The records a database holds\<close>

text \<open>
  The abstraction: the receive tables hold exactly the rows of a list of sequenced valid records,
  in the order of their sequences, with distinct identities.
\<close>

type_synonym stored = "int \<times> receive_record"

abbreviation stored_id :: "stored \<Rightarrow> string" where
  "stored_id x \<equiv> context_id (rr_context (snd x))"

abbreviation stored_key :: "stored \<Rightarrow> window_key" where
  "stored_key x \<equiv> context_key (rr_context (snd x))"

definition is_window_row :: "window_row \<Rightarrow> stored \<Rightarrow> bool" where
  "is_window_row w x \<longleftrightarrow> window_row_of (fst x) (snd x) = Inr w"

definition is_diagnostics_row :: "diagnostics_row \<Rightarrow> stored \<Rightarrow> bool" where
  "is_diagnostics_row d x \<longleftrightarrow> diagnostics_row_of (snd x) = Inr d"

definition are_decode_rows :: "decode_row list \<Rightarrow> stored \<Rightarrow> bool" where
  "are_decode_rows ds x \<longleftrightarrow> decode_rows (stored_id x) 0 (rr_decodes (snd x)) = Inr ds"

definition represents :: "database \<Rightarrow> stored list \<Rightarrow> bool" where
  "represents db rs \<longleftrightarrow>
     list_all2 is_window_row (db_windows db) rs \<and> list_all2 is_diagnostics_row (db_diagnostics db) rs \<and>
     (\<exists>dss. list_all2 are_decode_rows dss rs \<and> db_decodes db = concat dss) \<and>
     (\<forall>x \<in> set rs. valid_record (snd x) \<and> 1 \<le> fst x \<and> fst x \<le> db_window_counter db) \<and>
     sorted_wrt (<) (map fst rs) \<and> distinct (map stored_id rs) \<and> distinct (map stored_key rs) \<and>
     0 \<le> db_window_counter db \<and> db_window_counter db \<le> i64_max"

lemma window_row_fields:
  "is_window_row w x \<Longrightarrow> wr_sequence w = fst x \<and> wr_receive_window_id w = stored_id x \<and> window_key w = stored_key x"
  by (auto simp: is_window_row_def window_row_of_def Let_def context_id_def window_key_def context_key_def)

lemma diagnostics_row_id: "is_diagnostics_row d x \<Longrightarrow> dr_receive_window_id d = stored_id x"
  by (auto simp: is_diagnostics_row_def diagnostics_row_of_def Let_def context_id_def)

lemma decode_rows_ids:
  "decode_rows wid i ds = Inr rows \<Longrightarrow> row \<in> set rows \<Longrightarrow> de_receive_window_id row = wid \<and> int i \<le> de_decode_index row"
proof (induction ds arbitrary: i rows)
  case (Cons d ds)
  then show ?case by (fastforce simp: decode_row_of_def)
qed simp

lemma decode_rows_sorted:
  "decode_rows wid i ds = Inr rows \<Longrightarrow> sorted (map de_decode_index rows)"
proof (induction ds arbitrary: i rows)
  case (Cons d ds)
  then obtain row rest where rr: "decode_row_of wid i d = Inr row" "decode_rows wid (i + 1) ds = Inr rest" "rows = row # rest"
    by auto
  have "de_decode_index row = int i" using rr(1) by (auto simp: decode_row_of_def)
  then show ?case using Cons.IH [OF rr(2)] decode_rows_ids [OF rr(2)] rr(3) by fastforce
qed simp

lemma decode_rows_total:
  "i + length ds \<le> 128 \<Longrightarrow> \<exists>rows. decode_rows wid i ds = Inr rows"
  by (induction ds arbitrary: i) (auto simp: decode_row_of_def)

lemma decodes_of_window:
  assumes "list_all2 are_decode_rows dss rs" "x \<in> set rs" "distinct (map stored_id rs)"
  shows "are_decode_rows (filter (\<lambda>e. de_receive_window_id e = stored_id x) (concat dss)) x"
  using assms
proof (induction rule: list_all2_induct)
  case (Cons ds dss y rs)
  have ids: "\<And>row. row \<in> set ds \<Longrightarrow> de_receive_window_id row = stored_id y"
    using Cons.hyps(1) decode_rows_ids by (auto simp: are_decode_rows_def)
  have rest: "de_receive_window_id row \<in> set (map stored_id rs)" if xs: "xs \<in> set dss" and row: "row \<in> set xs" for xs row
  proof -
    obtain z where "z \<in> set rs" "are_decode_rows xs z" using list_all2_in_set1 [OF Cons.hyps(2) xs] by blast
    then show ?thesis using decode_rows_ids row by (auto simp: are_decode_rows_def)
  qed
  show ?case
  proof (cases "x = y")
    case True
    have "filter (\<lambda>e. de_receive_window_id e = stored_id x) ds = ds"
      using ids True by (simp add: filter_id_conv)
    moreover have "filter (\<lambda>e. de_receive_window_id e = stored_id x) (concat dss) = []"
      by (rule filter_concat_other) (use rest Cons.prems(2) True in fastforce)
    ultimately show ?thesis using Cons.hyps(1) True by simp
  next
    case False
    then have x: "x \<in> set rs" using Cons.prems(1) by simp
    then have "stored_id x \<in> set (map stored_id rs)" by simp
    then have "stored_id x \<noteq> stored_id y" using Cons.prems(2) unfolding list.map distinct.simps(2) by metis
    then have "filter (\<lambda>e. de_receive_window_id e = stored_id x) ds = []"
      using ids by (auto simp: filter_empty_conv)
    then show ?thesis using Cons.IH [OF x] Cons.prems(2) by simp
  qed
qed simp

lemma distinct_map_inj: "distinct (map f xs) \<Longrightarrow> x \<in> set xs \<Longrightarrow> y \<in> set xs \<Longrightarrow> f x = f y \<Longrightarrow> x = y"
  by (auto simp: distinct_map inj_on_def)

lemma represents_fst_distinct: "represents db rs \<Longrightarrow> distinct (map fst rs)"
  by (auto simp: represents_def strict_sorted_iff)

lemma find_row:
  assumes "list_all2 R rows rs" "x \<in> set rs" "\<And>row y. R row y \<Longrightarrow> P row \<longleftrightarrow> f y = f x" "distinct (map f rs)"
  shows "\<exists>row. find P rows = Some row \<and> R row x"
proof -
  have "rel_option R (find P rows) (find (\<lambda>y. f y = f x) rs)" using assms(1,3) by (rule find_rel)
  moreover have "find (\<lambda>y. f y = f x) rs = Some x"
    by (rule find_unique [OF assms(2)]) (simp_all add: distinct_map_inj [OF assms(4) _ assms(2)])
  ultimately show ?thesis by (cases "find P rows") auto
qed

lemma read_stored:
  assumes rep: "represents db rs" and x: "x \<in> set rs"
  shows "read_receive_by_sequence db (fst x) = Ok (Some \<lparr>sr_sequence = fst x, sr_record = snd x\<rparr>)"
proof -
  obtain dss where r: "list_all2 is_window_row (db_windows db) rs" "list_all2 is_diagnostics_row (db_diagnostics db) rs"
      "list_all2 are_decode_rows dss rs" "db_decodes db = concat dss" "distinct (map stored_id rs)"
    using rep unfolding represents_def by blast
  have "\<exists>w. find (\<lambda>w. wr_sequence w = fst x) (db_windows db) = Some w \<and> is_window_row w x"
    by (rule find_row [OF r(1) x _ represents_fst_distinct [OF rep]]) (simp add: window_row_fields)
  then obtain w where w: "find (\<lambda>w. wr_sequence w = fst x) (db_windows db) = Some w" "is_window_row w x" by blast
  have "\<exists>d. find (\<lambda>d. dr_receive_window_id d = wr_receive_window_id w) (db_diagnostics db) = Some d \<and>
      is_diagnostics_row d x"
    by (rule find_row [OF r(2) x _ r(5)]) (simp add: diagnostics_row_id window_row_fields [OF w(2)])
  then obtain d where d: "find (\<lambda>d. dr_receive_window_id d = wr_receive_window_id w) (db_diagnostics db) = Some d"
      "is_diagnostics_row d x" by blast
  let ?rows = "filter (\<lambda>e. de_receive_window_id e = wr_receive_window_id w) (db_decodes db)"
  have rows: "decode_rows (stored_id x) 0 (rr_decodes (snd x)) = Inr ?rows"
    using decodes_of_window [OF r(3) x r(5)] r(4) window_row_fields [OF w(2)] by (simp add: are_decode_rows_def)
  have "sort_key de_decode_index ?rows = ?rows"
    using decode_rows_sorted [OF rows] by (simp add: sort_key_id_if_sorted)
  moreover have "valid_record (snd x)" "is_u64 (fst x)"
    using rep x by (auto simp: represents_def in_range_def)
  ultimately show ?thesis
    using w d rows record_round_trip [of "snd x" "fst x" w d "stored_id x" ?rows]
    by (simp add: read_receive_by_sequence_def is_window_row_def is_diagnostics_row_def)
qed

end
