(* ===== verification/SP_Store_Record.thy ===== *)
theory SP_Store_Record
  imports SP_Store
begin

text \<open>
  Recording receive windows (\<open>record_receive\<close>, \<open>record_receive_with_event_builder\<close> of
  \<open>crates/storage/src/receive.rs\<close>) refines appending to a list of sequenced records: every valid
  record satisfies the constraints of the schema, what is stored is what is read back, and a
  retry is recognised by its identity.
\<close>

section \<open>Valid records satisfy the schema\<close>

lemma ascii_start: "is_ascii c \<Longrightarrow> utf8_start c"
  by (simp add: is_ascii_def utf8_start_def)

lemma sql_length_ascii: "list_all is_ascii s \<Longrightarrow> sql_length s = length s"
  unfolding sql_length_def by (induction s) (auto simp: ascii_start)

lemma sql_length_le: "sql_length s \<le> length s"
  by (simp add: sql_length_def)

lemma alnum_ascii: "is_ascii_alphanumeric c \<Longrightarrow> is_ascii c" "payload_byte_ok c \<Longrightarrow> is_ascii c"
  by (auto simp: is_ascii_alphanumeric_def is_ascii_alphabetic_def is_ascii_lowercase_def is_ascii_uppercase_def
      is_ascii_digit_def is_ascii_def payload_byte_ok_def)

lemma valid_id_sql:
  assumes "valid_id p v" "length p = 4" "list_all is_ascii p"
  shows "sql_id_check p v"
proof -
  obtain q where q: "v = p @ q" "8 \<le> length q" "length q \<le> 64" "list_all payload_byte_ok q"
    using assms(1) by (auto simp: valid_id_def)
  have "list_all is_ascii v" using q assms(3) alnum_ascii(2) by (auto simp: list_all_iff)
  then show ?thesis using q assms(2) by (simp add: sql_id_check_def sql_length_ascii)
qed

lemma valid_text_sql: "valid_text n s \<Longrightarrow> sql_text_check n s"
proof -
  assume v: "valid_text n s"
  then have "list_all is_ascii s" by (auto simp: valid_text_def list_all_iff)
  moreover have "CHR 0x00 \<notin> set s" using v by (force simp: valid_text_def is_ascii_control_def)
  ultimately show ?thesis using v
    by (auto simp: sql_text_check_def sql_length_ascii valid_text_def Suc_le_eq)
qed

lemma no_control_no_nul: "\<not> has_control s \<Longrightarrow> CHR 0x00 \<notin> set s"
  by (induction s rule: has_control.induct) (auto simp: is_ascii_control_def)

lemma callsign_sql:
  assumes "full_callsign_from_str v = Inr c" shows "1 \<le> sql_length v" "sql_length v \<le> 32"
proof -
  have "validate_shape v True = Inr ()" using assms by (auto simp: full_callsign_from_str_def split: sum.splits)
  then have v: "1 \<le> length v" "length v \<le> 32" "list_all (\<lambda>b. is_ascii_alphanumeric b \<or> b = CHR ''/'') v"
    by (auto simp: validate_shape_def split: if_splits)
  have "is_ascii (CHR ''/'')" by (simp add: is_ascii_def)
  then have "list_all is_ascii v" using v(3) alnum_ascii(1) by (auto simp: list_all_iff)
  then show "1 \<le> sql_length v" "sql_length v \<le> 32" using v by (simp_all add: sql_length_ascii)
qed

lemma window_row_checks:
  assumes "valid_record r" "window_row_of n r = Inr w" shows "window_checks w"
proof -
  note v = assms(1) [unfolded valid_record_def, THEN conjunct1, unfolded valid_context_def in_range_def]
  let ?c = "rr_context r"
  have pf: "platform_to_str p \<in> {''macos_core_audio'', ''windows_wasapi'', ''linux_alsa'', ''linux_jack''}" for p
    by (cases p) simp_all
  have sf: "sample_format_to_str f \<in> {''signed_8'', ''signed_16'', ''signed_24'', ''signed_32'', ''signed_64'',
       ''unsigned_8'', ''unsigned_16'', ''unsigned_24'', ''unsigned_32'', ''unsigned_64'', ''float_32'', ''float_64''}" for f
    by (cases f) simp_all
  have ids: "sql_id_check ''rxw_'' (receive_window_id_str (rc_receive_window_id ?c))"
    "sql_id_check ''svc_'' (service_instance_id_str (rc_service_instance_id ?c))"
    by (rule valid_id_sql; use v in \<open>simp add: is_ascii_def\<close>)+
  let ?oid = "opaque_id (rc_device_identity ?c)"
  have dev: "length ?oid \<le> 256" "\<not> has_control ?oid"
    using v by (auto simp: input_device_identity_new_def validate_bounded_text_def audio_bounds split: if_splits)
  have "filter utf8_start ?oid \<noteq> []" using v by (auto simp: filter_empty_conv list_ex_iff)
  then have "1 \<le> sql_length ?oid" by (simp add: sql_length_def Suc_le_eq)
  then have tc: "sql_text_check 256 ?oid"
    using dev no_control_no_nul sql_length_le [of ?oid] by (simp add: sql_text_check_def)
  have slot: "0 \<le> start_utc_unix_millis (rc_slot ?c)" "start_utc_unix_millis (rc_slot ?c) smod 15000 = 0"
    using v by (auto simp: ft8_receive_slot_new_def audio_bounds split: if_splits)
  have w: "wr_receive_window_id w = receive_window_id_str (rc_receive_window_id ?c)"
    "wr_service_instance_id w = service_instance_id_str (rc_service_instance_id ?c)"
    "wr_process_generation w = process_generation_get (rc_process_generation ?c)"
    "wr_stream_generation w = stream_generation_get (rc_stream_generation ?c)"
    "wr_slot_start_utc_millis w = start_utc_unix_millis (rc_slot ?c)"
    "wr_device_platform w = platform_to_str (identity_platform (rc_device_identity ?c))" "wr_device_opaque_id w = ?oid"
    "wr_sample_rate_hz w = cfg_sample_rate_hz (rc_configuration ?c)" "wr_channels w = cfg_channels (rc_configuration ?c)"
    "wr_sample_format w = sample_format_to_str (cfg_sample_format (rc_configuration ?c))"
    "wr_selected_channel w = cfg_selected_channel (rc_configuration ?c)"
    "wr_capture_position_frames w = ev_position (rc_capture_mapping ?c)"
    "wr_capture_utc_millis w = ev_utc_unix_millis (rc_capture_mapping ?c)"
    "wr_capture_monotonic_millis w = ev_monotonic_millis (rc_capture_mapping ?c)"
    "wr_recorded_utc_millis w = rr_recorded_utc_millis r"
    using assms(2) by (auto simp: window_row_of_def Let_def)
  have rec: "0 \<le> rr_recorded_utc_millis r" using assms(1) by (simp add: valid_record_def)
  show ?thesis
    unfolding window_checks_def w
    using ids pf sf tc slot v rec by (simp add: valid_configuration_def in_range_def del: insert_iff)
qed

lemma fault_columns_kind:
  assumes "fault_columns f = Inr (k, v)"
  shows "k \<in> valued_faults \<and> v \<noteq> None \<or> k \<in> plain_faults \<and> v = None"
proof -
  have "rbind (fault_columns f) (\<lambda>(k, v). if k \<in> valued_faults \<and> v \<noteq> None \<or> k \<in> plain_faults \<and> v = None then Ok () else Err InvalidSequence)
      = rbind (fault_columns f) (\<lambda>_. Ok ())"
    by (cases f) (simp_all add: valued_faults_def plain_faults_def to_i64_def checked_def)
  then show ?thesis unfolding assms by (simp split: if_splits)
qed

lemma clock_row_checks:
  assumes "durable_clock_columns c = Inr cols" "valid_clock_health c"
  shows "clock_checks cols"
proof (cases c)
  case (StoredHealthy age)
  then show ?thesis using assms by (auto simp: durable_clock_columns_def clock_checks_def in_range_def)
next
  case (StoredUnhealthy f p n age)
  then obtain k w where kw: "fault_columns f = Inr (k, w)"
      "cols = \<lparr>clk_state = ''unhealthy'', clk_fault_kind = Some k, clk_fault_value = w,
        clk_recovery_progress = p, clk_recovery_required = n, clk_mapping_age_millis = age\<rparr>"
    using assms(1) by (auto simp: durable_clock_columns_def)
  then show ?thesis using fault_columns_kind [OF kw(1)] StoredUnhealthy assms(2)
    by (auto simp: clock_checks_def in_range_def)
qed

lemma diagnostics_row_checks:
  assumes "valid_record r" "diagnostics_row_of r = Inr d" shows "diagnostics_checks d"
proof -
  have v: "valid_diagnostics (rr_diagnostics r)" using assms(1) by (simp add: valid_record_def)
  have "clock_checks (dr_clock d)"
    using assms(2) clock_row_checks v by (auto simp: diagnostics_row_of_def Let_def valid_diagnostics_def)
  then show ?thesis
    using assms(2) v by (auto simp: diagnostics_row_of_def Let_def diagnostics_checks_def valid_diagnostics_def
        valid_audio_health_def in_range_def)
qed

lemma message_class_name:
  "message_class_to_str c \<in> {''general_call'', ''directed_grid'', ''signal_report'', ''roger_signal_report'',
      ''roger'', ''ending_73'', ''ending_rr73''}"
  "message_class_to_str c = ''general_call'' \<longleftrightarrow> c = GeneralCall"
  by (cases c; simp)+

lemma message_row_checks:
  assumes "valid_message m" "callsigns_parsed m"
  shows "message_checks (durable_message_columns m)"
proof (cases m)
  case (Resolved x)
  have t: "sql_text_check 64 (rm_canonical_text x)" and c: "requires_recipient (rm_class x) = (rm_recipient x \<noteq> None)"
    using assms Resolved valid_text_sql by auto
  have s: "1 \<le> sql_length (original (rm_sender x))" "sql_length (original (rm_sender x)) \<le> 32"
    using assms(2) Resolved callsign_sql by auto
  have r: "1 \<le> sql_length (original y) \<and> sql_length (original y) \<le> 32" if "rm_recipient x = Some y" for y
    using assms(2) Resolved that callsign_sql by auto
  show ?thesis
    unfolding message_checks_def Resolved durable_message_columns.simps
    using t c s r message_class_name [of "rm_class x"]
    by (cases "rm_recipient x") (simp_all add: requires_recipient_def del: insert_iff)
qed (use assms valid_text_sql in \<open>auto simp: message_checks_def\<close>)

lemma decode_row_checks:
  assumes "valid_decode d" "decode_row_of wid i d = Inr row" "i < 128"
  shows "decode_checks row \<and> de_receive_window_id row = wid \<and> de_decode_index row = int i"
  using assms message_row_checks [of "dec_message d"]
  by (auto simp: decode_row_of_def decode_checks_def valid_decode_def in_range_def)

section \<open>Recording refines a list of records\<close>

fun fault_fits :: "stored_clock_health \<Rightarrow> bool" where
  "fault_fits (StoredUnhealthy (StoredStaleMapping a) p n age) \<longleftrightarrow> a \<le> i64_max"
| "fault_fits (StoredUnhealthy (StoredSamplingDelayed a) p n age) \<longleftrightarrow> a \<le> i64_max"
| "fault_fits (StoredUnhealthy (StoredSampleGap a) p n age) \<longleftrightarrow> a \<le> i64_max"
| "fault_fits _ \<longleftrightarrow> True"

text \<open>The 64-bit unsigned values of a record that SQL integers must be able to hold.\<close>

definition storable :: "receive_record \<Rightarrow> bool" where
  "storable r \<longleftrightarrow>
     (let c = rr_context r; a = rd_audio (rr_diagnostics r); t = rd_timeline (rr_diagnostics r) in
      process_generation_get (rc_process_generation c) \<le> i64_max \<and>
      stream_generation_get (rc_stream_generation c) \<le> i64_max \<and>
      ev_position (rc_capture_mapping c) \<le> i64_max \<and> ev_monotonic_millis (rc_capture_mapping c) \<le> i64_max \<and>
      ih_overflow_count a \<le> i64_max \<and> ih_clipped_sample_count a \<le> i64_max \<and>
      th_incomplete_slot_count t \<le> i64_max \<and> th_late_batch_count t \<le> i64_max \<and>
      fault_fits (rd_clock (rr_diagnostics r)))"

lemma fault_fits_columns:
  assumes "valid_clock_health c"
  shows "(\<exists>cols. durable_clock_columns c = Inr cols \<and> clk_mapping_age_millis cols \<in> {0..86400000}) \<longleftrightarrow> fault_fits c"
proof (cases c)
  case (StoredHealthy age)
  then show ?thesis using assms by (auto simp: durable_clock_columns_def storage_bounds in_range_def)
next
  case (StoredUnhealthy f p n age)
  have "(\<exists>k v. fault_columns f = Inr (k, v)) \<longleftrightarrow> fault_fits c"
    using assms StoredUnhealthy by (cases f) (auto simp: in_range_def)
  then show ?thesis using assms StoredUnhealthy by (auto simp: durable_clock_columns_def storage_bounds in_range_def)
qed

lemma window_row_total:
  assumes "valid_record r"
  shows "(\<exists>w. window_row_of n r = Inr w) \<longleftrightarrow>
    process_generation_get (rc_process_generation (rr_context r)) \<le> i64_max \<and>
    stream_generation_get (rc_stream_generation (rr_context r)) \<le> i64_max \<and>
    ev_position (rc_capture_mapping (rr_context r)) \<le> i64_max \<and>
    ev_monotonic_millis (rc_capture_mapping (rr_context r)) \<le> i64_max"
  using assms by (auto simp: window_row_of_def Let_def valid_record_def valid_context_def in_range_def)

lemma diagnostics_row_total:
  assumes "valid_record r"
  shows "(\<exists>d. diagnostics_row_of r = Inr d) \<longleftrightarrow>
    ih_overflow_count (rd_audio (rr_diagnostics r)) \<le> i64_max \<and>
    ih_clipped_sample_count (rd_audio (rr_diagnostics r)) \<le> i64_max \<and>
    th_incomplete_slot_count (rd_timeline (rr_diagnostics r)) \<le> i64_max \<and>
    th_late_batch_count (rd_timeline (rr_diagnostics r)) \<le> i64_max \<and> fault_fits (rd_clock (rr_diagnostics r))"
proof -
  have v: "valid_diagnostics (rr_diagnostics r)" using assms by (simp add: valid_record_def)
  then have c: "valid_clock_health (rd_clock (rr_diagnostics r))" by (simp add: valid_diagnostics_def)
  have age: "clk_mapping_age_millis cols \<in> {0..86400000}" if "durable_clock_columns (rd_clock (rr_diagnostics r)) = Inr cols" for cols
    using clock_round_trip(2) [OF that c] by (simp add: in_range_def)
  show ?thesis
    using fault_fits_columns [OF c] v age
    by (auto simp: diagnostics_row_of_def Let_def valid_diagnostics_def valid_audio_health_def in_range_def)
qed

lemma storable_rows:
  assumes "valid_record r"
  shows "storable r \<longleftrightarrow> (\<exists>w. window_row_of n r = Inr w) \<and> (\<exists>d. diagnostics_row_of r = Inr d)"
  unfolding window_row_total [OF assms] diagnostics_row_total [OF assms] storable_def Let_def by auto

lemma insert_decodes_ok:
  assumes "decode_rows wid i ds = Inr rows" "list_all valid_decode ds" "i + length ds \<le> 128"
    and "\<exists>w \<in> set (db_windows db). wr_receive_window_id w = wid"
    and "\<And>e. e \<in> set (db_decodes db) \<Longrightarrow> de_receive_window_id e = wid \<Longrightarrow> de_decode_index e < int i"
  shows "insert_decodes db wid i ds = Ok (db\<lparr>db_decodes := db_decodes db @ rows\<rparr>)"
  using assms
proof (induction ds arbitrary: i rows db)
  case (Cons d ds)
  obtain row rest where rr: "decode_row_of wid i d = Inr row" "decode_rows wid (i + 1) ds = Inr rest" "rows = row # rest"
    using Cons.prems(1) by auto
  have ok: "decode_checks row" "de_receive_window_id row = wid" "de_decode_index row = int i"
    using decode_row_checks [OF _ rr(1)] Cons.prems(2,3) by auto
  let ?db = "db\<lparr>db_decodes := db_decodes db @ [row]\<rparr>"
  have "insert_decode db wid i d = Ok ?db"
    using rr(1) ok Cons.prems(4,5) by (fastforce simp: insert_decode_def)
  moreover have "insert_decodes ?db wid (i + 1) ds = Ok (?db\<lparr>db_decodes := db_decodes ?db @ rest\<rparr>)"
  proof (rule Cons.IH [OF rr(2)])
    show "de_decode_index e < int (i + 1)" if "e \<in> set (db_decodes ?db)" "de_receive_window_id e = wid" for e
      using that Cons.prems(5) [of e] ok by auto
  qed (use Cons.prems in auto)
  ultimately show ?case using rr(3) by simp
qed simp

definition same_window :: "receive_record \<Rightarrow> stored \<Rightarrow> bool" where
  "same_window r x \<longleftrightarrow> stored_id x = context_id (rr_context r) \<or> stored_key x = context_key (rr_context r)"

lemma find_existing_stored:
  assumes "represents db rs" "storable r" "valid_record r"
  shows "find_existing_sequence db (rr_context r) = Ok (map_option fst (find (same_window r) rs))"
proof -
  have l: "list_all2 is_window_row (db_windows db) rs" using assms(1) by (simp add: represents_def)
  have "rel_option is_window_row
      (find (\<lambda>w. wr_receive_window_id w = context_id (rr_context r) \<or> window_key w = context_key (rr_context r)) (db_windows db))
      (find (same_window r) rs)"
    by (rule find_rel [OF l]) (simp add: window_row_fields same_window_def)
  then have "map_option wr_sequence
      (find (\<lambda>w. wr_receive_window_id w = context_id (rr_context r) \<or> window_key w = context_key (rr_context r)) (db_windows db))
      = map_option fst (find (same_window r) rs)"
    by (cases "find (same_window r) rs"; cases "find (\<lambda>w. wr_receive_window_id w = context_id (rr_context r) \<or>
        window_key w = context_key (rr_context r)) (db_windows db)") (auto simp: window_row_fields)
  then show ?thesis
    using assms(2,3)
    by (auto simp: find_existing_sequence_def storable_def Let_def valid_record_def valid_context_def in_range_def)
qed

lemma stored_windows:
  assumes "represents db rs"
  shows "w \<in> set (db_windows db) \<Longrightarrow> \<exists>x \<in> set rs. is_window_row w x"
    and "d \<in> set (db_diagnostics db) \<Longrightarrow> dr_receive_window_id d \<in> set (map stored_id rs)"
    and "e \<in> set (db_decodes db) \<Longrightarrow> de_receive_window_id e \<in> set (map stored_id rs)"
proof -
  obtain dss where r: "list_all2 is_window_row (db_windows db) rs" "list_all2 is_diagnostics_row (db_diagnostics db) rs"
      "list_all2 are_decode_rows dss rs" "db_decodes db = concat dss"
    using assms unfolding represents_def by blast
  show "w \<in> set (db_windows db) \<Longrightarrow> \<exists>x \<in> set rs. is_window_row w x" using list_all2_in_set1 [OF r(1)] by blast
  show "dr_receive_window_id d \<in> set (map stored_id rs)" if d: "d \<in> set (db_diagnostics db)"
  proof -
    obtain x where "x \<in> set rs" "is_diagnostics_row d x" using list_all2_in_set1 [OF r(2) d] by blast
    then show ?thesis using diagnostics_row_id [of d x] by simp
  qed
  show "de_receive_window_id e \<in> set (map stored_id rs)" if e: "e \<in> set (db_decodes db)"
  proof -
    obtain ds where ds: "ds \<in> set dss" "e \<in> set ds" using e r(4) by auto
    then obtain x where x: "x \<in> set rs" "are_decode_rows ds x" using list_all2_in_set1 [OF r(3)] by blast
    then have "de_receive_window_id e = stored_id x"
      using decode_rows_ids ds(2) unfolding are_decode_rows_def by blast
    then show ?thesis using x(1) by simp
  qed
qed

lemma read_by_id:
  assumes rep: "represents db rs" and x: "x \<in> set rs"
  shows "receive_record_by_id db (rc_receive_window_id (rr_context (snd x))) =
    Ok (Some \<lparr>sr_sequence = fst x, sr_record = snd x\<rparr>)"
proof -
  have l: "list_all2 is_window_row (db_windows db) rs" "distinct (map stored_id rs)"
    using rep by (simp_all add: represents_def)
  have "\<exists>w. find (\<lambda>w. wr_receive_window_id w = stored_id x) (db_windows db) = Some w \<and> is_window_row w x"
    by (rule find_row [OF l(1) x _ l(2)]) (simp add: window_row_fields)
  then obtain w where w: "find (\<lambda>w. wr_receive_window_id w = stored_id x) (db_windows db) = Some w" "is_window_row w x"
    by blast
  then show ?thesis
    using read_stored [OF rep x] window_row_fields [OF w(2)]
    by (simp add: receive_record_by_id_def context_id_def)
qed

lemma find_same_None: "find (same_window r) rs = None \<Longrightarrow>
    context_id (rr_context r) \<notin> set (map stored_id rs) \<and> context_key (rr_context r) \<notin> set (map stored_key rs)"
  unfolding find_None_iff same_window_def set_map image_iff by metis

lemma receive_inserted:
  assumes rep: "represents db rs" and v: "valid_record r" and st: "storable r"
    and new: "find (same_window r) rs = None" and room: "db_window_counter db < i64_max"
  shows "\<exists>db'. receive_in_transaction db r = Ok (ReceiveInserted (db_window_counter db + 1), db') \<and>
    represents db' (rs @ [(db_window_counter db + 1, r)]) \<and> db_window_counter db' = db_window_counter db + 1 \<and>
    db_events db' = db_events db \<and> db_event_counter db' = db_event_counter db \<and>
    db_commands db' = db_commands db"
proof -
  let ?n = "db_window_counter db + 1" and ?id = "context_id (rr_context r)"
  obtain w d where w: "window_row_of ?n r = Inr w" and d: "diagnostics_row_of r = Inr d"
    using st storable_rows [OF v] by blast
  have len: "length (rr_decodes r) \<le> 128" "list_all valid_decode (rr_decodes r)" using v by (simp_all add: valid_record_def)
  obtain rows where rows: "decode_rows ?id 0 (rr_decodes r) = Inr rows" using decode_rows_total [of 0] len(1) by auto
  have ws: "is_window_row w (?n, r)" "is_diagnostics_row d (?n, r)" "are_decode_rows rows (?n, r)"
    using w d rows by (simp_all add: is_window_row_def is_diagnostics_row_def are_decode_rows_def)
  have fw: "wr_receive_window_id w = ?id" "window_key w = context_key (rr_context r)" "dr_receive_window_id d = ?id"
    using window_row_fields [OF ws(1)] diagnostics_row_id [OF ws(2)] by simp_all
  have n: "0 \<le> db_window_counter db" using rep by (simp add: represents_def)
  note fresh = find_same_None [OF new]
  let ?db1 = "db\<lparr>db_windows := db_windows db @ [w], db_window_counter := ?n\<rparr>"
  let ?db2 = "?db1\<lparr>db_diagnostics := db_diagnostics ?db1 @ [d]\<rparr>"
  let ?db3 = "?db2\<lparr>db_decodes := db_decodes ?db2 @ rows\<rparr>"
  have "\<not> (wr_receive_window_id u = wr_receive_window_id w \<or> window_key u = window_key w)"
    if u: "u \<in> set (db_windows db)" for u
  proof -
    obtain x where "x \<in> set rs" "is_window_row u x" using stored_windows(1) [OF rep u] by blast
    then show ?thesis using window_row_fields [of u x] fresh unfolding fw set_map image_iff by metis
  qed
  then have "insert_window db r = Ok (?n, ?db1)"
    using w window_row_checks [OF v w] room by (auto simp: insert_window_def Let_def)
  moreover have "sequence_from_i64 ?n = Ok ?n" using n room by (simp add: sequence_from_i64_def)
  moreover have "insert_diagnostics ?db1 r = Ok ?db2"
  proof -
    have "dr_receive_window_id e \<noteq> dr_receive_window_id d" if "e \<in> set (db_diagnostics db)" for e
      using stored_windows(2) [OF rep that] fresh unfolding fw by metis
    then show ?thesis using d diagnostics_row_checks [OF v d] fw(1,3) by (simp add: insert_diagnostics_def)
  qed
  moreover have "insert_decodes ?db2 ?id 0 (rr_decodes r) = Ok ?db3"
  proof (rule insert_decodes_ok [OF rows len(2)])
    show "de_decode_index e < int 0" if "e \<in> set (db_decodes ?db2)" "de_receive_window_id e = ?id" for e
      using stored_windows(3) [OF rep, of e] that fresh by simp
  qed (use len fw in simp_all)
  ultimately have tx: "receive_in_transaction db r = Ok (ReceiveInserted ?n, ?db3)"
    using find_existing_stored [OF rep st v] new by (simp add: receive_in_transaction_def)
  obtain dss where dss: "list_all2 are_decode_rows dss rs" "db_decodes db = concat dss"
    using rep unfolding represents_def by blast
  have "represents ?db3 (rs @ [(?n, r)])"
    unfolding represents_def
  proof (intro conjI)
    show "list_all2 is_window_row (db_windows ?db3) (rs @ [(?n, r)])"
      "list_all2 is_diagnostics_row (db_diagnostics ?db3) (rs @ [(?n, r)])"
      using rep ws by (simp_all add: represents_def list_all2_appendI)
    show "\<exists>dss. list_all2 are_decode_rows dss (rs @ [(?n, r)]) \<and> db_decodes ?db3 = concat dss"
      using dss ws(3) by (intro exI [of _ "dss @ [rows]"]) (simp add: list_all2_appendI)
    show "\<forall>x \<in> set (rs @ [(?n, r)]). valid_record (snd x) \<and> 1 \<le> fst x \<and> fst x \<le> db_window_counter ?db3"
      using rep v n by (fastforce simp: represents_def)
    show "sorted_wrt (<) (map fst (rs @ [(?n, r)]))"
      using rep by (fastforce simp: represents_def sorted_wrt_append)
    show "distinct (map stored_id (rs @ [(?n, r)]))" "distinct (map stored_key (rs @ [(?n, r)]))"
      using rep fresh by (simp_all add: represents_def)
  qed (use n room in simp_all)
  then show ?thesis using tx by simp
qed

text \<open>
  C8: recording a window is idempotent insertion into an append-only list.  On a database that holds
  the records \<open>rs\<close>, recording a valid record either appends it under the next sequence, or finds
  the record already stored and returns its sequence, or reports a collision with a different
  record of the same identity; nothing else of the database changes, and reading the stored
  window back by its identity gives exactly the record.
\<close>

theorem record_receive_refines_list:
  assumes rep: "represents db rs" and v: "valid_record r" and st: "storable r"
    and room: "db_window_counter db < i64_max"
  shows "(case find (same_window r) rs of
      Some x \<Rightarrow> record_receive db r = (if snd x = r then Ok (ReceiveExisting (fst x)) else Err IdentityCollision, db)
    | None \<Rightarrow> \<exists>db'. record_receive db r = (Ok (ReceiveInserted (db_window_counter db + 1)), db') \<and>
        represents db' (rs @ [(db_window_counter db + 1, r)]) \<and> db_events db' = db_events db \<and>
        db_commands db' = db_commands db \<and>
        receive_record_by_id db' (rc_receive_window_id (rr_context r)) =
          Ok (Some \<lparr>sr_sequence = db_window_counter db + 1, sr_record = r\<rparr>))"
proof (cases "find (same_window r) rs")
  case (Some x)
  have "x \<in> set rs" using Some by (auto simp: find_Some_iff)
  then show ?thesis
    using Some find_existing_stored [OF rep st v] read_stored [OF rep]
    by (simp add: record_receive_def receive_in_transaction_def commit_or_rollback_def)
next
  case None
  obtain db' where tx: "receive_in_transaction db r = Ok (ReceiveInserted (db_window_counter db + 1), db')"
      and rep': "represents db' (rs @ [(db_window_counter db + 1, r)])"
      and same: "db_events db' = db_events db" "db_commands db' = db_commands db"
    using receive_inserted [OF rep v st None room] by blast
  have "(db_window_counter db + 1, r) \<in> set (rs @ [(db_window_counter db + 1, r)])" by simp
  from read_by_id [OF rep' this] show ?thesis
    using None tx rep' same by (simp add: record_receive_def commit_or_rollback_def)
qed


text \<open>An empty window of an idle input, as the daemon records it.\<close>

definition sample_record :: receive_record where
  "sample_record =
     \<lparr>rr_context =
        \<lparr>rc_receive_window_id = ReceiveWindowId ''rxw_00000001'', rc_service_instance_id = ServiceInstanceId ''svc_00000001'',
         rc_process_generation = ProcessGeneration 1, rc_stream_generation = StreamGeneration 1,
         rc_slot = Ft8ReceiveSlot 15000,
         rc_device_identity = \<lparr>identity_platform = LinuxAlsa, opaque_id = ''hw0''\<rparr>,
         rc_configuration = \<lparr>cfg_sample_rate_hz = 48000, cfg_channels = 1, cfg_sample_format = Float32, cfg_selected_channel = 0\<rparr>,
         rc_capture_mapping = \<lparr>ev_position = 0, ev_utc_unix_millis = 15000, ev_monotonic_millis = 10\<rparr>\<rparr>,
      rr_diagnostics =
        \<lparr>rd_audio = \<lparr>ih_latency_millis = 5, ih_drift_parts_per_million = 0, ih_overflow_count = 0,
           ih_clipped_sample_count = 0, ih_max_callback_delay_millis = 1\<rparr>,
         rd_timeline = \<lparr>th_max_jitter_millis = 1, th_drift_parts_per_million = 0, th_incomplete_slot_count = 0,
           th_late_batch_count = 0\<rparr>,
         rd_clock = StoredHealthy 100\<rparr>,
      rr_decodes = [], rr_recorded_utc_millis = 31000\<rparr>"

lemma sample_record_ok: "valid_record sample_record" "storable sample_record"
proof -
  have i: "valid_id ''rxw_'' ''rxw_00000001''" "valid_id ''svc_'' ''svc_00000001''"
    unfolding valid_id_def by (rule exI [of _ "''00000001''"], simp add: payload_byte_ok_def is_ascii_digit_def)+
  have d: "input_device_identity_new LinuxAlsa ''hw0'' = Ok \<lparr>identity_platform = LinuxAlsa, opaque_id = ''hw0''\<rparr>"
    by code_simp
  have s: "is_ok (ft8_receive_slot_new 15000)" by code_simp
  show "valid_record sample_record"
    using i d s
    by (simp add: valid_record_def sample_record_def valid_context_def valid_diagnostics_def valid_audio_health_def
        valid_configuration_def in_range_def utf8_start_def sort_deterministically_def)
  show "storable sample_record" by (simp add: storable_def sample_record_def)
qed

lemma empty_database_represents: "represents empty_database []"
  by (simp add: represents_def empty_database_def)

theorem record_receive_refines_list_witness:
  "\<exists>db'. record_receive empty_database sample_record = (Ok (ReceiveInserted 1), db') \<and>
     receive_record_by_id db' (ReceiveWindowId ''rxw_00000001'') =
       Ok (Some \<lparr>sr_sequence = 1, sr_record = sample_record\<rparr>)"
  using record_receive_refines_list [OF empty_database_represents sample_record_ok]
  by (auto simp: empty_database_def sample_record_def)

section \<open>Pages and retention\<close>

abbreviation sequenced :: "stored \<Rightarrow> sequenced_receive_record" where
  "sequenced x \<equiv> \<lparr>sr_sequence = fst x, sr_record = snd x\<rparr>"

lemma window_sequences:
  assumes "represents db rs" shows "map wr_sequence (db_windows db) = map fst rs"
proof -
  have "list_all2 is_window_row (db_windows db) rs" using assms by (simp add: represents_def)
  then show ?thesis by (induction rule: list_all2_induct) (simp_all add: window_row_fields)
qed

lemma read_stored_sequences:
  assumes "represents db rs" "set xs \<subseteq> set rs"
  shows "read_sequences db (map fst xs) = Ok (map sequenced xs)"
  using assms(2) by (induction xs) (simp_all add: read_stored [OF assms(1)])

lemma filter_fst: "filter (\<lambda>n. P n) (map fst xs) = map fst (filter (\<lambda>x. P (fst x)) xs)"
  by (simp add: filter_map comp_def)

lemma ends_of_sorted:
  assumes "sorted_wrt (<) (map f xs)" "xs \<noteq> []"
  shows "Min (set (map f xs)) = (f (hd xs) :: 'a :: linorder)" "Max (set (map f xs)) = f (last xs)"
proof -
  show "Min (set (map f xs)) = f (hd xs)"
    using assms by (cases xs) (auto intro!: Min_eqI simp: less_imp_le)
  show "Max (set (map f xs)) = f (last xs)"
    using assms by (cases xs rule: rev_cases) (auto simp: sorted_wrt_append less_imp_le intro!: Max_eqI)
qed

lemma sorted_column:
  assumes "sorted_wrt (<) (map f xs)" "\<And>x. x \<in> set xs \<Longrightarrow> 1 \<le> f x \<and> f x \<le> i64_max"
  shows "optional_sequence (min_column (map f xs)) = Ok (if xs = [] then None else Some (f (hd xs)))"
    and "optional_sequence (max_column (map f xs)) = Ok (if xs = [] then None else Some (f (last xs)))"
proof -
  have ok: "sequence_from_i64 (f x) = Ok (f x)" if "x \<in> set xs" for x
    using assms(2) [OF that] by (simp add: sequence_from_i64_def checked_def in_range_def)
  show "optional_sequence (min_column (map f xs)) = Ok (if xs = [] then None else Some (f (hd xs)))"
    "optional_sequence (max_column (map f xs)) = Ok (if xs = [] then None else Some (f (last xs)))"
    using ends_of_sorted [OF assms(1)] ok
    by (cases "xs = []"; simp add: optional_sequence_def min_column_def max_column_def)+
qed

text \<open>
  C25: a page of the receive history holds the stored records after the cursor, in sequence order,
  at most \<open>limit\<close> of them; \<open>has_more\<close> says exactly whether a record was left out; the page names
  the first and last retained sequence; a limit outside 1 to 100 is refused.
\<close>

theorem receive_page_exact:
  assumes rep: "represents db rs" and cursor: "0 \<le> n" "n \<le> i64_max"
  shows "query_receive_page db n limit =
    (if 1 \<le> limit \<and> limit \<le> 100
     then Ok \<lparr>rp_records = take limit (map sequenced (filter (\<lambda>x. fst x > n) rs)),
              rp_earliest_sequence = (if rs = [] then None else Some (fst (hd rs))),
              rp_latest_sequence = (if rs = [] then None else Some (fst (last rs))),
              rp_has_more = (limit < length (filter (\<lambda>x. fst x > n) rs))\<rparr>
     else Err InvalidPageLimit)"
proof (cases "1 \<le> limit \<and> limit \<le> 100")
  case True
  let ?xs = "filter (\<lambda>x. fst x > n) rs"
  have so: "sorted_wrt (<) (map fst rs)" and pos: "\<And>x. x \<in> set rs \<Longrightarrow> 1 \<le> fst x \<and> fst x \<le> i64_max"
    using rep by (force simp: represents_def)+
  have srt: "sort (filter (\<lambda>m. m > n) (map fst rs)) = map fst ?xs"
    using so unfolding filter_fst [symmetric] by (simp add: sorted_sort_id sorted_wrt_filter strict_sorted_iff)
  have rd: "read_sequences db (map fst (take (limit + 1) ?xs)) = Ok (map sequenced (take (limit + 1) ?xs))"
    by (rule read_stored_sequences [OF rep]) (use set_take_subset [of "limit + 1" ?xs] in auto)
  have a: "to_i64 n = Ok n" "to_i64 (int (limit + 1)) = Ok (int (limit + 1))"
    using cursor True by (simp_all add: to_i64_def checked_def in_range_def)
  have m: "nat (1 + int limit) = Suc limit" by simp
  show ?thesis
    using True srt rd a m sorted_column [OF so pos]
    by (simp add: query_receive_page_def storage_bounds window_sequences [OF rep] take_map)
qed (auto simp: query_receive_page_def storage_bounds)

lemma list_all2_filter:
  assumes "list_all2 R xs ys" "\<And>x y. R x y \<Longrightarrow> P x = Q y"
  shows "list_all2 R (filter P xs) (filter Q ys)"
  using assms(1) by (induction rule: list_all2_induct) (simp_all add: assms(2))

lemma decode_rows_filter:
  assumes "list_all2 are_decode_rows dss rs" "\<And>x. x \<in> set rs \<Longrightarrow> (stored_id x \<in> ids) = (\<not> Q x)"
  shows "\<exists>dss'. list_all2 are_decode_rows dss' (filter Q rs) \<and>
    filter (\<lambda>e. de_receive_window_id e \<notin> ids) (concat dss) = concat dss'"
  using assms
proof (induction rule: list_all2_induct)
  case (Cons ds dss x rs)
  then obtain dss' where d: "list_all2 are_decode_rows dss' (filter Q rs)"
      "filter (\<lambda>e. de_receive_window_id e \<notin> ids) (concat dss) = concat dss'"
    by (meson list.set_intros(2))
  have i: "de_receive_window_id e = stored_id x" if "e \<in> set ds" for e
    using Cons.hyps(1) decode_rows_ids that unfolding are_decode_rows_def by blast
  have q: "(stored_id x \<in> ids) = (\<not> Q x)" by (rule Cons.prems) simp
  show ?case
  proof (cases "Q x")
    case True
    then have "filter (\<lambda>e. de_receive_window_id e \<notin> ids) ds = ds" using i q by (simp add: filter_id_conv)
    then show ?thesis using d True Cons.hyps(1) by (intro exI [of _ "ds # dss'"]) simp
  next
    case False
    then have "filter (\<lambda>e. de_receive_window_id e \<notin> ids) ds = []" using i q by (simp add: filter_empty_conv)
    then show ?thesis using d False by (intro exI [of _ dss']) simp
  qed
qed simp

text \<open>
  C26: retention removes exactly the records before the first retained sequence, with their
  diagnostics and decodes, reports how many, and keeps the invariant; the counter stays, so no
  sequence is ever handed out twice.
\<close>

theorem prune_receive_refines_filter:
  assumes rep: "represents db rs" and n: "0 \<le> n" "n \<le> i64_max"
  shows "\<exists>db'. prune_receive_before db n = (Ok (length (filter (\<lambda>x. fst x < n) rs)), db') \<and>
    represents db' (filter (\<lambda>x. n \<le> fst x) rs) \<and> db_window_counter db' = db_window_counter db \<and>
    db_events db' = db_events db \<and> db_commands db' = db_commands db"
proof -
  obtain dss where r: "list_all2 is_window_row (db_windows db) rs" "list_all2 is_diagnostics_row (db_diagnostics db) rs"
      "list_all2 are_decode_rows dss rs" "db_decodes db = concat dss" "distinct (map stored_id rs)"
    using rep unfolding represents_def by blast
  let ?gone = "filter (\<lambda>w. wr_sequence w < n) (db_windows db)" and ?keep = "filter (\<lambda>x. n \<le> fst x) rs"
  let ?ids = "set (map wr_receive_window_id ?gone)"
  have g: "list_all2 is_window_row ?gone (filter (\<lambda>x. fst x < n) rs)"
    by (rule list_all2_filter [OF r(1)]) (simp add: window_row_fields)
  have "map wr_receive_window_id ?gone = map stored_id (filter (\<lambda>x. fst x < n) rs)"
    using g by (induction rule: list_all2_induct) (simp_all add: window_row_fields)
  then have gids: "?ids = stored_id ` set (filter (\<lambda>x. fst x < n) rs)" by (metis set_map)
  have ids: "(stored_id x \<in> ?ids) = (\<not> n \<le> fst x)" if "x \<in> set rs" for x
    using that inj_on_image_mem_iff [OF distinct_map [THEN iffD1, OF r(5), THEN conjunct2] that, of "set (filter (\<lambda>x. fst x < n) rs)"]
    unfolding gids by (simp add: not_le)
  let ?db = "snd (prune_receive_before db n)"
  have p: "prune_receive_before db n = (Ok (length ?gone), ?db)" "db_windows ?db = filter (\<lambda>w. \<not> wr_sequence w < n) (db_windows db)"
    "db_diagnostics ?db = filter (\<lambda>d. dr_receive_window_id d \<notin> ?ids) (db_diagnostics db)"
    "db_decodes ?db = filter (\<lambda>e. de_receive_window_id e \<notin> ?ids) (db_decodes db)"
    "db_window_counter ?db = db_window_counter db" "db_events ?db = db_events db" "db_commands ?db = db_commands db"
    using n by (simp_all add: prune_receive_before_def to_i64_def checked_def in_range_def Let_def)
  have "list_all2 is_window_row (db_windows ?db) ?keep"
    unfolding p(2) by (rule list_all2_filter [OF r(1)]) (simp add: window_row_fields not_less)
  moreover have "list_all2 is_diagnostics_row (db_diagnostics ?db) ?keep"
    unfolding p(3) using r(2) ids
    by (induction rule: list_all2_induct) (simp_all add: diagnostics_row_id)
  moreover have "\<exists>dss'. list_all2 are_decode_rows dss' ?keep \<and> db_decodes ?db = concat dss'"
    unfolding p(4) r(4) by (rule decode_rows_filter [OF r(3) ids])
  ultimately have "represents ?db ?keep"
    using rep unfolding represents_def p(5)
    by (simp add: filter_fst [symmetric] sorted_wrt_filter distinct_map_filter)
  then show ?thesis using p list_all2_lengthD [OF g] by (intro exI [of _ ?db]) simp
qed


lemma sample_database: "\<exists>db. represents db [(1, sample_record)]"
  using receive_inserted [OF empty_database_represents sample_record_ok] by (auto simp: empty_database_def)

theorem receive_page_exact_witness:
  "\<exists>db. query_receive_page db 0 1 =
    Ok \<lparr>rp_records = [\<lparr>sr_sequence = 1, sr_record = sample_record\<rparr>], rp_earliest_sequence = Some 1,
        rp_latest_sequence = Some 1, rp_has_more = False\<rparr>"
proof -
  obtain db where "represents db [(1, sample_record)]" using sample_database by blast
  from receive_page_exact [OF this, of 0 1] show ?thesis by (intro exI [of _ db]) simp
qed

theorem prune_receive_refines_filter_witness:
  "\<exists>db db'. represents db [(1, sample_record)] \<and> prune_receive_before db 2 = (Ok 1, db') \<and> represents db' []"
proof -
  obtain db where db: "represents db [(1, sample_record)]" using sample_database by blast
  from prune_receive_refines_filter [OF this, of 2] db show ?thesis by auto
qed

end
