(* ===== verification/SP_Store_Events.thy ===== *)
theory SP_Store_Events
  imports SP_Store_Record
begin

text \<open>
  The event log and the accepted commands of \<open>crates/storage/src/lib.rs\<close>, and the transaction of
  \<open>crates/storage/src/receive.rs\<close> that stores a window with its event.  The log is an append-only
  sequence with unique event identities; replay reads a generation of it in order; a committed
  window and its event are written together, once, however often the call is repeated.
\<close>

section \<open>The event log\<close>

definition valid_log :: "database \<Rightarrow> bool" where
  "valid_log db \<longleftrightarrow>
     sorted_wrt (<) (map er_sequence (db_events db)) \<and> distinct (map er_event_id (db_events db)) \<and>
     (\<forall>e \<in> set (db_events db). 1 \<le> er_sequence e \<and> er_sequence e \<le> db_event_counter db \<and>
        valid_id ''evt_'' (er_event_id e) \<and> valid_id ''svc_'' (er_service_instance_id e)) \<and>
     0 \<le> db_event_counter db \<and> db_event_counter db \<le> i64_max"

definition stored_event_of :: "event_row \<Rightarrow> stored_event" where
  "stored_event_of e =
     \<lparr>se_sequence = er_sequence e, se_event_id = EventId (er_event_id e),
      se_service_instance_id = ServiceInstanceId (er_service_instance_id e),
      se_event_json = er_event_json e, se_occurred_utc_millis = er_occurred_utc_millis e\<rparr>"

lemma read_valid_events:
  assumes "\<And>e. e \<in> set es \<Longrightarrow> 1 \<le> er_sequence e \<and> er_sequence e \<le> i64_max \<and>
    valid_id ''evt_'' (er_event_id e) \<and> valid_id ''svc_'' (er_service_instance_id e)"
  shows "read_events es = Ok (map stored_event_of es)"
  using assms
proof (induction es)
  case (Cons e es)
  have "1 \<le> er_sequence e" "er_sequence e \<le> i64_max" "valid_id ''evt_'' (er_event_id e)"
      "valid_id ''svc_'' (er_service_instance_id e)"
    using Cons.prems [of e] by simp_all
  then have "sequence_from_i64 (er_sequence e) = Ok (er_sequence e)"
      "event_id_from_str (er_event_id e) = Ok (EventId (er_event_id e))"
      "service_instance_id_from_str (er_service_instance_id e) = Ok (ServiceInstanceId (er_service_instance_id e))"
    by (simp_all add: sequence_from_i64_def checked_def in_range_def event_id_from_str_def
        service_instance_id_from_str_def id_from_str_Ok [THEN iffD2])
  then show ?case using Cons.IH Cons.prems by (simp add: stored_event_of_def)
qed simp

lemma insert_event_log:
  assumes log: "valid_log db" and ids: "valid_id ''evt_'' eid" "valid_id ''svc_'' svc"
    and ok: "insert_event json_valid db eid svc json t = Ok (n, db')"
  shows "valid_log db'" "n = db_event_counter db + 1" "sequence_from_i64 n = Ok n"
    "db_events db' = db_events db @ [\<lparr>er_sequence = n, er_event_id = eid, er_service_instance_id = svc,
       er_event_json = json, er_occurred_utc_millis = t\<rparr>]"
    "eid \<notin> er_event_id ` set (db_events db)"
    "db' = db\<lparr>db_events := db_events db', db_event_counter := n\<rparr>"
proof -
  let ?e = "\<lparr>er_sequence = n, er_event_id = eid, er_service_instance_id = svc, er_event_json = json, er_occurred_utc_millis = t\<rparr>"
  show n: "n = db_event_counter db + 1" and e: "db_events db' = db_events db @ [?e]"
    and f: "eid \<notin> er_event_id ` set (db_events db)"
    and d: "db' = db\<lparr>db_events := db_events db', db_event_counter := n\<rparr>"
    using ok by (auto simp: insert_event_def Let_def split: if_splits)
  have r: "0 \<le> db_event_counter db" "n \<le> i64_max" "db_event_counter db' = n"
    using log ok by (auto simp: valid_log_def insert_event_def Let_def split: if_splits)
  show "sequence_from_i64 n = Ok n" using r n by (simp add: sequence_from_i64_def checked_def in_range_def)
  have "\<forall>x \<in> set (db_events db). er_sequence x < n" using log n by (fastforce simp: valid_log_def)
  then show "valid_log db'"
    using log n r f ids unfolding valid_log_def e by (fastforce simp: sorted_wrt_append)
qed

text \<open>
  Replay gives a subscriber the events of its own generation after its cursor, in sequence
  order and at most \<open>limit\<close> of them; \<open>has_more\<close> says exactly whether one was left out, and the
  window names the first and last retained sequence of the generation.
\<close>

theorem replay_events_exact:
  assumes log: "valid_log db" and n: "0 \<le> n" "n \<le> i64_max" and limit: "int limit < i64_max"
    and own: "own = filter (\<lambda>e. er_service_instance_id e = service_instance_id_str svc) (db_events db)"
  shows "replay_events db svc n limit =
    Ok \<lparr>rw_events = take limit (map stored_event_of (filter (\<lambda>e. er_sequence e > n) own)),
        rw_earliest_sequence = (if own = [] then None else Some (er_sequence (hd own))),
        rw_latest_sequence = (if own = [] then None else Some (er_sequence (last own))),
        rw_has_more = (limit < length (filter (\<lambda>e. er_sequence e > n) own))\<rparr>"
proof -
  let ?xs = "filter (\<lambda>e. er_sequence e > n) own"
  have so: "sorted_wrt (<) (map er_sequence own)"
    using log unfolding own valid_log_def by (simp add: sorted_wrt_map sorted_wrt_filter)
  have pos: "1 \<le> er_sequence e \<and> er_sequence e \<le> i64_max" if "e \<in> set own" for e
    using log that by (fastforce simp: own valid_log_def)
  have "sorted (map er_sequence ?xs)"
    using so by (simp add: sorted_wrt_map sorted_wrt_filter strict_sorted_iff sorted_wrt_mono_rel [of _ "\<lambda>x y. er_sequence x < er_sequence y"])
  then have srt: "sort_key er_sequence ?xs = ?xs" by (simp add: sort_key_id_if_sorted)
  have rd: "read_events (take (Suc limit) ?xs) = Ok (map stored_event_of (take (Suc limit) ?xs))"
    by (rule read_valid_events) (use log pos in \<open>auto dest!: in_set_takeD simp: own valid_log_def\<close>)
  have m: "min (limit + 1) usize_max = Suc limit" "nat (1 + int limit) = Suc limit"
    using limit by (simp_all add: usize_max_def)
  have a: "to_i64 n = Ok n" "to_i64 (int (Suc limit)) = Ok (int (Suc limit))"
    using n limit by (simp_all add: to_i64_def checked_def in_range_def)
  show ?thesis
    using srt rd a m sorted_column [OF so pos]
    by (simp add: replay_events_def own [symmetric] take_map)
qed

definition sample_log :: database where
  "sample_log = empty_database\<lparr>
     db_events := [\<lparr>er_sequence = 1, er_event_id = ''evt_00000001'', er_service_instance_id = ''svc_00000001'',
                    er_event_json = ''{}'', er_occurred_utc_millis = 5\<rparr>,
                   \<lparr>er_sequence = 3, er_event_id = ''evt_00000003'', er_service_instance_id = ''svc_00000001'',
                    er_event_json = ''{}'', er_occurred_utc_millis = 9\<rparr>],
     db_event_counter := 3\<rparr>"

lemma sample_log_valid: "valid_log sample_log" "valid_log empty_database"
proof -
  have "valid_id ''evt_'' ''evt_00000001''" "valid_id ''evt_'' ''evt_00000003''" "valid_id ''svc_'' ''svc_00000001''"
    unfolding valid_id_def
    by (rule exI [of _ "''00000001''"], simp add: payload_byte_ok_def is_ascii_digit_def,
        rule exI [of _ "''00000003''"], simp add: payload_byte_ok_def is_ascii_digit_def,
        rule exI [of _ "''00000001''"], simp add: payload_byte_ok_def is_ascii_digit_def)
  then show "valid_log sample_log" by (simp add: valid_log_def sample_log_def)
  show "valid_log empty_database" by (simp add: valid_log_def empty_database_def)
qed

theorem replay_events_exact_witness:
  "\<exists>w. replay_events sample_log (ServiceInstanceId ''svc_00000001'') 0 1 = Ok w \<and> rw_has_more w \<and>
     map se_sequence (rw_events w) = [1] \<and> rw_latest_sequence w = Some 3"
  using replay_events_exact [OF sample_log_valid(1), of 0 1 _ "ServiceInstanceId ''svc_00000001''", OF _ _ _ refl]
  by (simp add: sample_log_def stored_event_of_def)

section \<open>A window and its event\<close>

lemma find_snoc: "find P (xs @ [x]) = (case find P xs of None \<Rightarrow> if P x then Some x else None | Some y \<Rightarrow> Some y)"
  by (induction xs) simp_all

lemma event_committed:
  assumes log: "valid_log db" and ids: "valid_id ''evt_'' (event_id_str eid)"
      "valid_id ''svc_'' (service_instance_id_str (rc_service_instance_id (rr_context r)))"
    and ok: "event_in_transaction json_valid db r eid t json = Ok (n, db')"
  shows "valid_log db'" "event_in_transaction json_valid db' r eid t json = Ok (n, db')"
    "\<lparr>er_sequence = n, er_event_id = event_id_str eid,
       er_service_instance_id = service_instance_id_str (rc_service_instance_id (rr_context r)),
       er_event_json = json, er_occurred_utc_millis = t\<rparr> \<in> set (db_events db')"
    "\<exists>es k. db' = db\<lparr>db_events := es, db_event_counter := k\<rparr>"
proof -
  let ?svc = "service_instance_id_str (rc_service_instance_id (rr_context r))"
  let ?e = "\<lparr>er_sequence = n, er_event_id = event_id_str eid, er_service_instance_id = ?svc,
       er_event_json = json, er_occurred_utc_millis = t\<rparr>"
  have "valid_log db' \<and> event_in_transaction json_valid db' r eid t json = Ok (n, db') \<and> ?e \<in> set (db_events db') \<and>
    (\<exists>es k. db' = db\<lparr>db_events := es, db_event_counter := k\<rparr>)"
  proof (cases "find (\<lambda>e. er_event_id e = event_id_str eid) (db_events db)")
    case (Some e)
    then have e: "e \<in> set (db_events db)" "er_event_id e = event_id_str eid" by (auto simp: find_Some_iff)
    have s: "sequence_from_i64 (er_sequence e) = Ok (er_sequence e)"
      using log e(1) by (force simp: valid_log_def sequence_from_i64_def checked_def in_range_def)
    have d: "db' = db" "n = er_sequence e" "er_service_instance_id e = ?svc" "er_event_json e = json"
        "er_occurred_utc_millis e = t"
      using ok Some s by (auto simp: event_in_transaction_def Let_def split: if_splits)
    have "?e = e" using d e(2) by (cases e) simp
    then show ?thesis using d e ok log by (metis database.surjective database.update_convs(3,4))
  next
    case None
    obtain m where ins: "insert_event json_valid db (event_id_str eid) ?svc json t = Ok (m, db')"
        "sequence_from_i64 m = Ok n"
      using ok None by (auto simp: event_in_transaction_def Let_def)
    note i = insert_event_log [OF log ids ins(1)]
    have "m = n" using i(3) ins(2) by simp
    have "find (\<lambda>e. er_event_id e = event_id_str eid) (db_events db') = Some ?e"
      using i(4) None \<open>m = n\<close> by (simp add: find_snoc)
    then show ?thesis
      using i \<open>m = n\<close> by (auto simp: event_in_transaction_def Let_def intro: exI)
  qed
  then show "valid_log db'" "event_in_transaction json_valid db' r eid t json = Ok (n, db')"
    "?e \<in> set (db_events db')" "\<exists>es k. db' = db\<lparr>db_events := es, db_event_counter := k\<rparr>" by blast+
qed

lemma receive_found:
  assumes rep: "represents db rs" and v: "valid_record r" and st: "storable r" and x: "(n, r) \<in> set rs"
  shows "receive_in_transaction db r = Ok (ReceiveExisting n, db)"
proof -
  have d: "distinct (map stored_id rs)" "distinct (map stored_key rs)" using rep by (simp_all add: represents_def)
  have "find (same_window r) rs = Some (n, r)"
  proof (rule find_unique [OF x])
    show "same_window r (n, r)" by (simp add: same_window_def)
    show "y = (n, r)" if "y \<in> set rs" "same_window r y" for y
      using that distinct_map_inj [OF d(1) that(1) x] distinct_map_inj [OF d(2) that(1) x]
      unfolding same_window_def snd_conv by blast
  qed
  then show ?thesis
    using find_existing_stored [OF rep st v] read_stored [OF rep x] by (simp add: receive_in_transaction_def)
qed

lemma receive_committed:
  assumes rep: "represents db rs" and v: "valid_record r" and st: "storable r" and room: "db_window_counter db < i64_max"
    and ok: "receive_in_transaction db r = Ok (out, db1)" and n: "n = outcome_sequence out"
  shows "\<exists>rs'. represents db1 rs' \<and> (n, r) \<in> set rs' \<and> (rs' = rs \<or> rs' = rs @ [(n, r)]) \<and>
    db_events db1 = db_events db \<and> db_event_counter db1 = db_event_counter db"
proof (cases "find (same_window r) rs")
  case (Some x)
  then have x: "x \<in> set rs" by (auto simp: find_Some_iff)
  have "snd x = r" "fst x = n" "db1 = db"
    using ok n Some find_existing_stored [OF rep st v] read_stored [OF rep x]
    by (auto simp: receive_in_transaction_def split: if_splits)
  then show ?thesis using rep x by auto
next
  case None
  then show ?thesis using receive_inserted [OF rep v st None room] ok n by auto
qed

lemma represents_events: "represents (db\<lparr>db_events := es, db_event_counter := k\<rparr>) rs = represents db rs"
  by (simp add: represents_def)

lemma receive_event_committed:
  assumes rep: "represents db rs" and log: "valid_log db" and v: "valid_record r" and st: "storable r"
    and room: "db_window_counter db < i64_max" and eid: "event_id_from_str s = Ok eid"
  shows "case record_receive_with_event_builder json_valid db r eid t build of
      (Inl e, db') \<Rightarrow> db' = db
    | (Inr c, db') \<Rightarrow> let n = outcome_sequence (rec_receive c) in
        (\<exists>rs'. represents db' rs' \<and> (n, r) \<in> set rs' \<and> (rs' = rs \<or> rs' = rs @ [(n, r)])) \<and> valid_log db' \<and>
        (\<exists>json. build n = Ok json \<and>
          \<lparr>er_sequence = rec_event_sequence c, er_event_id = s,
           er_service_instance_id = service_instance_id_str (rc_service_instance_id (rr_context r)),
           er_event_json = json, er_occurred_utc_millis = t\<rparr> \<in> set (db_events db')) \<and>
        record_receive_with_event_builder json_valid db' r eid t build =
          (Ok \<lparr>rec_receive = ReceiveExisting n, rec_event_sequence = rec_event_sequence c\<rparr>, db')"
proof (cases "fst (record_receive_with_event_builder json_valid db r eid t build)")
  case (Inl e)
  then show ?thesis by (auto simp: record_receive_with_event_builder_def commit_or_rollback_def split: sum.splits prod.splits)
next
  case (Inr c)
  let ?n = "outcome_sequence (rec_receive c)"
  obtain db1 json db2 where tx: "receive_in_transaction db r = Ok (rec_receive c, db1)" "build ?n = Ok json"
      "event_in_transaction json_valid db1 r eid t json = Ok (rec_event_sequence c, db2)"
      "record_receive_with_event_builder json_valid db r eid t build = (Ok c, db2)"
    using Inr by (auto simp: record_receive_with_event_builder_def commit_or_rollback_def split: sum.splits prod.splits)
  have ids: "valid_id ''evt_'' (event_id_str eid)" "event_id_str eid = s"
      "valid_id ''svc_'' (service_instance_id_str (rc_service_instance_id (rr_context r)))"
    using event_id_value.constructed_valid [OF eid] event_id_value.raw_make [OF eid] v
    by (simp_all add: valid_record_def valid_context_def)
  obtain rs' where rs': "represents db1 rs'" "(?n, r) \<in> set rs'" "rs' = rs \<or> rs' = rs @ [(?n, r)]"
      "db_events db1 = db_events db" "db_event_counter db1 = db_event_counter db"
    using receive_committed [OF rep v st room tx(1) refl] by blast
  have "valid_log db1" using log rs'(4,5) by (simp add: valid_log_def)
  note ev = event_committed [OF this ids(1,3) tx(3)]
  have rep2: "represents db2 rs'" using ev(4) rs'(1) represents_events by auto
  have "record_receive_with_event_builder json_valid db2 r eid t build =
      (Ok \<lparr>rec_receive = ReceiveExisting ?n, rec_event_sequence = rec_event_sequence c\<rparr>, db2)"
    using receive_found [OF rep2 v st rs'(2)] tx(2) ev(2)
    by (simp add: record_receive_with_event_builder_def commit_or_rollback_def)
  then show ?thesis using tx(2,4) rep2 rs'(2,3) ev(1,3) ids(2) by (auto simp: Let_def)
qed

text \<open>
  C7: storing a window together with its event is atomic and idempotent.  A failure leaves the
  database unchanged.  After a success both the record and the event are stored, and repeating
  the call, with the event built from the same sequence, succeeds with the same two sequences
  and writes nothing.
\<close>

theorem receive_event_commit_once:
  assumes rep: "represents db rs" and log: "valid_log db" and v: "valid_record r" and st: "storable r"
    and room: "db_window_counter db < i64_max" and eid: "event_id_from_str s = Ok eid"
  shows "case record_receive_with_event_builder json_valid db r eid t build of
      (Inl e, db') \<Rightarrow> db' = db
    | (Inr c, db') \<Rightarrow> let n = outcome_sequence (rec_receive c) in
        (\<exists>rs'. represents db' rs' \<and> (n, r) \<in> set rs' \<and> (rs' = rs \<or> rs' = rs @ [(n, r)])) \<and> valid_log db' \<and>
        (\<exists>json. build n = Ok json \<and>
          \<lparr>er_sequence = rec_event_sequence c, er_event_id = s,
           er_service_instance_id = service_instance_id_str (rc_service_instance_id (rr_context r)),
           er_event_json = json, er_occurred_utc_millis = t\<rparr> \<in> set (db_events db')) \<and>
        record_receive_with_event_builder json_valid db' r eid t build =
          (Ok \<lparr>rec_receive = ReceiveExisting n, rec_event_sequence = rec_event_sequence c\<rparr>, db')"
  using assms by (rule receive_event_committed)

theorem receive_event_commit_once_witness:
  "\<exists>c db'. record_receive_with_event_builder (\<lambda>_. True) empty_database sample_record (EventId ''evt_00000001'') 5 (\<lambda>_. Ok ''{}'')
      = (Ok c, db') \<and>
     record_receive_with_event_builder (\<lambda>_. True) db' sample_record (EventId ''evt_00000001'') 5 (\<lambda>_. Ok ''{}'')
      = (Ok \<lparr>rec_receive = ReceiveExisting 1, rec_event_sequence = 1\<rparr>, db')"
proof -
  let ?call = "\<lambda>db. record_receive_with_event_builder (\<lambda>_. True) db sample_record (EventId ''evt_00000001'') 5 (\<lambda>_. Ok ''{}'')"
  have eid: "event_id_from_str ''evt_00000001'' = Ok (EventId ''evt_00000001'')" by code_simp
  have room: "db_window_counter empty_database < i64_max" by (simp add: empty_database_def)
  have "find (same_window sample_record) [] = None" by simp
  from receive_inserted [OF empty_database_represents sample_record_ok this room]
  obtain db1 where db1: "receive_in_transaction empty_database sample_record = Ok (ReceiveInserted 1, db1)"
      "db_events db1 = []" "db_event_counter db1 = 0"
    by (auto simp: empty_database_def)
  then obtain db' where call: "?call empty_database = (Ok \<lparr>rec_receive = ReceiveInserted 1, rec_event_sequence = 1\<rparr>, db')"
    by (auto simp: record_receive_with_event_builder_def commit_or_rollback_def event_in_transaction_def insert_event_def
        sequence_from_i64_def checked_def in_range_def)
  from receive_event_commit_once [OF empty_database_represents sample_log_valid(2) sample_record_ok room eid,
      where json_valid = "\<lambda>_. True" and t = 5 and build = "\<lambda>_. Ok ''{}''"]
  show ?thesis unfolding call by (auto simp: Let_def call)
qed

section \<open>Accepted commands\<close>

text \<open>Every row was written from a command with valid identities; request and command identities are unique.\<close>

definition valid_commands :: "database \<Rightarrow> bool" where
  "valid_commands db \<longleftrightarrow>
     distinct (map cr_request_id (db_commands db)) \<and> distinct (map cr_command_id (db_commands db)) \<and>
     (\<forall>c \<in> set (db_commands db). valid_id ''req_'' (cr_request_id c) \<and> valid_id ''cmd_'' (cr_command_id c) \<and>
        0 \<le> cr_accepted_utc_millis c)"

definition valid_command :: "accepted_command \<Rightarrow> bool" where
  "valid_command c \<longleftrightarrow>
     valid_id ''req_'' (request_id_str (ac_request_id c)) \<and> valid_id ''cmd_'' (command_id_str (ac_command_id c)) \<and>
     0 \<le> ac_accepted_utc_millis c"

lemma read_command_row:
  assumes "valid_commands db" "row \<in> set (db_commands db)" "cr_request_id row = request_id_str rid"
  shows "\<exists>c. read_accepted_command db rid = Ok (Some c) \<and> command_row_of c = row"
proof -
  have "find (\<lambda>c. cr_request_id c = request_id_str rid) (db_commands db) = Some row"
    using assms distinct_map_inj [of cr_request_id "db_commands db"]
    by (intro find_unique) (auto simp: valid_commands_def)
  moreover have "valid_id ''req_'' (cr_request_id row)" "valid_id ''cmd_'' (cr_command_id row)"
    using assms(1,2) by (auto simp: valid_commands_def)
  ultimately show ?thesis
    by (simp add: read_accepted_command_def request_id_from_str_def command_id_from_str_def
        id_from_str_Ok [THEN iffD2] command_row_of_def)
qed

text \<open>
  The first acceptance of a request wins.  A command is inserted exactly if neither of its
  identities is taken; a repeated request gives back the command first stored for it, whatever
  the repetition carries; a command identity taken by another request is a collision.  In every
  case the table stays valid, and a refused or repeated acceptance changes nothing.
\<close>

theorem first_acceptance_wins:
  assumes ok: "valid_commands db" and c: "valid_command c"
  shows "case find (\<lambda>row. cr_request_id row = request_id_str (ac_request_id c)) (db_commands db) of
      Some row \<Rightarrow> \<exists>first. command_row_of first = row \<and> accept_or_existing db c = (Ok (AcceptExisting first), db)
    | None \<Rightarrow> if command_id_str (ac_command_id c) \<in> cr_command_id ` set (db_commands db)
        then accept_or_existing db c = (Err IdentityCollision, db)
        else \<exists>db'. accept_or_existing db c = (Ok (AcceptInserted c), db') \<and> valid_commands db' \<and>
          db_commands db' = db_commands db @ [command_row_of c] \<and>
          read_accepted_command db' (ac_request_id c) = Ok (Some c) \<and>
          accept_or_existing db' c = (Ok (AcceptExisting c), db')"
proof (cases "find (\<lambda>row. cr_request_id row = request_id_str (ac_request_id c)) (db_commands db)")
  case (Some row)
  then have row: "row \<in> set (db_commands db)" "cr_request_id row = request_id_str (ac_request_id c)"
    by (auto simp: find_Some_iff)
  then have "\<not> command_insertable db (command_row_of c)" by (auto simp: command_insertable_def command_row_of_def)
  then show ?thesis
    using Some read_command_row [OF ok row] by (auto simp: accept_or_existing_def commit_or_rollback_def)
next
  case None
  then have fresh: "\<forall>row \<in> set (db_commands db). cr_request_id row \<noteq> request_id_str (ac_request_id c)"
    by (simp add: find_None_iff)
  have read_c: "read_accepted_command db (ac_request_id c) = Ok None" using None by (simp add: read_accepted_command_def)
  show ?thesis
  proof (cases "command_id_str (ac_command_id c) \<in> cr_command_id ` set (db_commands db)")
    case True
    then have "\<not> command_insertable db (command_row_of c)" by (auto simp: command_insertable_def command_row_of_def)
    then show ?thesis using None True read_c by (simp add: accept_or_existing_def commit_or_rollback_def)
  next
    case False
    let ?db = "db\<lparr>db_commands := db_commands db @ [command_row_of c]\<rparr>"
    have ins: "command_insertable db (command_row_of c)" "\<not> command_insertable ?db (command_row_of c)"
      using False fresh c by (auto simp: command_insertable_def command_row_of_def valid_command_def image_iff)
    have vdb: "valid_commands ?db"
      using ok c fresh False by (auto simp: valid_commands_def valid_command_def command_row_of_def image_iff)
    obtain d where d: "read_accepted_command ?db (ac_request_id c) = Ok (Some d)" "command_row_of d = command_row_of c"
      using read_command_row [OF vdb, of "command_row_of c" "ac_request_id c"] by (auto simp: command_row_of_def)
    have "d = c" using d(2) by (auto simp: command_row_of_def intro: accepted_command.equality request_id.expand command_id.expand)
    then show ?thesis
      using None False ins vdb d(1) by (auto simp: accept_or_existing_def commit_or_rollback_def)
  qed
qed


theorem first_acceptance_wins_witness:
  "\<exists>db'. accept_or_existing empty_database
       \<lparr>ac_request_id = RequestId ''req_01jabcde9'', ac_command_id = CommandId ''cmd_01jabcde9'',
        ac_canonical_command = ''{}'', ac_original_result = ''ok'', ac_accepted_utc_millis = 7\<rparr>
     = (Ok (AcceptInserted
       \<lparr>ac_request_id = RequestId ''req_01jabcde9'', ac_command_id = CommandId ''cmd_01jabcde9'',
        ac_canonical_command = ''{}'', ac_original_result = ''ok'', ac_accepted_utc_millis = 7\<rparr>), db')"
proof -
  have p: "list_all payload_byte_ok ''01jabcde9''" by code_simp
  have ids: "valid_id ''req_'' ''req_01jabcde9''" "valid_id ''cmd_'' ''cmd_01jabcde9''"
    unfolding valid_id_def by (rule exI [of _ "''01jabcde9''"], use p in simp)+
  have "valid_commands empty_database" by (simp add: valid_commands_def empty_database_def)
  then show ?thesis
    using first_acceptance_wins [of empty_database
       "\<lparr>ac_request_id = RequestId ''req_01jabcde9'', ac_command_id = CommandId ''cmd_01jabcde9'',
        ac_canonical_command = ''{}'', ac_original_result = ''ok'', ac_accepted_utc_millis = 7\<rparr>"] ids
    by (auto simp: valid_command_def empty_database_def)
qed

end
