(* ===== verification/SP_Capture.thy ===== *)
theory SP_Capture
  imports SP_Audio "HOL-Library.Log_Nat"
begin

text \<open>
  \<open>crates/audio/src/capture.rs\<close>: the callback of the native input stream and the bounded queues
  between it and the worker.  The three \<open>ArrayQueue\<close>s are bounded first-in-first-out lists, as
  documented by their library; every method is one step on the shared state.  The atomic
  counters are fields of that state.  A native device is a record of parameters (\<open>native_host\<close>),
  and so is the clock reading of a callback.  The sample type \<open>T: NormalizeSample\<close> of the
  callback is a type variable with its \<open>normalize\<close> function as an argument.
\<close>

section \<open>Bounds and errors\<close>

definition DEFAULT_CAPTURE_QUEUE_BATCHES :: nat where "DEFAULT_CAPTURE_QUEUE_BATCHES = 8"
definition MAX_CAPTURE_QUEUE_BATCHES :: nat where "MAX_CAPTURE_QUEUE_BATCHES = 128"
definition CALLBACK_DELAY_FAULT_MILLIS :: int where "CALLBACK_DELAY_FAULT_MILLIS = 250"

datatype input_capture_error =
    InvalidQueueCapacity
  | CaptureUnsupportedConfiguration
  | CapturePermissionDenied
  | CaptureDeviceLost
  | CaptureStopped
  | CaptureBackendFailure

text \<open>The kinds of native error the source distinguishes.\<close>

datatype native_error_kind =
    NativePermissionDenied
  | NativeDeviceNotAvailable
  | NativeDeviceChanged
  | NativeStreamInvalidated
  | NativeUnsupportedConfig
  | NativeUnsupportedOperation
  | NativeInvalidInput
  | NativeOther

fun map_open_error :: "native_error_kind \<Rightarrow> input_capture_error" where
  "map_open_error NativePermissionDenied = CapturePermissionDenied"
| "map_open_error NativeDeviceNotAvailable = CaptureDeviceLost"
| "map_open_error NativeDeviceChanged = CaptureDeviceLost"
| "map_open_error NativeStreamInvalidated = CaptureDeviceLost"
| "map_open_error NativeUnsupportedConfig = CaptureUnsupportedConfiguration"
| "map_open_error NativeUnsupportedOperation = CaptureUnsupportedConfiguration"
| "map_open_error NativeInvalidInput = CaptureUnsupportedConfiguration"
| "map_open_error NativeOther = CaptureBackendFailure"

fun map_discovery_error :: "input_discovery_error \<Rightarrow> input_capture_error" where
  "map_discovery_error PermissionDenied = CapturePermissionDenied"
| "map_discovery_error DeviceDisappeared = CaptureDeviceLost"
| "map_discovery_error UnsupportedConfiguration = CaptureUnsupportedConfiguration"
| "map_discovery_error IdentityUnavailable = CaptureUnsupportedConfiguration"
| "map_discovery_error HostUnavailable = CaptureBackendFailure"
| "map_discovery_error NoInputDevices = CaptureBackendFailure"
| "map_discovery_error BackendFailure = CaptureBackendFailure"

section \<open>Shared state\<close>

record raw_batch =
  raw_samples :: "int list"
  raw_frame_count :: nat
  raw_first_frame :: capture_time_evidence
  raw_discontinuity :: "capture_discontinuity option"
  raw_diagnostics :: capture_diagnostics

record shared_capture =
  sh_configuration :: input_configuration
  sh_process_generation :: process_generation
  sh_stream_generation :: stream_generation
  sh_capacity :: nat
  sh_free :: "int list list"
  sh_ready :: "raw_batch list"
  sh_faults :: "input_fault list"
  sh_stopped :: bool
  sh_overflow_count :: int
  sh_clipped_sample_count :: int
  sh_max_callback_delay_millis :: int
  sh_terminal_fault :: int
  sh_terminal_fault_time :: int
  sh_terminal_fault_reported :: bool

definition queue_push :: "nat \<Rightarrow> 'a \<Rightarrow> 'a list \<Rightarrow> 'a list option" where
  "queue_push capacity x q = (if length q < capacity then Some (q @ [x]) else None)"

definition wrap_u64 :: "int \<Rightarrow> int" where "wrap_u64 v = v mod 2 ^ 64"

definition shared_capture_new ::
  "input_configuration \<Rightarrow> process_generation \<Rightarrow> stream_generation \<Rightarrow> nat
   \<Rightarrow> (input_capture_error, shared_capture) result" where
  "shared_capture_new cfg pg sg queue_batches =
     (if \<not> (2 \<le> queue_batches \<and> queue_batches \<le> MAX_CAPTURE_QUEUE_BATCHES) then Err InvalidQueueCapacity
      else Ok \<lparr>sh_configuration = cfg, sh_process_generation = pg, sh_stream_generation = sg,
        sh_capacity = queue_batches, sh_free = replicate queue_batches (replicate MAX_CAPTURE_BATCH_FRAMES 0),
        sh_ready = [], sh_faults = [], sh_stopped = False, sh_overflow_count = 0, sh_clipped_sample_count = 0,
        sh_max_callback_delay_millis = 0, sh_terminal_fault = 0, sh_terminal_fault_time = 0,
        sh_terminal_fault_reported = False\<rparr>)"

text \<open>Giving a buffer back, ignoring a full queue (\<open>let _ = self.free.push(samples)\<close>).\<close>

definition release :: "int list \<Rightarrow> shared_capture \<Rightarrow> shared_capture" where
  "release buf sh = (case queue_push (sh_capacity sh) buf (sh_free sh) of None \<Rightarrow> sh | Some q \<Rightarrow> sh\<lparr>sh_free := q\<rparr>)"

definition discard_ready :: "shared_capture \<Rightarrow> shared_capture" where
  "discard_ready sh = foldl (\<lambda>s raw. release (raw_samples raw) (s\<lparr>sh_ready := tl (sh_ready s)\<rparr>)) sh (sh_ready sh)"

definition next_batch ::
  "shared_capture \<Rightarrow> (input_capture_error, capture_batch option) result \<times> shared_capture" where
  "next_batch sh =
     (if sh_stopped sh then (Ok None, discard_ready sh)
      else case sh_ready sh of
        [] \<Rightarrow> (Ok None, sh)
      | raw # rest \<Rightarrow>
          let sh1 = sh\<lparr>sh_ready := rest\<rparr>;
              batch = map_err (\<lambda>_. CaptureBackendFailure)
                (capture_batch_new (sh_process_generation sh) (sh_stream_generation sh) (sh_configuration sh)
                   (raw_first_frame raw) (raw_discontinuity raw) (raw_diagnostics raw)
                   (take (raw_frame_count raw) (raw_samples raw)))
          in case queue_push (sh_capacity sh) (raw_samples raw) (sh_free sh) of
               None \<Rightarrow> (Err CaptureBackendFailure, sh1)
             | Some q \<Rightarrow> (map_ok Some batch, sh1\<lparr>sh_free := q\<rparr>))"

definition emit_fault :: "int \<Rightarrow> input_fault_kind \<Rightarrow> shared_capture \<Rightarrow> shared_capture" where
  "emit_fault mono_ms k sh =
     (case queue_push (sh_capacity sh)
             \<lparr>fault_process_generation = sh_process_generation sh,
              fault_stream_generation = Some (sh_stream_generation sh),
              fault_monotonic_millis = mono_ms, fault_kind = k\<rparr> (sh_faults sh) of
        None \<Rightarrow> sh
      | Some q \<Rightarrow> sh\<lparr>sh_faults := q\<rparr>)"

definition next_fault :: "shared_capture \<Rightarrow> input_fault option \<times> shared_capture" where
  "next_fault sh =
     (if sh_terminal_fault sh \<noteq> 0 \<and> \<not> sh_terminal_fault_reported sh
      then (Some \<lparr>fault_process_generation = sh_process_generation sh,
                  fault_stream_generation = Some (sh_stream_generation sh),
                  fault_monotonic_millis = sh_terminal_fault_time sh,
                  fault_kind = (if sh_terminal_fault sh = 1 then FaultPermissionDenied
                                else if sh_terminal_fault sh = 2 then FaultDeviceLost else FaultBackendFailure)\<rparr>,
            sh\<lparr>sh_terminal_fault_reported := True\<rparr>)
      else case sh_faults sh of
        [] \<Rightarrow> (None, sh)
      | f # rest \<Rightarrow> (Some f, sh\<lparr>sh_faults := rest\<rparr>))"

definition terminal_code :: "input_fault_kind \<Rightarrow> int" where
  "terminal_code k = (if k = FaultPermissionDenied then 1 else if k = FaultDeviceLost then 2 else 3)"

definition stop_with_terminal_fault :: "int \<Rightarrow> input_fault_kind \<Rightarrow> shared_capture \<Rightarrow> shared_capture" where
  "stop_with_terminal_fault mono_ms k sh =
     sh\<lparr>sh_terminal_fault_time := mono_ms, sh_terminal_fault := terminal_code k, sh_stopped := True\<rparr>"

fun native_fault_kind :: "native_error_kind \<Rightarrow> input_fault_kind" where
  "native_fault_kind NativePermissionDenied = FaultPermissionDenied"
| "native_fault_kind NativeDeviceNotAvailable = FaultDeviceLost"
| "native_fault_kind NativeDeviceChanged = FaultDeviceLost"
| "native_fault_kind NativeStreamInvalidated = FaultDeviceLost"
| "native_fault_kind _ = FaultBackendFailure"

definition stop_for_backend_error :: "native_error_kind \<Rightarrow> int \<Rightarrow> shared_capture \<Rightarrow> shared_capture" where
  "stop_for_backend_error e mono_ms sh = stop_with_terminal_fault mono_ms (native_fault_kind e) sh"

definition capture_health :: "shared_capture \<Rightarrow> (input_capture_error, input_health) result" where
  "capture_health sh =
     map_err (\<lambda>_. CaptureBackendFailure)
       (input_health_new (sh_max_callback_delay_millis sh) 0 (sh_overflow_count sh) (sh_clipped_sample_count sh)
          (sh_max_callback_delay_millis sh))"

section \<open>The callback\<close>

record clock_reading =
  cr_utc_unix_millis :: int
  cr_monotonic_millis :: int

text \<open>\<open>SystemCallbackClock::reading\<close> from the two native durations, in milliseconds; a system time
  before the epoch has none.\<close>

definition system_reading :: "int option \<Rightarrow> int \<Rightarrow> clock_reading" where
  "system_reading since_epoch elapsed =
     \<lparr>cr_utc_unix_millis = (case since_epoch of None \<Rightarrow> 0 | Some v \<Rightarrow> (case checked_i64 v of None \<Rightarrow> 0 | Some u \<Rightarrow> u)),
      cr_monotonic_millis = (case checked_u64 elapsed of None \<Rightarrow> u64_max | Some m \<Rightarrow> m)\<rparr>"

record callback_timing =
  ct_utc_unix_millis :: int
  ct_monotonic_millis :: int
  ct_callback_delay_millis :: int

record callback_state =
  cs_position :: capture_position
  cs_pending_dropped_frames :: int
  cs_first_batch :: bool

definition callback_state_new :: callback_state where
  "callback_state_new = \<lparr>cs_position = 0, cs_pending_dropped_frames = 0, cs_first_batch = True\<rparr>"

text \<open>The timing of one native callback; \<open>delay\<close> is \<open>checked_duration_since\<close>, in milliseconds.\<close>

definition native_timing :: "int option \<Rightarrow> clock_reading \<Rightarrow> callback_timing" where
  "native_timing delay reading =
     (let d = min (case delay of None \<Rightarrow> 0 | Some v \<Rightarrow> (case checked_u32 v of None \<Rightarrow> u32_max | Some u \<Rightarrow> u)) 60000
      in \<lparr>ct_utc_unix_millis = sat_i64 (cr_utc_unix_millis reading - d),
          ct_monotonic_millis = sat_u64 (cr_monotonic_millis reading - d),
          ct_callback_delay_millis = d\<rparr>)"

definition drop_frames ::
  "nat \<Rightarrow> int \<Rightarrow> shared_capture \<times> callback_state \<Rightarrow> shared_capture \<times> callback_state" where
  "drop_frames count mono_ms = (\<lambda>(sh, cs).
     let frames = (case checked_u64 (int count) of None \<Rightarrow> u64_max | Some v \<Rightarrow> v);
         cs1 = cs\<lparr>cs_pending_dropped_frames := sat_u64 (cs_pending_dropped_frames cs + frames)\<rparr>;
         sh1 = emit_fault mono_ms (FaultOverflow frames)
                 (sh\<lparr>sh_overflow_count := wrap_u64 (sh_overflow_count sh + 1)\<rparr>)
     in case checked_advance (cs_position cs1) (case checked_u32 (int count) of None \<Rightarrow> u32_max | Some v \<Rightarrow> v) of
          Inr p \<Rightarrow> (sh1, cs1\<lparr>cs_position := p\<rparr>)
        | Inl _ \<Rightarrow> (stop_with_terminal_fault mono_ms FaultBackendFailure sh1, cs1))"

fun fill_buffer ::
  "('t \<Rightarrow> (int \<times> bool) option) \<Rightarrow> 't list \<Rightarrow> nat \<Rightarrow> int list \<Rightarrow> int \<Rightarrow> int list \<times> int option" where
  "fill_buffer nrm [] i buf clipped = (buf, Some clipped)"
| "fill_buffer nrm (x # xs) i buf clipped =
     (case nrm x of
        None \<Rightarrow> (buf, None)
      | Some (s, c) \<Rightarrow> fill_buffer nrm xs (i + 1) (buf[i := s]) (sat_u32 (clipped + of_bool c)))"

definition offset_millis :: "nat \<Rightarrow> int \<Rightarrow> int" where
  "offset_millis offset rate = (if rate = 0 then u64_max else sat_u64 (int offset * 1000) div rate)"

definition chunk_evidence ::
  "callback_state \<Rightarrow> callback_timing \<Rightarrow> nat \<Rightarrow> int \<Rightarrow> (receive_audio_error, capture_time_evidence) result" where
  "chunk_evidence cs timing offset rate =
     (let ms = offset_millis offset rate
      in capture_time_evidence_new (cs_position cs)
           (sat_i64 (ct_utc_unix_millis timing + (case checked_i64 ms of None \<Rightarrow> i64_max | Some v \<Rightarrow> v)))
           (sat_u64 (ct_monotonic_millis timing + ms)))"

definition chunk_discontinuity :: "callback_state \<Rightarrow> capture_discontinuity option" where
  "chunk_discontinuity cs =
     (if cs_pending_dropped_frames cs > 0
      then Some \<lparr>disc_at = cs_position cs, disc_kind = Overflow, disc_dropped_frames = cs_pending_dropped_frames cs\<rparr>
      else if cs_first_batch cs
      then Some \<lparr>disc_at = cs_position cs, disc_kind = StreamRestart, disc_dropped_frames = 0\<rparr>
      else None)"

text \<open>
  One round of the loop of \<open>process\<close>: the frames \<open>xs\<close> of the selected channel become one batch.
  The flag says whether the loop goes on.
\<close>

definition process_chunk ::
  "('t \<Rightarrow> (int \<times> bool) option) \<Rightarrow> callback_timing \<Rightarrow> nat \<Rightarrow> 't list
   \<Rightarrow> shared_capture \<times> callback_state \<Rightarrow> bool \<times> shared_capture \<times> callback_state" where
  "process_chunk nrm timing offset xs = (\<lambda>(sh, cs).
     let count = length xs; mono_ms = ct_monotonic_millis timing in
     case sh_free sh of
       [] \<Rightarrow> (True, drop_frames count mono_ms (sh, cs))
     | buf0 # free \<Rightarrow>
         let sh1 = sh\<lparr>sh_free := free\<rparr>;
             fail = (\<lambda>buf cs'. (False, stop_with_terminal_fault mono_ms FaultBackendFailure (release buf sh1), cs'))
         in case fill_buffer nrm xs 0 buf0 0 of
              (buf, None) \<Rightarrow> fail buf cs
            | (buf, Some clipped) \<Rightarrow>
                (case chunk_evidence cs timing offset (cfg_sample_rate_hz (sh_configuration sh)) of
                   Inl _ \<Rightarrow> fail buf cs
                 | Inr first \<Rightarrow>
                     let disc = chunk_discontinuity cs;
                         cs1 = cs\<lparr>cs_pending_dropped_frames := 0, cs_first_batch := False\<rparr>
                     in case capture_diagnostics_new clipped (ct_callback_delay_millis timing) of
                          Inl _ \<Rightarrow> fail buf cs1
                        | Inr diag \<Rightarrow>
                            (case queue_push (sh_capacity sh)
                                    \<lparr>raw_samples = buf, raw_frame_count = count, raw_first_frame = first,
                                     raw_discontinuity = disc, raw_diagnostics = diag\<rparr> (sh_ready sh1) of
                               None \<Rightarrow> (True, drop_frames count mono_ms (release buf sh1, cs1))
                             | Some q \<Rightarrow>
                                 let sh2 = sh1\<lparr>sh_ready := q\<rparr>;
                                     sh3 = (if clipped > 0
                                            then emit_fault mono_ms (FaultClipping clipped)
                                              (sh2\<lparr>sh_clipped_sample_count := wrap_u64 (sh_clipped_sample_count sh2 + clipped)\<rparr>)
                                            else sh2)
                                 in case checked_advance (cs_position cs1)
                                           (case checked_u32 (int count) of None \<Rightarrow> u32_max | Some v \<Rightarrow> v) of
                                      Inr p \<Rightarrow> (True, sh3, cs1\<lparr>cs_position := p\<rparr>)
                                    | Inl _ \<Rightarrow> (False, stop_with_terminal_fault mono_ms FaultBackendFailure sh3, cs1))))"

text \<open>The samples of the selected channel in the frames from \<open>offset\<close> on.\<close>

definition chunk_samples :: "'t list \<Rightarrow> nat \<Rightarrow> nat \<Rightarrow> nat \<Rightarrow> nat \<Rightarrow> 't list" where
  "chunk_samples data channels selected offset count =
     map (\<lambda>f. data ! (f * channels + selected)) [offset..<offset + count]"

function process_loop ::
  "('t \<Rightarrow> (int \<times> bool) option) \<Rightarrow> callback_timing \<Rightarrow> 't list \<Rightarrow> nat \<Rightarrow> nat
   \<Rightarrow> shared_capture \<times> callback_state \<Rightarrow> shared_capture \<times> callback_state" where
  "process_loop nrm timing data frames offset st =
     (if offset < frames
      then let count = min (frames - offset) MAX_CAPTURE_BATCH_FRAMES;
               cfg = sh_configuration (fst st)
           in case process_chunk nrm timing offset
                     (chunk_samples data (nat (cfg_channels cfg)) (nat (cfg_selected_channel cfg)) offset count) st of
                (go, st') \<Rightarrow> if go then process_loop nrm timing data frames (offset + count) st' else st'
      else st)"
  by pat_completeness auto
termination
  by (relation "measure (\<lambda>(nrm, timing, data, frames, offset, st). frames - offset)")
    (auto simp: MAX_CAPTURE_BATCH_FRAMES_def)

declare process_loop.simps [simp del]

definition process ::
  "('t \<Rightarrow> (int \<times> bool) option) \<Rightarrow> 't list \<Rightarrow> callback_timing
   \<Rightarrow> shared_capture \<times> callback_state \<Rightarrow> shared_capture \<times> callback_state" where
  "process nrm data timing = (\<lambda>(sh, cs).
     let channels = nat (cfg_channels (sh_configuration sh)); mono_ms = ct_monotonic_millis timing in
     if sh_stopped sh then (sh, cs)
     else if data = [] \<or> length data mod channels \<noteq> 0
     then (stop_with_terminal_fault mono_ms FaultBackendFailure sh, cs)
     else
       let sh1 = sh\<lparr>sh_max_callback_delay_millis := max (sh_max_callback_delay_millis sh) (ct_callback_delay_millis timing)\<rparr>;
           sh2 = (if ct_callback_delay_millis timing > CALLBACK_DELAY_FAULT_MILLIS
                  then emit_fault mono_ms (FaultCallbackDelay (ct_callback_delay_millis timing)) sh1 else sh1)
       in process_loop nrm timing data (length data div channels) 0 (sh2, cs))"

definition process_native ::
  "('t \<Rightarrow> (int \<times> bool) option) \<Rightarrow> 't list \<Rightarrow> int option \<Rightarrow> clock_reading
   \<Rightarrow> shared_capture \<times> callback_state \<Rightarrow> shared_capture \<times> callback_state" where
  "process_native nrm data delay reading = process nrm data (native_timing delay reading)"

section \<open>Normalised samples\<close>

definition normalize_signed :: "int \<Rightarrow> int \<Rightarrow> int \<Rightarrow> (int \<times> bool) option" where
  "normalize_signed mn mx v =
     (case checked_i16 (if v \<ge> 0 then (saturate i128_min i128_max (v * i16_max)) sdiv mx
                        else (saturate i128_min i128_max (v * - i16_min)) sdiv (- mn)) of
        None \<Rightarrow> None
      | Some n \<Rightarrow> Some (n, v = mn \<or> v = mx))"

definition normalize_unsigned :: "int \<Rightarrow> int \<Rightarrow> int \<Rightarrow> (int \<times> bool) option" where
  "normalize_unsigned mx midpoint v =
     (case checked_i16 (if v \<ge> midpoint then ((v - midpoint) * i16_max) div (mx - midpoint)
                        else - (((midpoint - v) * - i16_min) div midpoint)) of
        None \<Rightarrow> None
      | Some n \<Rightarrow> Some (n, v = 0 \<or> v = mx))"

text \<open>
  A binary64 value is a rational or not finite.  A product is the exact product rounded to 53
  significant bits, ties to even.
\<close>

datatype f64 = Finite rat | Infinite bool | NotANumber

definition rat_exponent :: "rat \<Rightarrow> int" where
  "rat_exponent x =
     (let (p, q) = quotient_of \<bar>x\<bar>; k = bitlen p - bitlen q
      in if (if k \<ge> 0 then of_int (2 ^ nat k) \<le> \<bar>x\<bar> else 1 \<le> \<bar>x\<bar> * of_int (2 ^ nat (- k))) then k else k - 1)"

definition round_half_even :: "rat \<Rightarrow> int" where
  "round_half_even x =
     (let n = \<lfloor>x\<rfloor>; r = x - of_int n
      in if r < 1/2 \<or> r = 1/2 \<and> even n then n else n + 1)"

definition f64_round :: "rat \<Rightarrow> rat" where
  "f64_round x =
     (if x = 0 then 0
      else let s = 52 - max (rat_exponent x) (- 1022)
           in if s \<ge> 0 then of_int (round_half_even (x * of_int (2 ^ nat s))) / of_int (2 ^ nat s)
              else of_int (round_half_even (x / of_int (2 ^ nat (- s)))) * of_int (2 ^ nat (- s)))"

text \<open>\<open>f64::round\<close>: to the nearest integer, ties away from zero.\<close>

definition round_half_away :: "rat \<Rightarrow> int" where
  "round_half_away x = (if x \<ge> 0 then \<lfloor>x + 1/2\<rfloor> else - \<lfloor>- x + 1/2\<rfloor>)"

fun normalize_float :: "f64 \<Rightarrow> (int \<times> bool) option" where
  "normalize_float (Finite v) =
     (let clipped = (\<not> (- 1 \<le> v \<and> v \<le> 1) \<or> v = - 1 \<or> v = 1);
          c = max (- 1) (min 1 v);
          scaled = (if c \<ge> 0 then f64_round (c * of_int i16_max) else f64_round (c * - of_int i16_min))
      in Some (saturate i16_min i16_max (round_half_away scaled), clipped))"
| "normalize_float _ = None"

section \<open>The stream\<close>

record native_range =
  nr_channels :: int
  nr_sample_format :: input_sample_format
  nr_min_sample_rate :: int
  nr_max_sample_rate :: int

text \<open>What the native audio library does for the adapter: find a device, list its configurations,
  open and play a stream, pause it.\<close>

record ('d, 's) native_host =
  device_for_identity :: "input_device_identity \<Rightarrow> (input_discovery_error, 'd) result"
  supported_input_configs :: "'d \<Rightarrow> (native_error_kind, native_range list) result"
  build_native_stream :: "'d \<Rightarrow> input_configuration \<Rightarrow> (native_error_kind, 's) result"
  native_play :: "'s \<Rightarrow> (native_error_kind, unit) result"
  native_pause :: "'s \<Rightarrow> (native_error_kind, unit) result"

definition ensure_configuration_supported ::
  "('d, 's) native_host \<Rightarrow> 'd \<Rightarrow> input_configuration \<Rightarrow> (input_capture_error, unit) result" where
  "ensure_configuration_supported host d cfg =
     rbind (map_err map_open_error (supported_input_configs host d)) (\<lambda>ranges.
       if list_ex (\<lambda>r. nr_channels r = cfg_channels cfg \<and> nr_sample_format r = cfg_sample_format cfg \<and>
                      in_range (nr_min_sample_rate r) (nr_max_sample_rate r) (cfg_sample_rate_hz cfg)) ranges
       then Ok () else Err CaptureUnsupportedConfiguration)"

record 's system_input_capture =
  sic_stream :: 's
  sic_shared :: shared_capture
  sic_callback :: callback_state

definition system_capture_start ::
  "('d, 's) native_host \<Rightarrow> input_device_identity \<Rightarrow> input_configuration \<Rightarrow> process_generation
   \<Rightarrow> stream_generation \<Rightarrow> nat \<Rightarrow> (input_capture_error, 's system_input_capture) result" where
  "system_capture_start host identity cfg pg sg queue_batches =
     rbind (shared_capture_new cfg pg sg queue_batches) (\<lambda>sh.
     rbind (map_err map_discovery_error (device_for_identity host identity)) (\<lambda>d.
     rbind (ensure_configuration_supported host d cfg) (\<lambda>_.
     rbind (map_err map_open_error (build_native_stream host d cfg)) (\<lambda>s.
     rbind (map_err map_open_error (native_play host s)) (\<lambda>_.
       Ok \<lparr>sic_stream = s, sic_shared = sh, sic_callback = callback_state_new\<rparr>)))))"

definition system_capture_stop ::
  "('d, 's) native_host \<Rightarrow> 's system_input_capture
   \<Rightarrow> (input_capture_error, unit) result \<times> 's system_input_capture" where
  "system_capture_stop host c =
     (let sh = sic_shared c; stopped = c\<lparr>sic_shared := sh\<lparr>sh_stopped := True\<rparr>\<rparr> in
      if sh_stopped sh then (Err CaptureStopped, stopped)
      else case map_err map_open_error (native_pause host (sic_stream c)) of
        Inl e \<Rightarrow> (Err e, stopped)
      | Inr _ \<Rightarrow> (Ok (), c\<lparr>sic_shared := discard_ready (sh\<lparr>sh_stopped := True\<rparr>)\<rparr>))"

definition system_capture_drop :: "'s system_input_capture \<Rightarrow> 's system_input_capture" where
  "system_capture_drop c = c\<lparr>sic_shared := discard_ready ((sic_shared c)\<lparr>sh_stopped := True\<rparr>)\<rparr>"

section \<open>Every frame is accounted for\<close>

definition raw_ok :: "raw_batch \<Rightarrow> bool" where
  "raw_ok r \<longleftrightarrow>
     length (raw_samples r) = MAX_CAPTURE_BATCH_FRAMES \<and> 1 \<le> raw_frame_count r \<and>
     raw_frame_count r \<le> MAX_CAPTURE_BATCH_FRAMES \<and>
     diag_clipped_samples (raw_diagnostics r) \<le> int (raw_frame_count r) \<and>
     (case raw_discontinuity r of None \<Rightarrow> True | Some d \<Rightarrow> disc_at d = ev_position (raw_first_frame r))"

text \<open>No buffer is lost: each is free or carries a ready batch.\<close>

definition buffers_ok :: "shared_capture \<Rightarrow> bool" where
  "buffers_ok sh \<longleftrightarrow>
     length (sh_free sh) + length (sh_ready sh) = sh_capacity sh \<and> length (sh_faults sh) \<le> sh_capacity sh \<and>
     list_all (\<lambda>b. length b = MAX_CAPTURE_BATCH_FRAMES) (sh_free sh) \<and> list_all raw_ok (sh_ready sh)"

fun declared_drop :: "capture_discontinuity option \<Rightarrow> int" where
  "declared_drop None = 0"
| "declared_drop (Some d) = disc_dropped_frames d"

text \<open>From frame \<open>p\<close> to frame \<open>q\<close>, the batches and the drops they declare leave no frame out.\<close>

fun linked :: "int \<Rightarrow> raw_batch list \<Rightarrow> int \<Rightarrow> bool" where
  "linked p [] q \<longleftrightarrow> p = q"
| "linked p (r # rs) q \<longleftrightarrow>
     ev_position (raw_first_frame r) = p + declared_drop (raw_discontinuity r) \<and>
     linked (ev_position (raw_first_frame r) + int (raw_frame_count r)) rs q"

fun accounted :: "int \<Rightarrow> capture_batch list \<Rightarrow> int \<Rightarrow> bool" where
  "accounted p [] q \<longleftrightarrow> p = q"
| "accounted p (b # bs) q \<longleftrightarrow>
     ev_position (cb_first_frame b) = p + declared_drop (cb_discontinuity b) \<and>
     accounted (ev_position (cb_first_frame b) + int (length (cb_samples b))) bs q"

lemma linked_append [simp]: "linked p (xs @ ys) q \<longleftrightarrow> (\<exists>m. linked p xs m \<and> linked m ys q)"
  by (induction xs arbitrary: p) auto

lemma accounted_append [simp]: "accounted p (xs @ ys) q \<longleftrightarrow> (\<exists>m. accounted p xs m \<and> accounted m ys q)"
  by (induction xs arbitrary: p) auto

type_synonym capture_machine_state = "shared_capture \<times> callback_state \<times> capture_batch list"

definition capture_inv :: "capture_machine_state \<Rightarrow> bool" where
  "capture_inv = (\<lambda>(sh, cs, out).
     buffers_ok sh \<and> (\<forall>b bs. out = b # bs \<longrightarrow> cb_discontinuity b \<noteq> None) \<and>
     (\<exists>q. accounted 0 out q \<and>
       (\<not> sh_stopped sh \<longrightarrow>
          linked q (sh_ready sh) (cs_position cs - cs_pending_dropped_frames cs) \<and>
          0 \<le> cs_pending_dropped_frames cs \<and> cs_pending_dropped_frames cs \<le> cs_position cs \<and> cs_position cs \<le> u64_max \<and>
          (cs_first_batch cs \<longleftrightarrow> out = [] \<and> sh_ready sh = []) \<and>
          (out = [] \<longrightarrow> (\<forall>r rs. sh_ready sh = r # rs \<longrightarrow> raw_discontinuity r \<noteq> None)))))"

text \<open>
  The steps of callback and worker.  \<open>Chunk\<close> schedules one round of the callback's loop by itself,
  so that runs cover worker calls between the rounds.
\<close>

datatype 't capture_op =
    Callback "'t list" callback_timing
  | Chunk callback_timing nat "'t list"
  | PollBatch
  | PollFault
  | NativeFailure native_error_kind int
  | StopStream bool

fun capture_step ::
  "('t \<Rightarrow> (int \<times> bool) option) \<Rightarrow> capture_machine_state \<Rightarrow> 't capture_op \<Rightarrow> capture_machine_state" where
  "capture_step nrm (sh, cs, out) (Callback data timing) =
     (case process nrm data timing (sh, cs) of (sh', cs') \<Rightarrow> (sh', cs', out))"
| "capture_step nrm (sh, cs, out) (Chunk timing offset xs) =
     (if 1 \<le> length xs \<and> length xs \<le> MAX_CAPTURE_BATCH_FRAMES
      then case process_chunk nrm timing offset xs (sh, cs) of (go, sh', cs') \<Rightarrow> (sh', cs', out)
      else (sh, cs, out))"
| "capture_step nrm (sh, cs, out) PollBatch =
     (case next_batch sh of
        (Inr (Some b), sh') \<Rightarrow> (sh', cs, out @ [b])
      | (_, sh') \<Rightarrow> (sh', cs, out))"
| "capture_step nrm (sh, cs, out) PollFault = (snd (next_fault sh), cs, out)"
| "capture_step nrm (sh, cs, out) (NativeFailure e t) = (stop_for_backend_error e t sh, cs, out)"
| "capture_step nrm (sh, cs, out) (StopStream paused) =
     ((if paused then discard_ready (sh\<lparr>sh_stopped := True\<rparr>) else sh\<lparr>sh_stopped := True\<rparr>), cs, out)"

lemma emit_fault_simps [simp]:
  "sh_free (emit_fault t k sh) = sh_free sh" "sh_ready (emit_fault t k sh) = sh_ready sh"
  "sh_capacity (emit_fault t k sh) = sh_capacity sh" "sh_stopped (emit_fault t k sh) = sh_stopped sh"
  "length (sh_faults sh) \<le> sh_capacity sh \<Longrightarrow> length (sh_faults (emit_fault t k sh)) \<le> sh_capacity sh"
  "sh_configuration (emit_fault t k sh) = sh_configuration sh"
  by (simp_all add: emit_fault_def queue_push_def)

lemma buffers_ok_emit [intro]: "buffers_ok sh \<Longrightarrow> buffers_ok (emit_fault t k sh)"
  by (simp add: buffers_ok_def)

lemma buffers_ok_update [simp]:
  "buffers_ok (sh\<lparr>sh_overflow_count := n\<rparr>) = buffers_ok sh" "buffers_ok (sh\<lparr>sh_clipped_sample_count := n\<rparr>) = buffers_ok sh"
  "buffers_ok (sh\<lparr>sh_stopped := b\<rparr>) = buffers_ok sh" "buffers_ok (sh\<lparr>sh_terminal_fault_reported := b\<rparr>) = buffers_ok sh"
  "buffers_ok (sh\<lparr>sh_max_callback_delay_millis := n\<rparr>) = buffers_ok sh"
  "buffers_ok (stop_with_terminal_fault t k sh) = buffers_ok sh"
  by (simp_all add: buffers_ok_def stop_with_terminal_fault_def)

lemma stop_with_terminal_fault_stops [simp]: "sh_stopped (stop_with_terminal_fault t k sh)"
  by (simp add: stop_with_terminal_fault_def)

lemma fill_buffer_shape:
  "fill_buffer nrm xs i buf c = (buf', r) \<Longrightarrow> length buf' = length buf \<and>
    (\<forall>n. r = Some n \<longrightarrow> 0 \<le> c \<longrightarrow> 0 \<le> n \<and> n \<le> c + int (length xs))"
proof (induction xs arbitrary: i buf c)
  case (Cons x xs)
  show ?case
  proof (cases "nrm x")
    case (Some y)
    obtain s b where y: "y = (s, b)" by (cases y)
    have "0 \<le> sat_u32 (c + of_bool b) \<and> sat_u32 (c + of_bool b) \<le> c + 1" if "0 \<le> c"
      using that by (cases b) (auto simp: saturate_def)
    then show ?thesis using Cons.IH [of "i + 1" "buf[i := s]" "sat_u32 (c + of_bool b)"] Cons.prems Some y by fastforce
  qed (use Cons.prems in auto)
qed auto

lemma release_buffers:
  assumes "length (sh_free sh) + length (sh_ready sh) < sh_capacity sh" "length buf = MAX_CAPTURE_BATCH_FRAMES"
  shows "release buf sh = sh\<lparr>sh_free := sh_free sh @ [buf]\<rparr>"
  using assms by (simp add: release_def queue_push_def)

text \<open>The part of the invariant that holds while the stream runs.\<close>

definition running_inv :: "int \<Rightarrow> raw_batch list \<Rightarrow> callback_state \<Rightarrow> capture_batch list \<Rightarrow> bool" where
  "running_inv q ready cs out \<longleftrightarrow>
     linked q ready (cs_position cs - cs_pending_dropped_frames cs) \<and>
     0 \<le> cs_pending_dropped_frames cs \<and> cs_pending_dropped_frames cs \<le> cs_position cs \<and> cs_position cs \<le> u64_max \<and>
     (cs_first_batch cs \<longleftrightarrow> out = [] \<and> ready = []) \<and>
     (out = [] \<longrightarrow> (\<forall>r rs. ready = r # rs \<longrightarrow> raw_discontinuity r \<noteq> None))"

lemma capture_inv_iff: "capture_inv (sh, cs, out) \<longleftrightarrow>
    buffers_ok sh \<and> (\<forall>b bs. out = b # bs \<longrightarrow> cb_discontinuity b \<noteq> None) \<and>
    (\<exists>q. accounted 0 out q \<and> (\<not> sh_stopped sh \<longrightarrow> running_inv q (sh_ready sh) cs out))"
  by (simp add: capture_inv_def running_inv_def)

lemma capture_inv_stopped:
  "capture_inv (sh, cs, out) \<Longrightarrow> buffers_ok sh' \<Longrightarrow> sh_stopped sh' \<Longrightarrow> capture_inv (sh', cs', out)"
  by (auto simp: capture_inv_iff)

lemma capture_inv_same:
  "capture_inv (sh, cs, out) \<Longrightarrow> buffers_ok sh' \<Longrightarrow> sh_stopped sh' = sh_stopped sh \<Longrightarrow> sh_ready sh' = sh_ready sh
    \<Longrightarrow> capture_inv (sh', cs, out)"
  by (auto simp: capture_inv_iff)

lemma checked_advance_Ok: "checked_advance p n = Inr m \<Longrightarrow> m = p + n \<and> m \<le> u64_max"
  by (cases "checked_u64 (p + n)") (auto simp: checked_advance_def)

lemma drop_frames_inv:
  assumes inv: "capture_inv (sh, cs, out)" and n: "n \<le> MAX_CAPTURE_BATCH_FRAMES"
    and r: "drop_frames n t (sh, cs) = (sh', cs')"
  shows "capture_inv (sh', cs', out)"
proof -
  let ?sh = "emit_fault t (FaultOverflow (int n)) (sh\<lparr>sh_overflow_count := wrap_u64 (sh_overflow_count sh + 1)\<rparr>)"
  have c: "checked_u64 (int n) = Some (int n)" "checked_u32 (int n) = Some (int n)"
    using n by (simp_all add: MAX_CAPTURE_BATCH_FRAMES_def)
  have b: "buffers_ok ?sh" using inv by (auto simp: capture_inv_iff)
  show ?thesis
  proof (cases "checked_advance (cs_position cs) (int n)")
    case (Inl e)
    then have "sh' = stop_with_terminal_fault t FaultBackendFailure ?sh" using r c by (auto simp: drop_frames_def Let_def)
    then show ?thesis using capture_inv_stopped [OF inv] b by simp
  next
    case (Inr m)
    then have m: "m = cs_position cs + int n" "m \<le> u64_max" using checked_advance_Ok by blast+
    have res: "sh' = ?sh" "cs' = cs\<lparr>cs_pending_dropped_frames := sat_u64 (cs_pending_dropped_frames cs + int n), cs_position := m\<rparr>"
      using r c Inr by (auto simp: drop_frames_def Let_def)
    have "running_inv q ready cs' out" if i: "running_inv q ready cs out" for q ready
    proof -
      have "sat_u64 (cs_pending_dropped_frames cs + int n) = cs_pending_dropped_frames cs + int n"
        using i m by (intro saturate_in) (auto simp: running_inv_def)
      then show ?thesis using i m by (simp add: running_inv_def res)
    qed
    then show ?thesis using inv b by (auto simp: capture_inv_iff res(1))
  qed
qed

lemma chunk_evidence_position:
  "chunk_evidence cs timing offset rate = Inr ev \<Longrightarrow> ev_position ev = cs_position cs"
  by (auto simp: chunk_evidence_def Let_def capture_time_evidence_new_def split: if_splits)

lemma chunk_enqueued_inv:
  assumes i: "running_inv q ready cs out" and ev: "ev_position (raw_first_frame r) = cs_position cs"
    and d: "raw_discontinuity r = chunk_discontinuity cs"
    and m: "m = cs_position cs + int (raw_frame_count r)" "m \<le> u64_max"
  shows "running_inv q (ready @ [r]) (cs\<lparr>cs_pending_dropped_frames := 0, cs_first_batch := False, cs_position := m\<rparr>) out"
proof -
  have "declared_drop (chunk_discontinuity cs) = cs_pending_dropped_frames cs"
    using i by (simp add: running_inv_def chunk_discontinuity_def)
  moreover have "raw_discontinuity r \<noteq> None" if "out = []" "ready = []"
    using i that by (simp add: running_inv_def d chunk_discontinuity_def)
  ultimately show ?thesis
    using i ev d m by (auto simp: running_inv_def append_eq_Cons_conv)
qed


lemma process_chunk_inv:
  assumes inv: "capture_inv (sh, cs, out)" and len: "1 \<le> length xs" "length xs \<le> MAX_CAPTURE_BATCH_FRAMES"
    and r: "process_chunk nrm timing offset xs (sh, cs) = (go, sh', cs')"
  shows "capture_inv (sh', cs', out)"
proof (cases "sh_free sh")
  case Nil
  then have "drop_frames (length xs) (ct_monotonic_millis timing) (sh, cs) = (sh', cs')"
    using r by (simp add: process_chunk_def Let_def)
  from drop_frames_inv [OF inv len(2) this] show ?thesis .
next
  case (Cons buf0 free)
  let ?sh1 = "sh\<lparr>sh_free := free\<rparr>" and ?t = "ct_monotonic_millis timing"
  have bo: "buffers_ok sh" using inv by (simp add: capture_inv_iff)
  have room: "length free + length (sh_ready sh) < sh_capacity sh" using bo Cons by (simp add: buffers_ok_def)
  obtain buf res where fill: "fill_buffer nrm xs 0 buf0 0 = (buf, res)" by (cases "fill_buffer nrm xs 0 buf0 0") auto
  have buf: "length buf = MAX_CAPTURE_BATCH_FRAMES"
    using fill_buffer_shape [OF fill] bo Cons by (simp add: buffers_ok_def)
  have "buffers_ok (release buf ?sh1)"
    using bo Cons room buf by (subst release_buffers) (auto simp: buffers_ok_def)
  then have fail: "capture_inv (stop_with_terminal_fault ?t FaultBackendFailure (release buf ?sh1), c, out)" for c
    using capture_inv_stopped [OF inv] by simp
  let ?first = "chunk_evidence cs timing offset (cfg_sample_rate_hz (sh_configuration sh))"
  show ?thesis
  proof (cases "\<exists>clipped first diag. res = Some clipped \<and> ?first = Inr first \<and>
      capture_diagnostics_new clipped (ct_callback_delay_millis timing) = Inr diag")
    case False
    then have "\<exists>c. sh' = stop_with_terminal_fault ?t FaultBackendFailure (release buf ?sh1) \<and> cs' = c"
      using r Cons fill by (auto simp: process_chunk_def Let_def split: option.splits sum.splits)
    then show ?thesis using fail by blast
  next
    case True
    then obtain clipped first diag where ok: "res = Some clipped" "?first = Inr first"
        "capture_diagnostics_new clipped (ct_callback_delay_millis timing) = Inr diag" by blast
    let ?raw = "\<lparr>raw_samples = buf, raw_frame_count = length xs, raw_first_frame = first,
        raw_discontinuity = chunk_discontinuity cs, raw_diagnostics = diag\<rparr>"
    let ?sh2 = "?sh1\<lparr>sh_ready := sh_ready sh @ [?raw]\<rparr>"
    let ?sh3 = "if clipped > 0 then emit_fault ?t (FaultClipping clipped)
        (?sh2\<lparr>sh_clipped_sample_count := wrap_u64 (sh_clipped_sample_count ?sh2 + clipped)\<rparr>) else ?sh2"
    have rok: "raw_ok ?raw"
      using buf len fill_buffer_shape [OF fill] ok chunk_evidence_position [OF ok(2)]
      by (auto simp: raw_ok_def chunk_discontinuity_def capture_diagnostics_new_def split: if_splits)
    then have "buffers_ok ?sh2" using bo Cons by (auto simp: buffers_ok_def)
    then have b3: "buffers_ok ?sh3" by (auto intro!: buffers_ok_emit)
    have s3: "sh_stopped ?sh3 = sh_stopped sh" "sh_ready ?sh3 = sh_ready sh @ [?raw]" by simp_all
    have c: "checked_u32 (int (length xs)) = Some (int (length xs))"
      using len by (simp add: MAX_CAPTURE_BATCH_FRAMES_def)
    have push: "queue_push (sh_capacity sh) ?raw (sh_ready sh) = Some (sh_ready sh @ [?raw])"
      using room by (simp add: queue_push_def)
    show ?thesis
    proof (cases "checked_advance (cs_position cs) (int (length xs))")
      case (Inl e)
      then have "sh' = stop_with_terminal_fault ?t FaultBackendFailure ?sh3"
        using r Cons fill ok push c by (simp add: process_chunk_def Let_def)
      then show ?thesis using capture_inv_stopped [OF inv] b3 by simp
    next
      case (Inr m)
      then have res: "sh' = ?sh3" "cs' = cs\<lparr>cs_pending_dropped_frames := 0, cs_first_batch := False, cs_position := m\<rparr>"
        using r Cons fill ok push c by (auto simp: process_chunk_def Let_def)
      have "running_inv q (sh_ready sh @ [?raw]) cs' out" if "running_inv q (sh_ready sh) cs out" for q
        unfolding res(2)
        by (rule chunk_enqueued_inv [OF that]) (use checked_advance_Ok [OF Inr] chunk_evidence_position [OF ok(2)] in simp_all)
      then show ?thesis using inv b3 unfolding capture_inv_iff res(1) s3 by blast
    qed
  qed
qed


lemma process_loop_inv:
  "capture_inv (fst st, snd st, out) \<Longrightarrow> process_loop nrm timing data frames offset st = st' \<Longrightarrow>
    capture_inv (fst st', snd st', out)"
proof (induction nrm timing data frames offset st rule: process_loop.induct)
  case (1 nrm timing data frames offset st)
  show ?case
  proof (cases "offset < frames")
    case True
    let ?n = "min (frames - offset) MAX_CAPTURE_BATCH_FRAMES" and ?cfg = "sh_configuration (fst st)"
    let ?xs = "chunk_samples data (nat (cfg_channels ?cfg)) (nat (cfg_selected_channel ?cfg)) offset ?n"
    obtain go sh' cs' where ch: "process_chunk nrm timing offset ?xs st = (go, sh', cs')"
      by (cases "process_chunk nrm timing offset ?xs st") auto
    have "length ?xs = ?n" by (simp add: chunk_samples_def)
    then have len: "1 \<le> length ?xs" "length ?xs \<le> MAX_CAPTURE_BATCH_FRAMES"
      using True by (simp_all add: MAX_CAPTURE_BATCH_FRAMES_def)
    have inv: "capture_inv (sh', cs', out)"
      using process_chunk_inv [of "fst st" "snd st", OF "1.prems"(1) len] ch by simp
    have st': "st' = (if go then process_loop nrm timing data frames (offset + ?n) (sh', cs') else (sh', cs'))"
      using "1.prems"(2) True ch by (subst (asm) process_loop.simps) (simp add: Let_def)
    show ?thesis
    proof (cases go)
      case True
      show ?thesis
        by (rule "1.IH" [OF \<open>offset < frames\<close> refl refl ch [symmetric] True]) (use inv st' True in simp_all)
    qed (use inv st' in simp)
  next
    case False
    then show ?thesis using "1.prems" by (subst (asm) process_loop.simps) simp
  qed
qed

lemma process_inv:
  assumes inv: "capture_inv (sh, cs, out)" and r: "process nrm data timing (sh, cs) = (sh', cs')"
  shows "capture_inv (sh', cs', out)"
proof -
  let ?sh1 = "sh\<lparr>sh_max_callback_delay_millis := max (sh_max_callback_delay_millis sh) (ct_callback_delay_millis timing)\<rparr>"
  let ?sh2 = "if ct_callback_delay_millis timing > CALLBACK_DELAY_FAULT_MILLIS
    then emit_fault (ct_monotonic_millis timing) (FaultCallbackDelay (ct_callback_delay_millis timing)) ?sh1 else ?sh1"
  have bo: "buffers_ok sh" using inv by (simp add: capture_inv_iff)
  have "buffers_ok ?sh2" using bo by (auto intro!: buffers_ok_emit)
  then have i2: "capture_inv (?sh2, cs, out)" by (rule capture_inv_same [OF inv]) auto
  have st: "capture_inv (stop_with_terminal_fault (ct_monotonic_millis timing) FaultBackendFailure sh, cs, out)"
    using capture_inv_stopped [OF inv] bo by simp
  let ?ch = "nat (cfg_channels (sh_configuration sh))"
  consider "sh_stopped sh" | "\<not> sh_stopped sh" "data = [] \<or> length data mod ?ch \<noteq> 0"
    | "\<not> sh_stopped sh" "data \<noteq> []" "length data mod ?ch = 0" by blast
  then show ?thesis
  proof cases
    case 3
    then have "process_loop nrm timing data (length data div ?ch) 0 (?sh2, cs) = (sh', cs')"
      using r by (simp add: process_def Let_def)
    from process_loop_inv [OF _ this, of out] i2 show ?thesis by simp
  qed (use r inv st in \<open>auto simp: process_def Let_def\<close>)
qed

lemma discard_loop_buffers:
  "buffers_ok sh \<Longrightarrow> sh_ready sh = rs \<Longrightarrow>
    buffers_ok (foldl (\<lambda>s raw. release (raw_samples raw) (s\<lparr>sh_ready := tl (sh_ready s)\<rparr>)) sh rs) \<and>
    sh_stopped (foldl (\<lambda>s raw. release (raw_samples raw) (s\<lparr>sh_ready := tl (sh_ready s)\<rparr>)) sh rs) = sh_stopped sh"
proof (induction rs arbitrary: sh)
  case (Cons raw rs)
  have b: "length (sh_free sh) + Suc (length rs) = sh_capacity sh" "raw_ok raw"
    using Cons.prems by (auto simp: buffers_ok_def)
  let ?s = "sh\<lparr>sh_ready := rs, sh_free := sh_free sh @ [raw_samples raw]\<rparr>"
  have rel: "release (raw_samples raw) (sh\<lparr>sh_ready := rs\<rparr>) = ?s"
    using b by (subst release_buffers) (simp_all add: raw_ok_def)
  have "buffers_ok ?s" using Cons.prems b by (simp add: buffers_ok_def raw_ok_def)
  from Cons.IH [OF this] show ?case using rel Cons.prems(2) by simp
qed simp

lemma discard_ready_buffers:
  assumes "buffers_ok sh" shows "buffers_ok (discard_ready sh)" "sh_stopped (discard_ready sh) = sh_stopped sh"
  using discard_loop_buffers [OF assms refl] by (simp_all add: discard_ready_def)

lemma next_batch_ok:
  assumes "buffers_ok sh" "\<not> sh_stopped sh" "sh_ready sh = raw # rest"
  shows "\<exists>b. next_batch sh = (Ok (Some b), sh\<lparr>sh_ready := rest, sh_free := sh_free sh @ [raw_samples raw]\<rparr>) \<and>
    cb_first_frame b = raw_first_frame raw \<and> cb_discontinuity b = raw_discontinuity raw \<and>
    cb_samples b = take (raw_frame_count raw) (raw_samples raw) \<and> length (cb_samples b) = raw_frame_count raw"
proof -
  have r: "raw_ok raw" and room: "length (sh_free sh) < sh_capacity sh" using assms by (auto simp: buffers_ok_def)
  have nonempty: "take (raw_frame_count raw) (raw_samples raw) \<noteq> []"
    using r by (auto simp: raw_ok_def MAX_CAPTURE_BATCH_FRAMES_def)
  show ?thesis
    using assms r room nonempty
    by (auto simp: next_batch_def Let_def queue_push_def capture_batch_new_def raw_ok_def split: option.splits)
qed

lemma next_batch_inv:
  assumes inv: "capture_inv (sh, cs, out)"
  shows "capture_inv (capture_step nrm (sh, cs, out) PollBatch)"
proof -
  have bo: "buffers_ok sh" using inv by (simp add: capture_inv_iff)
  consider "sh_stopped sh" | "\<not> sh_stopped sh" "sh_ready sh = []" | raw rest where "\<not> sh_stopped sh" "sh_ready sh = raw # rest"
    by (cases "sh_ready sh") auto
  then show ?thesis
  proof cases
    case 1
    then show ?thesis using capture_inv_stopped [OF inv] discard_ready_buffers [OF bo] by (simp add: next_batch_def)
  next
    case 2
    then show ?thesis using inv by (simp add: next_batch_def)
  next
    case 3
    obtain b where b: "next_batch sh = (Ok (Some b), sh\<lparr>sh_ready := rest, sh_free := sh_free sh @ [raw_samples raw]\<rparr>)"
        "cb_first_frame b = raw_first_frame raw" "cb_discontinuity b = raw_discontinuity raw"
        "length (cb_samples b) = raw_frame_count raw"
      using next_batch_ok [OF bo 3] by blast
    have b2: "buffers_ok (sh\<lparr>sh_ready := rest, sh_free := sh_free sh @ [raw_samples raw]\<rparr>)"
      using bo 3(2) by (simp add: buffers_ok_def raw_ok_def)
    obtain q where q: "accounted 0 out q" "running_inv q (raw # rest) cs out" using inv 3 by (auto simp: capture_inv_iff)
    let ?m = "ev_position (raw_first_frame raw) + int (raw_frame_count raw)"
    have "accounted 0 (out @ [b]) ?m" using q b by (auto simp: running_inv_def)
    moreover have "running_inv ?m rest cs (out @ [b])" using q(2) unfolding running_inv_def linked.simps by blast
    moreover have "\<forall>c bs. out @ [b] = c # bs \<longrightarrow> cb_discontinuity c \<noteq> None"
      using inv q b by (auto simp: capture_inv_iff running_inv_def append_eq_Cons_conv)
    ultimately show ?thesis using b b2 3 by (auto simp: capture_inv_iff)
  qed
qed

lemma capture_step_inv: "capture_inv st \<Longrightarrow> capture_inv (capture_step nrm st op)"
proof (cases st)
  case (fields sh cs out)
  assume "capture_inv st"
  then have inv: "capture_inv (sh, cs, out)" and bo: "buffers_ok sh" using fields by (simp_all add: capture_inv_iff)
  show ?thesis
  proof (cases op)
    case (Callback data timing)
    then show ?thesis using process_inv [OF inv] fields by (auto split: prod.splits)
  next
    case (Chunk timing offset xs)
    then show ?thesis using process_chunk_inv [OF inv] inv fields by (auto split: prod.splits)
  next
    case PollBatch
    then show ?thesis using next_batch_inv [OF inv] fields by simp
  next
    case PollFault
    have "buffers_ok (snd (next_fault sh))" "sh_stopped (snd (next_fault sh)) = sh_stopped sh"
        "sh_ready (snd (next_fault sh)) = sh_ready sh"
      using bo by (auto simp: next_fault_def buffers_ok_def split: list.splits)
    then show ?thesis using capture_inv_same [OF inv] PollFault fields by simp
  next
    case (NativeFailure e t)
    then show ?thesis using capture_inv_stopped [OF inv] bo fields by (simp add: stop_for_backend_error_def)
  next
    case (StopStream paused)
    then show ?thesis using capture_inv_stopped [OF inv] discard_ready_buffers [of "sh\<lparr>sh_stopped := True\<rparr>"] bo fields by simp
  qed
qed

lemma release_capacity [simp]: "sh_capacity (release buf sh) = sh_capacity sh"
  by (simp add: release_def split: option.splits)

lemma stop_capacity [simp]: "sh_capacity (stop_with_terminal_fault t k sh) = sh_capacity sh"
  by (simp add: stop_with_terminal_fault_def)

lemma drop_capacity: "drop_frames c t (sh, cs) = (sh', cs') \<Longrightarrow> sh_capacity sh' = sh_capacity sh"
  by (auto simp: drop_frames_def Let_def split: sum.splits)

lemma chunk_capacity: "process_chunk nrm timing offset xs (sh, cs) = (go, sh', cs') \<Longrightarrow> sh_capacity sh' = sh_capacity sh"
  using drop_capacity
  by (fastforce simp: process_chunk_def Let_def split: list.splits option.splits sum.splits prod.splits if_splits)

lemma loop_capacity: "sh_capacity (fst (process_loop nrm timing data frames offset st)) = sh_capacity (fst st)"
proof (induction nrm timing data frames offset st rule: process_loop.induct)
  case (1 nrm timing data frames offset st)
  then show ?case
    by (subst process_loop.simps) (auto simp: Let_def dest: chunk_capacity [of _ _ _ _ "fst st" "snd st", simplified] split: prod.splits)
qed

lemma process_capacity: "sh_capacity (fst (process nrm data timing (sh, cs))) = sh_capacity sh"
  by (simp add: process_def Let_def loop_capacity)

lemma discard_capacity [simp]: "sh_capacity (discard_ready sh) = sh_capacity sh"
proof -
  have "sh_capacity (foldl (\<lambda>s raw. release (raw_samples raw) (s\<lparr>sh_ready := tl (sh_ready s)\<rparr>)) sh rs) = sh_capacity sh" for rs
    by (induction rs arbitrary: sh) simp_all
  then show ?thesis by (simp add: discard_ready_def)
qed

lemma capture_step_capacity: "sh_capacity (fst (capture_step nrm st op)) = sh_capacity (fst st)"
proof (cases st)
  case (fields sh cs out)
  show ?thesis
  proof (cases op)
    case (Callback data timing)
    then show ?thesis using process_capacity [of nrm data timing sh cs] fields by (auto split: prod.splits)
  next
    case (Chunk timing offset xs)
    then show ?thesis using chunk_capacity fields by (auto split: prod.splits)
  qed (auto simp: fields next_batch_def next_fault_def stop_for_backend_error_def Let_def
        split: list.splits option.splits sum.splits prod.splits)
qed

lemma capture_run_capacity: "sh_capacity (fst (foldl (capture_step nrm) (sh, cs, out) ops)) = sh_capacity sh"
  by (induction ops rule: rev_induct) (simp_all add: capture_step_capacity)

interpretation capture_machine: invariant_machine "capture_step nrm" capture_inv for nrm :: "'t \<Rightarrow> (int \<times> bool) option"
  by unfold_locales (rule capture_step_inv)



section \<open>Integer samples\<close>

fun normalize_integer :: "input_sample_format \<Rightarrow> int \<Rightarrow> (int \<times> bool) option" where
  "normalize_integer Signed8 v = normalize_signed (- 128) 127 v"
| "normalize_integer Signed16 v = normalize_signed (- 32768) 32767 v"
| "normalize_integer Signed24 v = normalize_signed (- 8388608) 8388607 v"
| "normalize_integer Signed32 v = normalize_signed (- 2147483648) 2147483647 v"
| "normalize_integer Signed64 v = normalize_signed (- 9223372036854775808) 9223372036854775807 v"
| "normalize_integer Unsigned8 v = normalize_unsigned 255 128 v"
| "normalize_integer Unsigned16 v = normalize_unsigned 65535 32768 v"
| "normalize_integer Unsigned24 v = normalize_unsigned 16777215 8388608 v"
| "normalize_integer Unsigned32 v = normalize_unsigned 4294967295 2147483648 v"
| "normalize_integer Unsigned64 v = normalize_unsigned 18446744073709551615 9223372036854775808 v"
| "normalize_integer Float32 v = None"
| "normalize_integer Float64 v = None"

text \<open>The least, the middle and the greatest value of an integer sample type.\<close>

fun sample_bounds :: "input_sample_format \<Rightarrow> (int \<times> int \<times> int) option" where
  "sample_bounds Signed8 = Some (- 128, 0, 127)"
| "sample_bounds Signed16 = Some (- 32768, 0, 32767)"
| "sample_bounds Signed24 = Some (- 8388608, 0, 8388607)"
| "sample_bounds Signed32 = Some (- 2147483648, 0, 2147483647)"
| "sample_bounds Signed64 = Some (- 9223372036854775808, 0, 9223372036854775807)"
| "sample_bounds Unsigned8 = Some (0, 128, 255)"
| "sample_bounds Unsigned16 = Some (0, 32768, 65535)"
| "sample_bounds Unsigned24 = Some (0, 8388608, 16777215)"
| "sample_bounds Unsigned32 = Some (0, 2147483648, 4294967295)"
| "sample_bounds Unsigned64 = Some (0, 9223372036854775808, 18446744073709551615)"
| "sample_bounds Float32 = None"
| "sample_bounds Float64 = None"

text \<open>Scaling a distance \<open>d\<close> of at most \<open>m\<close> to the range up to \<open>k\<close>.\<close>

lemma scaled_bounds:
  fixes d e k m :: int
  assumes "0 \<le> d" "d \<le> e" "e \<le> m" "0 < m" "0 \<le> k"
  shows "0 \<le> d * k div m" "d * k div m \<le> e * k div m" "e * k div m \<le> k" "m * k div m = k"
proof -
  show m: "m * k div m = k" using assms by simp
  show "0 \<le> d * k div m" using assms by (simp add: div_int_pos_iff)
  show "d * k div m \<le> e * k div m" using assms by (intro zdiv_mono1 mult_right_mono) auto
  have "e * k div m \<le> m * k div m" using assms by (intro zdiv_mono1 mult_right_mono) auto
  then show "e * k div m \<le> k" using m by simp
qed

lemma normalize_signed_value:
  assumes "mn < 0" "0 < mx" "mn \<le> v" "v \<le> mx" "- 9223372036854775808 \<le> mn" "mx \<le> 9223372036854775807"
  shows "normalize_signed mn mx v =
    Some (if v \<ge> 0 then v * 32767 div mx else - ((- v) * 32768 div (- mn)), v = mn \<or> v = mx)"
proof (cases "v \<ge> 0")
  case True
  have "0 \<le> v * 32767 div mx" "v * 32767 div mx \<le> 32767" using scaled_bounds [of v v mx 32767] assms True by auto
  moreover have "(v * 32767) sdiv mx = v * 32767 div mx"
    using True assms by (simp add: signed_divide_int_def sgn_if)
  moreover have "saturate i128_min i128_max (v * 32767) = v * 32767" using True assms by (intro saturate_in) auto
  ultimately show ?thesis using True by (simp add: normalize_signed_def)
next
  case False
  have "0 \<le> (- v) * 32768 div (- mn)" "(- v) * 32768 div (- mn) \<le> 32768"
    using scaled_bounds [of "- v" "- v" "- mn" 32768] assms False by auto
  moreover have "(v * 32768) sdiv (- mn) = - ((- v) * 32768 div (- mn))"
    using False assms by (simp add: signed_divide_int_def sgn_if)
  moreover have "saturate i128_min i128_max (v * 32768) = v * 32768" using False assms by (intro saturate_in) auto
  ultimately show ?thesis using False by (simp add: normalize_signed_def)
qed

lemma normalize_unsigned_value:
  assumes "0 < mid" "mid < mx" "0 \<le> v" "v \<le> mx"
  shows "normalize_unsigned mx mid v =
    Some (if v \<ge> mid then (v - mid) * 32767 div (mx - mid) else - ((mid - v) * 32768 div mid), v = 0 \<or> v = mx)"
proof (cases "v \<ge> mid")
  case True
  then show ?thesis
    using scaled_bounds [of "v - mid" "v - mid" "mx - mid" 32767] assms by (auto simp: normalize_unsigned_def)
next
  case False
  then show ?thesis
    using scaled_bounds [of "mid - v" "mid - v" mid 32768] assms by (auto simp: normalize_unsigned_def)
qed

text \<open>Both families scale the distance from the middle value.\<close>

lemma normalize_integer_value:
  assumes "sample_bounds f = Some (lo, mid, hi)" "lo \<le> v" "v \<le> hi"
  shows "lo < mid \<and> mid < hi \<and> normalize_integer f v =
    Some (if v \<ge> mid then (v - mid) * 32767 div (hi - mid) else - ((mid - v) * 32768 div (mid - lo)), v = lo \<or> v = hi)"
  using assms by (cases f) (simp_all add: normalize_signed_value normalize_unsigned_value del: mult_minus_left)

text \<open>
  Every integer sample of every supported format has a 16-bit value; the least, middle and
  greatest input become \<open>- 32768\<close>, 0 and 32767, the order of samples is kept, and exactly the two
  extreme inputs count as clipped.
\<close>

theorem integer_samples_normalize:
  assumes f: "sample_bounds f = Some (lo, mid, hi)" and vw: "lo \<le> v" "v \<le> w" "w \<le> hi"
  shows "\<exists>m n. normalize_integer f v = Some (m, v = lo \<or> v = hi) \<and> normalize_integer f w = Some (n, w = lo \<or> w = hi) \<and>
    - 32768 \<le> m \<and> m \<le> n \<and> n \<le> 32767 \<and>
    (v = lo \<longrightarrow> m = - 32768) \<and> (v = mid \<longrightarrow> m = 0) \<and> (w = hi \<longrightarrow> n = 32767)"
proof -
  have b: "lo < mid" "mid < hi" using normalize_integer_value [OF f, of lo] vw by auto
  have lo: "v < mid \<Longrightarrow> 0 \<le> (mid - v) * 32768 div (mid - lo) \<and> (mid - v) * 32768 div (mid - lo) \<le> 32768"
    "w < mid \<Longrightarrow> 0 \<le> (mid - w) * 32768 div (mid - lo) \<and> (mid - w) * 32768 div (mid - lo) \<le> (mid - v) * 32768 div (mid - lo)"
    using scaled_bounds [of "mid - w" "mid - v" "mid - lo" 32768] scaled_bounds [of "mid - v" "mid - v" "mid - lo" 32768] b vw
    by auto
  have hi: "mid \<le> w \<Longrightarrow> 0 \<le> (w - mid) * 32767 div (hi - mid) \<and> (w - mid) * 32767 div (hi - mid) \<le> 32767"
    "mid \<le> v \<Longrightarrow> 0 \<le> (v - mid) * 32767 div (hi - mid) \<and> (v - mid) * 32767 div (hi - mid) \<le> (w - mid) * 32767 div (hi - mid)"
    using scaled_bounds [of "v - mid" "w - mid" "hi - mid" 32767] scaled_bounds [of "w - mid" "w - mid" "hi - mid" 32767] b vw
    by auto
  show ?thesis
    using normalize_integer_value [OF f, of v] normalize_integer_value [OF f, of w] vw b lo hi
      scaled_bounds(4) [of 0 0 "mid - lo" 32768] scaled_bounds(4) [of 0 0 "hi - mid" 32767]
    by auto
qed

theorem integer_samples_normalize_witness:
  "\<exists>m n. normalize_integer Signed24 (- 8388608) = Some (m, True) \<and> normalize_integer Signed24 5000 = Some (n, False) \<and>
     m = - 32768 \<and> m \<le> n \<and> n \<le> 32767"
  using integer_samples_normalize [of Signed24 "- 8388608" 0 8388607 "- 8388608" 5000] by auto

end
