(* ===== verification/SP_Daemon_Receive.thy ===== *)
theory SP_Daemon_Receive
  imports SP_Capture SP_Timeline SP_Clock SP_Spectrum SP_Store_Events
begin

text \<open>
  \<open>apps/daemon/src/receive.rs\<close>: the live receive coordinator.  It owns one input, one timeline, one
  clock monitor, a bounded backlog of batches and an optional waterfall model, and moves through
  the lifecycle stopped, starting, receiving, inhibited, stopping.  The traits of the source are
  records of operations: \<open>receive_input\<close> for \<open>DaemonReceiveInput\<close>, and in \<open>daemon_env\<close> the decoder
  and the store.  The SHA-256 digest and the transform of the waterfall are parameters.  An
  operation takes the coordinator and returns its result with the coordinator as it leaves it,
  also on an error.
\<close>

section \<open>Values\<close>

definition WORKER_BATCH_CAPACITY :: nat where "WORKER_BATCH_CAPACITY = 4"

record receive_selection =
  sel_device_identity :: input_device_identity
  sel_configuration :: input_configuration

record coordinator_config =
  co_service_instance_id :: service_instance_id
  co_process_generation :: process_generation
  co_selection :: receive_selection
  co_decode :: ft8_decode_config
  co_clock :: receive_clock_config

record 'i receive_input =
  ri_start :: "'i \<Rightarrow> receive_selection \<Rightarrow> process_generation \<Rightarrow> stream_generation
                \<Rightarrow> (input_capture_error, unit) result \<times> 'i"
  ri_next_batch :: "'i \<Rightarrow> (input_capture_error, capture_batch option) result \<times> 'i"
  ri_next_fault :: "'i \<Rightarrow> input_fault option \<times> 'i"
  ri_health :: "'i \<Rightarrow> (input_capture_error, input_health) result \<times> 'i"
  ri_stop :: "'i \<Rightarrow> (input_capture_error, unit) result \<times> 'i"

datatype receive_inhibition =
    InhibitInput input_fault_kind
  | InhibitTimeline receive_timeline_error
  | InhibitClock receive_clock_fault
  | WorkerBackpressure
  | DecoderFailure
  | StorageFailure

datatype receive_stop_reason = Requested | Cancelled

datatype receive_lifecycle_state =
    Stopped process_generation int
  | Starting stream_generation
  | Receiving stream_generation
  | Inhibited stream_generation receive_inhibition
  | Stopping stream_generation receive_stop_reason

record receive_lifecycle_event =
  le_previous :: receive_lifecycle_state
  le_current :: receive_lifecycle_state

datatype receive_poll_event =
    PollIncomplete int int
  | Persisted receive_window_id receive_insert_outcome nat
  | Waterfall waterfall_snapshot
  | Lifecycle receive_lifecycle_event

datatype coordinator_error =
    InvalidLifecycle receive_lifecycle_state
  | StreamGenerationOverflow
  | InvalidStreamGeneration
  | CoordinatorClock receive_clock_error
  | CoordinatorPcm pcm_error
  | CoordinatorIdentity id_error
  | CoordinatorSpectrum spectrum_model_error

record ('i, 's) daemon_env =
  env_input :: "'i receive_input"
  env_decode :: "pcm_buffer \<Rightarrow> ft8_decode_config \<Rightarrow> (ft8_decode_error, ft8_decode list) result"
  env_record_receive :: "'s \<Rightarrow> receive_record \<Rightarrow> (storage_error, receive_insert_outcome) result \<times> 's"
  env_level :: level_fn
  env_scratch_len :: nat
  env_sha256 :: "nat list \<Rightarrow> nat list"

record ('i, 's) coordinator =
  lc_input :: 'i
  lc_store :: 's
  lc_service_instance_id :: service_instance_id
  lc_process_generation :: process_generation
  lc_selection :: receive_selection
  lc_decode_config :: ft8_decode_config
  lc_clock_config :: receive_clock_config
  lc_state :: receive_lifecycle_state
  lc_last_stream_generation :: int
  lc_timeline :: "ft8_receive_timeline option"
  lc_clock :: "receive_clock_monitor option"
  lc_worker_batches :: "capture_batch list"
  lc_spectrum :: "spectrum_model option"

section \<open>The production input\<close>

record 's system_receive_input =
  sri_capture :: "'s system_input_capture option"
  sri_callback_queue_batches :: nat

definition system_receive_input_new :: "nat \<Rightarrow> 's system_receive_input" where
  "system_receive_input_new n = \<lparr>sri_capture = None, sri_callback_queue_batches = n\<rparr>"

definition sri_start ::
  "('d, 's) native_host \<Rightarrow> 's system_receive_input \<Rightarrow> receive_selection \<Rightarrow> process_generation \<Rightarrow> stream_generation
   \<Rightarrow> (input_capture_error, unit) result \<times> 's system_receive_input" where
  "sri_start host i sel pg sg =
     (if sri_capture i \<noteq> None then (Err CaptureBackendFailure, i)
      else case system_capture_start host (sel_device_identity sel) (sel_configuration sel) pg sg
                  (sri_callback_queue_batches i) of
        Inl e \<Rightarrow> (Err e, i)
      | Inr c \<Rightarrow> (Ok (), i\<lparr>sri_capture := Some c\<rparr>))"

definition sri_next_batch ::
  "'s system_receive_input \<Rightarrow> (input_capture_error, capture_batch option) result \<times> 's system_receive_input" where
  "sri_next_batch i =
     (case sri_capture i of
        None \<Rightarrow> (Err CaptureStopped, i)
      | Some c \<Rightarrow> (case next_batch (sic_shared c) of
          (r, sh) \<Rightarrow> (r, i\<lparr>sri_capture := Some (c\<lparr>sic_shared := sh\<rparr>)\<rparr>)))"

definition sri_next_fault :: "'s system_receive_input \<Rightarrow> input_fault option \<times> 's system_receive_input" where
  "sri_next_fault i =
     (case sri_capture i of
        None \<Rightarrow> (None, i)
      | Some c \<Rightarrow> (case next_fault (sic_shared c) of
          (r, sh) \<Rightarrow> (r, i\<lparr>sri_capture := Some (c\<lparr>sic_shared := sh\<rparr>)\<rparr>)))"

definition sri_health ::
  "'s system_receive_input \<Rightarrow> (input_capture_error, input_health) result \<times> 's system_receive_input" where
  "sri_health i =
     (case sri_capture i of
        None \<Rightarrow> (Err CaptureStopped, i)
      | Some c \<Rightarrow> (capture_health (sic_shared c), i))"

text \<open>The taken capture is dropped after its \<open>stop\<close>.\<close>

definition sri_stop ::
  "('d, 's) native_host \<Rightarrow> 's system_receive_input \<Rightarrow> (input_capture_error, unit) result \<times> 's system_receive_input" where
  "sri_stop host i =
     (case sri_capture i of
        None \<Rightarrow> (Err CaptureStopped, i)
      | Some c \<Rightarrow> (fst (system_capture_stop host c), i\<lparr>sri_capture := None\<rparr>))"

definition system_input :: "('d, 's) native_host \<Rightarrow> 's system_receive_input receive_input" where
  "system_input host =
     \<lparr>ri_start = sri_start host, ri_next_batch = sri_next_batch, ri_next_fault = sri_next_fault,
      ri_health = sri_health, ri_stop = sri_stop host\<rparr>"

section \<open>Identities\<close>

fun platform_code :: "input_platform \<Rightarrow> nat" where
  "platform_code MacOsCoreAudio = 1"
| "platform_code WindowsWasapi = 2"
| "platform_code LinuxAlsa = 3"
| "platform_code LinuxJack = 4"

fun sample_format_code :: "input_sample_format \<Rightarrow> nat" where
  "sample_format_code Signed8 = 1"
| "sample_format_code Signed16 = 2"
| "sample_format_code Signed24 = 3"
| "sample_format_code Signed32 = 4"
| "sample_format_code Signed64 = 5"
| "sample_format_code Unsigned8 = 6"
| "sample_format_code Unsigned16 = 7"
| "sample_format_code Unsigned24 = 8"
| "sample_format_code Unsigned32 = 9"
| "sample_format_code Unsigned64 = 10"
| "sample_format_code Float32 = 11"
| "sample_format_code Float64 = 12"

text \<open>The big-endian bytes of a value of \<open>n\<close> bytes, in two's complement.\<close>

definition be_bytes :: "nat \<Rightarrow> int \<Rightarrow> nat list" where
  "be_bytes n v = map (\<lambda>i. nat (v div 256 ^ (n - 1 - i) mod 256)) [0..<n]"

definition hex_digit :: "nat \<Rightarrow> char" where
  "hex_digit d = char_of (if d < 10 then 48 + d else 87 + d)"

definition lower_hex :: "nat list \<Rightarrow> string" where
  "lower_hex bs = concat (map (\<lambda>b. [hex_digit (b div 16), hex_digit (b mod 16)]) bs)"

definition str_bytes :: "string \<Rightarrow> nat list" where
  "str_bytes s = map of_char s"

definition window_preimage ::
  "service_instance_id \<Rightarrow> receive_selection \<Rightarrow> process_generation \<Rightarrow> stream_generation \<Rightarrow> int \<Rightarrow> nat list" where
  "window_preimage svc sel pg sg slot_start =
     str_bytes (service_instance_id_str svc) @ be_bytes 8 (process_generation_get pg) @
     be_bytes 8 (stream_generation_get sg) @ be_bytes 8 slot_start @
     [platform_code (identity_platform (sel_device_identity sel))] @
     str_bytes (opaque_id (sel_device_identity sel)) @
     be_bytes 4 (cfg_sample_rate_hz (sel_configuration sel)) @ be_bytes 2 (cfg_channels (sel_configuration sel)) @
     [sample_format_code (cfg_sample_format (sel_configuration sel))] @
     be_bytes 2 (cfg_selected_channel (sel_configuration sel))"

definition make_receive_window_id ::
  "(nat list \<Rightarrow> nat list) \<Rightarrow> service_instance_id \<Rightarrow> receive_selection \<Rightarrow> process_generation \<Rightarrow> stream_generation
   \<Rightarrow> int \<Rightarrow> (id_error, receive_window_id) result" where
  "make_receive_window_id sha256 svc sel pg sg slot_start =
     receive_window_id_from_str (''rxw_'' @ lower_hex (sha256 (window_preimage svc sel pg sg slot_start)))"

fun capture_error_kind :: "input_capture_error \<Rightarrow> input_fault_kind" where
  "capture_error_kind CapturePermissionDenied = FaultPermissionDenied"
| "capture_error_kind CaptureDeviceLost = FaultDeviceLost"
| "capture_error_kind CaptureUnsupportedConfiguration = FaultBackendFailure"
| "capture_error_kind InvalidQueueCapacity = FaultBackendFailure"
| "capture_error_kind CaptureStopped = FaultBackendFailure"
| "capture_error_kind CaptureBackendFailure = FaultBackendFailure"

section \<open>The coordinator\<close>

type_synonym ('i, 's, 'a) outcome = "(coordinator_error, 'a) result \<times> ('i, 's) coordinator"

definition coordinator_new :: "'i \<Rightarrow> 's \<Rightarrow> coordinator_config \<Rightarrow> ('i, 's) coordinator" where
  "coordinator_new input store config =
     \<lparr>lc_input = input, lc_store = store, lc_service_instance_id = co_service_instance_id config,
      lc_process_generation = co_process_generation config, lc_selection = co_selection config,
      lc_decode_config = co_decode config, lc_clock_config = co_clock config,
      lc_state = Stopped (co_process_generation config) 0, lc_last_stream_generation = 0,
      lc_timeline = None, lc_clock = None, lc_worker_batches = [], lc_spectrum = None\<rparr>"

definition enable_spectrum ::
  "('i, 's) daemon_env \<Rightarrow> spectrum_config \<Rightarrow> ('i, 's) coordinator
   \<Rightarrow> (spectrum_model_error, unit) result \<times> ('i, 's) coordinator" where
  "enable_spectrum env config c =
     (case spectrum_model_new (env_scratch_len env) config of
        Inl e \<Rightarrow> (Err e, c)
      | Inr m \<Rightarrow> (Ok (), c\<lparr>lc_spectrum := Some m\<rparr>))"

definition transition ::
  "receive_lifecycle_state \<Rightarrow> ('i, 's) coordinator \<Rightarrow> receive_lifecycle_event \<times> ('i, 's) coordinator" where
  "transition current c = (\<lparr>le_previous = lc_state c, le_current = current\<rparr>, c\<lparr>lc_state := current\<rparr>)"

fun state_generation :: "receive_lifecycle_state \<Rightarrow> stream_generation option" where
  "state_generation (Stopped pg n) = None"
| "state_generation (Starting sg) = Some sg"
| "state_generation (Receiving sg) = Some sg"
| "state_generation (Inhibited sg r) = Some sg"
| "state_generation (Stopping sg r) = Some sg"

definition inhibit ::
  "('i, 's) daemon_env \<Rightarrow> receive_inhibition \<Rightarrow> ('i, 's) coordinator
   \<Rightarrow> receive_lifecycle_event \<times> ('i, 's) coordinator" where
  "inhibit env reason c =
     (case state_generation (lc_state c) of
        None \<Rightarrow> transition (lc_state c) c
      | Some sg \<Rightarrow>
          transition (Inhibited sg reason)
            (c\<lparr>lc_input := snd (ri_stop (env_input env) (lc_input c)), lc_worker_batches := [],
               lc_timeline := None, lc_clock := None,
               lc_spectrum := map_option (spectrum_reset TimelineDiscontinuity) (lc_spectrum c)\<rparr>))"

definition inhibited_poll ::
  "('i, 's) daemon_env \<Rightarrow> receive_inhibition \<Rightarrow> ('i, 's) coordinator \<Rightarrow> ('i, 's, receive_poll_event list) outcome" where
  "inhibited_poll env reason c = (case inhibit env reason c of (ev, c') \<Rightarrow> (Ok [Lifecycle ev], c'))"

definition start ::
  "('i, 's) daemon_env \<Rightarrow> generation_clock_sample \<Rightarrow> ('i, 's) coordinator
   \<Rightarrow> ('i, 's, receive_lifecycle_event list) outcome" where
  "start env initial_clock c =
     (case lc_state c of
        Stopped pg n \<Rightarrow>
          (case checked_u64 (lc_last_stream_generation c + 1) of
             None \<Rightarrow> (Err StreamGenerationOverflow, c)
           | Some nxt \<Rightarrow>
               (case stream_generation_new nxt of
                  Inl _ \<Rightarrow> (Err InvalidStreamGeneration, c)
                | Inr sg \<Rightarrow>
                    (case transition (Starting sg) (c\<lparr>lc_last_stream_generation := nxt\<rparr>) of (first, c1) \<Rightarrow>
                       if clock_generation_get (gcs_generation initial_clock)
                            \<noteq> process_generation_get (lc_process_generation c1)
                       then (case transition (Inhibited sg (InhibitClock FaultProcessGenerationChanged)) c1 of
                               (ev, c2) \<Rightarrow> (Ok [first, ev], c2))
                       else (case ri_start (env_input env) (lc_input c1) (lc_selection c1) (lc_process_generation c1) sg of
                          (Inl e, i) \<Rightarrow>
                            (case transition (Inhibited sg (InhibitInput (capture_error_kind e))) (c1\<lparr>lc_input := i\<rparr>) of
                               (ev, c2) \<Rightarrow> (Ok [first, ev], c2))
                        | (Inr _, i) \<Rightarrow>
                            (case receive_clock_monitor_new initial_clock (lc_clock_config c1) of
                               Inl e \<Rightarrow> (Err (CoordinatorClock e), c1\<lparr>lc_input := i\<rparr>)
                             | Inr monitor \<Rightarrow>
                                 (case transition (Receiving sg)
                                    (c1\<lparr>lc_input := i,
                                        lc_timeline := Some (timeline_new (lc_process_generation c1) sg
                                          (sel_configuration (lc_selection c1))),
                                        lc_clock := Some monitor, lc_worker_batches := [],
                                        lc_spectrum := map_option (spectrum_reset SpectrumStreamGenerationChanged)
                                          (lc_spectrum c1)\<rparr>) of
                                    (ev, c2) \<Rightarrow> (Ok [first, ev], c2)))))))
      | _ \<Rightarrow> (Err (InvalidLifecycle (lc_state c)), c))"

fun require_receiving :: "receive_lifecycle_state \<Rightarrow> (coordinator_error, stream_generation) result" where
  "require_receiving (Receiving sg) = Ok sg"
| "require_receiving s = Err (InvalidLifecycle s)"

fun transition_snapshot :: "receive_clock_transition \<Rightarrow> receive_clock_snapshot" where
  "transition_snapshot (TransHealthy s) = s"
| "transition_snapshot (TransRecovered s) = s"
| "transition_snapshot (TransBecameUnhealthy s) = s"
| "transition_snapshot (TransRecovering s) = s"
| "transition_snapshot (TransUnhealthy s) = s"

definition observe_clock ::
  "('i, 's) daemon_env \<Rightarrow> generation_clock_sample \<Rightarrow> monotonic_instant \<Rightarrow> ('i, 's) coordinator
   \<Rightarrow> ('i, 's, receive_lifecycle_event option) outcome" where
  "observe_clock env observation observed_at c =
     (case require_receiving (lc_state c) of
        Inl e \<Rightarrow> (Err e, c)
      | Inr _ \<Rightarrow>
          (case lc_clock c of
             None \<Rightarrow> (Err (InvalidLifecycle (lc_state c)), c)
           | Some m \<Rightarrow>
               (case clock_observe m observation observed_at of (t, m') \<Rightarrow>
                  let c1 = c\<lparr>lc_clock := Some m'\<rparr> in
                  case snap_state (transition_snapshot t) of
                    ClockHealthy \<Rightarrow> (Ok None, c1)
                  | ClockUnhealthy fault _ _ \<Rightarrow>
                      (case inhibit env (InhibitClock fault) c1 of (ev, c2) \<Rightarrow> (Ok (Some ev), c2)))))"

text \<open>The loop that feeds a window to the waterfall in bounded chunks.\<close>

function feed_spectrum ::
  "level_fn \<Rightarrow> ft8_receive_window \<Rightarrow> nat \<Rightarrow> spectrum_model \<Rightarrow> (spectrum_model_error, unit) result \<times> spectrum_model" where
  "feed_spectrum level w offset m =
     (if offset < length (win_samples w)
      then let count = min (length (win_samples w) - offset) MAX_SPECTRUM_CHUNK_SAMPLES in
        if int offset > u32_max \<or> int count > u32_max then (Err SpectrumArithmeticOverflow, m)
        else (case chunk_from_window w offset count None of
                Inl e \<Rightarrow> (Err e, m)
              | Inr chunk \<Rightarrow>
                  (case spectrum_push level m chunk of
                     (Inl e, m1) \<Rightarrow> (Err e, m1)
                   | (Inr _, m1) \<Rightarrow> feed_spectrum level w (offset + count) m1))
      else (Ok (), m))"
  by pat_completeness auto
termination
  by (relation "measure (\<lambda>(level, w, offset, m). length (win_samples w) - offset)")
    (auto simp: MAX_SPECTRUM_CHUNK_SAMPLES_def)

declare feed_spectrum.simps [simp del]

definition window_waterfall ::
  "level_fn \<Rightarrow> ft8_receive_window \<Rightarrow> ('i, 's) coordinator
   \<Rightarrow> (spectrum_model_error, waterfall_snapshot option) result \<times> ('i, 's) coordinator" where
  "window_waterfall level w c =
     (case lc_spectrum c of
        None \<Rightarrow> (Ok None, c)
      | Some m \<Rightarrow>
          (case feed_spectrum level w 0 m of
             (Inl e, m1) \<Rightarrow> (Err e, c\<lparr>lc_spectrum := Some m1\<rparr>)
           | (Inr _, m1) \<Rightarrow>
               (case take_snapshot m1 of (snapshot, m2) \<Rightarrow> (Ok snapshot, c\<lparr>lc_spectrum := Some m2\<rparr>))))"

text \<open>The decode of one aligned window, up to the record to store; \<open>Inl\<close> of the inner result is an
  inhibition.\<close>

definition window_pcm :: "ft8_receive_window \<Rightarrow> (pcm_error, pcm_buffer) result" where
  "window_pcm w =
     rbind (pcm_format_new FT8_RECEIVE_SAMPLE_RATE_HZ 1 Signed16LittleEndian) (\<lambda>format.
       pcm_buffer_new format (win_samples w))"

definition window_context ::
  "('i, 's) coordinator \<Rightarrow> receive_window_id \<Rightarrow> ft8_receive_window \<Rightarrow> receive_window_context" where
  "window_context c wid w =
     \<lparr>rc_receive_window_id = wid, rc_service_instance_id = lc_service_instance_id c,
      rc_process_generation = win_process_generation w, rc_stream_generation = win_stream_generation w,
      rc_slot = window_slot w, rc_device_identity = sel_device_identity (lc_selection c),
      rc_configuration = sel_configuration (lc_selection c), rc_capture_mapping = win_mapping w\<rparr>"

definition window_record ::
  "('i, 's) coordinator \<Rightarrow> receive_window_id \<Rightarrow> ft8_receive_window \<Rightarrow> receive_window_alignment \<Rightarrow> input_health
   \<Rightarrow> ft8_receive_timeline \<Rightarrow> ft8_decode list \<Rightarrow> int \<Rightarrow> (storage_error, receive_record) result" where
  "window_record c wid w alignment audio t decodes recorded =
     receive_record_new (window_context c wid w)
       \<lparr>rd_audio = audio, rd_timeline = tl_health t, rd_clock = StoredHealthy (align_mapping_age_millis alignment)\<rparr>
       decodes recorded"

text \<open>One ready window: the events it adds and whether the loop over the timeline events goes on.\<close>

definition process_window ::
  "('i, 's) daemon_env \<Rightarrow> input_health \<Rightarrow> int \<Rightarrow> ft8_receive_window \<Rightarrow> receive_window_alignment
   \<Rightarrow> ('i, 's) coordinator \<Rightarrow> ('i, 's, receive_poll_event list \<times> bool) outcome" where
  "process_window env audio recorded w alignment c =
     (case window_waterfall (env_level env) w c of
        (Inl e, c1) \<Rightarrow> (Err (CoordinatorSpectrum e), c1)
      | (Inr waterfall, c1) \<Rightarrow>
          (case window_pcm w of
             Inl e \<Rightarrow> (Err (CoordinatorPcm e), c1)
           | Inr pcm \<Rightarrow>
               (case env_decode env pcm (lc_decode_config c1) of
                  Inl _ \<Rightarrow> (case inhibit env DecoderFailure c1 of (ev, c2) \<Rightarrow> (Ok ([Lifecycle ev], False), c2))
                | Inr decodes \<Rightarrow>
                    (case make_receive_window_id (env_sha256 env) (lc_service_instance_id c1) (lc_selection c1)
                            (win_process_generation w) (win_stream_generation w) (win_slot_start_utc_millis w) of
                       Inl e \<Rightarrow> (Err (CoordinatorIdentity e), c1)
                     | Inr wid \<Rightarrow>
                         (case lc_timeline c1 of
                            None \<Rightarrow> (Err (InvalidLifecycle (lc_state c1)), c1)
                          | Some t \<Rightarrow>
                              (case window_record c1 wid w alignment audio t decodes recorded of
                                 Inl _ \<Rightarrow> (case inhibit env StorageFailure c1 of (ev, c2) \<Rightarrow> (Ok ([Lifecycle ev], False), c2))
                               | Inr record \<Rightarrow>
                                   (case env_record_receive env (lc_store c1) record of
                                      (Inl _, s) \<Rightarrow>
                                        (case inhibit env StorageFailure (c1\<lparr>lc_store := s\<rparr>) of
                                           (ev, c2) \<Rightarrow> (Ok ([Lifecycle ev], False), c2))
                                    | (Inr outcome, s) \<Rightarrow>
                                        (Ok (Persisted wid outcome (length (rr_decodes record)) #
                                             (case waterfall of None \<Rightarrow> [] | Some snapshot \<Rightarrow> [Waterfall snapshot]), True),
                                         c1\<lparr>lc_store := s\<rparr>))))))))"

fun process_events ::
  "('i, 's) daemon_env \<Rightarrow> input_health \<Rightarrow> monotonic_instant \<Rightarrow> int \<Rightarrow> receive_timeline_event list
   \<Rightarrow> receive_poll_event list \<Rightarrow> ('i, 's) coordinator \<Rightarrow> ('i, 's, receive_poll_event list) outcome" where
  "process_events env audio observed_at recorded [] results c = (Ok results, c)"
| "process_events env audio observed_at recorded (event # events) results c =
     (case lc_clock c of
        None \<Rightarrow> (Err (InvalidLifecycle (lc_state c)), c)
      | Some m \<Rightarrow>
          (case clock_gate m event observed_at of (gated, m') \<Rightarrow>
             let c1 = c\<lparr>lc_clock := Some m'\<rparr> in
             case gated of
               GatedIncomplete i \<Rightarrow>
                 process_events env audio observed_at recorded events
                   (results @ [PollIncomplete (start_utc_unix_millis (inc_slot i)) (inc_accumulated_samples i)]) c1
             | WindowRejected slot fault \<Rightarrow>
                 (case inhibit env (InhibitClock fault) c1 of (ev, c2) \<Rightarrow> (Ok (results @ [Lifecycle ev]), c2))
             | WindowReady w alignment \<Rightarrow>
                 (case process_window env audio recorded w alignment c1 of
                    (Inl e, c2) \<Rightarrow> (Err e, c2)
                  | (Inr (new, go), c2) \<Rightarrow>
                      if go then process_events env audio observed_at recorded events (results @ new) c2
                      else (Ok (results @ new), c2))))"

definition process_batch ::
  "('i, 's) daemon_env \<Rightarrow> capture_batch \<Rightarrow> input_health \<Rightarrow> monotonic_instant \<Rightarrow> int
   \<Rightarrow> ('i, 's) coordinator \<Rightarrow> ('i, 's, receive_poll_event list) outcome" where
  "process_batch env batch audio observed_at recorded c =
     (case lc_timeline c of
        None \<Rightarrow> (Err (InvalidLifecycle (lc_state c)), c)
      | Some t \<Rightarrow>
          (case timeline_push t batch observed_at of
             (Inl e, t') \<Rightarrow> inhibited_poll env (InhibitTimeline e) (c\<lparr>lc_timeline := Some t'\<rparr>)
           | (Inr events, t') \<Rightarrow>
               process_events env audio observed_at recorded events [] (c\<lparr>lc_timeline := Some t'\<rparr>)))"

text \<open>The loop that admits batches; its counter is the room left in the backlog.\<close>

fun admit_batches ::
  "('i, 's) daemon_env \<Rightarrow> nat \<Rightarrow> ('i, 's) coordinator \<Rightarrow> (input_capture_error, unit) result \<times> ('i, 's) coordinator" where
  "admit_batches env 0 c = (Ok (), c)"
| "admit_batches env (Suc n) c =
     (case ri_next_batch (env_input env) (lc_input c) of
        (Inl e, i) \<Rightarrow> (Err e, c\<lparr>lc_input := i\<rparr>)
      | (Inr None, i) \<Rightarrow> (Ok (), c\<lparr>lc_input := i\<rparr>)
      | (Inr (Some batch), i) \<Rightarrow>
          admit_batches env n (c\<lparr>lc_input := i, lc_worker_batches := lc_worker_batches c @ [batch]\<rparr>))"

definition poll_admitted ::
  "('i, 's) daemon_env \<Rightarrow> input_health \<Rightarrow> monotonic_instant \<Rightarrow> int \<Rightarrow> ('i, 's) coordinator
   \<Rightarrow> ('i, 's, receive_poll_event list) outcome" where
  "poll_admitted env audio observed_at recorded c =
     (case admit_batches env (WORKER_BATCH_CAPACITY - length (lc_worker_batches c)) c of
        (Inl e, c1) \<Rightarrow> inhibited_poll env (InhibitInput (capture_error_kind e)) c1
      | (Inr _, c1) \<Rightarrow>
          (case lc_worker_batches c1 of
             [] \<Rightarrow> (Ok [], c1)
           | batch # rest \<Rightarrow>
               process_batch env batch audio observed_at recorded (c1\<lparr>lc_worker_batches := rest\<rparr>)))"

definition poll ::
  "('i, 's) daemon_env \<Rightarrow> monotonic_instant \<Rightarrow> int \<Rightarrow> ('i, 's) coordinator
   \<Rightarrow> ('i, 's, receive_poll_event list) outcome" where
  "poll env observed_at recorded c =
     (case require_receiving (lc_state c) of
        Inl e \<Rightarrow> (Err e, c)
      | Inr _ \<Rightarrow>
          (case ri_next_fault (env_input env) (lc_input c) of
             (Some fault, i) \<Rightarrow> inhibited_poll env (InhibitInput (fault_kind fault)) (c\<lparr>lc_input := i\<rparr>)
           | (None, i) \<Rightarrow>
               (case ri_health (env_input env) i of
                  (Inl e, j) \<Rightarrow> inhibited_poll env (InhibitInput (capture_error_kind e)) (c\<lparr>lc_input := j\<rparr>)
                | (Inr audio, j) \<Rightarrow>
                    let c1 = c\<lparr>lc_input := j\<rparr> in
                    if ih_overflow_count audio > 0 then inhibited_poll env (InhibitInput (FaultOverflow 0)) c1
                    else (case lc_clock c1 of
                            None \<Rightarrow> (Err (InvalidLifecycle (lc_state c1)), c1)
                          | Some m \<Rightarrow>
                              (case clock_snapshot m observed_at of (snapshot, m') \<Rightarrow>
                                 let c2 = c1\<lparr>lc_clock := Some m'\<rparr> in
                                 case snap_state snapshot of
                                   ClockUnhealthy fault _ _ \<Rightarrow> inhibited_poll env (InhibitClock fault) c2
                                 | ClockHealthy \<Rightarrow> poll_admitted env audio observed_at recorded c2)))))"

fun stoppable_generation :: "receive_lifecycle_state \<Rightarrow> stream_generation option" where
  "stoppable_generation (Receiving sg) = Some sg"
| "stoppable_generation (Inhibited sg r) = Some sg"
| "stoppable_generation _ = None"

definition stop ::
  "('i, 's) daemon_env \<Rightarrow> receive_stop_reason \<Rightarrow> ('i, 's) coordinator
   \<Rightarrow> ('i, 's, receive_lifecycle_event list) outcome" where
  "stop env reason c =
     (case stoppable_generation (lc_state c) of
        None \<Rightarrow> (Err (InvalidLifecycle (lc_state c)), c)
      | Some sg \<Rightarrow>
          (case transition (Stopping sg reason) c of (first, c1) \<Rightarrow>
             case transition (Stopped (lc_process_generation c1) (lc_last_stream_generation c1))
               (c1\<lparr>lc_input := snd (ri_stop (env_input env) (lc_input c1)), lc_timeline := None, lc_clock := None,
                   lc_worker_batches := [],
                   lc_spectrum := map_option (spectrum_reset SpectrumStreamGenerationChanged) (lc_spectrum c1)\<rparr>) of
               (ev, c2) \<Rightarrow> (Ok [first, ev], c2)))"

section \<open>The contract of an input\<close>

text \<open>
  What the coordinator relies on: a closed input opens exactly if \<open>start\<close> succeeds, \<open>stop\<close> closes
  it whatever it reports, and the reading operations leave it as it is.
\<close>

locale input_contract =
  fixes inp :: "'i receive_input" and is_open :: "'i \<Rightarrow> bool"
  assumes start_opens: "\<not> is_open i \<Longrightarrow> ri_start inp i sel pg sg = (r, j) \<Longrightarrow> is_open j = is_ok r"
    and next_batch_keeps: "ri_next_batch inp i = (b, j) \<Longrightarrow> is_open j = is_open i"
    and next_fault_keeps: "ri_next_fault inp i = (f, j) \<Longrightarrow> is_open j = is_open i"
    and health_keeps: "ri_health inp i = (h, j) \<Longrightarrow> is_open j = is_open i"
    and stop_closes: "\<not> is_open (snd (ri_stop inp i))"

definition idle :: "('i \<Rightarrow> bool) \<Rightarrow> ('i, 's) coordinator \<Rightarrow> bool" where
  "idle is_open c \<longleftrightarrow> \<not> is_open (lc_input c) \<and> lc_timeline c = None \<and> lc_clock c = None \<and> lc_worker_batches c = []"

text \<open>The invariant between two operations.\<close>

definition coordinator_ok :: "('i \<Rightarrow> bool) \<Rightarrow> ('i, 's) coordinator \<Rightarrow> bool" where
  "coordinator_ok is_open c \<longleftrightarrow>
     valid_clock_config (lc_clock_config c) \<and> in_range 0 u64_max (lc_last_stream_generation c) \<and>
     length (lc_worker_batches c) \<le> WORKER_BATCH_CAPACITY \<and>
     (case lc_state c of
        Receiving sg \<Rightarrow> sg = StreamGeneration (lc_last_stream_generation c) \<and> is_open (lc_input c) \<and>
          lc_timeline c \<noteq> None \<and> (\<exists>m. lc_clock c = Some m \<and> rcm_state m = ClockHealthy)
      | Stopped pg n \<Rightarrow> pg = lc_process_generation c \<and> n = lc_last_stream_generation c \<and> idle is_open c
      | Inhibited sg r \<Rightarrow> sg = StreamGeneration (lc_last_stream_generation c) \<and> idle is_open c
      | _ \<Rightarrow> False)"

text \<open>A receiving coordinator in the middle of an operation: its clock may just have failed.\<close>

definition mid_poll :: "('i \<Rightarrow> bool) \<Rightarrow> ('i, 's) coordinator \<Rightarrow> bool" where
  "mid_poll is_open c \<longleftrightarrow>
     valid_clock_config (lc_clock_config c) \<and> in_range 0 u64_max (lc_last_stream_generation c) \<and>
     length (lc_worker_batches c) \<le> WORKER_BATCH_CAPACITY \<and> is_open (lc_input c) \<and> lc_timeline c \<noteq> None \<and>
     lc_state c = Receiving (StreamGeneration (lc_last_stream_generation c))"

datatype coordinator_op =
    OpStart generation_clock_sample
  | OpObserveClock generation_clock_sample monotonic_instant
  | OpPoll monotonic_instant int
  | OpStop receive_stop_reason
  | OpEnableSpectrum spectrum_config

fun coordinator_step ::
  "('i, 's) daemon_env \<Rightarrow> ('i, 's) coordinator \<Rightarrow> coordinator_op \<Rightarrow> ('i, 's) coordinator" where
  "coordinator_step env c (OpStart sample) = snd (start env sample c)"
| "coordinator_step env c (OpObserveClock sample t) = snd (observe_clock env sample t c)"
| "coordinator_step env c (OpPoll t recorded) = snd (poll env t recorded c)"
| "coordinator_step env c (OpStop reason) = snd (stop env reason c)"
| "coordinator_step env c (OpEnableSpectrum config) = snd (enable_spectrum env config c)"

lemma require_receiving_Ok [simp]: "require_receiving s = Inr sg \<longleftrightarrow> s = Receiving sg"
  by (cases s) auto

lemma require_receiving_Err: "require_receiving s = Inl e \<Longrightarrow> \<forall>sg. s \<noteq> Receiving sg"
  by (cases s) auto

lemma snapshot_state: "clock_snapshot m t = (s, m') \<Longrightarrow> rcm_state m' = snap_state s"
  by (auto simp: clock_snapshot_def Let_def snapshot_unchecked_def)

lemma gate_ready_healthy: "clock_gate m ev t = (WindowReady w a, m') \<Longrightarrow> rcm_state m' = ClockHealthy"
  by (auto simp: clock_gate_def Let_def dest: snapshot_state split: receive_timeline_event.splits prod.splits
      receive_clock_state.splits sum.splits)

lemma gate_incomplete_same: "clock_gate m ev t = (GatedIncomplete i, m') \<Longrightarrow> m' = m"
  by (auto simp: clock_gate_def Let_def split: receive_timeline_event.splits prod.splits
      receive_clock_state.splits sum.splits)

lemma observe_snapshot_state: "clock_observe m obs t = (tr, m') \<Longrightarrow> rcm_state m' = snap_state (transition_snapshot tr)"
  by (auto simp: clock_observe_def latch_def Let_def snapshot_unchecked_def dest: snapshot_state
      split: if_splits option.splits receive_clock_state.splits prod.splits)

lemma mid_poll_ok:
  "mid_poll is_open c \<Longrightarrow> lc_clock c = Some m \<Longrightarrow> rcm_state m = ClockHealthy \<Longrightarrow> coordinator_ok is_open c"
  by (auto simp: mid_poll_def coordinator_ok_def)

lemma ok_mid_poll: "coordinator_ok is_open c \<Longrightarrow> lc_state c = Receiving sg \<Longrightarrow> mid_poll is_open c"
  by (auto simp: mid_poll_def coordinator_ok_def)

lemma mid_poll_update [simp]:
  "mid_poll is_open (c\<lparr>lc_clock := k\<rparr>) = mid_poll is_open c" "mid_poll is_open (c\<lparr>lc_store := s\<rparr>) = mid_poll is_open c"
  "mid_poll is_open (c\<lparr>lc_spectrum := sp\<rparr>) = mid_poll is_open c"
  by (simp_all add: mid_poll_def)

context input_contract
begin

lemma inhibit_ok:
  assumes "env_input env = inp" "mid_poll is_open c" "inhibit env reason c = (ev, c')"
  shows "coordinator_ok is_open c'" "le_current ev = lc_state c'" "lc_state c' \<noteq> lc_state c" "lc_store c' = lc_store c"
  using assms stop_closes by (auto simp: inhibit_def transition_def mid_poll_def coordinator_ok_def idle_def)

lemma inhibited_poll_ok:
  "env_input env = inp \<Longrightarrow> mid_poll is_open c \<Longrightarrow> coordinator_ok is_open (snd (inhibited_poll env reason c))"
  using inhibit_ok(1) [of env c reason] by (cases "inhibit env reason c") (auto simp: inhibited_poll_def)

end

lemma window_waterfall_keeps:
  "window_waterfall level w c = (r, c') \<Longrightarrow> \<exists>sp. c' = c\<lparr>lc_spectrum := sp\<rparr>"
  by (auto simp: window_waterfall_def split: option.splits prod.splits sum.splits)
    (metis coordinator.surjective coordinator.update_convs(13))+

context input_contract
begin

lemma process_window_ok:
  assumes env: "env_input env = inp" and c: "mid_poll is_open c" and m: "lc_clock c = Some m" "rcm_state m = ClockHealthy"
    and r: "process_window env audio recorded w alignment c = (r, c')"
  shows "coordinator_ok is_open c' \<and> (\<forall>evs. r = Inr (evs, True) \<longrightarrow> mid_poll is_open c' \<and> lc_clock c' = Some m)"
proof -
  obtain wr c1 where wf: "window_waterfall (env_level env) w c = (wr, c1)" by (cases "window_waterfall (env_level env) w c")
  then obtain sp where c1: "c1 = c\<lparr>lc_spectrum := sp\<rparr>" using window_waterfall_keeps by blast
  have ok1: "coordinator_ok is_open c1" "mid_poll is_open c1" "lc_clock c1 = Some m"
    using mid_poll_ok [of is_open c1 m] c m c1 by simp_all
  have ok2: "coordinator_ok is_open (c1\<lparr>lc_store := s\<rparr>)" "mid_poll is_open (c1\<lparr>lc_store := s\<rparr>)" for s
    using mid_poll_ok [of is_open "c1\<lparr>lc_store := s\<rparr>" m] c m c1 by simp_all
  show ?thesis
    using r wf ok1 ok2 inhibit_ok(1) [OF env ok1(2)] inhibit_ok(1) [OF env ok2(2)]
    by (auto simp: process_window_def split: sum.splits option.splits prod.splits)
qed

lemma process_events_ok:
  assumes env: "env_input env = inp"
  shows "mid_poll is_open c \<Longrightarrow> lc_clock c = Some m \<Longrightarrow> rcm_state m = ClockHealthy \<Longrightarrow>
    coordinator_ok is_open (snd (process_events env audio t recorded events results c))"
proof (induction events arbitrary: c m results)
  case (Cons event events)
  obtain g m' where g: "clock_gate m event t = (g, m')" by (cases "clock_gate m event t")
  let ?c1 = "c\<lparr>lc_clock := Some m'\<rparr>"
  have c1: "mid_poll is_open ?c1" using Cons.prems(1) by simp
  show ?case
  proof (cases g)
    case (WindowReady w a)
    obtain r c2 where w: "process_window env audio recorded w a ?c1 = (r, c2)" by (cases "process_window env audio recorded w a ?c1")
    have h: "rcm_state m' = ClockHealthy" using gate_ready_healthy g WindowReady by blast
    have ok: "coordinator_ok is_open c2" "\<And>evs. r = Inr (evs, True) \<Longrightarrow> mid_poll is_open c2 \<and> lc_clock c2 = Some m'"
      using process_window_ok [OF env c1 _ h w] by simp_all
    show ?thesis
    proof (cases "\<exists>evs. r = Inr (evs, True)")
      case True
      then obtain evs where evs: "r = Inr (evs, True)" by blast
      then show ?thesis using Cons.IH [of c2 m'] ok h Cons.prems g WindowReady w by simp
    next
      case False
      then show ?thesis using ok(1) Cons.prems g WindowReady w by (auto split: sum.splits)
    qed
  next
    case (WindowRejected slot fault)
    then show ?thesis using inhibit_ok(1) [OF env c1] Cons.prems g by (auto split: prod.splits)
  next
    case (GatedIncomplete i)
    then have "m' = m" using gate_incomplete_same g by blast
    then show ?thesis using Cons.IH [OF c1, of m] Cons.prems g GatedIncomplete by simp
  qed
qed (simp add: mid_poll_ok)

lemma process_batch_ok:
  assumes env: "env_input env = inp" and c: "mid_poll is_open c" "lc_clock c = Some m" "rcm_state m = ClockHealthy"
  shows "coordinator_ok is_open (snd (process_batch env batch audio t recorded c))"
proof (cases "lc_timeline c")
  case None
  then show ?thesis using c by (simp add: mid_poll_def)
next
  case (Some tl)
  obtain r tl' where p: "timeline_push tl batch t = (r, tl')" by (cases "timeline_push tl batch t")
  have "mid_poll is_open (c\<lparr>lc_timeline := Some tl'\<rparr>)" using c(1) by (simp add: mid_poll_def)
  then show ?thesis
    using inhibited_poll_ok [OF env] process_events_ok [OF env, of "c\<lparr>lc_timeline := Some tl'\<rparr>" m] c Some p
    by (cases r) (simp_all add: process_batch_def)
qed

lemma admit_ok:
  assumes env: "env_input env = inp"
  shows "mid_poll is_open c \<Longrightarrow> lc_clock c = Some m \<Longrightarrow> length (lc_worker_batches c) + n \<le> WORKER_BATCH_CAPACITY \<Longrightarrow>
    admit_batches env n c = (r, c') \<Longrightarrow> mid_poll is_open c' \<and> lc_clock c' = Some m"
proof (induction n arbitrary: c)
  case (Suc n)
  obtain b i where b: "ri_next_batch inp (lc_input c) = (b, i)" by (cases "ri_next_batch inp (lc_input c)")
  have i: "is_open i" using next_batch_keeps [OF b] Suc.prems(1) by (simp add: mid_poll_def)
  consider e where "b = Inl e" | "b = Inr None" | batch where "b = Inr (Some batch)" by (cases b; auto)
  then show ?case
  proof cases
    case 3
    then show ?thesis
      using Suc.IH [of "c\<lparr>lc_input := i, lc_worker_batches := lc_worker_batches c @ [batch]\<rparr>"] Suc.prems b i env
      by (simp add: mid_poll_def)
  qed (use Suc.prems b i env in \<open>auto simp: mid_poll_def\<close>)
qed simp

lemma poll_admitted_ok:
  assumes env: "env_input env = inp" and c: "mid_poll is_open c" "lc_clock c = Some m" "rcm_state m = ClockHealthy"
  shows "coordinator_ok is_open (snd (poll_admitted env audio t recorded c))"
proof -
  let ?n = "WORKER_BATCH_CAPACITY - length (lc_worker_batches c)"
  obtain r c1 where a: "admit_batches env ?n c = (r, c1)" by (cases "admit_batches env ?n c")
  have c1: "mid_poll is_open c1" "lc_clock c1 = Some m"
    using admit_ok [OF env c(1,2) _ a] c(1) by (simp_all add: mid_poll_def)
  have rest: "mid_poll is_open (c1\<lparr>lc_worker_batches := rest\<rparr>)" if "lc_worker_batches c1 = b # rest" for b rest
    using c1(1) that by (simp add: mid_poll_def)
  show ?thesis
    using a c1 rest c(3) mid_poll_ok [OF c1(1,2) c(3)] inhibited_poll_ok [OF env c1(1)] process_batch_ok [OF env _ _ c(3)]
    by (cases r; cases "lc_worker_batches c1") (auto simp: poll_admitted_def)
qed

lemma poll_ok:
  assumes env: "env_input env = inp" and ok: "coordinator_ok is_open c"
  shows "coordinator_ok is_open (snd (poll env t recorded c))"
proof (cases "\<exists>sg. lc_state c = Receiving sg")
  case False
  then show ?thesis using ok by (cases "lc_state c") (auto simp: poll_def)
next
  case True
  then obtain sg where sg: "lc_state c = Receiving sg" by blast
  then obtain m where m: "lc_clock c = Some m" "rcm_state m = ClockHealthy" using ok by (auto simp: coordinator_ok_def)
  have mid: "mid_poll is_open c" using ok_mid_poll [OF ok sg] .
  obtain f i where f: "ri_next_fault inp (lc_input c) = (f, i)" by (cases "ri_next_fault inp (lc_input c)")
  obtain h j where h: "ri_health inp i = (h, j)" by (cases "ri_health inp i")
  have mi: "mid_poll is_open (c\<lparr>lc_input := i\<rparr>)" "mid_poll is_open (c\<lparr>lc_input := j\<rparr>)"
    using mid next_fault_keeps [OF f] health_keeps [OF h] by (simp_all add: mid_poll_def)
  obtain s m' where s: "clock_snapshot m t = (s, m')" by (cases "clock_snapshot m t")
  have mj: "mid_poll is_open (c\<lparr>lc_input := j, lc_clock := Some m'\<rparr>)" using mi(2) by simp
  show ?thesis
  proof (cases f)
    case (Some fault)
    then show ?thesis using sg f env inhibited_poll_ok [OF env mi(1)] by (simp add: poll_def)
  next
    case None
    show ?thesis
    proof (cases "snap_state s")
      case ClockHealthy
      then have "rcm_state m' = ClockHealthy" using snapshot_state [OF s] by simp
      then show ?thesis
        using sg f h s m None ClockHealthy env inhibited_poll_ok [OF env mi(2)] poll_admitted_ok [OF env mj, of m']
        by (cases h) (auto simp: poll_def Let_def)
    next
      case (ClockUnhealthy fault p n)
      then show ?thesis
        using sg f h s m None env inhibited_poll_ok [OF env mi(2)] inhibited_poll_ok [OF env mj]
        by (cases h) (auto simp: poll_def Let_def)
    qed
  qed
qed

end

context input_contract
begin

lemma start_ok:
  assumes env: "env_input env = inp" and ok: "coordinator_ok is_open c"
  shows "coordinator_ok is_open (snd (start env sample c))"
proof (cases "lc_state c")
  case (Stopped pg n)
  then have idle: "idle is_open c" and v: "valid_clock_config (lc_clock_config c)"
      and n: "0 \<le> lc_last_stream_generation c" "n = lc_last_stream_generation c"
    using ok by (simp_all add: coordinator_ok_def in_range_def)
  let ?n = "lc_last_stream_generation c + 1"
  show ?thesis
  proof (cases "?n \<le> u64_max")
    case False
    then show ?thesis using Stopped ok n by (simp add: start_def)
  next
    case True
    have g: "stream_generation_new ?n = Ok (StreamGeneration ?n)" "checked_u64 ?n = Some ?n"
      using n True by (simp_all add: stream_generation_new_def)
    obtain r j where rs: "ri_start inp (lc_input c) (lc_selection c) (lc_process_generation c) (StreamGeneration ?n) = (r, j)"
      by (cases "ri_start inp (lc_input c) (lc_selection c) (lc_process_generation c) (StreamGeneration ?n)")
    have j: "is_open j = is_ok r" using start_opens [OF _ rs] idle by (simp add: idle_def)
    obtain m where m: "receive_clock_monitor_new sample (lc_clock_config c) = Ok m" "rcm_state m = ClockHealthy"
      using receive_clock_monitor_new_Ok [of sample "lc_clock_config c"] v by auto
    show ?thesis
      using Stopped g rs j m idle v n True env
      by (cases r) (auto simp: start_def transition_def coordinator_ok_def idle_def in_range_def)
  qed
qed (use ok in \<open>auto simp: start_def\<close>)

lemma observe_ok:
  assumes env: "env_input env = inp" and ok: "coordinator_ok is_open c"
  shows "coordinator_ok is_open (snd (observe_clock env sample t c))"
proof (cases "\<exists>sg. lc_state c = Receiving sg")
  case False
  then show ?thesis using ok by (cases "lc_state c") (auto simp: observe_clock_def)
next
  case True
  then obtain sg where sg: "lc_state c = Receiving sg" by blast
  then obtain m where m: "lc_clock c = Some m" using ok by (auto simp: coordinator_ok_def)
  obtain tr m' where o: "clock_observe m sample t = (tr, m')" by (cases "clock_observe m sample t")
  have mid: "mid_poll is_open (c\<lparr>lc_clock := Some m'\<rparr>)" using ok_mid_poll [OF ok sg] by simp
  show ?thesis
  proof (cases "snap_state (transition_snapshot tr)")
    case ClockHealthy
    then show ?thesis
      using mid_poll_ok [OF mid, of m'] observe_snapshot_state [OF o] sg m o by (simp add: observe_clock_def)
  next
    case (ClockUnhealthy fault p n)
    then show ?thesis
      using inhibit_ok(1) [OF env mid] sg m o by (auto simp: observe_clock_def split: prod.splits)
  qed
qed

lemma stop_ok:
  assumes env: "env_input env = inp" and ok: "coordinator_ok is_open c"
  shows "coordinator_ok is_open (snd (stop env reason c))"
  using ok stop_closes env
  by (cases "lc_state c") (auto simp: stop_def transition_def coordinator_ok_def idle_def)

lemma enable_ok:
  assumes ok: "coordinator_ok is_open c" shows "coordinator_ok is_open (snd (enable_spectrum env config c))"
proof (cases "spectrum_model_new (env_scratch_len env) config")
  case (Inr m)
  then show ?thesis
    using ok by (cases "lc_state c") (simp_all add: enable_spectrum_def coordinator_ok_def idle_def)
qed (use ok in \<open>simp add: enable_spectrum_def\<close>)

lemma step_ok:
  "env_input env = inp \<Longrightarrow> coordinator_ok is_open c \<Longrightarrow> coordinator_ok is_open (coordinator_step env c op)"
  by (cases op) (simp_all add: start_ok observe_ok poll_ok stop_ok enable_ok)

lemma new_ok:
  "\<not> is_open i \<Longrightarrow> valid_clock_config (co_clock config) \<Longrightarrow> coordinator_ok is_open (coordinator_new i s config)"
  by (simp add: coordinator_ok_def coordinator_new_def idle_def in_range_def)

lemma run_ok:
  assumes "env_input env = inp" "\<not> is_open i" "valid_clock_config (co_clock config)"
  shows "coordinator_ok is_open (foldl (coordinator_step env) (coordinator_new i s config) ops)"
proof -
  have run: "coordinator_ok is_open c \<Longrightarrow> coordinator_ok is_open (foldl (coordinator_step env) c ops)" for c
    by (induction ops arbitrary: c) (simp_all add: step_ok [OF assms(1)])
  show ?thesis by (rule run [OF new_ok [OF assms(2,3)]])
qed

end

interpretation system_input_open:
  input_contract "system_input host" "\<lambda>i. sri_capture i \<noteq> None" for host :: "('d, 's) native_host"
  by unfold_locales
    (auto simp: system_input_def sri_start_def sri_next_batch_def sri_next_fault_def sri_health_def sri_stop_def
      split: if_splits option.splits sum.splits prod.splits)

section \<open>Properties\<close>

abbreviation capture_open :: "('n system_receive_input, 's) coordinator \<Rightarrow> bool" where
  "capture_open c \<equiv> sri_capture (lc_input c) \<noteq> None"



text \<open>Where a stored window comes from.\<close>

definition persisted_window ::
  "('i, 's) daemon_env \<Rightarrow> ('i, 's) coordinator \<Rightarrow> input_health \<Rightarrow> monotonic_instant \<Rightarrow> int \<Rightarrow> ft8_receive_timeline
   \<Rightarrow> ft8_receive_window \<Rightarrow> receive_window_id \<Rightarrow> receive_insert_outcome \<Rightarrow> nat \<Rightarrow> bool" where
  "persisted_window env c audio observed_at recorded t w wid outcome n \<longleftrightarrow>
     (\<exists>m m' alignment pcm decodes r s s'.
        clock_gate m (Window w) observed_at = (WindowReady w alignment, m') \<and> rcm_state m' = ClockHealthy \<and>
        window_pcm w = Ok pcm \<and> env_decode env pcm (lc_decode_config c) = Ok decodes \<and>
        make_receive_window_id (env_sha256 env) (lc_service_instance_id c) (lc_selection c)
          (win_process_generation w) (win_stream_generation w) (win_slot_start_utc_millis w) = Ok wid \<and>
        window_record c wid w alignment audio t decodes recorded = Ok r \<and>
        env_record_receive env s r = (Ok outcome, s') \<and> n = length (rr_decodes r))"

text \<open>What the steps of a poll keep: identity, selection, decoder policy and the timeline.\<close>

definition same_setup :: "('i, 's) coordinator \<Rightarrow> ('i, 's) coordinator \<Rightarrow> bool" where
  "same_setup c d \<longleftrightarrow>
     lc_service_instance_id c = lc_service_instance_id d \<and> lc_selection c = lc_selection d \<and>
     lc_decode_config c = lc_decode_config d \<and> lc_timeline c = lc_timeline d"

lemma window_record_setup: "same_setup c d \<Longrightarrow> window_record c = window_record d"
  by (intro ext) (simp add: same_setup_def window_record_def window_context_def)

lemma persisted_window_setup:
  "same_setup c d \<Longrightarrow> persisted_window env c = persisted_window env d"
  by (intro ext) (simp add: persisted_window_def window_record_setup, simp add: same_setup_def)

lemma gate_ready_event: "clock_gate m ev t = (WindowReady w a, m') \<Longrightarrow> ev = Window w"
  by (auto simp: clock_gate_def Let_def split: receive_timeline_event.splits prod.splits
      receive_clock_state.splits sum.splits)

lemma persisted_windowI:
  assumes "clock_gate m (Window w) t = (WindowReady w alignment, m')" "rcm_state m' = ClockHealthy" "window_pcm w = Ok pcm"
    "env_decode env pcm (lc_decode_config c) = Ok decodes"
    "make_receive_window_id (env_sha256 env) (lc_service_instance_id c) (lc_selection c)
          (win_process_generation w) (win_stream_generation w) (win_slot_start_utc_millis w) = Ok wid"
    "window_record c wid w alignment audio tml decodes recorded = Ok r" "env_record_receive env s r = (Ok outcome, s')"
  shows "persisted_window env c audio t recorded tml w wid outcome (length (rr_decodes r))"
  unfolding persisted_window_def using assms by blast

lemma process_window_evidence:
  assumes r: "process_window env audio recorded w alignment c = (Inr (evs, go), c')"
    and gate: "clock_gate m (Window w) t = (WindowReady w alignment, m')" and tml: "lc_timeline c = Some tml"
  shows "(go \<longrightarrow> same_setup c' c \<and> (\<forall>l. Lifecycle l \<notin> set evs)) \<and> (\<not> go \<longrightarrow> (\<exists>l. evs = [Lifecycle l])) \<and>
    (\<forall>wid outcome n. Persisted wid outcome n \<in> set evs \<longrightarrow> persisted_window env c audio t recorded tml w wid outcome n)"
proof -
  obtain wr c1 where wf: "window_waterfall (env_level env) w c = (wr, c1)" by (cases "window_waterfall (env_level env) w c")
  then obtain sp where c1: "c1 = c\<lparr>lc_spectrum := sp\<rparr>" using window_waterfall_keeps by blast
  have su: "same_setup c1 c" by (simp add: c1 same_setup_def)
  have wr: "window_record (c\<lparr>lc_spectrum := sp\<rparr>) = window_record c" using window_record_setup su c1 by metis
  show ?thesis
    using r wf tml
    by (auto simp: process_window_def wr c1 same_setup_def split: sum.splits option.splits prod.splits
        intro: persisted_windowI [OF gate gate_ready_healthy [OF gate]])
qed

lemma process_events_evidence:
  "process_events env audio t recorded events results c = (Inr evs, c') \<Longrightarrow> lc_timeline c = Some tml \<Longrightarrow>
    (\<forall>l. Lifecycle l \<notin> set results) \<Longrightarrow>
    (\<exists>new. evs = results @ new \<and> (\<forall>l. Lifecycle l \<notin> set (butlast new)) \<and>
      (\<forall>wid outcome n. Persisted wid outcome n \<in> set new \<longrightarrow>
        (\<exists>w. Window w \<in> set events \<and> persisted_window env c audio t recorded tml w wid outcome n)))"
proof (induction events arbitrary: c results)
  case (Cons event events)
  obtain m where m: "lc_clock c = Some m" using Cons.prems(1) by (auto split: option.splits)
  obtain g m' where g: "clock_gate m event t = (g, m')" by (cases "clock_gate m event t")
  let ?c1 = "c\<lparr>lc_clock := Some m'\<rparr>"
  have s1: "same_setup ?c1 c" "lc_timeline ?c1 = Some tml" using Cons.prems(2) by (simp_all add: same_setup_def)
  show ?case
  proof (cases g)
    case (WindowReady w a)
    have ev: "event = Window w" using gate_ready_event g WindowReady by blast
    obtain new go c2 where w: "process_window env audio recorded w a ?c1 = (Inr (new, go), c2)"
      using Cons.prems(1) m g WindowReady by (auto split: sum.splits prod.splits)
    note e = process_window_evidence [OF w g [unfolded ev WindowReady] s1(2), unfolded persisted_window_setup [OF s1(1)]]
    show ?thesis
    proof (cases go)
      case True
      then have s2: "same_setup c2 c" and nl: "\<forall>l. Lifecycle l \<notin> set new" using e s1(1) by (auto simp: same_setup_def)
      have "process_events env audio t recorded events (results @ new) c2 = (Inr evs, c')"
        using Cons.prems(1) m g WindowReady w True by simp
      moreover have "lc_timeline c2 = Some tml" using s2 Cons.prems(2) by (simp add: same_setup_def)
      ultimately obtain more where more: "evs = (results @ new) @ more" "\<forall>l. Lifecycle l \<notin> set (butlast more)"
          "\<forall>wid outcome n. Persisted wid outcome n \<in> set more \<longrightarrow>
            (\<exists>w. Window w \<in> set events \<and> persisted_window env c audio t recorded tml w wid outcome n)"
        using Cons.IH [of "results @ new" c2] nl Cons.prems(3) unfolding persisted_window_setup [OF s2] by auto
      have "\<exists>w. Window w \<in> set (event # events) \<and> persisted_window env c audio t recorded tml w wid outcome n"
        if "Persisted wid outcome n \<in> set (new @ more)" for wid outcome n
        using that e more(3) ev unfolding set_append by (metis Un_iff list.set_intros)
      then show ?thesis
        using more(1,2) nl by (intro exI [of _ "new @ more"]) (auto simp: butlast_append dest: in_set_butlastD)
    next
      case False
      then show ?thesis using Cons.prems(1) m g WindowReady w e ev by (intro exI [of _ new]) auto
    qed
  next
    case (WindowRejected slot fault)
    then show ?thesis using Cons.prems(1) m g by (auto split: prod.splits)
  next
    case (GatedIncomplete i)
    let ?p = "PollIncomplete (start_utc_unix_millis (inc_slot i)) (inc_accumulated_samples i)"
    obtain more where more: "evs = (results @ [?p]) @ more" "\<forall>l. Lifecycle l \<notin> set (butlast more)"
        "\<forall>wid outcome n. Persisted wid outcome n \<in> set more \<longrightarrow>
          (\<exists>w. Window w \<in> set events \<and> persisted_window env c audio t recorded tml w wid outcome n)"
      using Cons.IH [of "results @ [?p]" ?c1] Cons.prems m g GatedIncomplete s1(2)
      unfolding persisted_window_setup [OF s1(1)] by auto
    have "\<exists>w. Window w \<in> set (event # events) \<and> persisted_window env c audio t recorded tml w wid outcome n"
      if "Persisted wid outcome n \<in> set (?p # more)" for wid outcome n
      using that more(3) by (metis list.set_intros(2) receive_poll_event.distinct(1) set_ConsD)
    then show ?thesis using more(1,2) by (intro exI [of _ "?p # more"]) auto
  qed
qed auto

lemma persisted_window_cong:
  assumes "lc_service_instance_id c = lc_service_instance_id d" "lc_selection c = lc_selection d"
    "lc_decode_config c = lc_decode_config d"
  shows "persisted_window env c = persisted_window env d"
proof -
  have "window_record c = window_record d"
    using assms by (intro ext) (simp add: window_record_def window_context_def)
  then show ?thesis using assms by (intro ext) (simp add: persisted_window_def)
qed

lemma admit_keeps:
  "admit_batches env n c = (r, c') \<Longrightarrow> lc_timeline c' = lc_timeline c \<and> lc_service_instance_id c' = lc_service_instance_id c \<and>
    lc_selection c' = lc_selection c \<and> lc_decode_config c' = lc_decode_config c"
proof (induction n arbitrary: c)
  case (Suc n)
  then show ?case by (fastforce split: prod.splits sum.splits option.splits)
qed auto

lemma inhibited_poll_single: "inhibited_poll env reason c = (r, c') \<Longrightarrow> \<exists>l. r = Ok [Lifecycle l]"
  by (auto simp: inhibited_poll_def split: prod.splits)


text \<open>The rounds the feeding loop needs from an offset on.\<close>

definition feed_rounds :: "nat \<Rightarrow> nat" where
  "feed_rounds offset = (180000 - offset + 4095) div 4096"

lemma feed_rounds_step: "offset < 180000 \<Longrightarrow> feed_rounds offset = Suc (feed_rounds (offset + min (180000 - offset) 4096))"
proof -
  assume o: "offset < 180000"
  show ?thesis
  proof (cases "180000 - offset \<le> 4096")
    case True
    then have "180000 - offset + 4095 < 2 * 4096" "4096 \<le> 180000 - offset + 4095" using o by auto
    then have "(180000 - offset + 4095) div 4096 = 1" by (intro div_nat_eqI) auto
    then show ?thesis using True o by (simp add: feed_rounds_def)
  next
    case False
    then have "180000 - offset + 4095 = (180000 - (offset + 4096) + 4095) + 4096" using o by auto
    then have "(180000 - offset + 4095) div 4096 = (180000 - (offset + 4096) + 4095) div 4096 + 1" by (metis div_add_self2 zero_neq_numeral)
    then show ?thesis using False by (simp add: feed_rounds_def min_def)
  qed
qed

lemma feed_spectrum_total:
  assumes len: "length (win_samples w) = 180000"
    and slot: "0 \<le> win_slot_start_utc_millis w" "win_slot_start_utc_millis w \<le> 10 ^ 15"
  shows "spectrum_ok m \<Longrightarrow> offset \<le> 180000 \<Longrightarrow> sm_next_sequence m + 64 * int (feed_rounds offset) \<le> u64_max \<Longrightarrow>
    \<exists>m'. feed_spectrum level w offset m = (Ok (), m') \<and> spectrum_ok m' \<and>
      sm_next_sequence m' \<le> sm_next_sequence m + 64 * int (feed_rounds offset)"
proof (induction "180000 - offset" arbitrary: offset m rule: less_induct)
  case less
  show ?case
  proof (cases "offset < 180000")
    case False
    then show ?thesis using less.prems len by (subst feed_spectrum.simps) (simp add: feed_rounds_def)
  next
    case True
    let ?n = "min (180000 - offset) 4096"
    have n: "0 < ?n" "?n \<le> 4096" "offset + ?n \<le> 180000" using True by auto
    have dec: "180000 - (offset + ?n) < 180000 - offset" using True n(1) by linarith
    obtain chunk where ch: "chunk_from_window w offset ?n None = Ok chunk" "valid_chunk chunk"
    proof -
      have "length (take ?n (drop offset (win_samples w))) = ?n" using n len by simp
      then have "chunk_new (win_process_generation w) (win_stream_generation w) (window_slot w) offset None
          (take ?n (drop offset (win_samples w))) = Ok
          \<lparr>ch_process_generation = win_process_generation w, ch_stream_generation = win_stream_generation w,
           ch_slot = window_slot w, ch_start_sample_offset = offset, ch_discontinuity = None,
           ch_samples = take ?n (drop offset (win_samples w))\<rparr>"
        using n by (auto simp: chunk_new_def spectrum_bounds audio_bounds checked_usize_def)
      moreover from this have "valid_chunk \<lparr>ch_process_generation = win_process_generation w, ch_stream_generation = win_stream_generation w,
           ch_slot = window_slot w, ch_start_sample_offset = offset, ch_discontinuity = None,
           ch_samples = take ?n (drop offset (win_samples w))\<rparr>"
        using chunk_new_valid slot by (simp add: window_slot_def)
      ultimately show ?thesis using that n len by (simp add: chunk_from_window_def checked_usize_def)
    qed
    have r: "feed_rounds offset = Suc (feed_rounds (offset + ?n))" using feed_rounds_step [OF True] .
    have "sm_next_sequence m + 64 \<le> u64_max" using less.prems(3) r by simp
    then obtain res m1 where p: "spectrum_push level m chunk = (Ok res, m1)" "spectrum_ok m1"
        "push_produced_rows res \<le> 64" "sm_next_sequence m1 = sm_next_sequence m + int (push_produced_rows res)"
      using spectrum_push_total [OF less.prems(1) ch(2)] by blast
    have "\<exists>m'. feed_spectrum level w (offset + ?n) m1 = (Ok (), m') \<and> spectrum_ok m' \<and>
        sm_next_sequence m' \<le> sm_next_sequence m1 + 64 * int (feed_rounds (offset + ?n))"
      using less.hyps [OF dec p(2) n(3)] p(3,4) less.prems(3) r by simp
    moreover have "feed_spectrum level w offset m = feed_spectrum level w (offset + ?n) m1"
      using True n ch(1) p(1) len by (subst feed_spectrum.simps) (simp add: Let_def MAX_SPECTRUM_CHUNK_SAMPLES_def)
    ultimately show ?thesis using p(3,4) r by auto
  qed
qed


section \<open>A concrete daemon\<close>

definition sample_host :: "(unit, unit) native_host" where
  "sample_host =
     \<lparr>device_for_identity = (\<lambda>_. Ok ()),
      supported_input_configs = (\<lambda>_. Ok [\<lparr>nr_channels = 1, nr_sample_format = Float32, nr_min_sample_rate = 8000, nr_max_sample_rate = 96000\<rparr>]),
      build_native_stream = (\<lambda>_ _. Ok ()), native_play = (\<lambda>_. Ok ()), native_pause = (\<lambda>_. Ok ())\<rparr>"

definition sample_env :: "(unit system_receive_input, database) daemon_env" where
  "sample_env =
     \<lparr>env_input = system_input sample_host, env_decode = (\<lambda>_ _. Ok []), env_record_receive = record_receive,
      env_level = (\<lambda>_ _ _. None), env_scratch_len = 0, env_sha256 = (\<lambda>_. replicate 32 0)\<rparr>"

definition sample_config :: coordinator_config where
  "sample_config =
     \<lparr>co_service_instance_id = ServiceInstanceId ''svc_00000001'', co_process_generation = ProcessGeneration 1,
      co_selection = \<lparr>sel_device_identity = \<lparr>identity_platform = LinuxAlsa, opaque_id = ''hw0''\<rparr>,
        sel_configuration = \<lparr>cfg_sample_rate_hz = 48000, cfg_channels = 1, cfg_sample_format = Float32, cfg_selected_channel = 0\<rparr>\<rparr>,
      co_decode = \<lparr>dc_minimum_audio_frequency = 200, dc_maximum_audio_frequency = 3000, dc_sync_threshold_milli = 1000,
        dc_depth = DepthNormal, dc_maximum_candidates = 100\<rparr>,
      co_clock = receive_clock_config_default\<rparr>"

definition sample_clock :: generation_clock_sample where
  "sample_clock = \<lparr>gcs_generation = ClockProcessGeneration 1, gcs_sample = \<lparr>utc = 1000, monotonic = 10\<rparr>\<rparr>"

abbreviation sample_coordinator :: "(unit system_receive_input, database) coordinator" where
  "sample_coordinator \<equiv> coordinator_new (system_receive_input_new 8) empty_database sample_config"

lemmas sample_defs =
  sample_host_def sample_env_def sample_config_def sample_clock_def coordinator_new_def system_receive_input_new_def

lemma sample_started:
  "lc_state (coordinator_step sample_env sample_coordinator (OpStart sample_clock)) = Receiving (StreamGeneration 1)"
  "lc_last_stream_generation (coordinator_step sample_env sample_coordinator (OpStart sample_clock)) = 1"
  by (simp_all add: sample_defs start_def transition_def stream_generation_new_def system_input_def sri_start_def
      system_capture_start_def shared_capture_new_def MAX_CAPTURE_QUEUE_BATCHES_def ensure_configuration_supported_def
      in_range_def receive_clock_monitor_new_def receive_clock_config_new_def receive_clock_config_default_def)

lemma sample_setup: "env_input sample_env = system_input sample_host" "valid_clock_config (co_clock sample_config)"
  by (simp_all add: sample_env_def sample_config_def default_config_valid)

text \<open>A running coordinator one source frame before the end of a slot of silence.\<close>

definition near_clock :: generation_clock_sample where
  "near_clock = \<lparr>gcs_generation = ClockProcessGeneration 1, gcs_sample = \<lparr>utc = 44990, monotonic = 14990\<rparr>\<rparr>"

definition silence :: "int list" where
  "silence = replicate 179999 0"

definition near_mapping :: capture_time_evidence where
  "near_mapping = \<lparr>ev_position = 0, ev_utc_unix_millis = 30000, ev_monotonic_millis = 0\<rparr>"

definition near_timeline :: ft8_receive_timeline where
  "near_timeline =
     (timeline_new (ProcessGeneration 1) (StreamGeneration 1) (sel_configuration (co_selection sample_config)))
       \<lparr>tl_expected_position := Some 719996, tl_last_batch_position := Some 719995, tl_last_monotonic_millis := Some 14999,
        tl_anchor := Some \<lparr>ta_position = 0, ta_utc_unix_millis = 30000, ta_monotonic_millis = 0\<rparr>,
        tl_resampler := Some \<lparr>rs_anchor = near_mapping, rs_source_rate_hz = 48000,
          rs_process_generation = ProcessGeneration 1, rs_stream_generation = StreamGeneration 1,
          rs_next_output_tick = 539999, rs_previous = Some (719995, 0),
          rs_active = Some \<lparr>wa_slot_tick = 360000, wa_slot = Ft8ReceiveSlot 30000, wa_first_tick = 360000,
            wa_mapping = near_mapping, wa_samples = silence\<rparr>\<rparr>\<rparr>"

definition last_batch :: capture_batch where
  "last_batch =
     \<lparr>cb_process_generation = ProcessGeneration 1, cb_stream_generation = StreamGeneration 1,
      cb_configuration = sel_configuration (co_selection sample_config),
      cb_first_frame = \<lparr>ev_position = 719996, ev_utc_unix_millis = 44999, ev_monotonic_millis = 14999\<rparr>,
      cb_discontinuity = None, cb_diagnostics = \<lparr>diag_clipped_samples = 0, diag_callback_delay_millis = 0\<rparr>, cb_samples = [0]\<rparr>"

definition silent_window :: ft8_receive_window where
  "silent_window =
     \<lparr>win_process_generation = ProcessGeneration 1, win_stream_generation = StreamGeneration 1,
      win_slot_start_utc_millis = 30000, win_mapping = near_mapping, win_samples = silence @ [0]\<rparr>"

lemma silence_length: "length silence = 179999"
  by (simp add: silence_def)

lemma last_batch_completes:
  "\<exists>t. timeline_push near_timeline last_batch 15000 = (Ok [Window silent_window], t) \<and>
     tl_health t = \<lparr>th_max_jitter_millis = 0, th_drift_parts_per_million = 0, th_incomplete_slot_count = 0, th_late_batch_count = 0\<rparr>"
  by (simp add: near_timeline_def last_batch_def silent_window_def sample_config_def timeline_eval Let_def silence_length near_mapping_def
      ft8_receive_window_new_def)

abbreviation silent_id :: receive_window_id where
  "silent_id \<equiv> ReceiveWindowId (''rxw_'' @ replicate 64 (CHR ''0''))"

definition silent_record :: receive_record where
  "silent_record =
     \<lparr>rr_context = \<lparr>rc_receive_window_id = silent_id,
        rc_service_instance_id = ServiceInstanceId ''svc_00000001'',
        rc_process_generation = ProcessGeneration 1, rc_stream_generation = StreamGeneration 1,
        rc_slot = Ft8ReceiveSlot 30000, rc_device_identity = sel_device_identity (co_selection sample_config),
        rc_configuration = sel_configuration (co_selection sample_config), rc_capture_mapping = near_mapping\<rparr>,
      rr_diagnostics = \<lparr>rd_audio = \<lparr>ih_latency_millis = 0, ih_drift_parts_per_million = 0, ih_overflow_count = 0,
          ih_clipped_sample_count = 0, ih_max_callback_delay_millis = 0\<rparr>,
        rd_timeline = \<lparr>th_max_jitter_millis = 0, th_drift_parts_per_million = 0, th_incomplete_slot_count = 0, th_late_batch_count = 0\<rparr>,
        rd_clock = StoredHealthy 10\<rparr>,
      rr_decodes = [], rr_recorded_utc_millis = 45000\<rparr>"

lemma zeros_id: "valid_id p (p @ replicate 64 (CHR ''0''))"
  unfolding valid_id_def
  by (rule exI [of _ "replicate 64 (CHR ''0'')"]) (simp add: payload_byte_ok_def is_ascii_digit_def list_all_iff)

lemma silent_record_ok: "valid_record silent_record" "storable silent_record"
proof -
  have i: "valid_id ''svc_'' ''svc_00000001''"
    unfolding valid_id_def by (rule exI [of _ "''00000001''"], simp add: payload_byte_ok_def is_ascii_digit_def)
  have d: "input_device_identity_new LinuxAlsa ''hw0'' = Ok \<lparr>identity_platform = LinuxAlsa, opaque_id = ''hw0''\<rparr>"
    by code_simp
  have s: "is_ok (ft8_receive_slot_new 30000)" by code_simp
  show "valid_record silent_record"
    using i d s zeros_id [of "''rxw_''"]
    by (simp add: valid_record_def silent_record_def valid_context_def valid_diagnostics_def valid_audio_health_def
        valid_configuration_def in_range_def utf8_start_def sort_deterministically_def sample_config_def near_mapping_def)
  show "storable silent_record" by (simp add: storable_def silent_record_def sample_config_def near_mapping_def)
qed

definition near_end :: "(unit system_receive_input, database) coordinator" where
  "near_end = (coordinator_step sample_env sample_coordinator (OpStart near_clock))
     \<lparr>lc_timeline := Some near_timeline, lc_worker_batches := [last_batch]\<rparr>"

lemma env_decode_sample [simp]: "env_decode sample_env p k = Ok []"
  by (simp add: sample_env_def)

lemma silent_id_made:
  "make_receive_window_id (env_sha256 sample_env) svc sel pg sg n = Ok silent_id"
proof -
  have "lower_hex (replicate 32 0) = replicate 64 (CHR ''0'')" by code_simp
  then show ?thesis
    using zeros_id [of "''rxw_''"]
    by (simp add: make_receive_window_id_def sample_env_def receive_window_id_from_str_def id_from_str_Ok)
qed

lemmas near_eval = near_end_def sample_defs near_clock_def start_def transition_def stream_generation_new_def
  system_input_def sri_start_def system_capture_start_def shared_capture_new_def MAX_CAPTURE_QUEUE_BATCHES_def
  ensure_configuration_supported_def in_range_def receive_clock_monitor_new_def receive_clock_config_new_def
  receive_clock_config_default_def sri_next_fault_def next_fault_def sri_health_def capture_health_def
  input_health_new_def audio_bounds clock_snapshot_def snapshot_unchecked_def saturate_def

definition near_monitor :: receive_clock_monitor where
  "near_monitor = the (lc_clock near_end)"

lemma near_end_setup:
  "require_receiving (lc_state near_end) = Ok (StreamGeneration 1)" "lc_clock near_end = Some near_monitor"
  "lc_spectrum near_end = None" "lc_store near_end = empty_database" "lc_worker_batches near_end = [last_batch]"
  "lc_timeline near_end = Some near_timeline" "lc_selection near_end = co_selection sample_config"
  "lc_service_instance_id near_end = ServiceInstanceId ''svc_00000001''"
  by (simp_all add: near_monitor_def near_eval Let_def)

lemma near_end_input:
  "ri_next_fault (env_input sample_env) (lc_input near_end) = (None, lc_input near_end)"
  "ri_health (env_input sample_env) (lc_input near_end) = (Ok (rd_audio (rr_diagnostics silent_record)), lc_input near_end)"
  "\<exists>i. ri_next_batch (env_input sample_env) (lc_input near_end) = (Ok None, i)"
  by (simp_all add: silent_record_def near_eval Let_def sri_next_batch_def next_batch_def)

lemma near_monitor_gate:
  "\<exists>v. clock_snapshot near_monitor 15000 = (v, near_monitor) \<and> snap_state v = ClockHealthy"
  "\<exists>a. clock_gate near_monitor (Window silent_window) 15000 = (WindowReady silent_window a, near_monitor) \<and>
     align_mapping_age_millis a = 10"
  by (simp_all add: near_monitor_def near_eval Let_def clock_gate_def align_window_def window_slot_def silent_window_def near_mapping_def)

lemma silent_pcm: "\<exists>pcm. window_pcm silent_window = Ok pcm"
  by (simp add: window_pcm_def pcm_format_new_def pcm_buffer_new_def silent_window_def silence_length audio_bounds
      MAX_OFFLINE_PCM_SAMPLES_def in_range_def Let_def checked_def)

lemma silent_window_record:
  assumes "tl_health t = rd_timeline (rr_diagnostics silent_record)" "align_mapping_age_millis a = 10"
    "lc_selection c = co_selection sample_config" "lc_service_instance_id c = ServiceInstanceId ''svc_00000001''"
  shows "window_record c silent_id silent_window a
    (rd_audio (rr_diagnostics silent_record)) t [] 45000 = Ok silent_record"
  using assms
  by (simp add: window_record_def receive_record_new_def window_context_def silent_record_def silent_window_def
      window_slot_def near_mapping_def in_range_def sort_deterministically_def storage_bounds)

text \<open>Whatever store the daemon has, the poll that completes the window reports what the store answers.\<close>

lemma near_end_polls:
  assumes store: "store_record empty_database silent_record = (Ok out, db')"
  shows "\<exists>d. poll (sample_env\<lparr>env_record_receive := store_record\<rparr>) 15000 45000 near_end = (Ok [Persisted silent_id out 0], d)"
proof -
  let ?env = "sample_env\<lparr>env_record_receive := store_record\<rparr>"
  let ?audio = "rd_audio (rr_diagnostics silent_record)"
  obtain t where t: "timeline_push near_timeline last_batch 15000 = (Ok [Window silent_window], t)"
      "tl_health t = rd_timeline (rr_diagnostics silent_record)"
    using last_batch_completes by (auto simp: silent_record_def)
  obtain v a pcm i where g: "clock_snapshot near_monitor 15000 = (v, near_monitor)" "snap_state v = ClockHealthy"
      "clock_gate near_monitor (Window silent_window) 15000 = (WindowReady silent_window a, near_monitor)"
      "align_mapping_age_millis a = 10" "window_pcm silent_window = Ok pcm"
      "ri_next_batch (env_input sample_env) (lc_input near_end) = (Ok None, i)"
    using near_monitor_gate silent_pcm near_end_input(3) by blast
  have window: "process_window ?env ?audio 45000 silent_window a c = (Ok ([Persisted silent_id out 0], True), c\<lparr>lc_store := db'\<rparr>)"
    if "lc_spectrum c = None" "lc_timeline c = Some t" "lc_store c = empty_database"
      "lc_selection c = co_selection sample_config" "lc_service_instance_id c = ServiceInstanceId ''svc_00000001''" for c
    using silent_window_record [OF t(2) g(4) that(4,5)] that g(5) store silent_id_made
    by (simp add: process_window_def window_waterfall_def silent_record_def env_decode_sample)
  have admit: "admit_batches ?env 3 (near_end\<lparr>lc_clock := k\<rparr>) = (Ok (), near_end\<lparr>lc_clock := k, lc_input := i\<rparr>)" for k
    using g(6) by (simp add: numeral_3_eq_3)
  show ?thesis
    using g(1,2,3,6) t(1) near_end_setup near_end_input(1,2) admit window
    by (simp add: WORKER_BATCH_CAPACITY_def poll_def poll_admitted_def process_batch_def silent_record_def Let_def)
qed




text \<open>
  C39: a clock configuration the monitor refuses leaves the daemon stuck.  \<open>start\<close> opens the input
  before it builds the monitor; when that fails it returns the error with the input open and the
  state \<open>Starting\<close>, from which every operation is refused.
\<close>

theorem refused_clock_leaves_input_open:
  assumes state: "lc_state c = Stopped pg n" and last: "0 \<le> lc_last_stream_generation c" "lc_last_stream_generation c < u64_max"
    and gen: "clock_generation_get (gcs_generation sample) = process_generation_get (lc_process_generation c)"
    and bad: "\<not> valid_clock_config (lc_clock_config c)"
    and opened: "ri_start (env_input env) (lc_input c) (lc_selection c) (lc_process_generation c)
      (StreamGeneration (lc_last_stream_generation c + 1)) = (Ok (), i)"
  shows "\<exists>e c'. start env sample c = (Err (CoordinatorClock e), c') \<and> lc_input c' = i \<and>
    lc_state c' = Starting (StreamGeneration (lc_last_stream_generation c + 1)) \<and>
    (\<forall>reason. stop env reason c' = (Err (InvalidLifecycle (lc_state c')), c')) \<and>
    (\<forall>s. start env s c' = (Err (InvalidLifecycle (lc_state c')), c')) \<and>
    (\<forall>t u. poll env t u c' = (Err (InvalidLifecycle (lc_state c')), c'))"
proof -
  obtain e where e: "receive_clock_monitor_new sample (lc_clock_config c) = Err e"
    using receive_clock_monitor_new_Ok [of sample "lc_clock_config c"] bad by (cases "receive_clock_monitor_new sample (lc_clock_config c)") auto
  show ?thesis
    using state last gen opened e
    by (auto simp: start_def transition_def stream_generation_new_def stop_def poll_def)
qed

theorem refused_clock_leaves_input_open_witness:
  "\<exists>c c' e. c = sample_coordinator\<lparr>lc_clock_config := receive_clock_config_default\<lparr>recovery_samples := 1\<rparr>\<rparr> \<and>
     start sample_env sample_clock c = (Err (CoordinatorClock e), c') \<and> capture_open c' \<and>
     stop sample_env Requested c' = (Err (InvalidLifecycle (Starting (StreamGeneration 1))), c')"
proof -
  let ?c = "sample_coordinator\<lparr>lc_clock_config := receive_clock_config_default\<lparr>recovery_samples := 1\<rparr>\<rparr>"
  obtain i where i: "ri_start (env_input sample_env) (lc_input ?c) (lc_selection ?c) (lc_process_generation ?c) (StreamGeneration 1)
      = (Ok (), i)" "sri_capture i \<noteq> None"
    by (simp add: sample_defs system_input_def sri_start_def system_capture_start_def shared_capture_new_def
        MAX_CAPTURE_QUEUE_BATCHES_def ensure_configuration_supported_def in_range_def)
  have "\<not> valid_clock_config (lc_clock_config ?c)" by (simp add: valid_clock_config_def)
  then show ?thesis
    using refused_clock_leaves_input_open [of ?c "ProcessGeneration 1" 0 sample_clock sample_env i] i
    by (auto simp: sample_config_def sample_clock_def coordinator_new_def)
qed


end
