(* ===== verification/SP_Api.thy ===== *)
theory SP_Api
  imports SP_Ids "HOL-Library.AList"
begin

text \<open>
  \<open>crates/api/src/lib.rs\<close> and \<open>crates/api/src/receive.rs\<close>: the versioned wire vocabulary of commands,
  responses, events and subscriptions with the bounds the source validates, the retry class and
  canonical identity of a command, and the in-process service that answers without a station.
  The wire types repeat names of the audio, protocol and storage crates; here they and their
  constructors carry the prefix \<open>api\<close>.

  JSON.  \<open>serde_json\<close> and its derived implementations are the parameter \<open>json\<close>: conversions between
  values and byte strings.  The two hand-written implementations of the source, for
  \<open>EventPayload\<close>, are definitions over it; an object is its list of members.
\<close>

section \<open>Receive vocabulary\<close>

definition MAX_INPUT_DEVICES :: nat where "MAX_INPUT_DEVICES = 64"
definition MAX_INPUT_CONFIGURATIONS :: nat where "MAX_INPUT_CONFIGURATIONS = 64"
definition MAX_RECEIVE_HISTORY_PAGE :: int where "MAX_RECEIVE_HISTORY_PAGE = 100"
definition MAX_RECEIVE_DECODES :: nat where "MAX_RECEIVE_DECODES = 128"
definition MAX_WATERFALL_BINS :: nat where "MAX_WATERFALL_BINS = 2048"

datatype wire_bound_error = Exceeded

datatype api_input_platform = ApiMacOsCoreAudio | ApiWindowsWasapi | ApiLinuxAlsa | ApiLinuxJack

record api_device_identity =
  adi_platform :: api_input_platform
  adi_opaque_id :: string

datatype api_sample_format =
    ApiSigned8 | ApiSigned16 | ApiSigned24 | ApiSigned32 | ApiSigned64
  | ApiUnsigned8 | ApiUnsigned16 | ApiUnsigned24 | ApiUnsigned32 | ApiUnsigned64
  | ApiFloat32 | ApiFloat64

record api_input_configuration =
  aic_sample_rate_hz :: int
  aic_channels :: int
  aic_sample_format :: api_sample_format
  aic_selected_channel :: int

record api_receive_selection =
  ars_device_identity :: api_device_identity
  ars_configuration :: api_input_configuration

datatype canonicalization_error =
    MarkerTooLong
  | InvalidReceiveCommand
  | Serialization string

definition selection_validate :: "api_receive_selection \<Rightarrow> (canonicalization_error, unit) result" where
  "selection_validate s =
     (let oid = adi_opaque_id (ars_device_identity s); c = ars_configuration s in
      if oid = [] \<or> length oid > 256 \<or> list_ex is_ascii_control oid
         \<or> \<not> in_range 8000 384000 (aic_sample_rate_hz c)
         \<or> aic_channels c = 0 \<or> aic_channels c > 32 \<or> aic_selected_channel c \<ge> aic_channels c
      then Err InvalidReceiveCommand else Ok ())"

record api_configuration_range =
  acr_min_sample_rate_hz :: int
  acr_max_sample_rate_hz :: int
  acr_channels :: int
  acr_sample_format :: api_sample_format

record api_input_device =
  aid_identity :: api_device_identity
  aid_display_name :: string
  aid_manufacturer :: "string option"
  aid_configuration_ranges :: "api_configuration_range list"

record input_device_page =
  idp_devices :: "api_input_device list"

definition device_page_validate :: "input_device_page \<Rightarrow> (wire_bound_error, unit) result" where
  "device_page_validate p =
     (if length (idp_devices p) > MAX_INPUT_DEVICES \<or>
         list_ex (\<lambda>d.
           adi_opaque_id (aid_identity d) = [] \<or> length (adi_opaque_id (aid_identity d)) > 256 \<or>
           aid_display_name d = [] \<or> length (aid_display_name d) > 256 \<or>
           (case aid_manufacturer d of None \<Rightarrow> False | Some m \<Rightarrow> length m > 256) \<or>
           aid_configuration_ranges d = [] \<or>
           length (aid_configuration_ranges d) > MAX_INPUT_CONFIGURATIONS) (idp_devices p)
      then Err Exceeded else Ok ())"

datatype receive_inhibition_kind =
    RxServiceUnavailable | RxDeviceUnavailable | RxOverflow | RxDiscontinuity
  | RxClockUnhealthy | RxTimelineInvalid | RxDecoderFailed | RxStorageFailed | RxCancelled

datatype lifecycle_snapshot =
    SnapStopped int
  | SnapStarting int
  | SnapReceiving int
  | SnapInhibited int receive_inhibition_kind
  | SnapStopping int

record api_audio_health =
  aah_latency_millis :: int
  aah_drift_parts_per_million :: int
  aah_overflow_count :: int
  aah_clipped_sample_count :: int
  aah_max_callback_delay_millis :: int

datatype api_clock_health =
    ApiHealthy int
  | ApiUnhealthy receive_inhibition_kind int int int

record receive_status =
  rst_lifecycle :: lifecycle_snapshot
  rst_selection :: "api_receive_selection option"
  rst_audio :: "api_audio_health option"
  rst_clock :: "api_clock_health option"

definition receive_status_stopped :: receive_status where
  "receive_status_stopped =
     \<lparr>rst_lifecycle = SnapStopped 0, rst_selection = None, rst_audio = None, rst_clock = None\<rparr>"

datatype api_message_class =
    ApiGeneralCall | ApiDirectedGrid | ApiSignalReport | ApiRogerSignalReport | ApiRoger
  | ApiEnding73 | ApiEndingRr73

datatype api_classification =
    ApiResolved string string "string option" api_message_class
  | ApiUnresolvedHash string string
  | ApiUnsupported string string
  | ApiAmbiguous string string
  | ApiFreeText string

record api_decode =
  ad_start_offset_millis :: int
  ad_audio_frequency_hz :: int
  ad_signal_to_noise_db :: int
  ad_classification :: api_classification

record receive_record_summary =
  rrs_sequence :: int
  rrs_receive_window_id :: receive_window_id
  rrs_slot_start_utc_millis :: int
  rrs_selection :: api_receive_selection
  rrs_audio :: api_audio_health
  rrs_clock :: api_clock_health
  rrs_decodes :: "api_decode list"

definition summary_validate :: "receive_record_summary \<Rightarrow> (wire_bound_error, unit) result" where
  "summary_validate r = (if length (rrs_decodes r) > MAX_RECEIVE_DECODES then Err Exceeded else Ok ())"

record receive_history_page =
  rhp_records :: "receive_record_summary list"
  rhp_next_sequence :: int
  rhp_has_more :: bool

fun validate_summaries :: "receive_record_summary list \<Rightarrow> (wire_bound_error, unit) result" where
  "validate_summaries [] = Ok ()"
| "validate_summaries (r # rs) = rbind (summary_validate r) (\<lambda>_. validate_summaries rs)"

definition history_page_validate :: "receive_history_page \<Rightarrow> (wire_bound_error, unit) result" where
  "history_page_validate p =
     (if int (length (rhp_records p)) > MAX_RECEIVE_HISTORY_PAGE then Err Exceeded
      else validate_summaries (rhp_records p))"

record receive_health_snapshot =
  rhs_lifecycle :: lifecycle_snapshot
  rhs_audio :: "api_audio_health option"
  rhs_clock :: "api_clock_health option"

record receive_discontinuity =
  rdi_stream_generation :: int
  rdi_reason :: receive_inhibition_kind
  rdi_dropped_frames :: int

record waterfall_bin =
  wb_frequency_millihz :: int
  wb_magnitude_millidbfs :: int

record waterfall_frame =
  wff_stream_generation :: int
  wff_utc_unix_millis :: int
  wff_frame_sequence :: int
  wff_coalesced :: bool
  wff_bins :: "waterfall_bin list"

definition frame_validate :: "waterfall_frame \<Rightarrow> (wire_bound_error, unit) result" where
  "frame_validate f = (if length (wff_bins f) > MAX_WATERFALL_BINS then Err Exceeded else Ok ())"

section \<open>Events and subscriptions\<close>

definition API_VERSION :: int where "API_VERSION = 2"
definition LEGACY_API_VERSION :: int where "LEGACY_API_VERSION = 1"
definition SUPPORTED_API_VERSIONS :: "int list" where
  "SUPPORTED_API_VERSIONS = [API_VERSION, LEGACY_API_VERSION]"
definition MAX_NEGOTIATION_VERSIONS :: nat where "MAX_NEGOTIATION_VERSIONS = 16"
definition MAX_REPLAY_EVENTS :: int where "MAX_REPLAY_EVENTS = 256"

record event_cursor =
  cur_service_instance_id :: service_instance_id
  cur_sequence :: int

type_synonym 'j object = "(string \<times> 'j) list"

datatype 'j event_payload =
    Phase0Notice string
  | ReceiveLifecycle lifecycle_snapshot
  | ReceiveDecode receive_record_summary
  | ReceiveHealth receive_health_snapshot
  | ReceiveDiscontinuity receive_discontinuity
  | WaterfallFrame waterfall_frame
  | Unknown string "'j object"

record 'j event_envelope =
  ee_api_version :: int
  ee_service_instance_id :: service_instance_id
  ee_sequence :: int
  ee_event_id :: event_id
  ee_occurred_utc_millis :: int
  ee_event :: "'j event_payload"

fun payload_validate :: "'j event_payload \<Rightarrow> (wire_bound_error, unit) result" where
  "payload_validate (Phase0Notice message) = (if length message \<le> 512 then Ok () else Err Exceeded)"
| "payload_validate (ReceiveLifecycle v) = Ok ()"
| "payload_validate (ReceiveHealth v) = Ok ()"
| "payload_validate (ReceiveDiscontinuity v) = Ok ()"
| "payload_validate (ReceiveDecode r) = summary_validate r"
| "payload_validate (WaterfallFrame f) = frame_validate f"
| "payload_validate (Unknown knd members) =
     (if knd \<noteq> [] \<and> length knd \<le> 64 \<and> length members \<le> 64 then Ok () else Err Exceeded)"

record subscription_request =
  sq_api_version :: int
  sq_after :: "event_cursor option"
  sq_limit :: int

datatype subscription_invalid_reason = ReasonIncompatibleApiVersion | ReasonInvalidLimit

datatype 'j subscription_outcome =
    Events "'j event_envelope list" event_cursor bool
  | CursorGap event_cursor event_cursor
  | CursorUnavailable event_cursor event_cursor
  | IncompatibleGeneration service_instance_id service_instance_id
  | InvalidRequest subscription_invalid_reason

record 'j subscription_response =
  sr_api_version :: int
  sr_outcome :: "'j subscription_outcome"

section \<open>Commands and responses\<close>

datatype command =
    GetCapabilities "int list"
  | GetSnapshot
  | NoopMutation string
  | ListInputDevices
  | ReceiveStart api_receive_selection
  | ReceiveStop
  | GetReceiveStatus
  | QueryReceiveHistory int int

datatype command_class = ReadOnly | Mutating

record command_envelope =
  ce_api_version :: int
  ce_request_id :: request_id
  ce_command :: command

fun class_of :: "command \<Rightarrow> command_class" where
  "class_of (GetCapabilities vs) = ReadOnly"
| "class_of GetSnapshot = ReadOnly"
| "class_of ListInputDevices = ReadOnly"
| "class_of GetReceiveStatus = ReadOnly"
| "class_of (QueryReceiveHistory after limit) = ReadOnly"
| "class_of (NoopMutation marker) = Mutating"
| "class_of (ReceiveStart selection) = Mutating"
| "class_of ReceiveStop = Mutating"

datatype availability = Available | Unavailable

record capabilities =
  cap_negotiated_version :: int
  cap_supported_versions :: "int list"
  cap_service_instance_id :: service_instance_id
  cap_station_control :: availability
  cap_receive_input :: "availability option"
  cap_transmit_authority :: availability

datatype configuration_state = NotConfigured
datatype operation_state = NotRunning

record station_snapshot =
  ss_service_instance_id :: service_instance_id
  ss_event_cursor :: event_cursor
  ss_configuration :: configuration_state
  ss_operation :: operation_state
  ss_receive :: "receive_status option"
  ss_transmit_authority :: availability

datatype error_code =
    IncompatibleApiVersion
  | NegotiationTooLarge
  | RequestIdConflict
  | RequestJournalRequired
  | CommandUnavailableInVersion
  | ReceiveUnavailable
  | ReceiveInhibited
  | InvalidReceiveRequest

fun error_code_str :: "error_code \<Rightarrow> string" where
  "error_code_str IncompatibleApiVersion = ''incompatible_api_version''"
| "error_code_str NegotiationTooLarge = ''negotiation_too_large''"
| "error_code_str RequestIdConflict = ''request_id_conflict''"
| "error_code_str RequestJournalRequired = ''request_journal_required''"
| "error_code_str CommandUnavailableInVersion = ''command_unavailable_in_version''"
| "error_code_str ReceiveUnavailable = ''receive_unavailable''"
| "error_code_str ReceiveInhibited = ''receive_inhibited''"
| "error_code_str InvalidReceiveRequest = ''invalid_receive_request''"

datatype error_details =
    VersionMismatch int "int list"
  | NegotiationLimit nat nat
  | RequestConflict
  | JournalRequired
  | CommandVersion int
  | ReceiveReason receive_inhibition_kind
  | ReceiveRequest

record api_error =
  ae_code :: error_code
  ae_message :: string
  ae_retryable :: bool
  ae_details :: error_details

datatype result_body =
    CapabilitiesResult capabilities
  | SnapshotResult station_snapshot
  | NoopMutationAccepted string
  | InputDevices input_device_page
  | ReceiveStarted lifecycle_snapshot
  | ReceiveStopped lifecycle_snapshot
  | ReceiveStatusResult receive_status
  | ReceiveHistory receive_history_page

datatype response_outcome = Success result_body | ErrorOutcome api_error

record response_envelope =
  re_api_version :: int
  re_request_id :: request_id
  re_outcome :: response_outcome

section \<open>JSON\<close>

record 'j json =
  js_string :: "string \<Rightarrow> 'j"
  js_as_str :: "'j \<Rightarrow> string option"
  js_print :: "'j object \<Rightarrow> (string, string) result"
  js_parse :: "string \<Rightarrow> (string, 'j object) result"
  js_lifecycle :: "lifecycle_snapshot \<Rightarrow> (string, 'j object) result"
  js_decode :: "receive_record_summary \<Rightarrow> (string, 'j object) result"
  js_health :: "receive_health_snapshot \<Rightarrow> (string, 'j object) result"
  js_discontinuity :: "receive_discontinuity \<Rightarrow> (string, 'j object) result"
  js_waterfall :: "waterfall_frame \<Rightarrow> (string, 'j object) result"
  js_lifecycle_from :: "'j object \<Rightarrow> (string, lifecycle_snapshot) result"
  js_decode_from :: "'j object \<Rightarrow> (string, receive_record_summary) result"
  js_health_from :: "'j object \<Rightarrow> (string, receive_health_snapshot) result"
  js_discontinuity_from :: "'j object \<Rightarrow> (string, receive_discontinuity) result"
  js_waterfall_from :: "'j object \<Rightarrow> (string, waterfall_frame) result"
  js_command :: "command \<Rightarrow> (string, string) result"
  js_response :: "response_envelope \<Rightarrow> (string, string) result"
  js_response_from :: "string \<Rightarrow> (string, response_envelope) result"

text \<open>\<open>event_object\<close>: the members of the value, with \<open>kind\<close> set.\<close>

definition event_object :: "'j json \<Rightarrow> string \<Rightarrow> (string, 'j object) result \<Rightarrow> (string, 'j object) result" where
  "event_object j knd value = map_ok (AList.update ''kind'' (js_string j knd)) value"

fun payload_serialize :: "'j json \<Rightarrow> 'j event_payload \<Rightarrow> (string, 'j object) result" where
  "payload_serialize j (Phase0Notice message) =
     Ok (AList.update ''message'' (js_string j message) (AList.update ''kind'' (js_string j ''phase0_notice'') []))"
| "payload_serialize j (ReceiveLifecycle v) = event_object j ''receive_lifecycle'' (js_lifecycle j v)"
| "payload_serialize j (ReceiveDecode v) = event_object j ''receive_decode'' (js_decode j v)"
| "payload_serialize j (ReceiveHealth v) = event_object j ''receive_health'' (js_health j v)"
| "payload_serialize j (ReceiveDiscontinuity v) = event_object j ''receive_discontinuity'' (js_discontinuity j v)"
| "payload_serialize j (WaterfallFrame v) = event_object j ''waterfall_frame'' (js_waterfall j v)"
| "payload_serialize j (Unknown knd members) = Ok (AList.update ''kind'' (js_string j knd) members)"

definition payload_of_kind :: "'j json \<Rightarrow> string \<Rightarrow> 'j object \<Rightarrow> (string, 'j event_payload) result" where
  "payload_of_kind j knd members =
     (if knd = ''phase0_notice'' then
        map_ok Phase0Notice (ok_or ''phase0_notice requires string message''
          (Option.bind (map_of members ''message'') (js_as_str j)))
      else if knd = ''receive_lifecycle'' then map_ok ReceiveLifecycle (js_lifecycle_from j members)
      else if knd = ''receive_decode'' then map_ok ReceiveDecode (js_decode_from j members)
      else if knd = ''receive_health'' then map_ok ReceiveHealth (js_health_from j members)
      else if knd = ''receive_discontinuity'' then map_ok ReceiveDiscontinuity (js_discontinuity_from j members)
      else if knd = ''waterfall_frame'' then map_ok WaterfallFrame (js_waterfall_from j members)
      else Ok (Unknown knd members))"

definition payload_deserialize :: "'j json \<Rightarrow> 'j object \<Rightarrow> (string, 'j event_payload) result" where
  "payload_deserialize j obj =
     rbind (ok_or ''event payload requires string kind'' (Option.bind (map_of obj ''kind'') (js_as_str j)))
       (\<lambda>knd. payload_of_kind j knd (AList.delete ''kind'' obj))"

definition payload_to_string :: "'j json \<Rightarrow> 'j event_payload \<Rightarrow> (string, string) result" where
  "payload_to_string j p = rbind (payload_serialize j p) (js_print j)"

definition payload_from_str :: "'j json \<Rightarrow> string \<Rightarrow> (string, 'j event_payload) result" where
  "payload_from_str j s = rbind (js_parse j s) (payload_deserialize j)"

definition canonical_bytes :: "'j json \<Rightarrow> command \<Rightarrow> (canonicalization_error, string) result" where
  "canonical_bytes j c =
     rbind (case c of NoopMutation marker \<Rightarrow> if length marker > 128 then Err MarkerTooLong else Ok () | _ \<Rightarrow> Ok ()) (\<lambda>_.
     rbind (case c of
         ReceiveStart selection \<Rightarrow> selection_validate selection
       | QueryReceiveHistory after limit \<Rightarrow>
           if limit = 0 \<or> limit > MAX_RECEIVE_HISTORY_PAGE then Err InvalidReceiveCommand else Ok ()
       | _ \<Rightarrow> Ok ()) (\<lambda>_.
     map_err Serialization (js_command j c)))"

section \<open>The in-process service\<close>

definition error_response :: "request_id \<Rightarrow> error_code \<Rightarrow> string \<Rightarrow> error_details \<Rightarrow> response_envelope" where
  "error_response rid code message details =
     \<lparr>re_api_version = API_VERSION, re_request_id = rid,
      re_outcome = ErrorOutcome \<lparr>ae_code = code, ae_message = message, ae_retryable = False, ae_details = details\<rparr>\<rparr>"

definition negotiate :: "service_instance_id \<Rightarrow> int \<Rightarrow> int list \<Rightarrow> response_outcome" where
  "negotiate svc version offered =
     (if length offered > MAX_NEGOTIATION_VERSIONS then
        ErrorOutcome \<lparr>ae_code = NegotiationTooLarge,
          ae_message = ''version negotiation request exceeds the supported bound'', ae_retryable = False,
          ae_details = NegotiationLimit MAX_NEGOTIATION_VERSIONS (length offered)\<rparr>
      else case find (\<lambda>v. v \<in> set SUPPORTED_API_VERSIONS) offered of
        Some v \<Rightarrow> Success (CapabilitiesResult
          \<lparr>cap_negotiated_version = v, cap_supported_versions = SUPPORTED_API_VERSIONS,
           cap_service_instance_id = svc, cap_station_control = Unavailable,
           cap_receive_input = (if v \<ge> API_VERSION then Some Unavailable else None),
           cap_transmit_authority = Unavailable\<rparr>)
      | None \<Rightarrow> ErrorOutcome \<lparr>ae_code = IncompatibleApiVersion,
          ae_message = ''client and service API versions are incompatible'', ae_retryable = False,
          ae_details = VersionMismatch version SUPPORTED_API_VERSIONS\<rparr>)"

definition noop_receive_outcome :: "int \<Rightarrow> response_outcome" where
  "noop_receive_outcome version =
     ErrorOutcome
       \<lparr>ae_code = (if version < API_VERSION then CommandUnavailableInVersion else ReceiveUnavailable),
        ae_message = ''receive commands require the daemon receive service'', ae_retryable = False,
        ae_details = (if version < API_VERSION then CommandVersion API_VERSION
                      else ReceiveReason RxServiceUnavailable)\<rparr>"

definition noop_execute :: "service_instance_id \<Rightarrow> command_envelope \<Rightarrow> response_envelope" where
  "noop_execute svc env =
     (if ce_api_version env \<notin> set SUPPORTED_API_VERSIONS then
        error_response (ce_request_id env) IncompatibleApiVersion
          ''client and service API versions are incompatible''
          (VersionMismatch (ce_api_version env) SUPPORTED_API_VERSIONS)
      else
        \<lparr>re_api_version = ce_api_version env, re_request_id = ce_request_id env,
         re_outcome =
           (case ce_command env of
              GetCapabilities offered \<Rightarrow> negotiate svc (ce_api_version env) offered
            | GetSnapshot \<Rightarrow> Success (SnapshotResult
                \<lparr>ss_service_instance_id = svc,
                 ss_event_cursor = \<lparr>cur_service_instance_id = svc, cur_sequence = 0\<rparr>,
                 ss_configuration = NotConfigured, ss_operation = NotRunning,
                 ss_receive = (if ce_api_version env \<ge> API_VERSION then Some receive_status_stopped else None),
                 ss_transmit_authority = Unavailable\<rparr>)
            | NoopMutation marker \<Rightarrow> ErrorOutcome
                \<lparr>ae_code = RequestJournalRequired,
                 ae_message = ''mutating commands require the durable request journal'',
                 ae_retryable = False, ae_details = JournalRequired\<rparr>
            | ListInputDevices \<Rightarrow> noop_receive_outcome (ce_api_version env)
            | ReceiveStart selection \<Rightarrow> noop_receive_outcome (ce_api_version env)
            | ReceiveStop \<Rightarrow> noop_receive_outcome (ce_api_version env)
            | GetReceiveStatus \<Rightarrow> noop_receive_outcome (ce_api_version env)
            | QueryReceiveHistory after limit \<Rightarrow> noop_receive_outcome (ce_api_version env))\<rparr>)"

section \<open>Event payloads on the wire\<close>

definition known_kinds :: "string list" where
  "known_kinds = [''phase0_notice'', ''receive_lifecycle'', ''receive_decode'', ''receive_health'',
     ''receive_discontinuity'', ''waterfall_frame'']"

text \<open>
  What the source relies on of the JSON library for one payload: string values are read back, the
  derived conversions invert each other on the value carried, whose object has no member \<open>kind\<close>
  (none of the wire types has such a field), and printed objects parse to themselves.
\<close>

definition converts :: "('a \<Rightarrow> (string, 'j object) result) \<Rightarrow> ('j object \<Rightarrow> (string, 'a) result) \<Rightarrow> 'a \<Rightarrow> bool" where
  "converts to from v \<longleftrightarrow> (case to v of Inl e \<Rightarrow> False | Inr obj \<Rightarrow> map_of obj ''kind'' = None \<and> from obj = Ok v)"

fun json_faithful :: "'j json \<Rightarrow> 'j event_payload \<Rightarrow> bool" where
  "json_faithful j (Phase0Notice m) \<longleftrightarrow> True"
| "json_faithful j (ReceiveLifecycle v) \<longleftrightarrow> converts (js_lifecycle j) (js_lifecycle_from j) v"
| "json_faithful j (ReceiveDecode v) \<longleftrightarrow> converts (js_decode j) (js_decode_from j) v"
| "json_faithful j (ReceiveHealth v) \<longleftrightarrow> converts (js_health j) (js_health_from j) v"
| "json_faithful j (ReceiveDiscontinuity v) \<longleftrightarrow> converts (js_discontinuity j) (js_discontinuity_from j) v"
| "json_faithful j (WaterfallFrame v) \<longleftrightarrow> converts (js_waterfall j) (js_waterfall_from j) v"
| "json_faithful j (Unknown k ms) \<longleftrightarrow> k \<notin> set known_kinds \<and> map_of ms ''kind'' = None"

lemma update_new: "map_of xs k = None \<Longrightarrow> AList.update k v xs = xs @ [(k, v)]"
  by (induction xs) (auto split: if_splits)

lemma delete_new: "map_of xs k = None \<Longrightarrow> AList.delete k (xs @ [(k, v)]) = xs"
  by (induction xs) (auto simp: AList.delete_eq split: if_splits)

lemma event_object_reads:
  assumes "converts to from v" and str: "\<And>s. js_as_str j (js_string j s) = Some s"
    and known: "\<And>ms. payload_of_kind j k ms = map_ok wrap (from ms)"
  shows "\<exists>obj. event_object j k (to v) = Ok obj \<and> payload_deserialize j obj = Ok (wrap v)"
proof -
  obtain obj where "to v = Ok obj" "map_of obj ''kind'' = None" "from obj = Ok v"
    using assms(1) by (auto simp: converts_def split: sum.splits)
  then show ?thesis
    by (intro exI [of _ "obj @ [(''kind'', js_string j k)]"])
      (simp add: event_object_def update_new delete_new str map_add_def payload_deserialize_def known)
qed

lemma payload_object_round_trip:
  assumes faithful: "json_faithful j p" and str: "\<And>s. js_as_str j (js_string j s) = Some s"
  shows "\<exists>obj. payload_serialize j p = Ok obj \<and> payload_deserialize j obj = Ok p"
proof (cases p)
  case (Phase0Notice m)
  then show ?thesis by (simp add: payload_deserialize_def payload_of_kind_def str AList.delete_eq)
next
  case (Unknown k ms)
  then have "k \<notin> set known_kinds" "map_of ms ''kind'' = None" using faithful by simp_all
  then show ?thesis
    using Unknown
    by (simp add: update_new delete_new payload_deserialize_def payload_of_kind_def str map_add_def known_kinds_def)
qed (use faithful str in \<open>simp_all add: event_object_reads payload_of_kind_def\<close>)

end
