(* ===== verification/SP_Event_Service.thy ===== *)
theory SP_Event_Service
  imports SP_Api SP_Store_Events
begin

text \<open>
  \<open>apps/daemon/src/lib.rs\<close>: the daemon's event service, which publishes validated events into the
  log and answers bounded replay requests of one generation, and the command processor that
  journals the side-effect-free mutation.  JSON is the parameter \<open>json\<close> of the API model.
\<close>

section \<open>The event service\<close>

datatype event_processor_error =
    EventStorage storage_error
  | InvalidPersistedEvent string
  | NoticeTooLong
  | PayloadBound

record event_service =
  es_store :: database
  es_service_instance_id :: service_instance_id

definition from_store :: "database \<Rightarrow> service_instance_id \<Rightarrow> event_service" where
  "from_store store svc = \<lparr>es_store = store, es_service_instance_id = svc\<rparr>"

definition publish_event ::
  "(string \<Rightarrow> bool) \<Rightarrow> 'j json \<Rightarrow> event_service \<Rightarrow> event_id \<Rightarrow> 'j event_payload \<Rightarrow> int
   \<Rightarrow> (event_processor_error, 'j event_envelope) result \<times> event_service" where
  "publish_event json_valid j es eid payload occurred =
     (case rbind (map_err (\<lambda>_. PayloadBound) (payload_validate payload))
             (\<lambda>_. map_err InvalidPersistedEvent (payload_to_string j payload)) of
        Inl e \<Rightarrow> (Err e, es)
      | Inr event_json \<Rightarrow>
          (case append_event json_valid (es_store es) eid (es_service_instance_id es) event_json occurred of
             (Inl e, db) \<Rightarrow> (Err (EventStorage e), es\<lparr>es_store := db\<rparr>)
           | (Inr n, db) \<Rightarrow>
               (Ok \<lparr>ee_api_version = API_VERSION, ee_service_instance_id = es_service_instance_id es,
                    ee_sequence = n, ee_event_id = eid, ee_occurred_utc_millis = occurred, ee_event = payload\<rparr>,
                es\<lparr>es_store := db\<rparr>)))"

definition publish_notice ::
  "(string \<Rightarrow> bool) \<Rightarrow> 'j json \<Rightarrow> event_service \<Rightarrow> event_id \<Rightarrow> string \<Rightarrow> int
   \<Rightarrow> (event_processor_error, 'j event_envelope) result \<times> event_service" where
  "publish_notice json_valid j es eid message occurred =
     (if length message > 512 then (Err NoticeTooLong, es)
      else publish_event json_valid j es eid (Phase0Notice message) occurred)"

definition cursor :: "service_instance_id \<Rightarrow> int \<Rightarrow> event_cursor" where
  "cursor svc n = \<lparr>cur_service_instance_id = svc, cur_sequence = n\<rparr>"

definition subscription_reply :: "int \<Rightarrow> 'j subscription_outcome \<Rightarrow> 'j subscription_response" where
  "subscription_reply version out = \<lparr>sr_api_version = version, sr_outcome = out\<rparr>"

fun envelopes :: "'j json \<Rightarrow> int \<Rightarrow> stored_event list \<Rightarrow> (string, 'j event_envelope list) result" where
  "envelopes j version [] = Ok []"
| "envelopes j version (e # es) =
     rbind (payload_from_str j (se_event_json e)) (\<lambda>payload.
     rbind (envelopes j version es) (\<lambda>rest.
       Ok (\<lparr>ee_api_version = version, ee_service_instance_id = se_service_instance_id e,
            ee_sequence = se_sequence e, ee_event_id = se_event_id e,
            ee_occurred_utc_millis = se_occurred_utc_millis e, ee_event = payload\<rparr> # rest)))"

definition subscribe_retained ::
  "'j json \<Rightarrow> service_instance_id \<Rightarrow> int \<Rightarrow> int \<Rightarrow> replay_window
   \<Rightarrow> (event_processor_error, 'j subscription_response) result" where
  "subscribe_retained j svc version requested window =
     (let latest = (case rw_latest_sequence window of None \<Rightarrow> 0 | Some n \<Rightarrow> n) in
      if requested > latest then
        Ok (subscription_reply version (CursorUnavailable (cursor svc requested) (cursor svc latest)))
      else rbind (map_err InvalidPersistedEvent (envelopes j version (rw_events window))) (\<lambda>events.
        Ok (subscription_reply version
          (Events events
             (cursor svc (if events = [] then requested else ee_sequence (last events)))
             (rw_has_more window)))))"

definition subscribe_window ::
  "'j json \<Rightarrow> event_service \<Rightarrow> subscription_request \<Rightarrow> int
   \<Rightarrow> (event_processor_error, 'j subscription_response) result" where
  "subscribe_window j es req requested =
     (let svc = es_service_instance_id es; version = sq_api_version req in
      rbind (map_err EventStorage (replay_events (es_store es) svc requested (nat (sq_limit req)))) (\<lambda>window.
        case rw_earliest_sequence window of
          Some earliest \<Rightarrow>
            if requested < sat_u64 (earliest - 1) then
              Ok (subscription_reply version (CursorGap (cursor svc requested) (cursor svc earliest)))
            else subscribe_retained j svc version requested window
        | None \<Rightarrow> subscribe_retained j svc version requested window))"

definition subscribe ::
  "'j json \<Rightarrow> event_service \<Rightarrow> subscription_request \<Rightarrow> (event_processor_error, 'j subscription_response) result" where
  "subscribe j es req =
     (let svc = es_service_instance_id es; version = sq_api_version req;
          requested = (case sq_after req of None \<Rightarrow> 0 | Some c \<Rightarrow> cur_sequence c) in
      if version \<notin> set SUPPORTED_API_VERSIONS then
        Ok (subscription_reply version (InvalidRequest ReasonIncompatibleApiVersion))
      else if sq_limit req = 0 \<or> sq_limit req > MAX_REPLAY_EVENTS then
        Ok (subscription_reply version (InvalidRequest ReasonInvalidLimit))
      else case sq_after req of
        Some c \<Rightarrow>
          if cur_service_instance_id c \<noteq> svc then
            Ok (subscription_reply version (IncompatibleGeneration (cur_service_instance_id c) svc))
          else subscribe_window j es req requested
      | None \<Rightarrow> subscribe_window j es req requested)"

definition prune_before :: "event_service \<Rightarrow> int \<Rightarrow> (event_processor_error, nat) result \<times> event_service" where
  "prune_before es n =
     (case prune_events_before (es_store es) n of
        (r, db) \<Rightarrow> (map_err EventStorage r, es\<lparr>es_store := db\<rparr>))"

section \<open>The command processor\<close>

datatype processor_error =
    Canonicalization canonicalization_error
  | Storage storage_error
  | InvalidPersistedResult string

record command_processor =
  cp_service :: service_instance_id
  cp_store :: database

definition conflict_response :: "request_id \<Rightarrow> response_envelope" where
  "conflict_response rid =
     \<lparr>re_api_version = API_VERSION, re_request_id = rid,
      re_outcome = ErrorOutcome \<lparr>ae_code = RequestIdConflict,
        ae_message = ''request ID was already accepted for a different command'', ae_retryable = False,
        ae_details = RequestConflict\<rparr>\<rparr>"

text \<open>The answer to a journaled mutation: the response stored first, or a conflict.\<close>

definition accepted_reply ::
  "'j json \<Rightarrow> string \<Rightarrow> response_envelope \<Rightarrow> response_envelope \<Rightarrow> accept_outcome
   \<Rightarrow> (processor_error, response_envelope) result" where
  "accepted_reply j canonical response conflict out =
     (case out of
        AcceptInserted _ \<Rightarrow> Ok response
      | AcceptExisting existing \<Rightarrow>
          if ac_canonical_command existing = canonical
          then map_err InvalidPersistedResult (js_response_from j (ac_original_result existing))
          else Ok conflict)"

text \<open>Build the accepted command, store it unless one is stored already, and answer.\<close>

definition journal ::
  "'j json \<Rightarrow> database \<Rightarrow> request_id \<Rightarrow> string \<Rightarrow> response_envelope \<Rightarrow> response_envelope \<Rightarrow> int
   \<Rightarrow> (processor_error, response_envelope) result \<times> database" where
  "journal j db rid canonical response conflict accepted_utc_millis =
     (case js_response j response of
        Inl e \<Rightarrow> (Err (InvalidPersistedResult e), db)
      | Inr stored \<Rightarrow>
          (case accept_or_existing db
                  \<lparr>ac_request_id = rid, ac_command_id = for_request rid, ac_canonical_command = canonical,
                   ac_original_result = stored, ac_accepted_utc_millis = accepted_utc_millis\<rparr> of
             (Inl e, db') \<Rightarrow> (Err (Storage e), db')
           | (Inr out, db') \<Rightarrow> (accepted_reply j canonical response conflict out, db')))"

definition processor_execute ::
  "'j json \<Rightarrow> command_processor \<Rightarrow> command_envelope \<Rightarrow> int
   \<Rightarrow> (processor_error, response_envelope) result \<times> command_processor" where
  "processor_execute j p env accepted_utc_millis =
     (if ce_api_version env \<noteq> API_VERSION \<or> class_of (ce_command env) = ReadOnly then
        (Ok (noop_execute (cp_service p) env), p)
      else case canonical_bytes j (ce_command env) of
        Inl e \<Rightarrow> (Err (Canonicalization e), p)
      | Inr canonical \<Rightarrow>
          (case ce_command env of
             NoopMutation marker \<Rightarrow>
               (case journal j (cp_store p) (ce_request_id env) canonical
                   \<lparr>re_api_version = API_VERSION, re_request_id = ce_request_id env,
                    re_outcome = Success (NoopMutationAccepted marker)\<rparr>
                   (conflict_response (ce_request_id env)) accepted_utc_millis of
                  (r, db) \<Rightarrow> (r, p\<lparr>cp_store := db\<rparr>))
           | _ \<Rightarrow> (Ok (noop_execute (cp_service p) env), p)))"

definition is_journaled :: "command_processor \<Rightarrow> request_id \<Rightarrow> (processor_error, bool) result" where
  "is_journaled p rid = map_err Storage (map_ok (\<lambda>r. r \<noteq> None) (read_accepted_command (cp_store p) rid))"

section \<open>Following a subscription\<close>

text \<open>
  A subscriber that asks again with the cursor it was given, until no more events are announced.
  \<open>None\<close> means that a request was refused or that the number of requests did not suffice.
\<close>

fun follow ::
  "'j json \<Rightarrow> event_service \<Rightarrow> int \<Rightarrow> int \<Rightarrow> nat \<Rightarrow> event_cursor \<Rightarrow> 'j event_envelope list option" where
  "follow j es version limit 0 c = None"
| "follow j es version limit (Suc requests) c =
     (case subscribe j es \<lparr>sq_api_version = version, sq_after = Some c, sq_limit = limit\<rparr> of
        Inr r \<Rightarrow>
          (case sr_outcome r of
             Events events c' has_more \<Rightarrow>
               if has_more then map_option (\<lambda>rest. events @ rest) (follow j es version limit requests c')
               else Some events
           | _ \<Rightarrow> None)
      | Inl e \<Rightarrow> None)"

definition own_events :: "event_service \<Rightarrow> event_row list" where
  "own_events es =
     filter (\<lambda>e. er_service_instance_id e = service_instance_id_str (es_service_instance_id es)) (db_events (es_store es))"

definition envelope_of :: "'j json \<Rightarrow> int \<Rightarrow> event_row \<Rightarrow> 'j event_envelope" where
  "envelope_of j version e =
     \<lparr>ee_api_version = version, ee_service_instance_id = ServiceInstanceId (er_service_instance_id e),
      ee_sequence = er_sequence e, ee_event_id = EventId (er_event_id e),
      ee_occurred_utc_millis = er_occurred_utc_millis e,
      ee_event = (case payload_from_str j (er_event_json e) of Inr p \<Rightarrow> p | Inl e \<Rightarrow> undefined)\<rparr>"

text \<open>Every event of the generation can be read back; publishing writes only such events.\<close>

definition readable :: "'j json \<Rightarrow> event_service \<Rightarrow> bool" where
  "readable j es \<longleftrightarrow> list_all (\<lambda>e. is_ok (payload_from_str j (er_event_json e))) (own_events es)"

lemma envelopes_readable:
  assumes "list_all (\<lambda>e. is_ok (payload_from_str j (er_event_json e))) es"
  shows "envelopes j version (map stored_event_of es) = Ok (map (envelope_of j version) es)"
  using assms by (induction es) (auto simp: is_ok_iff stored_event_of_def envelope_of_def)

lemma subscribe_outcomes:
  assumes log: "valid_log (es_store es)" and rd: "readable j es"
    and version: "version \<in> set SUPPORTED_API_VERSIONS" and limit: "1 \<le> limit" "limit \<le> MAX_REPLAY_EVENTS"
    and n: "0 \<le> n" "n \<le> i64_max"
    and req: "req = \<lparr>sq_api_version = version, sq_after = after, sq_limit = limit\<rparr>"
    and after: "after = Some (cursor (es_service_instance_id es) n) \<or> after = None \<and> n = 0"
    and own: "own = own_events es" and rest: "rest = filter (\<lambda>e. er_sequence e > n) own"
  shows "subscribe j es req = Ok (subscription_reply version
    (if own \<noteq> [] \<and> n + 1 < er_sequence (hd own)
     then CursorGap (cursor (es_service_instance_id es) n) (cursor (es_service_instance_id es) (er_sequence (hd own)))
     else if n > (if own = [] then 0 else er_sequence (last own))
     then CursorUnavailable (cursor (es_service_instance_id es) n)
       (cursor (es_service_instance_id es) (if own = [] then 0 else er_sequence (last own)))
     else let page = take (nat limit) rest in
       Events (map (envelope_of j version) page)
         (cursor (es_service_instance_id es) (if page = [] then n else er_sequence (last page)))
         (nat limit < length rest)))"
proof -
  let ?svc = "es_service_instance_id es"
  have replay: "replay_events (es_store es) ?svc n (nat limit) =
      Ok \<lparr>rw_events = take (nat limit) (map stored_event_of rest),
        rw_earliest_sequence = (if own = [] then None else Some (er_sequence (hd own))),
        rw_latest_sequence = (if own = [] then None else Some (er_sequence (last own))),
        rw_has_more = (nat limit < length rest)\<rparr>"
    unfolding rest using n limit own
    by (intro replay_events_exact [OF log]) (simp_all add: own_events_def MAX_REPLAY_EVENTS_def)
  have "list_all (\<lambda>e. is_ok (payload_from_str j (er_event_json e))) (take (nat limit) rest)"
    using rd by (auto simp: readable_def own rest list_all_iff dest!: in_set_takeD)
  then have env: "envelopes j version (take (nat limit) (map stored_event_of rest)) =
      Ok (map (envelope_of j version) (take (nat limit) rest))"
    using envelopes_readable by (simp add: take_map)
  have last_env: "ee_sequence (last (map (envelope_of j version) xs)) = er_sequence (last xs)" if "xs \<noteq> []" for xs
    using that by (simp add: last_map envelope_of_def)
  have hd_pos: "1 \<le> er_sequence (hd own) \<and> er_sequence (hd own) \<le> i64_max" if "own \<noteq> []"
    using log hd_in_set [OF that] by (fastforce simp: own own_events_def valid_log_def)
  have sat: "sat_u64 (er_sequence (hd own) - 1) = er_sequence (hd own) - 1" if "own \<noteq> []"
    using hd_pos [OF that] by (simp add: saturate_in)
  have "subscribe j es req = subscribe_window j es req n"
    using after version limit by (auto simp: subscribe_def req cursor_def)
  also have "\<dots> = Ok (subscription_reply version
    (if own \<noteq> [] \<and> n + 1 < er_sequence (hd own)
     then CursorGap (cursor ?svc n) (cursor ?svc (er_sequence (hd own)))
     else if n > (if own = [] then 0 else er_sequence (last own))
     then CursorUnavailable (cursor ?svc n) (cursor ?svc (if own = [] then 0 else er_sequence (last own)))
     else let page = take (nat limit) rest in
       Events (map (envelope_of j version) page)
         (cursor ?svc (if page = [] then n else er_sequence (last page)))
         (nat limit < length rest)))"
    using sat last_env env by (auto simp: subscribe_window_def req replay Let_def subscribe_retained_def)
  finally show ?thesis .
qed

definition retained_cursor :: "event_service \<Rightarrow> int \<Rightarrow> bool" where
  "retained_cursor es n \<longleftrightarrow> 0 \<le> n \<and>
     (if own_events es = [] then n = 0
      else er_sequence (hd (own_events es)) \<le> n + 1 \<and> n \<le> er_sequence (last (own_events es)))"

lemma filter_above_taken:
  fixes f :: "'a \<Rightarrow> int"
  assumes "sorted_wrt (<) (map f xs)" and k: "0 < k" "k \<le> length xs" and n: "n = f (last (take k xs))"
  shows "filter (\<lambda>x. n < f x) xs = drop k xs"
proof -
  obtain ys z where yz: "take k xs = ys @ [z]" using k by (cases "take k xs" rule: rev_cases) auto
  have "sorted_wrt (\<lambda>x y. f x < f y) (take k xs @ drop k xs)" using assms(1) by (simp add: sorted_wrt_map)
  then have s: "sorted_wrt (\<lambda>x y. f x < f y) (take k xs)"
      "\<forall>x \<in> set (take k xs). \<forall>y \<in> set (drop k xs). f x < f y"
    unfolding sorted_wrt_append by blast+
  have "\<forall>x \<in> set (take k xs). f x \<le> n"
    using s(1) by (auto simp: n yz sorted_wrt_append intro: less_imp_le)
  moreover have "\<forall>y \<in> set (drop k xs). n < f y" using s(2) by (simp add: n yz)
  ultimately have "filter (\<lambda>x. n < f x) (take k xs @ drop k xs) = drop k xs"
    unfolding filter_append by (simp add: filter_empty_conv filter_id_conv not_less)
  then show ?thesis by simp
qed

lemma own_events_sorted: "valid_log (es_store es) \<Longrightarrow> sorted_wrt (<) (map er_sequence (own_events es))"
  by (simp add: own_events_def valid_log_def sorted_wrt_map sorted_wrt_filter)

lemma own_events_bounds:
  assumes "valid_log (es_store es)" "e \<in> set (own_events es)"
  shows "1 \<le> er_sequence e" "er_sequence e \<le> i64_max"
    "er_sequence (hd (own_events es)) \<le> er_sequence e" "er_sequence e \<le> er_sequence (last (own_events es))"
proof -
  show "1 \<le> er_sequence e" "er_sequence e \<le> i64_max"
    using assms by (fastforce simp: own_events_def valid_log_def)+
  have so: "sorted_wrt (\<lambda>x y. er_sequence x < er_sequence y) (own_events es)"
    using own_events_sorted [OF assms(1)] by (simp add: sorted_wrt_map)
  obtain x xs where x: "own_events es = x # xs" using assms(2) by (cases "own_events es") auto
  show "er_sequence (hd (own_events es)) \<le> er_sequence e" using so assms(2) by (auto simp: x intro: less_imp_le)
  obtain ys y where y: "own_events es = ys @ [y]" using assms(2) by (cases "own_events es" rule: rev_cases) auto
  show "er_sequence e \<le> er_sequence (last (own_events es))"
    using so assms(2) by (auto simp: y sorted_wrt_append intro: less_imp_le)
qed

lemma retained_cursor_bound:
  assumes "valid_log (es_store es)" "retained_cursor es n"
  shows "n \<le> i64_max"
  using own_events_bounds(2) [OF assms(1) last_in_set] assms(2)
  by (fastforce simp: retained_cursor_def split: if_splits)

lemma follow_complete:
  assumes log: "valid_log (es_store es)" and rd: "readable j es"
    and version: "version \<in> set SUPPORTED_API_VERSIONS" and limit: "1 \<le> limit" "limit \<le> MAX_REPLAY_EVENTS"
    and c: "retained_cursor es n"
    and requests: "length (filter (\<lambda>e. er_sequence e > n) (own_events es)) div nat limit < requests"
  shows "follow j es version limit requests (cursor (es_service_instance_id es) n) =
    Some (map (envelope_of j version) (filter (\<lambda>e. er_sequence e > n) (own_events es)))"
  using c requests
proof (induction requests arbitrary: n)
  case (Suc requests)
  let ?rest = "filter (\<lambda>e. er_sequence e > n) (own_events es)"
  let ?page = "take (nat limit) ?rest"
  have range: "0 \<le> n" "n \<le> i64_max" "\<not> (own_events es \<noteq> [] \<and> n + 1 < er_sequence (hd (own_events es)))"
      "\<not> n > (if own_events es = [] then 0 else er_sequence (last (own_events es)))"
    using Suc.prems(1) retained_cursor_bound [OF log Suc.prems(1)] by (auto simp: retained_cursor_def split: if_splits)
  have sub: "subscribe j es \<lparr>sq_api_version = version, sq_after = Some (cursor (es_service_instance_id es) n), sq_limit = limit\<rparr>
      = Ok (subscription_reply version (Events (map (envelope_of j version) ?page)
         (cursor (es_service_instance_id es) (if ?page = [] then n else er_sequence (last ?page))) (nat limit < length ?rest)))"
    using subscribe_outcomes [OF log rd version limit range(1,2) refl disjI1 [OF refl] refl refl] range(3,4)
    by (simp add: Let_def split del: if_split)
  show ?case
  proof (cases "nat limit < length ?rest")
    case False
    then show ?thesis using sub by (simp add: subscription_reply_def)
  next
    case True
    let ?n' = "er_sequence (last ?page)"
    have p: "?page \<noteq> []" using True limit by auto
    have l: "last ?page \<in> set (own_events es)" "n < ?n'"
      using last_in_set [OF p] by (auto dest!: in_set_takeD)
    have so: "sorted_wrt (<) (map er_sequence ?rest)"
      using own_events_sorted [OF log] by (simp add: sorted_wrt_map sorted_wrt_filter)
    have "filter (\<lambda>e. ?n' < er_sequence e) (own_events es) = filter (\<lambda>e. ?n' < er_sequence e) ?rest"
      using l(2) by (auto simp: intro!: filter_cong)
    also have "\<dots> = drop (nat limit) ?rest"
      using filter_above_taken [OF so _ _ refl, of "nat limit"] limit True by simp
    finally have rest: "filter (\<lambda>e. ?n' < er_sequence e) (own_events es) = drop (nat limit) ?rest" .
    have c': "retained_cursor es ?n'"
      using own_events_bounds [OF log l(1)] l(1) by (auto simp: retained_cursor_def)
    have "length (drop (nat limit) ?rest) div nat limit < requests"
      using Suc.prems(2) True limit le_div_geq [of "nat limit" "length ?rest"] by simp
    then have "follow j es version limit requests (cursor (es_service_instance_id es) ?n') =
        Some (map (envelope_of j version) (drop (nat limit) ?rest))"
      using Suc.IH [OF c'] rest by simp
    then show ?thesis
      using sub True p by (simp add: subscription_reply_def map_append [symmetric] del: map_append)
  qed
qed simp

text \<open>
  C15: a subscriber that follows the cursors it is given receives every retained event of the
  generation after its first cursor, each once and in order, and is told the end: with \<open>k\<close> events
  left and pages of \<open>limit\<close>, \<open>k div limit + 1\<close> requests are enough.
\<close>

theorem subscription_follows_generation:
  assumes "valid_log (es_store es)" and "readable j es"
    and "version \<in> set SUPPORTED_API_VERSIONS" and "1 \<le> limit" "limit \<le> MAX_REPLAY_EVENTS"
    and "retained_cursor es n"
    and "length (filter (\<lambda>e. er_sequence e > n) (own_events es)) div nat limit < requests"
  shows "follow j es version limit requests (cursor (es_service_instance_id es) n) =
    Some (map (envelope_of j version) (filter (\<lambda>e. er_sequence e > n) (own_events es)))"
  using assms by (rule follow_complete)

definition sample_json :: "string json" where
  "sample_json =
     \<lparr>js_string = (\<lambda>s. s), js_as_str = Some, js_print = (\<lambda>_. Ok ''{}''),
      js_parse = (\<lambda>_. Ok [(''kind'', ''phase0_notice''), (''message'', ''up'')]),
      js_lifecycle = (\<lambda>_. Err []), js_decode = (\<lambda>_. Ok []), js_health = (\<lambda>_. Err []),
      js_discontinuity = (\<lambda>_. Err []), js_waterfall = (\<lambda>_. Err []),
      js_lifecycle_from = (\<lambda>_. Err []), js_decode_from = (\<lambda>_. Err []), js_health_from = (\<lambda>_. Err []),
      js_discontinuity_from = (\<lambda>_. Err []), js_waterfall_from = (\<lambda>_. Err []),
      js_command = (\<lambda>c. case c of NoopMutation m \<Rightarrow> Ok (''noop '' @ m) | ReceiveStop \<Rightarrow> Ok ''stop'' | _ \<Rightarrow> Ok ''other''),
      js_response = (\<lambda>_. Ok ''response''), js_response_from = (\<lambda>_. Err [])\<rparr>"

definition sample_service :: event_service where
  "sample_service = from_store sample_log (ServiceInstanceId ''svc_00000001'')"

lemma sample_service_facts:
  "valid_log (es_store sample_service)" "readable sample_json sample_service"
  "own_events sample_service = db_events sample_log" "retained_cursor sample_service 0"
proof -
  show "valid_log (es_store sample_service)" by (simp add: sample_service_def from_store_def sample_log_valid)
  show own: "own_events sample_service = db_events sample_log"
    by (simp add: own_events_def sample_service_def from_store_def sample_log_def)
  show "readable sample_json sample_service"
    unfolding readable_def own
    by (simp add: sample_log_def payload_from_str_def payload_deserialize_def payload_of_kind_def sample_json_def
        AList.delete_eq)
  show "retained_cursor sample_service 0" unfolding retained_cursor_def own by (simp add: sample_log_def)
qed

theorem subscription_follows_generation_witness:
  "\<exists>evs. follow sample_json sample_service 2 1 3 (cursor (es_service_instance_id sample_service) 0) = Some evs \<and>
     map ee_sequence evs = [1, 3]"
  using subscription_follows_generation [OF sample_service_facts(1,2) _ _ _ sample_service_facts(4), of 2 1 3]
  by (simp add: sample_service_facts(3) SUPPORTED_API_VERSIONS_def API_VERSION_def MAX_REPLAY_EVENTS_def
      sample_log_def envelope_of_def)

text \<open>
  C38: sequences are shared by all generations, so the first request of a subscriber that has seen
  nothing is answered with a cursor gap as soon as the first retained event of the generation is
  not the first event of the log; and a subscriber that goes on from the offered cursor never
  receives that event.
\<close>

theorem first_subscription_skips_event:
  assumes log: "valid_log (es_store es)" and rd: "readable j es"
    and version: "version \<in> set SUPPORTED_API_VERSIONS" and limit: "1 \<le> limit" "limit \<le> MAX_REPLAY_EVENTS"
    and own: "own_events es \<noteq> []" and e: "e = er_sequence (hd (own_events es))" "1 < e"
  shows "subscribe j es \<lparr>sq_api_version = version, sq_after = None, sq_limit = limit\<rparr> =
      Ok (subscription_reply version
        (CursorGap (cursor (es_service_instance_id es) 0) (cursor (es_service_instance_id es) e))) \<and>
    (\<exists>evs. follow j es version limit (Suc (length (own_events es)))
        (cursor (es_service_instance_id es) e) = Some evs \<and> e \<notin> ee_sequence ` set evs)"
proof
  show "subscribe j es \<lparr>sq_api_version = version, sq_after = None, sq_limit = limit\<rparr> =
      Ok (subscription_reply version
        (CursorGap (cursor (es_service_instance_id es) 0) (cursor (es_service_instance_id es) e)))"
    using subscribe_outcomes [OF log rd version limit _ _ refl _ refl refl, of 0 None] own e by simp
  have c: "retained_cursor es e"
    using own_events_bounds [OF log hd_in_set [OF own]] own e by (simp add: retained_cursor_def)
  have "length (filter (\<lambda>x. e < er_sequence x) (own_events es)) div nat limit < Suc (length (own_events es))"
    by (meson div_le_dividend le_trans length_filter_le less_Suc_eq_le)
  from follow_complete [OF log rd version limit c this]
  show "\<exists>evs. follow j es version limit (Suc (length (own_events es)))
        (cursor (es_service_instance_id es) e) = Some evs \<and> e \<notin> ee_sequence ` set evs"
    by (auto simp: envelope_of_def)
qed

definition second_generation :: event_service where
  "second_generation = from_store
     (empty_database\<lparr>
       db_events := [\<lparr>er_sequence = 5, er_event_id = ''evt_00000001'', er_service_instance_id = ''svc_00000001'',
                      er_event_json = ''{}'', er_occurred_utc_millis = 5\<rparr>], db_event_counter := 5\<rparr>)
     (ServiceInstanceId ''svc_00000001'')"

theorem first_subscription_skips_event_witness:
  "subscribe sample_json second_generation \<lparr>sq_api_version = 2, sq_after = None, sq_limit = 1\<rparr> =
     Ok (subscription_reply 2 (CursorGap (cursor (ServiceInstanceId ''svc_00000001'') 0)
        (cursor (ServiceInstanceId ''svc_00000001'') 5)))"
proof -
  have own: "own_events second_generation = db_events (es_store second_generation)"
    by (simp add: own_events_def second_generation_def from_store_def)
  have log: "valid_log (es_store second_generation)"
    using sample_log_valid(1) by (simp add: valid_log_def second_generation_def from_store_def sample_log_def)
  have rd: "readable sample_json second_generation"
    unfolding readable_def own
    by (simp add: second_generation_def from_store_def payload_from_str_def payload_deserialize_def
        payload_of_kind_def sample_json_def AList.delete_eq)
  have "(2::int) \<in> set SUPPORTED_API_VERSIONS" "(1::int) \<le> 1" "(1::int) \<le> MAX_REPLAY_EVENTS"
      "own_events second_generation \<noteq> []" "5 = er_sequence (hd (own_events second_generation))" "1 < (5::int)"
    unfolding own
    by (simp_all add: SUPPORTED_API_VERSIONS_def API_VERSION_def MAX_REPLAY_EVENTS_def second_generation_def from_store_def)
  from conjunct1 [OF first_subscription_skips_event [OF log rd this]]
  show ?thesis by (simp add: second_generation_def from_store_def)
qed

section \<open>Journaled requests\<close>

text \<open>The journal holds this answer for this request and this canonical command.\<close>

definition journaled :: "database \<Rightarrow> request_id \<Rightarrow> string \<Rightarrow> string \<Rightarrow> bool" where
  "journaled db rid canonical answer \<longleftrightarrow>
     (\<exists>row \<in> set (db_commands db). cr_request_id row = request_id_str rid \<and>
        cr_canonical_command row = canonical \<and> cr_original_result row = answer)"

abbreviation valid_request :: "request_id \<Rightarrow> bool" where
  "valid_request rid \<equiv> valid_id ''req_'' (request_id_str rid)"

lemma journaled_read:
  assumes "valid_commands db" "journaled db rid canonical answer"
  shows "\<exists>a. read_accepted_command db rid = Ok (Some a) \<and> ac_canonical_command a = canonical \<and> ac_original_result a = answer"
proof -
  obtain row where row: "row \<in> set (db_commands db)" "cr_request_id row = request_id_str rid"
      "cr_canonical_command row = canonical" "cr_original_result row = answer"
    using assms(2) by (auto simp: journaled_def)
  from read_command_row [OF assms(1) row(1,2)] row(3,4) show ?thesis by (auto simp: command_row_of_def)
qed

lemma read_total:
  assumes "valid_commands db"
  shows "\<exists>r. read_accepted_command db rid = Ok r"
proof (cases "find (\<lambda>c. cr_request_id c = request_id_str rid) (db_commands db)")
  case (Some row)
  then have "row \<in> set (db_commands db)" "cr_request_id row = request_id_str rid" by (auto simp: find_Some_iff)
  from read_command_row [OF assms this] show ?thesis by blast
qed (simp add: read_accepted_command_def)

lemma accept_keeps:
  assumes ok: "valid_commands db" and rid: "valid_request (ac_request_id c)" and cid: "ac_command_id c = for_request (ac_request_id c)"
    and acc: "accept_or_existing db c = (out, db')"
  shows "valid_commands db'" "set (db_commands db) \<subseteq> set (db_commands db')"
proof -
  have "db' = db \<or> command_insertable db (command_row_of c) \<and> db' = db\<lparr>db_commands := db_commands db @ [command_row_of c]\<rparr>"
    using acc by (auto simp: accept_or_existing_def commit_or_rollback_def rbind_Inl split: if_splits sum.splits)
  then show "valid_commands db'" "set (db_commands db) \<subseteq> set (db_commands db')"
    using ok rid cid valid_id_for_request [OF rid]
    by (fastforce simp: valid_commands_def command_insertable_def command_row_of_def)+
qed

lemma journal_keeps:
  assumes "valid_commands db" "valid_request rid" "journal j db rid canonical response conflict t = (r, db')"
  shows "valid_commands db'" "journaled db q k a \<Longrightarrow> journaled db' q k a"
  using assms accept_keeps [of db "\<lparr>ac_request_id = rid, ac_command_id = for_request rid, ac_canonical_command = canonical,
      ac_original_result = _, ac_accepted_utc_millis = t\<rparr>"]
  by (auto simp: journal_def journaled_def split: sum.splits prod.splits) blast+

lemma journal_new:
  assumes fresh: "read_accepted_command db rid = Ok None"
    and ok: "journal j db rid canonical response conflict t = (Ok answer, db')"
  shows "answer = response \<and> (\<exists>s. js_response j response = Ok s \<and> journaled db' rid canonical s)"
  using assms
  by (auto simp: journal_def accept_or_existing_def commit_or_rollback_def accepted_reply_def journaled_def
      command_row_of_def split: sum.splits prod.splits if_splits)

end
