(* ===== verification/SP_Receive_Api.thy ===== *)
theory SP_Receive_Api
  imports SP_Event_Service SP_Daemon_Receive
begin

text \<open>
  \<open>apps/daemon/src/receive_api.rs\<close>: the store that couples a receive record to its public decode
  event, the mapping of domain values to the wire vocabulary, and the processor that answers
  versioned commands, replays journaled mutations and forwards new ones to the receive port.
  The trait \<open>ReceiveApiPort\<close> is a record of operations on the port's state.
\<close>

section \<open>Mapping to the wire\<close>

fun map_platform :: "input_platform \<Rightarrow> api_input_platform" where
  "map_platform MacOsCoreAudio = ApiMacOsCoreAudio"
| "map_platform WindowsWasapi = ApiWindowsWasapi"
| "map_platform LinuxAlsa = ApiLinuxAlsa"
| "map_platform LinuxJack = ApiLinuxJack"

fun map_platform_from_api :: "api_input_platform \<Rightarrow> input_platform" where
  "map_platform_from_api ApiMacOsCoreAudio = MacOsCoreAudio"
| "map_platform_from_api ApiWindowsWasapi = WindowsWasapi"
| "map_platform_from_api ApiLinuxAlsa = LinuxAlsa"
| "map_platform_from_api ApiLinuxJack = LinuxJack"

fun map_sample_format :: "input_sample_format \<Rightarrow> api_sample_format" where
  "map_sample_format Signed8 = ApiSigned8"
| "map_sample_format Signed16 = ApiSigned16"
| "map_sample_format Signed24 = ApiSigned24"
| "map_sample_format Signed32 = ApiSigned32"
| "map_sample_format Signed64 = ApiSigned64"
| "map_sample_format Unsigned8 = ApiUnsigned8"
| "map_sample_format Unsigned16 = ApiUnsigned16"
| "map_sample_format Unsigned24 = ApiUnsigned24"
| "map_sample_format Unsigned32 = ApiUnsigned32"
| "map_sample_format Unsigned64 = ApiUnsigned64"
| "map_sample_format Float32 = ApiFloat32"
| "map_sample_format Float64 = ApiFloat64"

fun map_sample_format_from_api :: "api_sample_format \<Rightarrow> input_sample_format" where
  "map_sample_format_from_api ApiSigned8 = Signed8"
| "map_sample_format_from_api ApiSigned16 = Signed16"
| "map_sample_format_from_api ApiSigned24 = Signed24"
| "map_sample_format_from_api ApiSigned32 = Signed32"
| "map_sample_format_from_api ApiSigned64 = Signed64"
| "map_sample_format_from_api ApiUnsigned8 = Unsigned8"
| "map_sample_format_from_api ApiUnsigned16 = Unsigned16"
| "map_sample_format_from_api ApiUnsigned24 = Unsigned24"
| "map_sample_format_from_api ApiUnsigned32 = Unsigned32"
| "map_sample_format_from_api ApiUnsigned64 = Unsigned64"
| "map_sample_format_from_api ApiFloat32 = Float32"
| "map_sample_format_from_api ApiFloat64 = Float64"

definition map_device_identity :: "input_device_identity \<Rightarrow> api_device_identity" where
  "map_device_identity v =
     \<lparr>adi_platform = map_platform (identity_platform v), adi_opaque_id = opaque_id v\<rparr>"

definition map_configuration :: "input_configuration \<Rightarrow> api_input_configuration" where
  "map_configuration v =
     \<lparr>aic_sample_rate_hz = cfg_sample_rate_hz v, aic_channels = cfg_channels v,
      aic_sample_format = map_sample_format (cfg_sample_format v),
      aic_selected_channel = cfg_selected_channel v\<rparr>"

definition map_configuration_range :: "input_configuration_range \<Rightarrow> api_configuration_range" where
  "map_configuration_range v =
     \<lparr>acr_min_sample_rate_hz = range_min_sample_rate_hz v, acr_max_sample_rate_hz = range_max_sample_rate_hz v,
      acr_channels = range_channels v, acr_sample_format = map_sample_format (range_sample_format v)\<rparr>"

definition map_input_device :: "input_device_descriptor \<Rightarrow> api_input_device" where
  "map_input_device d =
     \<lparr>aid_identity = map_device_identity (descriptor_identity d),
      aid_display_name = display_name (descriptor_display d),
      aid_manufacturer = display_manufacturer (descriptor_display d),
      aid_configuration_ranges = map map_configuration_range (descriptor_configuration_ranges d)\<rparr>"

datatype receive_api_fault =
    FaultDeviceUnavailable
  | FaultInhibited receive_inhibition_kind
  | FaultInvalidRequest
  | FaultStorageUnavailable

definition map_receive_selection :: "api_receive_selection \<Rightarrow> (receive_api_fault, receive_selection) result" where
  "map_receive_selection s =
     rbind (map_err (\<lambda>_. FaultInvalidRequest)
              (input_device_identity_new (map_platform_from_api (adi_platform (ars_device_identity s)))
                 (adi_opaque_id (ars_device_identity s)))) (\<lambda>ident.
     rbind (map_err (\<lambda>_. FaultInvalidRequest)
              (input_configuration_new (aic_sample_rate_hz (ars_configuration s)) (aic_channels (ars_configuration s))
                 (map_sample_format_from_api (aic_sample_format (ars_configuration s)))
                 (aic_selected_channel (ars_configuration s)))) (\<lambda>configuration.
       Ok \<lparr>sel_device_identity = ident, sel_configuration = configuration\<rparr>))"

fun map_inhibition :: "receive_inhibition \<Rightarrow> receive_inhibition_kind" where
  "map_inhibition (InhibitInput FaultDeviceLost) = RxDeviceUnavailable"
| "map_inhibition (InhibitInput FaultPermissionDenied) = RxDeviceUnavailable"
| "map_inhibition (InhibitInput FaultBackendFailure) = RxDeviceUnavailable"
| "map_inhibition (InhibitInput (FaultOverflow n)) = RxOverflow"
| "map_inhibition WorkerBackpressure = RxOverflow"
| "map_inhibition (InhibitInput (FaultDiscontinuity k)) = RxDiscontinuity"
| "map_inhibition (InhibitInput (FaultClipping n)) = RxTimelineInvalid"
| "map_inhibition (InhibitInput (FaultDrift n)) = RxTimelineInvalid"
| "map_inhibition (InhibitInput (FaultCallbackDelay n)) = RxTimelineInvalid"
| "map_inhibition (InhibitTimeline e) = RxTimelineInvalid"
| "map_inhibition (InhibitClock f) = RxClockUnhealthy"
| "map_inhibition DecoderFailure = RxDecoderFailed"
| "map_inhibition StorageFailure = RxStorageFailed"

fun map_lifecycle :: "receive_lifecycle_state \<Rightarrow> lifecycle_snapshot" where
  "map_lifecycle (Stopped pg last_stream_generation) = SnapStopped last_stream_generation"
| "map_lifecycle (Starting sg) = SnapStarting (stream_generation_get sg)"
| "map_lifecycle (Receiving sg) = SnapReceiving (stream_generation_get sg)"
| "map_lifecycle (Inhibited sg reason) = SnapInhibited (stream_generation_get sg) (map_inhibition reason)"
| "map_lifecycle (Stopping sg reason) = SnapStopping (stream_generation_get sg)"

fun map_message_class :: "ft8_message_class \<Rightarrow> api_message_class" where
  "map_message_class GeneralCall = ApiGeneralCall"
| "map_message_class DirectedGrid = ApiDirectedGrid"
| "map_message_class SignalReport = ApiSignalReport"
| "map_message_class RogerSignalReport = ApiRogerSignalReport"
| "map_message_class Roger = ApiRoger"
| "map_message_class Ending73 = ApiEnding73"
| "map_message_class EndingRr73 = ApiEndingRr73"

fun map_classification :: "classified_ft8_message \<Rightarrow> api_classification" where
  "map_classification (Resolved v) =
     ApiResolved (rm_canonical_text v) (original (rm_sender v)) (map_option original (rm_recipient v))
       (map_message_class (rm_class v))"
| "map_classification (UnresolvedHash v) = ApiUnresolvedHash (dm_canonical_text v) (dm_detail v)"
| "map_classification (Unsupported v) = ApiUnsupported (dm_canonical_text v) (dm_detail v)"
| "map_classification (Ambiguous v) = ApiAmbiguous (dm_canonical_text v) (dm_detail v)"
| "map_classification (FreeText v) = ApiFreeText (free_text v)"

definition map_decode :: "ft8_decode \<Rightarrow> api_decode" where
  "map_decode d =
     \<lparr>ad_start_offset_millis = md_start_offset_millis (dec_metadata d),
      ad_audio_frequency_hz = md_audio_frequency_hz (dec_metadata d),
      ad_signal_to_noise_db = md_signal_to_noise_db (dec_metadata d),
      ad_classification = map_classification (dec_message d)\<rparr>"

fun map_storage_clock :: "stored_clock_health \<Rightarrow> api_clock_health" where
  "map_storage_clock (StoredHealthy age) = ApiHealthy age"
| "map_storage_clock (StoredUnhealthy fault progress required age) = ApiUnhealthy RxClockUnhealthy progress required age"

definition map_receive_record :: "int \<Rightarrow> receive_record \<Rightarrow> receive_record_summary" where
  "map_receive_record n r =
     (let context = rr_context r; audio = rd_audio (rr_diagnostics r) in
      \<lparr>rrs_sequence = n, rrs_receive_window_id = rc_receive_window_id context,
       rrs_slot_start_utc_millis = start_utc_unix_millis (rc_slot context),
       rrs_selection = \<lparr>ars_device_identity = map_device_identity (rc_device_identity context),
                        ars_configuration = map_configuration (rc_configuration context)\<rparr>,
       rrs_audio = \<lparr>aah_latency_millis = ih_latency_millis audio,
                    aah_drift_parts_per_million = ih_drift_parts_per_million audio,
                    aah_overflow_count = ih_overflow_count audio,
                    aah_clipped_sample_count = ih_clipped_sample_count audio,
                    aah_max_callback_delay_millis = ih_max_callback_delay_millis audio\<rparr>,
       rrs_clock = map_storage_clock (rd_clock (rr_diagnostics r)),
       rrs_decodes = map map_decode (rr_decodes r)\<rparr>)"

definition map_receive_page :: "receive_page \<Rightarrow> int \<Rightarrow> receive_history_page" where
  "map_receive_page page after_sequence =
     (let records = map (\<lambda>s. map_receive_record (sr_sequence s) (sr_record s)) (rp_records page) in
      \<lparr>rhp_records = records,
       rhp_next_sequence = (if records = [] then after_sequence else rrs_sequence (last records)),
       rhp_has_more = rp_has_more page\<rparr>)"

text \<open>The division of \<open>i64\<close> truncates.\<close>

definition map_waterfall_snapshot :: "waterfall_snapshot \<Rightarrow> int \<Rightarrow> waterfall_frame option" where
  "map_waterfall_snapshot snap frame_sequence =
     (if wf_rows snap = [] then None
      else let row = last (wf_rows snap) in
        Some \<lparr>wff_stream_generation = stream_generation_get (row_stream_generation row),
              wff_utc_unix_millis = row_start_utc_unix_micros row sdiv 1000,
              wff_frame_sequence = frame_sequence,
              wff_coalesced = (wf_coalesced_publications snap > 0),
              wff_bins = map (\<lambda>b. \<lparr>wb_frequency_millihz = int (bin_frequency b),
                                   wb_magnitude_millidbfs = bin_magnitude b\<rparr>) (row_bins row)\<rparr>)"

section \<open>The coupled store\<close>

definition public_record_receive ::
  "(string \<Rightarrow> bool) \<Rightarrow> 'j json \<Rightarrow> database \<Rightarrow> receive_record
   \<Rightarrow> (storage_error, receive_insert_outcome) result \<times> database" where
  "public_record_receive json_valid j db r =
     (case strip_prefix ''rxw_'' (receive_window_id_str (rc_receive_window_id (rr_context r))) of
        None \<Rightarrow> (Err InvalidReceiveEventPayload, db)
      | Some suffix \<Rightarrow>
          (case map_err InvalidIdentity (event_id_from_str (''evt_'' @ suffix)) of
             Inl e \<Rightarrow> (Err e, db)
           | Inr eid \<Rightarrow>
               (case record_receive_with_event_builder json_valid db r eid (rr_recorded_utc_millis r)
                       (\<lambda>n. map_err (\<lambda>_. InvalidReceiveEventPayload)
                              (payload_to_string j (ReceiveDecode (map_receive_record n r)))) of
                  (res, db') \<Rightarrow> (map_ok rec_receive res, db'))))"

section \<open>The command processor\<close>

record 'p receive_port =
  rp_input_devices :: "'p \<Rightarrow> (receive_api_fault, input_device_page) result \<times> 'p"
  rp_status :: "'p \<Rightarrow> (receive_api_fault, receive_status) result \<times> 'p"
  rp_start :: "'p \<Rightarrow> request_id \<Rightarrow> api_receive_selection \<Rightarrow> (receive_api_fault, receive_status) result \<times> 'p"
  rp_stop :: "'p \<Rightarrow> request_id \<Rightarrow> (receive_api_fault, receive_status) result \<times> 'p"
  rp_history :: "'p \<Rightarrow> int \<Rightarrow> int \<Rightarrow> (receive_api_fault, receive_history_page) result \<times> 'p"

record 'p receive_api_processor =
  ap_service_instance_id :: service_instance_id
  ap_journal :: database
  ap_port :: 'p

fun is_receive_command :: "command \<Rightarrow> bool" where
  "is_receive_command ListInputDevices = True"
| "is_receive_command (ReceiveStart selection) = True"
| "is_receive_command ReceiveStop = True"
| "is_receive_command GetReceiveStatus = True"
| "is_receive_command (QueryReceiveHistory after limit) = True"
| "is_receive_command (GetCapabilities offered) = False"
| "is_receive_command GetSnapshot = False"
| "is_receive_command (NoopMutation marker) = False"

definition invalid_request_outcome :: response_outcome where
  "invalid_request_outcome =
     ErrorOutcome \<lparr>ae_code = InvalidReceiveRequest, ae_message = ''receive request violates a documented bound'',
       ae_retryable = False, ae_details = ReceiveRequest\<rparr>"

text \<open>The derived \<open>Debug\<close> of a reason is the name of its variant.\<close>

fun inhibition_debug :: "receive_inhibition_kind \<Rightarrow> string" where
  "inhibition_debug RxServiceUnavailable = ''ServiceUnavailable''"
| "inhibition_debug RxDeviceUnavailable = ''DeviceUnavailable''"
| "inhibition_debug RxOverflow = ''Overflow''"
| "inhibition_debug RxDiscontinuity = ''Discontinuity''"
| "inhibition_debug RxClockUnhealthy = ''ClockUnhealthy''"
| "inhibition_debug RxTimelineInvalid = ''TimelineInvalid''"
| "inhibition_debug RxDecoderFailed = ''DecoderFailed''"
| "inhibition_debug RxStorageFailed = ''StorageFailed''"
| "inhibition_debug RxCancelled = ''Cancelled''"

fun fault_str :: "receive_api_fault \<Rightarrow> string" where
  "fault_str FaultDeviceUnavailable = ''receive device is unavailable''"
| "fault_str (FaultInhibited reason) = ''receive is inhibited: '' @ inhibition_debug reason"
| "fault_str FaultInvalidRequest = ''receive request is invalid''"
| "fault_str FaultStorageUnavailable = ''receive storage is unavailable''"

fun fault_parts :: "receive_api_fault \<Rightarrow> error_code \<times> receive_inhibition_kind \<times> bool" where
  "fault_parts FaultDeviceUnavailable = (ReceiveUnavailable, RxDeviceUnavailable, True)"
| "fault_parts (FaultInhibited reason) = (ReceiveInhibited, reason, False)"
| "fault_parts FaultInvalidRequest = (InvalidReceiveRequest, RxServiceUnavailable, False)"
| "fault_parts FaultStorageUnavailable = (ReceiveUnavailable, RxStorageFailed, True)"

definition api_fault_outcome :: "receive_api_fault \<Rightarrow> response_outcome" where
  "api_fault_outcome fault =
     (case fault_parts fault of (code, reason, retryable) \<Rightarrow>
        ErrorOutcome \<lparr>ae_code = code, ae_message = fault_str fault, ae_retryable = retryable,
          ae_details = ReceiveReason reason\<rparr>)"

definition api_error_response :: "int \<Rightarrow> request_id \<Rightarrow> error_code \<Rightarrow> error_details \<Rightarrow> response_envelope" where
  "api_error_response version rid code details =
     \<lparr>re_api_version = version, re_request_id = rid,
      re_outcome = ErrorOutcome \<lparr>ae_code = code,
        ae_message = map (\<lambda>c. if c = CHR ''_'' then CHR '' '' else c) (error_code_str code),
        ae_retryable = False, ae_details = details\<rparr>\<rparr>"

fun port_outcome :: "('a \<Rightarrow> result_body) \<Rightarrow> (receive_api_fault, 'a) result \<Rightarrow> response_outcome" where
  "port_outcome f (Inl fault) = api_fault_outcome fault"
| "port_outcome f (Inr v) = Success (f v)"

definition checked_page ::
  "('a \<Rightarrow> (wire_bound_error, unit) result) \<Rightarrow> (receive_api_fault, 'a) result \<Rightarrow> (receive_api_fault, 'a) result" where
  "checked_page validate r =
     rbind r (\<lambda>page. rbind (map_err (\<lambda>_. FaultInvalidRequest) (validate page)) (\<lambda>_. Ok page))"

text \<open>
  \<open>None\<close> is the panic of the branches the source marks unreachable.
\<close>

definition execute_read_only ::
  "'j json \<Rightarrow> 'p receive_port \<Rightarrow> 'p receive_api_processor \<Rightarrow> command_envelope
   \<Rightarrow> ((processor_error, response_envelope) result \<times> 'p receive_api_processor) option" where
  "execute_read_only j port p env =
     (let svc = ap_service_instance_id p;
          reply = (\<lambda>out st. Some (Ok \<lparr>re_api_version = ce_api_version env, re_request_id = ce_request_id env,
                                     re_outcome = out\<rparr>, p\<lparr>ap_port := st\<rparr>)) in
      case ce_command env of
        GetCapabilities offered \<Rightarrow>
          reply (case re_outcome (noop_execute svc
                        \<lparr>ce_api_version = ce_api_version env, ce_request_id = ce_request_id env,
                         ce_command = GetCapabilities offered\<rparr>) of
              Success (CapabilitiesResult c) \<Rightarrow>
                Success (CapabilitiesResult (c\<lparr>cap_receive_input := Some Available\<rparr>))
            | other \<Rightarrow> other) (ap_port p)
      | GetSnapshot \<Rightarrow>
          (case rp_status port (ap_port p) of
             (r, st) \<Rightarrow> reply (port_outcome (\<lambda>status. SnapshotResult
                 \<lparr>ss_service_instance_id = svc,
                  ss_event_cursor = \<lparr>cur_service_instance_id = svc, cur_sequence = 0\<rparr>,
                  ss_configuration = NotConfigured, ss_operation = NotRunning,
                  ss_receive = Some status, ss_transmit_authority = Unavailable\<rparr>) r) st)
      | ListInputDevices \<Rightarrow>
          (case rp_input_devices port (ap_port p) of
             (r, st) \<Rightarrow> reply (port_outcome InputDevices (checked_page device_page_validate r)) st)
      | GetReceiveStatus \<Rightarrow>
          (case rp_status port (ap_port p) of
             (r, st) \<Rightarrow> reply (port_outcome ReceiveStatusResult r) st)
      | QueryReceiveHistory after limit \<Rightarrow>
          (if \<not> is_ok (canonical_bytes j (ce_command env)) then reply invalid_request_outcome (ap_port p)
           else case rp_history port (ap_port p) after limit of
             (r, st) \<Rightarrow> reply (port_outcome ReceiveHistory (checked_page history_page_validate r)) st)
      | NoopMutation marker \<Rightarrow> None
      | ReceiveStart selection \<Rightarrow> None
      | ReceiveStop \<Rightarrow> None)"

definition request_conflict :: "command_envelope \<Rightarrow> response_envelope" where
  "request_conflict env =
     api_error_response (ce_api_version env) (ce_request_id env) RequestIdConflict RequestConflict"

definition perform ::
  "'p receive_port \<Rightarrow> 'p \<Rightarrow> command_envelope \<Rightarrow> (response_outcome \<times> 'p) option" where
  "perform port st env =
     (case ce_command env of
        NoopMutation marker \<Rightarrow> Some (Success (NoopMutationAccepted marker), st)
      | ReceiveStart selection \<Rightarrow>
          (case rp_start port st (ce_request_id env) selection of
             (r, st') \<Rightarrow> Some (port_outcome (\<lambda>status. ReceiveStarted (rst_lifecycle status)) r, st'))
      | ReceiveStop \<Rightarrow>
          (case rp_stop port st (ce_request_id env) of
             (r, st') \<Rightarrow> Some (port_outcome (\<lambda>status. ReceiveStopped (rst_lifecycle status)) r, st'))
      | _ \<Rightarrow> None)"

definition execute_mutating ::
  "'j json \<Rightarrow> 'p receive_port \<Rightarrow> 'p receive_api_processor \<Rightarrow> command_envelope \<Rightarrow> int
   \<Rightarrow> ((processor_error, response_envelope) result \<times> 'p receive_api_processor) option" where
  "execute_mutating j port p env accepted_utc_millis =
     (case canonical_bytes j (ce_command env) of
        Inl e \<Rightarrow> Some (Ok \<lparr>re_api_version = ce_api_version env, re_request_id = ce_request_id env,
                          re_outcome = invalid_request_outcome\<rparr>, p)
      | Inr canonical \<Rightarrow>
          (case read_accepted_command (ap_journal p) (ce_request_id env) of
             Inl e \<Rightarrow> Some (Err (Storage e), p)
           | Inr (Some existing) \<Rightarrow>
               Some (if ac_canonical_command existing = canonical
                     then map_err InvalidPersistedResult (js_response_from j (ac_original_result existing))
                     else Ok (request_conflict env), p)
           | Inr None \<Rightarrow>
               map_option (\<lambda>(out, st).
                 case journal j (ap_journal p) (ce_request_id env) canonical
                        \<lparr>re_api_version = ce_api_version env, re_request_id = ce_request_id env, re_outcome = out\<rparr>
                        (request_conflict env) accepted_utc_millis of
                   (r, db) \<Rightarrow> (r, p\<lparr>ap_journal := db, ap_port := st\<rparr>))
                 (perform port (ap_port p) env)))"

definition execute ::
  "'j json \<Rightarrow> 'p receive_port \<Rightarrow> 'p receive_api_processor \<Rightarrow> command_envelope \<Rightarrow> int
   \<Rightarrow> ((processor_error, response_envelope) result \<times> 'p receive_api_processor) option" where
  "execute j port p env accepted_utc_millis =
     (if ce_api_version env \<noteq> API_VERSION \<and> ce_api_version env \<noteq> LEGACY_API_VERSION then
        Some (Ok (noop_execute (ap_service_instance_id p) env), p)
      else if ce_api_version env = LEGACY_API_VERSION \<and> is_receive_command (ce_command env) then
        Some (Ok (api_error_response (ce_api_version env) (ce_request_id env) CommandUnavailableInVersion
                   (CommandVersion API_VERSION)), p)
      else case class_of (ce_command env) of
        ReadOnly \<Rightarrow> execute_read_only j port p env
      | Mutating \<Rightarrow> execute_mutating j port p env accepted_utc_millis)"

text \<open>
  The answer \<open>serve_receive_once\<close> sends: the response, or for a processor error a retryable error
  with the error's text, which is a parameter because the database library writes part of it.
\<close>

definition receive_reply ::
  "(processor_error \<Rightarrow> string) \<Rightarrow> command_envelope \<Rightarrow> (processor_error, response_envelope) result \<Rightarrow> response_envelope" where
  "receive_reply error_text env r =
     (case r of
        Inr response \<Rightarrow> response
      | Inl e \<Rightarrow>
          \<lparr>re_api_version = ce_api_version env, re_request_id = ce_request_id env,
           re_outcome = ErrorOutcome \<lparr>ae_code = ReceiveUnavailable, ae_message = error_text e,
             ae_retryable = True, ae_details = ReceiveReason RxStorageFailed\<rparr>\<rparr>)"

section \<open>Requests over time\<close>

text \<open>A sequence of requests with their acceptance times; the answers do not matter.\<close>

fun run_requests ::
  "'j json \<Rightarrow> 'p receive_port \<Rightarrow> 'p receive_api_processor \<Rightarrow> (command_envelope \<times> int) list
   \<Rightarrow> 'p receive_api_processor option" where
  "run_requests j port p [] = Some p"
| "run_requests j port p ((env, t) # rest) =
     (case execute j port p env t of None \<Rightarrow> None | Some (r, p') \<Rightarrow> run_requests j port p' rest)"

text \<open>The mutations the processor does not refuse for their version.\<close>

definition admitted_mutation :: "command_envelope \<Rightarrow> bool" where
  "admitted_mutation env \<longleftrightarrow> class_of (ce_command env) = Mutating \<and>
     (ce_api_version env = API_VERSION \<or>
      ce_api_version env = LEGACY_API_VERSION \<and> \<not> is_receive_command (ce_command env))"

lemma execute_admitted:
  "admitted_mutation env \<Longrightarrow> execute j port p env t = execute_mutating j port p env t"
  by (auto simp: admitted_mutation_def execute_def API_VERSION_def LEGACY_API_VERSION_def)

lemma perform_total: "class_of (ce_command env) = Mutating \<Longrightarrow> \<exists>out st'. perform port st env = Some (out, st')"
  by (cases "ce_command env") (auto simp: perform_def split: prod.splits)

lemma execute_read_only_journal:
  assumes "class_of (ce_command env) = ReadOnly"
  shows "\<exists>r p'. execute_read_only j port p env = Some (r, p') \<and> ap_journal p' = ap_journal p"
  using assms by (cases "ce_command env") (auto simp: execute_read_only_def Let_def split: prod.splits)

lemma execute_mutating_keeps:
  assumes ok: "valid_commands (ap_journal p)" and rid: "valid_request (ce_request_id env)"
    and m: "class_of (ce_command env) = Mutating"
  shows "\<exists>r p'. execute_mutating j port p env t = Some (r, p') \<and> valid_commands (ap_journal p') \<and>
    (\<forall>q k a. journaled (ap_journal p) q k a \<longrightarrow> journaled (ap_journal p') q k a)"
proof (cases "canonical_bytes j (ce_command env)")
  case (Inr canonical)
  obtain found where found: "read_accepted_command (ap_journal p) (ce_request_id env) = Ok found"
    using read_total [OF ok] by blast
  obtain out st where out: "perform port (ap_port p) env = Some (out, st)" using perform_total [OF m, of port "ap_port p"] by blast
  obtain r db where db: "journal j (ap_journal p) (ce_request_id env) canonical
      \<lparr>re_api_version = ce_api_version env, re_request_id = ce_request_id env, re_outcome = out\<rparr>
      (request_conflict env) t = (r, db)"
    by (cases "journal j (ap_journal p) (ce_request_id env) canonical
      \<lparr>re_api_version = ce_api_version env, re_request_id = ce_request_id env, re_outcome = out\<rparr>
      (request_conflict env) t")
  show ?thesis
    using Inr found out db ok journal_keeps [OF ok rid db]
    by (cases found) (auto simp: execute_mutating_def)
qed (use ok in \<open>simp add: execute_mutating_def\<close>)

lemma execute_keeps:
  assumes ok: "valid_commands (ap_journal p)" and rid: "valid_request (ce_request_id env)"
  shows "\<exists>r p'. execute j port p env t = Some (r, p') \<and> valid_commands (ap_journal p') \<and>
    (\<forall>q k a. journaled (ap_journal p) q k a \<longrightarrow> journaled (ap_journal p') q k a)"
  using execute_mutating_keeps [OF assms, of j port t] execute_read_only_journal [of env j port p] ok
  by (cases "class_of (ce_command env)") (auto simp: execute_def)

lemma run_requests_keeps:
  assumes "valid_commands (ap_journal p)" and "\<forall>(env, t) \<in> set rs. valid_request (ce_request_id env)"
  shows "\<exists>p'. run_requests j port p rs = Some p' \<and> valid_commands (ap_journal p') \<and>
    (\<forall>q k a. journaled (ap_journal p) q k a \<longrightarrow> journaled (ap_journal p') q k a)"
  using assms
proof (induction rs arbitrary: p)
  case (Cons x rs)
  obtain env t where x: "x = (env, t)" by fastforce
  obtain r p1 where p1: "execute j port p env t = Some (r, p1)" "valid_commands (ap_journal p1)"
      "\<forall>q k a. journaled (ap_journal p) q k a \<longrightarrow> journaled (ap_journal p1) q k a"
    using execute_keeps [OF Cons.prems(1), of env j port t] Cons.prems(2) x by auto
  then show ?case using Cons.IH [OF p1(2)] Cons.prems(2) x by fastforce
qed simp

lemma execute_replays:
  assumes "valid_commands (ap_journal p)" "journaled (ap_journal p) (ce_request_id env) canonical answer"
    and "admitted_mutation env" "canonical_bytes j (ce_command env) = Ok k" "js_response_from j answer = Ok response"
  shows "execute j port p env t = Some (Ok (if k = canonical then response else request_conflict env), p)"
  using journaled_read [OF assms(1,2)] assms(3-)
  by (auto simp: execute_admitted execute_mutating_def)

lemma execute_first:
  assumes ok: "valid_commands (ap_journal p)" and m: "admitted_mutation env"
    and canonical: "canonical_bytes j (ce_command env) = Ok canonical"
    and fresh: "read_accepted_command (ap_journal p) (ce_request_id env) = Ok None"
    and run: "execute j port p env t = Some (Ok response, p')"
  shows "perform port (ap_port p) env = Some (re_outcome response, ap_port p') \<and>
    (\<exists>s. js_response j response = Ok s \<and> journaled (ap_journal p') (ce_request_id env) canonical s)"
proof -
  have "class_of (ce_command env) = Mutating" using m by (simp add: admitted_mutation_def)
  then obtain out st where out: "perform port (ap_port p) env = Some (out, st)" using perform_total [of env port "ap_port p"] by blast
  then obtain db where db: "journal j (ap_journal p) (ce_request_id env) canonical
      \<lparr>re_api_version = ce_api_version env, re_request_id = ce_request_id env, re_outcome = out\<rparr>
      (request_conflict env) t = (Ok response, db)" "p' = p\<lparr>ap_journal := db, ap_port := st\<rparr>"
    using run canonical fresh by (auto simp: execute_admitted [OF m] execute_mutating_def split: prod.splits)
  from journal_new [OF fresh db(1)] out db(2) show ?thesis by auto
qed

lemma later_replays:
  assumes ok: "valid_commands (ap_journal p)" and rid: "valid_request (ce_request_id env)"
    and m: "admitted_mutation env"
    and canonical: "canonical_bytes j (ce_command env) = Ok canonical"
    and fresh: "read_accepted_command (ap_journal p) (ce_request_id env) = Ok None"
    and json: "\<And>s. js_response j response = Ok s \<Longrightarrow> js_response_from j s = Ok response"
    and run: "execute j port p env t = Some (Ok response, p')"
    and later: "\<forall>(e, u) \<in> set rs. valid_request (ce_request_id e)"
  shows "\<exists>p''. run_requests j port p' rs = Some p'' \<and>
    (\<forall>retry u k. admitted_mutation retry \<and> ce_request_id retry = ce_request_id env \<and>
       canonical_bytes j (ce_command retry) = Ok k \<longrightarrow>
       execute j port p'' retry u = Some (Ok (if k = canonical then response else request_conflict retry), p''))"
proof -
  obtain s where s: "js_response j response = Ok s" "journaled (ap_journal p') (ce_request_id env) canonical s"
    using execute_first [OF ok m canonical fresh run] by blast
  have ok': "valid_commands (ap_journal p')" using execute_keeps [OF ok rid, of j port t] run by auto
  obtain p'' where p'': "run_requests j port p' rs = Some p''" "valid_commands (ap_journal p'')"
      "journaled (ap_journal p'') (ce_request_id env) canonical s"
    using run_requests_keeps [OF ok' later, of j port] s(2) by blast
  show ?thesis
  proof (intro exI [of _ p''] conjI allI impI, rule p''(1), elim conjE)
    fix retry u k
    assume r: "admitted_mutation retry" "ce_request_id retry = ce_request_id env" "canonical_bytes j (ce_command retry) = Ok k"
    show "execute j port p'' retry u = Some (Ok (if k = canonical then response else request_conflict retry), p'')"
      using execute_replays [OF p''(2) _ r(1,3) json [OF s(1)]] p''(3) r(2) by simp
  qed
qed

text \<open>
  C4: a mutation is performed at most once.  When a request is answered for the first time, its
  command has gone to the port once and its answer is in the journal; whatever requests follow,
  a repetition of it under the same identity is answered with that same response, a different
  command under that identity with a conflict, and neither touches the port or the journal.
\<close>

theorem mutation_performed_once:
  assumes "valid_commands (ap_journal p)" and "valid_request (ce_request_id env)" and "admitted_mutation env"
    and "canonical_bytes j (ce_command env) = Ok canonical"
    and "read_accepted_command (ap_journal p) (ce_request_id env) = Ok None"
    and "\<And>s. js_response j response = Ok s \<Longrightarrow> js_response_from j s = Ok response"
    and "execute j port p env t = Some (Ok response, p')"
    and "\<forall>(e, u) \<in> set rs. valid_request (ce_request_id e)"
  shows "perform port (ap_port p) env = Some (re_outcome response, ap_port p') \<and>
    (\<exists>p''. run_requests j port p' rs = Some p'' \<and>
      (\<forall>retry u k. admitted_mutation retry \<and> ce_request_id retry = ce_request_id env \<and>
         canonical_bytes j (ce_command retry) = Ok k \<longrightarrow>
         execute j port p'' retry u = Some (Ok (if k = canonical then response else request_conflict retry), p'')))"
  using execute_first [OF assms(1,3,4,5,7)] later_replays [OF assms] by blast

text \<open>
  C37: a start that fails because the device is unavailable is answered as retryable, but the
  failure is journaled: the same request is answered with the same failure for ever after, and
  the port is not asked again.
\<close>

theorem retryable_start_failure_is_final:
  assumes ok: "valid_commands (ap_journal p)" and rid: "valid_request (ce_request_id env)"
    and env: "ce_api_version env = API_VERSION" "ce_command env = ReceiveStart sel"
    and canonical: "canonical_bytes j (ReceiveStart sel) = Ok canonical"
    and fresh: "read_accepted_command (ap_journal p) (ce_request_id env) = Ok None"
    and json: "\<And>s. js_response j response = Ok s \<Longrightarrow> js_response_from j s = Ok response"
    and failed: "rp_start port (ap_port p) (ce_request_id env) sel = (Err FaultDeviceUnavailable, st)"
    and run: "execute j port p env t = Some (Ok response, p')"
    and later: "\<forall>(e, u) \<in> set rs. valid_request (ce_request_id e)"
  shows "(case re_outcome response of ErrorOutcome e \<Rightarrow> ae_retryable e | Success b \<Rightarrow> False) \<and>
    (\<exists>p''. run_requests j port p' rs = Some p'' \<and> (\<forall>u. execute j port p'' env u = Some (Ok response, p'')))"
proof
  have m: "admitted_mutation env" using env by (simp add: admitted_mutation_def)
  have c: "canonical_bytes j (ce_command env) = Ok canonical" using canonical env by simp
  show "case re_outcome response of ErrorOutcome e \<Rightarrow> ae_retryable e | Success b \<Rightarrow> False"
    using execute_first [OF ok m c fresh run] env failed by (auto simp: perform_def api_fault_outcome_def dest!: sym [of "ErrorOutcome _"])
  show "\<exists>p''. run_requests j port p' rs = Some p'' \<and> (\<forall>u. execute j port p'' env u = Some (Ok response, p''))"
    using later_replays [OF ok rid m c fresh json run later] m c by fastforce
qed

text \<open>A port that counts its stops and whose device is gone, and a selection it refuses.\<close>

definition counting_port :: "nat receive_port" where
  "counting_port =
     \<lparr>rp_input_devices = (\<lambda>n. (Err FaultDeviceUnavailable, n)), rp_status = (\<lambda>n. (Ok receive_status_stopped, n)),
      rp_start = (\<lambda>n rid sel. (Err FaultDeviceUnavailable, n)), rp_stop = (\<lambda>n rid. (Ok receive_status_stopped, Suc n)),
      rp_history = (\<lambda>n a l. (Err FaultStorageUnavailable, n))\<rparr>"

definition sample_processor :: "nat receive_api_processor" where
  "sample_processor =
     \<lparr>ap_service_instance_id = ServiceInstanceId ''svc_00000001'', ap_journal = empty_database, ap_port = 0\<rparr>"

definition sample_selection :: api_receive_selection where
  "sample_selection =
     \<lparr>ars_device_identity = \<lparr>adi_platform = ApiLinuxAlsa, adi_opaque_id = ''hw0''\<rparr>,
      ars_configuration = \<lparr>aic_sample_rate_hz = 48000, aic_channels = 2, aic_sample_format = ApiSigned16,
        aic_selected_channel = 1\<rparr>\<rparr>"

abbreviation sample_request :: "command \<Rightarrow> command_envelope" where
  "sample_request c \<equiv> \<lparr>ce_api_version = 2, ce_request_id = RequestId ''req_00000001'', ce_command = c\<rparr>"

abbreviation sample_response :: "response_outcome \<Rightarrow> response_envelope" where
  "sample_response out \<equiv> \<lparr>re_api_version = 2, re_request_id = RequestId ''req_00000001'', re_outcome = out\<rparr>"

lemma sample_processor_facts:
  "valid_commands (ap_journal sample_processor)" "valid_id ''req_'' ''req_00000001''"
  "read_accepted_command (ap_journal sample_processor) rid = Ok None"
  "selection_validate sample_selection = Ok ()"
proof -
  show "valid_id ''req_'' ''req_00000001''"
    unfolding valid_id_def by (rule exI [of _ "''00000001''"]) (simp add: payload_byte_ok_def is_ascii_digit_def)
  show "selection_validate sample_selection = Ok ()" by code_simp
qed (simp_all add: sample_processor_def valid_commands_def empty_database_def read_accepted_command_def)

lemma sample_execute:
  assumes "js_response j (sample_response out) = Ok s" "canonical_bytes j c = Ok k" "class_of c = Mutating"
    and "perform counting_port 0 (sample_request c) = Some (out, n)"
  shows "\<exists>db. execute j counting_port sample_processor (sample_request c) 7 =
    Some (Ok (sample_response out), sample_processor\<lparr>ap_journal := db, ap_port := n\<rparr>)"
  using assms
  by (simp add: execute_def API_VERSION_def LEGACY_API_VERSION_def execute_mutating_def read_accepted_command_def
      journal_def accept_or_existing_def command_insertable_def command_row_of_def accepted_reply_def
      sample_processor_def empty_database_def)

theorem mutation_performed_once_witness:
  "\<exists>j p' p''. execute j counting_port sample_processor (sample_request ReceiveStop) 7 =
       Some (Ok (sample_response (Success (ReceiveStopped (SnapStopped 0)))), p') \<and>
     ap_port p' = 1 \<and> run_requests j counting_port p' [(sample_request GetSnapshot, 8)] = Some p'' \<and>
     execute (j :: string json) counting_port p'' (sample_request ReceiveStop) 9 =
       Some (Ok (sample_response (Success (ReceiveStopped (SnapStopped 0)))), p'')"
proof -
  let ?r = "sample_response (Success (ReceiveStopped (SnapStopped 0)))"
  let ?j = "sample_json\<lparr>js_response_from := (\<lambda>_. Ok ?r)\<rparr>"
  have c: "canonical_bytes ?j ReceiveStop = Ok ''stop''" by (simp add: canonical_bytes_def sample_json_def)
  obtain db where run: "execute ?j counting_port sample_processor (sample_request ReceiveStop) 7 =
      Some (Ok ?r, sample_processor\<lparr>ap_journal := db, ap_port := 1\<rparr>)"
    using sample_execute [OF _ c, of "Success (ReceiveStopped (SnapStopped 0))" "''response''" 1]
    by (auto simp: perform_def counting_port_def receive_status_stopped_def sample_json_def)
  have "\<exists>p''. run_requests ?j counting_port (sample_processor\<lparr>ap_journal := db, ap_port := 1\<rparr>)
        [(sample_request GetSnapshot, 8)] = Some p'' \<and>
      execute ?j counting_port p'' (sample_request ReceiveStop) 9 = Some (Ok ?r, p'')"
    using mutation_performed_once [OF sample_processor_facts(1) _ _ _ sample_processor_facts(3) _ run,
        where rs = "[(sample_request GetSnapshot, 8)]" and canonical = "''stop''"] c sample_processor_facts(2)
    by (fastforce simp: admitted_mutation_def API_VERSION_def)
  then show ?thesis using run by fastforce
qed

theorem retryable_start_failure_is_final_witness:
  "\<exists>j response p'. execute (j :: string json) counting_port sample_processor
       (sample_request (ReceiveStart sample_selection)) 7 = Some (Ok response, p') \<and>
     execute j counting_port p' (sample_request (ReceiveStart sample_selection)) 9 = Some (Ok response, p')"
proof -
  let ?r = "sample_response (api_fault_outcome FaultDeviceUnavailable)"
  let ?j = "sample_json\<lparr>js_response_from := (\<lambda>_. Ok ?r)\<rparr>"
  have c: "canonical_bytes ?j (ReceiveStart sample_selection) = Ok ''other''"
    by (simp add: canonical_bytes_def sample_processor_facts(4) sample_json_def)
  obtain p' where run: "execute ?j counting_port sample_processor (sample_request (ReceiveStart sample_selection)) 7 =
      Some (Ok ?r, p')"
    using sample_execute [OF _ c, of "api_fault_outcome FaultDeviceUnavailable" "''response''" 0]
    by (auto simp: perform_def counting_port_def sample_json_def)
  show ?thesis
    using retryable_start_failure_is_final [OF sample_processor_facts(1) _ _ _ c sample_processor_facts(3) _ _ run,
        where rs = "[]"] run sample_processor_facts(2)
    by (fastforce simp: API_VERSION_def counting_port_def)
qed

text \<open>
  The legacy version.  A snapshot or a negotiation of a version 1 client carries the receive
  status and the receive capability, which the wire types reserve to version 2.
\<close>

theorem legacy_answers_carry_receive_fields:
  assumes env: "ce_api_version env = LEGACY_API_VERSION"
  shows "(ce_command env = GetSnapshot \<and> rp_status port (ap_port p) = (Ok status, st) \<longrightarrow>
      (\<exists>snap. execute j port p env t = Some (Ok \<lparr>re_api_version = 1, re_request_id = ce_request_id env,
          re_outcome = Success (SnapshotResult snap)\<rparr>, p\<lparr>ap_port := st\<rparr>) \<and> ss_receive snap = Some status)) \<and>
    (ce_command env = GetCapabilities [1] \<longrightarrow>
      (\<exists>c. execute j port p env t = Some (Ok \<lparr>re_api_version = 1, re_request_id = ce_request_id env,
          re_outcome = Success (CapabilitiesResult c)\<rparr>, p) \<and> cap_negotiated_version c = 1 \<and>
        cap_receive_input c = Some Available))"
  using env
  by (auto simp: execute_def execute_read_only_def LEGACY_API_VERSION_def API_VERSION_def noop_execute_def
      SUPPORTED_API_VERSIONS_def negotiate_def MAX_NEGOTIATION_VERSIONS_def Let_def)

section \<open>Selections\<close>

lemma sample_format_maps: "map_sample_format (map_sample_format_from_api f) = f" "map_sample_format_from_api (map_sample_format g) = g"
  by (cases f; simp) (cases g; simp)

lemma platform_maps: "map_platform (map_platform_from_api q) = q" "map_platform_from_api (map_platform r) = r"
  by (cases q; simp) (cases r; simp)

lemma has_control_ascii: "list_ex is_ascii_control s \<Longrightarrow> has_control s"
  by (induction s rule: has_control.induct) auto

lemma selection_constructors:
  "input_device_identity_new platform oid = Ok ident \<longleftrightarrow>
     oid \<noteq> [] \<and> length oid \<le> 256 \<and> \<not> has_control oid \<and> ident = \<lparr>identity_platform = platform, opaque_id = oid\<rparr>"
  "input_configuration_new rate channels format chosen = Ok cfg \<longleftrightarrow>
     in_range 8000 384000 rate \<and> channels \<noteq> 0 \<and> channels \<le> 32 \<and> chosen < channels \<and>
     cfg = \<lparr>cfg_sample_rate_hz = rate, cfg_channels = channels, cfg_sample_format = format, cfg_selected_channel = chosen\<rparr>"
  by (auto simp: input_device_identity_new_def validate_bounded_text_def MAX_IDENTITY_BYTES_def
      input_configuration_new_def MIN_SAMPLE_RATE_HZ_def MAX_SAMPLE_RATE_HZ_def MAX_INPUT_CHANNELS_def split: if_splits)

text \<open>
  A selection on the wire and in the daemon.  The daemon accepts a selection exactly if it
  passes the wire validation and its device identity has no two-byte control character, which
  the wire validation lets through; the accepted selection maps back to the one on the wire, and
  every selection of the daemon survives the way to the wire and back.
\<close>

theorem wire_selection_round_trip:
  "((\<exists>sel. map_receive_selection s = Ok sel) \<longleftrightarrow>
      selection_validate s = Ok () \<and> \<not> has_control (adi_opaque_id (ars_device_identity s))) \<and>
   (\<forall>sel. map_receive_selection s = Ok sel \<longrightarrow>
      \<lparr>ars_device_identity = map_device_identity (sel_device_identity sel),
       ars_configuration = map_configuration (sel_configuration sel)\<rparr> = s) \<and>
   (\<forall>platform oid ident rate channels format chosen cfg.
      input_device_identity_new platform oid = Ok ident \<and> input_configuration_new rate channels format chosen = Ok cfg \<longrightarrow>
      map_receive_selection \<lparr>ars_device_identity = map_device_identity ident, ars_configuration = map_configuration cfg\<rparr> =
        Ok \<lparr>sel_device_identity = ident, sel_configuration = cfg\<rparr>)"
proof (intro conjI allI impI)
  show "(\<exists>sel. map_receive_selection s = Ok sel) \<longleftrightarrow>
      selection_validate s = Ok () \<and> \<not> has_control (adi_opaque_id (ars_device_identity s))"
    using has_control_ascii [of "adi_opaque_id (ars_device_identity s)"]
    by (auto simp: map_receive_selection_def selection_validate_def Let_def selection_constructors)
next
  fix sel
  assume "map_receive_selection s = Ok sel"
  then show "\<lparr>ars_device_identity = map_device_identity (sel_device_identity sel),
       ars_configuration = map_configuration (sel_configuration sel)\<rparr> = s"
    by (auto simp: map_receive_selection_def selection_constructors map_device_identity_def map_configuration_def
        platform_maps sample_format_maps)
next
  fix platform oid ident rate channels format chosen cfg
  assume "input_device_identity_new platform oid = Ok ident \<and> input_configuration_new rate channels format chosen = Ok cfg"
  then show "map_receive_selection \<lparr>ars_device_identity = map_device_identity ident, ars_configuration = map_configuration cfg\<rparr> =
        Ok \<lparr>sel_device_identity = ident, sel_configuration = cfg\<rparr>"
    by (auto simp: map_receive_selection_def selection_constructors map_device_identity_def map_configuration_def
        platform_maps sample_format_maps)
qed

theorem wire_selection_round_trip_witness:
  "\<exists>sel. map_receive_selection sample_selection = Ok sel \<and>
     map_configuration (sel_configuration sel) = ars_configuration sample_selection"
proof -
  have "selection_validate sample_selection = Ok () \<and> \<not> has_control (adi_opaque_id (ars_device_identity sample_selection))"
    by code_simp
  then obtain sel where sel: "map_receive_selection sample_selection = Ok sel"
    using wire_selection_round_trip [of sample_selection] by blast
  then have "\<lparr>ars_device_identity = map_device_identity (sel_device_identity sel),
       ars_configuration = map_configuration (sel_configuration sel)\<rparr> = sample_selection"
    using wire_selection_round_trip [of sample_selection] by blast
  then show ?thesis using sel by (metis api_receive_selection.select_convs(2))
qed

section \<open>Records and their events\<close>

definition decode_event_id :: "receive_record \<Rightarrow> string" where
  "decode_event_id r = ''evt_'' @ drop 4 (receive_window_id_str (rc_receive_window_id (rr_context r)))"

lemma decode_event_identity:
  assumes "valid_record r"
  shows "strip_prefix ''rxw_'' (receive_window_id_str (rc_receive_window_id (rr_context r))) =
      Some (drop 4 (receive_window_id_str (rc_receive_window_id (rr_context r))))"
    "event_id_from_str (decode_event_id r) = Ok (EventId (decode_event_id r))"
proof -
  obtain q where q: "receive_window_id_str (rc_receive_window_id (rr_context r)) = ''rxw_'' @ q"
      "8 \<le> length q" "length q \<le> 64" "list_all payload_byte_ok q"
    using assms by (auto simp: valid_record_def valid_context_def valid_id_def)
  then show "strip_prefix ''rxw_'' (receive_window_id_str (rc_receive_window_id (rr_context r))) =
      Some (drop 4 (receive_window_id_str (rc_receive_window_id (rr_context r))))"
    by (simp add: strip_prefix_Some)
  have "decode_event_id r = ''evt_'' @ q" using q(1) by (simp add: decode_event_id_def)
  then have "valid_id ''evt_'' (decode_event_id r)" unfolding valid_id_def using q(2-4) by blast
  then show "event_id_from_str (decode_event_id r) = Ok (EventId (decode_event_id r))"
    by (simp add: event_id_from_str_def id_from_str_Ok)
qed

lemma public_record_receive_eq:
  assumes "valid_record r"
  shows "public_record_receive json_valid j db r =
    (case record_receive_with_event_builder json_valid db r (EventId (decode_event_id r)) (rr_recorded_utc_millis r)
            (\<lambda>n. map_err (\<lambda>_. InvalidReceiveEventPayload) (payload_to_string j (ReceiveDecode (map_receive_record n r)))) of
       (res, db') \<Rightarrow> (map_ok rec_receive res, db'))"
  using decode_event_identity [OF assms] by (simp add: public_record_receive_def decode_event_id_def)

lemma payload_text_round_trip:
  assumes "json_faithful j q" and "\<And>s. js_as_str j (js_string j s) = Some s"
    and "\<And>obj s. payload_serialize j q = Ok obj \<Longrightarrow> js_print j obj = Ok s \<Longrightarrow> js_parse j s = Ok obj"
    and "payload_to_string j q = Ok s"
  shows "payload_from_str j s = Ok q"
  using payload_object_round_trip [OF assms(1,2)] assms(3,4)
  by (auto simp: payload_to_string_def payload_from_str_def)

text \<open>
  C6: a window and its public event are stored together.  If storing fails, nothing is written.
  Otherwise the record can be read back under its sequence, and the log holds an event of its
  generation, with the identity derived from the window's, whose payload reads as the bounded
  public summary of exactly that record and sequence.  Storing it again changes nothing.
\<close>

theorem stored_window_is_published:
  assumes rep: "represents db rs" and log: "valid_log db" and v: "valid_record r" and st: "storable r"
    and room: "db_window_counter db < i64_max"
    and str: "\<And>s. js_as_str j (js_string j s) = Some s"
    and conv: "\<And>n. 1 \<le> n \<Longrightarrow> converts (js_decode j) (js_decode_from j) (map_receive_record n r)"
    and printed: "\<And>n obj s. 1 \<le> n \<Longrightarrow> payload_serialize j (ReceiveDecode (map_receive_record n r)) = Ok obj \<Longrightarrow>
      js_print j obj = Ok s \<Longrightarrow> js_parse j s = Ok obj"
  shows "case public_record_receive json_valid j db r of
      (Inl e, db') \<Rightarrow> db' = db
    | (Inr out, db') \<Rightarrow> let n = outcome_sequence out; summary = map_receive_record n r in
        (\<exists>rs'. represents db' rs' \<and> (rs' = rs \<or> rs' = rs @ [(n, r)])) \<and> valid_log db' \<and>
        receive_record_by_id db' (rc_receive_window_id (rr_context r)) = Ok (Some \<lparr>sr_sequence = n, sr_record = r\<rparr>) \<and>
        (\<exists>e \<in> set (db_events db'). er_event_id e = decode_event_id r \<and>
           er_service_instance_id e = service_instance_id_str (rc_service_instance_id (rr_context r)) \<and>
           er_occurred_utc_millis e = rr_recorded_utc_millis r \<and>
           payload_from_str j (er_event_json e) = Ok (ReceiveDecode summary)) \<and>
        payload_validate (ReceiveDecode summary) = Ok () \<and>
        public_record_receive json_valid j db' r = (Ok (ReceiveExisting n), db')"
proof (cases "public_record_receive json_valid j db r")
  case (Pair res db')
  let ?build = "\<lambda>n. map_err (\<lambda>_. InvalidReceiveEventPayload) (payload_to_string j (ReceiveDecode (map_receive_record n r)))"
  obtain res0 where call: "record_receive_with_event_builder json_valid db r (EventId (decode_event_id r))
      (rr_recorded_utc_millis r) ?build = (res0, db')" "res = map_ok rec_receive res0"
    using Pair unfolding public_record_receive_eq [OF v] by (auto split: prod.splits)
  note commit = receive_event_committed [OF rep log v st room decode_event_identity(2) [OF v],
      where json_valid = json_valid and t = "rr_recorded_utc_millis r" and build = ?build, unfolded call(1)]
  show ?thesis
  proof (cases res0)
    case (Inl e)
    then show ?thesis using commit call(2) Pair by simp
  next
    case (Inr c)
    let ?n = "outcome_sequence (rec_receive c)"
    obtain rs' where rs': "represents db' rs'" "(?n, r) \<in> set rs'" "rs' = rs \<or> rs' = rs @ [(?n, r)]"
      using commit Inr by (auto simp: Let_def)
    obtain json where json: "?build ?n = Ok json"
        "\<lparr>er_sequence = rec_event_sequence c, er_event_id = decode_event_id r,
           er_service_instance_id = service_instance_id_str (rc_service_instance_id (rr_context r)),
           er_event_json = json, er_occurred_utc_millis = rr_recorded_utc_millis r\<rparr> \<in> set (db_events db')"
      using commit Inr by (auto simp: Let_def)
    have n: "1 \<le> ?n" using rs'(1,2) by (force simp: represents_def)
    have "json_faithful j (ReceiveDecode (map_receive_record ?n r))" using conv [OF n] by simp
    from payload_text_round_trip [OF this str printed [OF n]] json(1)
    have reads: "payload_from_str j json = Ok (ReceiveDecode (map_receive_record ?n r))" by simp
    have bound: "payload_validate (ReceiveDecode (map_receive_record ?n r)) = Ok ()"
      using v by (simp add: summary_validate_def MAX_RECEIVE_DECODES_def map_receive_record_def valid_record_def Let_def)
    have again: "public_record_receive json_valid j db' r = (Ok (ReceiveExisting ?n), db')"
      using commit Inr unfolding public_record_receive_eq [OF v] by (simp add: Let_def)
    have stored: "\<exists>rs'. represents db' rs' \<and> (rs' = rs \<or> rs' = rs @ [(?n, r)])" using rs' by blast
    have event: "\<exists>e \<in> set (db_events db'). er_event_id e = decode_event_id r \<and>
        er_service_instance_id e = service_instance_id_str (rc_service_instance_id (rr_context r)) \<and>
        er_occurred_utc_millis e = rr_recorded_utc_millis r \<and>
        payload_from_str j (er_event_json e) = Ok (ReceiveDecode (map_receive_record ?n r))"
      by (rule bexI [OF _ json(2)]) (simp add: reads)
    show ?thesis
      using Pair call(2) Inr stored event bound again read_by_id [OF rs'(1,2)] commit by (simp add: Let_def)
  qed
qed

text \<open>A rendering of the sample record's summaries, whose sequence is written in unary.\<close>

definition unary_json :: "string json" where
  "unary_json = sample_json
     \<lparr>js_decode := (\<lambda>v. Ok [(''sequence'', replicate (nat (rrs_sequence v)) (CHR ''1''))]),
      js_decode_from := (\<lambda>obj. Ok (map_receive_record (int (length (snd (hd obj)))) sample_record)),
      js_print := (\<lambda>obj. Ok (snd (hd obj))),
      js_parse := (\<lambda>s. Ok [(''sequence'', s), (''kind'', ''receive_decode'')])\<rparr>"

lemma publish_on_empty:
  assumes "valid_record r" "storable r"
  obtains db' where "public_record_receive (\<lambda>_. True) unary_json empty_database r = (Ok (ReceiveInserted 1), db')"
proof -
  have room: "db_window_counter empty_database < i64_max" by (simp add: empty_database_def)
  have "find (same_window r) [] = None" by simp
  from receive_inserted [OF empty_database_represents assms this room]
  obtain db1 where "receive_in_transaction empty_database r = Ok (ReceiveInserted 1, db1)"
      "db_events db1 = []" "db_event_counter db1 = 0"
    by (auto simp: empty_database_def)
  moreover have "payload_to_string unary_json (ReceiveDecode (map_receive_record 1 r)) = Ok ''1''"
    by (simp add: payload_to_string_def event_object_def unary_json_def map_receive_record_def Let_def)
  moreover have "0 \<le> rr_recorded_utc_millis r" using assms(1) by (simp add: valid_record_def)
  ultimately have "\<exists>db'. public_record_receive (\<lambda>_. True) unary_json empty_database r = (Ok (ReceiveInserted 1), db')"
    by (simp add: public_record_receive_eq [OF assms(1)] record_receive_with_event_builder_def
        commit_or_rollback_def event_in_transaction_def insert_event_def Let_def
        sequence_from_i64_def checked_def in_range_def)
  then show ?thesis using that by blast
qed

theorem stored_window_is_published_witness:
  "\<exists>db'. public_record_receive (\<lambda>_. True) unary_json empty_database sample_record = (Ok (ReceiveInserted 1), db') \<and>
     receive_record_by_id db' (ReceiveWindowId ''rxw_00000001'') = Ok (Some \<lparr>sr_sequence = 1, sr_record = sample_record\<rparr>)"
proof -
  let ?n = "\<lambda>n. map_receive_record n sample_record"
  have seq: "rrs_sequence (?n n) = n" for n by (simp add: map_receive_record_def Let_def)
  have str: "js_as_str unary_json (js_string unary_json s) = Some s" for s by (simp add: unary_json_def sample_json_def)
  have conv: "converts (js_decode unary_json) (js_decode_from unary_json) (?n n)" if "1 \<le> n" for n
    using that by (simp add: converts_def unary_json_def seq)
  have printed: "js_parse unary_json s = Ok obj"
    if "1 \<le> n" "payload_serialize unary_json (ReceiveDecode (?n n)) = Ok obj" "js_print unary_json obj = Ok s" for n obj s
    using that by (auto simp: unary_json_def event_object_def sample_json_def)
  have room: "db_window_counter empty_database < i64_max" by (simp add: empty_database_def)
  have eid: "decode_event_id sample_record = ''evt_00000001''"
      "rc_receive_window_id (rr_context sample_record) = ReceiveWindowId ''rxw_00000001''"
    by (simp_all add: decode_event_id_def sample_record_def)
  obtain db' where call: "public_record_receive (\<lambda>_. True) unary_json empty_database sample_record = (Ok (ReceiveInserted 1), db')"
    using publish_on_empty [OF sample_record_ok] by blast
  note published = stored_window_is_published [OF empty_database_represents sample_log_valid(2) sample_record_ok room,
      where j = unary_json and json_valid = "\<lambda>_. True", unfolded call eid(2) prod.case sum.case Let_def receive_insert_outcome.sel]
  have "receive_record_by_id db' (ReceiveWindowId ''rxw_00000001'') = Ok (Some \<lparr>sr_sequence = 1, sr_record = sample_record\<rparr>)"
    by (rule published [OF str, THEN conjunct2, THEN conjunct2, THEN conjunct1]) (erule conv, erule (2) printed)
  then show ?thesis using call by blast
qed

end
