(* ===== verification/SP_Receive_System.thy ===== *)
theory SP_Receive_System
  imports SP_Daemon_Receive SP_Receive_Api
begin

text \<open>
  The receive coordinator (\<open>apps/daemon/src/receive.rs\<close>) on top of the coupled store
  (\<open>apps/daemon/src/receive_api.rs\<close>, \<open>crates/storage/src/receive.rs\<close>), the way the daemon composes
  them: the port \<open>ReceiveStore\<close> as a contract, what the coordinator promises on any store that keeps
  it, and the coupled store as such a store.
\<close>

section \<open>Sessions of the coordinator\<close>

text \<open>The events every poll of a session reported, and the coordinator left behind.\<close>

fun reported :: "('i, 's) daemon_env \<Rightarrow> ('i, 's) coordinator \<Rightarrow> coordinator_op \<Rightarrow> receive_poll_event list" where
  "reported env c (OpPoll t recorded) = (case fst (poll env t recorded c) of Inr evs \<Rightarrow> evs | Inl _ \<Rightarrow> [])"
| "reported env c _ = []"

fun receive_session ::
  "('i, 's) daemon_env \<Rightarrow> ('i, 's) coordinator \<Rightarrow> coordinator_op list \<Rightarrow> receive_poll_event list \<times> ('i, 's) coordinator" where
  "receive_session env c [] = ([], c)"
| "receive_session env c (op # ops) =
     (case receive_session env (coordinator_step env c op) ops of (evs, d) \<Rightarrow> (reported env c op @ evs, d))"

lemma receive_session_state: "snd (receive_session env c ops) = foldl (coordinator_step env) c ops"
  by (induction ops arbitrary: c) (simp_all add: case_prod_beta)

section \<open>The contract of a receive store\<close>

lemma record_new_context: "receive_record_new ctx d ds t = Inr r \<Longrightarrow> rr_context r = ctx"
  by (auto simp: receive_record_new_def Let_def split: if_splits)

lemma inhibit_store [simp]: "inhibit env reason c = (ev, c') \<Longrightarrow> lc_store c' = lc_store c"
  by (auto simp: inhibit_def transition_def split: option.splits)

lemma inhibited_poll_store: "inhibited_poll env reason c = (r, c') \<Longrightarrow> lc_store c' = lc_store c"
  by (auto simp: inhibited_poll_def split: prod.splits)

text \<open>The ways a poll can end: refused, inhibited before it takes a batch, or with a batch at work.\<close>

inductive poll_ends ::
  "('i, 's) daemon_env \<Rightarrow> monotonic_instant \<Rightarrow> int \<Rightarrow> ('i, 's) coordinator
   \<Rightarrow> (coordinator_error, receive_poll_event list) result \<Rightarrow> ('i, 's) coordinator \<Rightarrow> bool"
  for env :: "('i, 's) daemon_env" and t :: monotonic_instant and recorded :: int and c :: "('i, 's) coordinator" where
  refused: "lc_store c' = lc_store c \<Longrightarrow> poll_ends env t recorded c (Inl e) c'"
| inhibited: "inhibited_poll env reason d = (r, c') \<Longrightarrow> lc_store d = lc_store c \<Longrightarrow> poll_ends env t recorded c r c'"
| admitted: "poll_admitted env audio t recorded d = (r, c') \<Longrightarrow> lc_store d = lc_store c \<Longrightarrow> poll_ends env t recorded c r c'"

lemma poll_leaves: "poll env t recorded c = (r, c') \<Longrightarrow> poll_ends env t recorded c r c'"
  unfolding poll_def Let_def
  by (auto intro: poll_ends.intros
      split: sum.splits option.splits prod.splits if_splits receive_clock_state.splits)

lemma admit_store: "admit_batches env n c = (r, c') \<Longrightarrow> lc_store c' = lc_store c"
proof (induction n arbitrary: c)
  case (Suc n)
  then show ?case by (fastforce split: prod.splits sum.splits option.splits)
qed auto

lemma step_store_only_poll:
  assumes "\<And>t u. op \<noteq> OpPoll t u"
  shows "lc_store (coordinator_step env c op) = lc_store c"
proof (cases op)
  case (OpStart sample)
  then show ?thesis
    by (auto simp: start_def transition_def split: receive_lifecycle_state.splits option.splits sum.splits prod.splits)
next
  case (OpObserveClock sample t)
  then show ?thesis
    by (auto simp: observe_clock_def Let_def split: sum.splits option.splits prod.splits receive_clock_state.splits)
next
  case (OpStop reason)
  then show ?thesis by (auto simp: stop_def transition_def split: option.splits)
next
  case (OpEnableSpectrum config)
  then show ?thesis
    by (auto simp: enable_spectrum_def split: receive_lifecycle_state.splits option.splits sum.splits prod.splits)
qed (use assms in blast)

locale receive_store =
  fixes store_record :: "'s \<Rightarrow> receive_record \<Rightarrow> (storage_error, receive_insert_outcome) result \<times> 's"
    and holds :: "'s \<Rightarrow> receive_window_id \<Rightarrow> int \<Rightarrow> nat \<Rightarrow> bool"
  assumes stored: "store_record s r = (Inr out, s') \<Longrightarrow>
      holds s' (rc_receive_window_id (rr_context r)) (outcome_sequence out) (length (rr_decodes r))"
    and kept: "store_record s r = (res, s') \<Longrightarrow> holds s wid n k \<Longrightarrow> holds s' wid n k"
begin

definition grows :: "'s \<Rightarrow> 's \<Rightarrow> bool" where
  "grows s s' \<longleftrightarrow> (\<forall>wid n k. holds s wid n k \<longrightarrow> holds s' wid n k)"

definition all_held :: "'s \<Rightarrow> receive_poll_event list \<Rightarrow> bool" where
  "all_held s evs \<longleftrightarrow> (\<forall>wid out n. Persisted wid out n \<in> set evs \<longrightarrow> holds s wid (outcome_sequence out) n)"

lemma grows_simps [simp]: "grows s s" "store_record s r = (res, s') \<Longrightarrow> grows s s'"
  using kept by (auto simp: grows_def)

lemma grows_trans: "grows s t \<Longrightarrow> grows t u \<Longrightarrow> grows s u"
  by (auto simp: grows_def)

lemma all_held_simps [simp]:
  "all_held s []" "all_held s (xs @ ys) \<longleftrightarrow> all_held s xs \<and> all_held s ys"
  "all_held s (Lifecycle l # ys) \<longleftrightarrow> all_held s ys" "all_held s (Waterfall v # ys) \<longleftrightarrow> all_held s ys"
  "all_held s (PollIncomplete u k # ys) \<longleftrightarrow> all_held s ys"
  "all_held s (Persisted wid out n # ys) \<longleftrightarrow> holds s wid (outcome_sequence out) n \<and> all_held s ys"
  by (auto simp: all_held_def)

lemma all_held_grows: "all_held s evs \<Longrightarrow> grows s t \<Longrightarrow> all_held t evs"
  by (auto simp: all_held_def grows_def)

lemma process_window_held:
  assumes env: "env_record_receive env = store_record"
    and r: "process_window env audio recorded w a c = (r, c')"
  shows "grows (lc_store c) (lc_store c') \<and> (\<forall>evs go. r = Inr (evs, go) \<longrightarrow> all_held (lc_store c') evs)"
proof -
  obtain wr c1 where wf: "window_waterfall (env_level env) w c = (wr, c1)" by fastforce
  then have c1: "lc_store c1 = lc_store c" using window_waterfall_keeps by fastforce
  have held: "holds s' wid (outcome_sequence out) (length (rr_decodes rec))"
    if "window_record c1 wid w a audio t decodes recorded = Inr rec" "store_record s rec = (Inr out, s')"
    for wid t decodes rec s s' out
    using that stored record_new_context by (fastforce simp: window_record_def window_context_def)
  show ?thesis
    using r wf c1
    by (auto simp: process_window_def env held split: sum.splits option.splits prod.splits)
qed

lemma process_events_held:
  assumes env: "env_record_receive env = store_record"
  shows "process_events env audio t recorded events results c = (r, c') \<Longrightarrow> all_held (lc_store c) results \<Longrightarrow>
    grows (lc_store c) (lc_store c') \<and> (\<forall>evs. r = Inr evs \<longrightarrow> all_held (lc_store c') evs)"
proof (induction events arbitrary: c results)
  case (Cons event events)
  show ?case
  proof (cases "lc_clock c")
    case None
    then show ?thesis using Cons.prems by auto
  next
    case (Some m)
    obtain g m' where g: "clock_gate m event t = (g, m')" by fastforce
    show ?thesis
    proof (cases g)
      case (WindowReady w a)
      obtain wr c2 where w: "process_window env audio recorded w a (c\<lparr>lc_clock := Some m'\<rparr>) = (wr, c2)" by fastforce
      note h = process_window_held [OF env w, simplified]
      then have old: "all_held (lc_store c2) results" using all_held_grows Cons.prems(2) by blast
      show ?thesis
      proof (cases "\<exists>new. wr = Inr (new, True)")
        case True
        then obtain new where new: "wr = Inr (new, True)" by blast
        then have "process_events env audio t recorded events (results @ new) c2 = (r, c')"
          using Cons.prems(1) Some g WindowReady w by simp
        from Cons.IH [OF this] show ?thesis using old h new grows_trans by auto
      next
        case False
        then show ?thesis
          using Cons.prems(1) Some g WindowReady w h old by (auto split: sum.splits if_splits)
      qed
    next
      case (WindowRejected slot fault)
      then show ?thesis using Cons.prems Some g by (auto split: prod.splits)
    next
      case (GatedIncomplete i)
      then show ?thesis
        using Cons.IH [of "results @ [PollIncomplete (start_utc_unix_millis (inc_slot i)) (inc_accumulated_samples i)]"
            "c\<lparr>lc_clock := Some m'\<rparr>"] Cons.prems Some g by simp
    qed
  qed
qed auto

lemma process_batch_held:
  assumes env: "env_record_receive env = store_record"
    and r: "process_batch env batch audio t recorded c = (r, c')"
  shows "grows (lc_store c) (lc_store c') \<and> (\<forall>evs. r = Inr evs \<longrightarrow> all_held (lc_store c') evs)"
  using r process_events_held [OF env] inhibited_poll_single inhibited_poll_store
  unfolding process_batch_def
  by (fastforce split: option.splits sum.splits prod.splits)

lemma poll_admitted_held:
  assumes env: "env_record_receive env = store_record"
    and r: "poll_admitted env audio t recorded c = (r, c')"
  shows "grows (lc_store c) (lc_store c') \<and> (\<forall>evs. r = Inr evs \<longrightarrow> all_held (lc_store c') evs)"
proof -
  obtain a c1 where a: "admit_batches env (WORKER_BATCH_CAPACITY - length (lc_worker_batches c)) c = (a, c1)" by fastforce
  have c1: "lc_store c1 = lc_store c" by (rule admit_store [OF a])
  show ?thesis
  proof (cases a)
    case (Inl e)
    then have "inhibited_poll env (InhibitInput (capture_error_kind e)) c1 = (r, c')" using r a by (simp add: poll_admitted_def)
    from inhibited_poll_store [OF this] inhibited_poll_single [OF this] show ?thesis using c1 by auto
  next
    case (Inr u)
    show ?thesis
    proof (cases "lc_worker_batches c1")
      case Nil
      then show ?thesis using r a Inr c1 by (auto simp: poll_admitted_def)
    next
      case (Cons batch rest)
      then have "process_batch env batch audio t recorded (c1\<lparr>lc_worker_batches := rest\<rparr>) = (r, c')"
        using r a Inr by (simp add: poll_admitted_def)
      from process_batch_held [OF env this] show ?thesis using c1 by simp
    qed
  qed
qed

lemma poll_held:
  assumes env: "env_record_receive env = store_record" and r: "poll env t recorded c = (r, c')"
  shows "grows (lc_store c) (lc_store c') \<and> (\<forall>evs. r = Inr evs \<longrightarrow> all_held (lc_store c') evs)"
  using poll_leaves [OF r]
proof cases
  case (inhibited reason d)
  then show ?thesis using inhibited_poll_store inhibited_poll_single by fastforce
next
  case (admitted audio d)
  then show ?thesis using poll_admitted_held [OF env] by fastforce
qed simp

lemma step_held:
  assumes env: "env_record_receive env = store_record"
  shows "grows (lc_store c) (lc_store (coordinator_step env c op)) \<and>
    all_held (lc_store (coordinator_step env c op)) (reported env c op)"
proof (cases "\<exists>t u. op = OpPoll t u")
  case True
  then obtain t u where op: "op = OpPoll t u" by blast
  obtain r c' where "poll env t u c = (r, c')" by fastforce
  from poll_held [OF env this] this show ?thesis by (auto simp: op split: sum.splits)
next
  case False
  then have "reported env c op = []" by (cases op) auto
  then show ?thesis using step_store_only_poll [of op env c] False by simp
qed

lemma session_held:
  assumes env: "env_record_receive env = store_record"
  shows "receive_session env c ops = (evs, d) \<Longrightarrow> grows (lc_store c) (lc_store d) \<and> all_held (lc_store d) evs"
proof (induction ops arbitrary: c evs)
  case (Cons op ops)
  obtain es where es: "receive_session env (coordinator_step env c op) ops = (es, d)" "evs = reported env c op @ es"
    using Cons.prems by (auto split: prod.splits)
  from Cons.IH [OF es(1)] step_held [OF env, of c op]
  have "grows (lc_store c) (lc_store d)" "all_held (lc_store d) (reported env c op)" "all_held (lc_store d) es"
    by (blast intro: grows_trans all_held_grows)+
  then show ?case by (simp add: es(2))
qed simp

end

section \<open>The coupled store keeps the contract\<close>

text \<open>
  The window is in the table under this sequence, and the log holds the event of its identity, whose
  text is that of the public summary of a record of this window with so many decodes.
\<close>

definition published :: "'j json \<Rightarrow> database \<Rightarrow> receive_window_id \<Rightarrow> int \<Rightarrow> nat \<Rightarrow> bool" where
  "published j db wid n k \<longleftrightarrow>
     (\<exists>r suffix. rc_receive_window_id (rr_context r) = wid \<and> length (rr_decodes r) = k \<and>
        strip_prefix ''rxw_'' (receive_window_id_str wid) = Some suffix \<and>
        (\<exists>w \<in> set (db_windows db). wr_sequence w = n \<and> wr_receive_window_id w = receive_window_id_str wid) \<and>
        (\<exists>e \<in> set (db_events db). er_event_id e = ''evt_'' @ suffix \<and>
           er_service_instance_id e = service_instance_id_str (rc_service_instance_id (rr_context r)) \<and>
           payload_to_string j (ReceiveDecode (map_receive_record n r)) = Ok (er_event_json e)))"

lemma published_grows:
  assumes "published j db wid n k" "set (db_windows db) \<subseteq> set (db_windows db')" "set (db_events db) \<subseteq> set (db_events db')"
  shows "published j db' wid n k"
  using assms unfolding published_def by blast

lemma insert_decodes_rest:
  "insert_decodes db wid i ds = Inr db' \<Longrightarrow> db_windows db' = db_windows db \<and> db_events db' = db_events db"
proof (induction ds arbitrary: db i)
  case (Cons d ds)
  then show ?case by (fastforce simp: insert_decode_def split: if_splits)
qed simp

lemma reconstructed_window_id:
  "reconstruct_context w = Inr ctx \<Longrightarrow> receive_window_id_from_str (wr_receive_window_id w) = Inr (rc_receive_window_id ctx)"
  by (auto simp: reconstruct_context_def Let_def)

lemma reconstructed_identity:
  assumes "reconstruct_receive w d rows = Inr x"
  shows "sr_sequence x = wr_sequence w \<and>
    receive_window_id_str (rc_receive_window_id (rr_context (sr_record x))) = wr_receive_window_id w"
proof -
  obtain ctx where ctx: "reconstruct_context w = Inr ctx" "rr_context (sr_record x) = ctx" "sr_sequence x = wr_sequence w"
    using assms
    by (auto simp: reconstruct_receive_def persisted_def sequence_from_i64_def checked_def dest!: record_new_context split: if_splits)
  then have "receive_window_id_from_str (wr_receive_window_id w) = Inr (rc_receive_window_id ctx)"
    using reconstructed_window_id by blast
  then show ?thesis using ctx by (auto simp: receive_window_id_from_str_def id_from_str_Ok)
qed

lemma receive_transaction_rows:
  assumes "receive_in_transaction db r = Inr (out, db1)"
  shows "set (db_windows db) \<subseteq> set (db_windows db1) \<and> db_events db1 = db_events db \<and>
    (\<exists>w \<in> set (db_windows db1). wr_sequence w = outcome_sequence out \<and>
       wr_receive_window_id w = receive_window_id_str (rc_receive_window_id (rr_context r)))"
proof (cases "find_existing_sequence db (rr_context r)")
  case (Inr found)
  show ?thesis
  proof (cases found)
    case (Some n)
    then obtain x where x: "read_receive_by_sequence db n = Inr (Some x)" "sr_record x = r"
        "out = ReceiveExisting (sr_sequence x)" "db1 = db"
      using assms Inr by (auto simp: receive_in_transaction_def split: if_splits)
    then obtain w d rows where "find (\<lambda>w. wr_sequence w = n) (db_windows db) = Some w" "reconstruct_receive w d rows = Inr x"
      by (auto simp: read_receive_by_sequence_def split: option.splits)
    then show ?thesis using reconstructed_identity x by (fastforce simp: find_Some_iff)
  next
    case None
    then obtain n db0 db2 where i: "insert_window db r = Inr (n, db0)" "insert_diagnostics db0 r = Inr db2"
        "insert_decodes db2 (context_id (rr_context r)) 0 (rr_decodes r) = Inr db1" "out = ReceiveInserted n"
      using assms Inr by (auto simp: receive_in_transaction_def sequence_from_i64_def checked_def split: if_splits)
    obtain w where w: "window_row_of n r = Inr w" "db_windows db0 = db_windows db @ [w]" "db_events db0 = db_events db"
      using i(1) by (auto simp: insert_window_def Let_def split: if_splits)
    have "wr_sequence w = n" "wr_receive_window_id w = receive_window_id_str (rc_receive_window_id (rr_context r))"
      using w(1) by (auto simp: window_row_of_def Let_def)
    moreover have "db_windows db2 = db_windows db0" "db_events db2 = db_events db0"
      using i(2) by (auto simp: insert_diagnostics_def split: if_splits)
    ultimately show ?thesis using insert_decodes_rest [OF i(3)] w(2,3) i(4) by auto
  qed
qed (use assms in \<open>simp add: receive_in_transaction_def\<close>)

lemma event_transaction_rows:
  assumes "event_in_transaction json_valid db r eid t json = Inr (n, db1)"
  shows "db_windows db1 = db_windows db \<and> set (db_events db) \<subseteq> set (db_events db1) \<and>
    (\<exists>e \<in> set (db_events db1). er_event_id e = event_id_str eid \<and> er_event_json e = json \<and>
       er_service_instance_id e = service_instance_id_str (rc_service_instance_id (rr_context r)))"
proof (cases "find (\<lambda>e. er_event_id e = event_id_str eid) (db_events db)")
  case None
  then show ?thesis
    using assms by (auto simp: event_in_transaction_def insert_event_def Let_def split: if_splits)
next
  case (Some e)
  then have "e \<in> set (db_events db)" "er_event_id e = event_id_str eid" by (auto simp: find_Some_iff)
  then show ?thesis
    using assms Some by (auto simp: event_in_transaction_def Let_def split: if_splits)
qed

lemma public_record_rows:
  assumes "public_record_receive json_valid j db r = (res, db')"
  shows "set (db_windows db) \<subseteq> set (db_windows db') \<and> set (db_events db) \<subseteq> set (db_events db') \<and>
    (\<forall>out. res = Inr out \<longrightarrow>
       published j db' (rc_receive_window_id (rr_context r)) (outcome_sequence out) (length (rr_decodes r)))"
proof (cases res)
  case (Inl e)
  then have "db' = db"
    using assms
    by (auto simp: public_record_receive_def record_receive_with_event_builder_def commit_or_rollback_def
        split: option.splits sum.splits prod.splits)
  then show ?thesis using Inl by simp
next
  case (Inr out)
  let ?wid = "rc_receive_window_id (rr_context r)"
  obtain suffix eid db1 n json where c:
      "strip_prefix ''rxw_'' (receive_window_id_str ?wid) = Some suffix"
      "event_id_from_str (''evt_'' @ suffix) = Inr eid"
      "receive_in_transaction db r = Inr (out, db1)"
      "payload_to_string j (ReceiveDecode (map_receive_record (outcome_sequence out) r)) = Ok json"
      "event_in_transaction json_valid db1 r eid (rr_recorded_utc_millis r) json = Inr (n, db')"
    using assms Inr
    by (auto simp: public_record_receive_def record_receive_with_event_builder_def commit_or_rollback_def
        split: option.splits sum.splits prod.splits)
  have "event_id_str eid = ''evt_'' @ suffix"
    using c(2) by (auto simp: event_id_from_str_def id_from_str_Ok)
  then have "published j db' ?wid (outcome_sequence out) (length (rr_decodes r))"
    unfolding published_def using c(1,4) receive_transaction_rows [OF c(3)] event_transaction_rows [OF c(5)]
    by (intro exI [of _ r] exI [of _ suffix]) auto
  then show ?thesis using receive_transaction_rows [OF c(3)] event_transaction_rows [OF c(5)] Inr by auto
qed

interpretation coupled: receive_store "public_record_receive json_valid j" "published j"
  for json_valid :: "string \<Rightarrow> bool" and j :: "'j json"
proof unfold_locales
  show "published j s' (rc_receive_window_id (rr_context r)) (outcome_sequence out) (length (rr_decodes r))"
    if "public_record_receive json_valid j s r = (Inr out, s')" for s s' r out
    using public_record_rows [OF that] by simp
  show "published j s' wid n k"
    if "public_record_receive json_valid j s r = (res, s')" "published j s wid n k" for s s' r res wid n k
    using public_record_rows [OF that(1)] published_grows [OF that(2)] by simp
qed

text \<open>
  C1: every window the daemon ever reported as persisted is in the database with its public event.
  Whatever starts, stops, clock observations and polls a coordinator goes through on top of the
  coupled store, each window that some poll reported is at the end in the window table under the
  reported sequence, and the event log holds the event of its identity with the text of its public
  summary; and what was in the database before is still there.
\<close>

theorem reported_windows_stay_published:
  assumes "env_record_receive env = public_record_receive json_valid j"
    and "receive_session env c ops = (evs, d)"
  shows "d = foldl (coordinator_step env) c ops \<and>
    (\<forall>wid out n. Persisted wid out n \<in> set evs \<longrightarrow> published j (lc_store d) wid (outcome_sequence out) n) \<and>
    (\<forall>wid n k. published j (lc_store c) wid n k \<longrightarrow> published j (lc_store d) wid n k)"
  using coupled.session_held [OF assms] receive_session_state [of env c ops] assms(2)
  by (simp add: coupled.all_held_def coupled.grows_def)

section \<open>A window stored and published\<close>

definition coupled_env :: "(unit system_receive_input, database) daemon_env" where
  "coupled_env = sample_env\<lparr>env_record_receive := public_record_receive (\<lambda>_. True) unary_json\<rparr>"

text \<open>The window of silence is reported by the poll that completes it, and is in the database.\<close>

theorem reported_windows_stay_published_witness:
  "let s = receive_session coupled_env near_end [OpPoll 15000 45000, OpStop Requested]; db = lc_store (snd s) in
     fst s = [Persisted silent_id (ReceiveInserted 1) 0] \<and> published unary_json db silent_id 1 0"
proof -
  let ?ops = "[OpPoll 15000 45000, OpStop Requested]"
  have env: "env_record_receive coupled_env = public_record_receive (\<lambda>_. True) unary_json" by (simp add: coupled_env_def)
  obtain db' where "public_record_receive (\<lambda>_. True) unary_json empty_database silent_record = (Ok (ReceiveInserted 1), db')"
    using publish_on_empty [OF silent_record_ok] by blast
  from near_end_polls [of "public_record_receive (\<lambda>_. True) unary_json", OF this]
  obtain d where s: "receive_session coupled_env near_end ?ops = ([Persisted silent_id (ReceiveInserted 1) 0], d)"
    by (cases "receive_session coupled_env near_end ?ops") (auto simp: coupled_env_def)
  have "published unary_json (lc_store d) silent_id (outcome_sequence (ReceiveInserted 1)) 0"
    using reported_windows_stay_published [OF env s] by (metis list.set_intros(1))
  then show ?thesis by (simp add: s Let_def del: receive_session.simps)
qed

end
