(* ===== verification/SP_Ipc.thy ===== *)
theory SP_Ipc
  imports SP_Wave
begin

text \<open>
  \<open>crates/ipc/src/lib.rs\<close> on Unix: framing, peer authorisation and endpoint ownership of the local
  transport.  A frame is a four-byte big-endian length and one JSON value of at most 64 KiB.

  The operating system.  A stream that is read is a list of the outcomes of its system calls: a
  chunk of bytes, or a failure; an empty chunk and the empty list are the end of the stream.  A
  stream that is written is a script of how many bytes each call takes; an exhausted script
  takes everything.  \<open>read_exact\<close> and \<open>write_all\<close> are those of the standard library, which
  repeat an interrupted call.  Files, locks and sockets are the record \<open>os\<close> of functions.
  JSON conversions are parameters.  The cancellation flag is shared with other threads: each
  check takes the value it observes.
\<close>

section \<open>Errors and streams\<close>

definition MAX_FRAME_BYTES :: nat where "MAX_FRAME_BYTES = 64 * 1024"

datatype io_error = Interrupted | UnexpectedEof | WriteZero | OtherIo string

datatype ipc_error =
    Io io_error
  | EndpointActive
  | InsecureRuntimeDirectory
  | InvalidUserScope
  | FrameTooLarge nat nat
  | MalformedFrame string
  | Disconnected
  | IpcCancelled
  | UnsupportedEndpoint
  | CrossUserRejected
  | PeerIdentityUnavailable

definition cancellation_check :: "bool \<Rightarrow> (ipc_error, unit) result" where
  "cancellation_check cancelled = (if cancelled then Err IpcCancelled else Ok ())"

datatype read_event = Chunk string | ReadFails io_error

type_synonym reader = "read_event list"

fun read_some :: "reader \<Rightarrow> nat \<Rightarrow> (io_error, string) result \<times> reader" where
  "read_some [] n = (Ok [], [])"
| "read_some (Chunk bs # es) n =
     (if length bs \<le> n then (Ok bs, es) else (Ok (take n bs), Chunk (drop n bs) # es))"
| "read_some (ReadFails e # es) n = (Err e, es)"

fun read_exact :: "reader \<Rightarrow> nat \<Rightarrow> (io_error, string) result \<times> reader" where
  "read_exact [] n = (if n = 0 then Ok [] else Err UnexpectedEof, [])"
| "read_exact (Chunk bs # es) n =
     (if n = 0 then (Ok [], Chunk bs # es)
      else if bs = [] then (Err UnexpectedEof, es)
      else if n < length bs then (Ok (take n bs), Chunk (drop n bs) # es)
      else case read_exact es (n - length bs) of
        (Inr rest, es') \<Rightarrow> (Ok (bs @ rest), es')
      | (Inl e, es') \<Rightarrow> (Err e, es'))"
| "read_exact (ReadFails e # es) n =
     (if n = 0 then (Ok [], ReadFails e # es)
      else if e = Interrupted then read_exact es n
      else (Err e, es))"

datatype write_event = Takes nat | WriteFails io_error

text \<open>\<open>write_all\<close> gives its result, the bytes that went out, and the rest of the script.\<close>

fun write_all :: "write_event list \<Rightarrow> string \<Rightarrow> (io_error, unit) result \<times> string \<times> write_event list" where
  "write_all [] bs = (Ok (), bs, [])"
| "write_all (Takes k # ws) bs =
     (if bs = [] then (Ok (), [], Takes k # ws)
      else if k = 0 then (Err WriteZero, [], ws)
      else if length bs \<le> k then (Ok (), bs, ws)
      else case write_all ws (drop k bs) of (r, out, ws') \<Rightarrow> (r, take k bs @ out, ws'))"
| "write_all (WriteFails e # ws) bs =
     (if bs = [] then (Ok (), [], WriteFails e # ws)
      else if e = Interrupted then write_all ws bs
      else (Err e, [], ws))"

section \<open>Frames\<close>

definition u32_to_be :: "int \<Rightarrow> string" where
  "u32_to_be x = rev (u32_to_le x)"

definition u32_from_be :: "string \<Rightarrow> int" where
  "u32_from_be bs = (case rev bs of [a, b, c, d] \<Rightarrow> u16_from_le a b + 65536 * u16_from_le c d | _ \<Rightarrow> 0)"

text \<open>
  The flush after the payload is the parameter \<open>flush\<close>.  The result comes with the bytes sent.
\<close>

definition write_frame ::
  "('v \<Rightarrow> (string, string) result) \<Rightarrow> (io_error, unit) result \<Rightarrow> write_event list \<Rightarrow> 'v \<Rightarrow> bool
   \<Rightarrow> (ipc_error, unit) result \<times> string" where
  "write_frame to_vec flush ws v cancelled =
     (case rbind (cancellation_check cancelled) (\<lambda>_. map_err MalformedFrame (to_vec v)) of
        Inl e \<Rightarrow> (Err e, [])
      | Inr payload \<Rightarrow>
          if length payload > MAX_FRAME_BYTES then (Err (FrameTooLarge (length payload) MAX_FRAME_BYTES), [])
          else case checked_u32 (int (length payload)) of
            None \<Rightarrow> (Err (FrameTooLarge (length payload) MAX_FRAME_BYTES), [])
          | Some n \<Rightarrow>
              (case write_all ws (u32_to_be n) of
                 (Inl e, out, ws') \<Rightarrow> (Err (Io e), out)
               | (Inr _, out, ws') \<Rightarrow>
                   (case write_all ws' payload of
                      (Inl e, out', ws'') \<Rightarrow> (Err (Io e), out @ out')
                    | (Inr _, out', ws'') \<Rightarrow> (map_err Io flush, out @ out'))))"

definition eof_is_disconnect :: "io_error \<Rightarrow> ipc_error" where
  "eof_is_disconnect e = (if e = UnexpectedEof then Disconnected else Io e)"

definition read_frame ::
  "(string \<Rightarrow> (string, 'v) result) \<Rightarrow> reader \<Rightarrow> bool \<Rightarrow> bool \<Rightarrow> (ipc_error, 'v) result \<times> reader" where
  "read_frame from_slice es cancelled cancelled_later =
     (case cancellation_check cancelled of
        Inl e \<Rightarrow> (Err e, es)
      | Inr _ \<Rightarrow>
        (case read_some es 1 of
           (Inl e, es1) \<Rightarrow> (Err (Io e), es1)
         | (Inr first, es1) \<Rightarrow>
             if first = [] then (Err Disconnected, es1)
             else case read_exact es1 3 of
               (Inl e, es2) \<Rightarrow> (Err (eof_is_disconnect e), es2)
             | (Inr rest, es2) \<Rightarrow>
                 (let n = nat (u32_from_be (first @ rest)) in
                  if n > MAX_FRAME_BYTES then (Err (FrameTooLarge n MAX_FRAME_BYTES), es2)
                  else case cancellation_check cancelled_later of
                    Inl e \<Rightarrow> (Err e, es2)
                  | Inr _ \<Rightarrow>
                      (case read_exact es2 n of
                         (Inl e, es3) \<Rightarrow> (Err (eof_is_disconnect e), es3)
                       | (Inr payload, es3) \<Rightarrow> (map_err MalformedFrame (from_slice payload), es3)))))"

section \<open>Exchanges\<close>

datatype peer_authorization = SameUserVerified | PrivateEndpointOnly

definition permits_future_privileged_command :: "peer_authorization \<Rightarrow> bool" where
  "permits_future_privileged_command a \<longleftrightarrow> a = SameUserVerified"

definition authorize_peer :: "(io_error, int option) result \<Rightarrow> int \<Rightarrow> (ipc_error, peer_authorization) result" where
  "authorize_peer peer_euid own_euid =
     rbind (map_err Io peer_euid) (\<lambda>euid.
     rbind (ok_or PeerIdentityUnavailable euid) (\<lambda>user.
     if user \<noteq> own_euid then Err CrossUserRejected else Ok SameUserVerified))"

text \<open>
  A connection as the server meets it: whether it could be accepted, the credentials of the peer,
  what can be read from it, and how it takes the answer.  The four booleans are the values of
  the cancellation flag at the checks, in order.
\<close>

record connection =
  cn_accept :: "(io_error, unit) result"
  cn_peer_euid :: "(io_error, int option) result"
  cn_input :: reader
  cn_output :: "write_event list"
  cn_flush :: "(io_error, unit) result"

text \<open>
  The result comes with the request handed to the handler, if any, and the bytes sent.
\<close>

definition accept_request ::
  "(string \<Rightarrow> (string, 'q) result) \<Rightarrow> int \<Rightarrow> connection \<Rightarrow> (nat \<Rightarrow> bool) \<Rightarrow> (ipc_error, 'q) result" where
  "accept_request from_slice own_euid c cancelled =
     rbind (cancellation_check (cancelled 0)) (\<lambda>_.
     rbind (map_err Io (cn_accept c)) (\<lambda>_.
     rbind (authorize_peer (cn_peer_euid c) own_euid) (\<lambda>_.
     rbind (cancellation_check (cancelled 1)) (\<lambda>_.
       fst (read_frame from_slice (cn_input c) (cancelled 2) (cancelled 3))))))"

definition serve_exchange ::
  "(string \<Rightarrow> (string, 'q) result) \<Rightarrow> ('r \<Rightarrow> (string, string) result) \<Rightarrow> int \<Rightarrow> connection
   \<Rightarrow> (nat \<Rightarrow> bool) \<Rightarrow> ('q \<Rightarrow> 'r) \<Rightarrow> (ipc_error, unit) result \<times> 'q option \<times> string" where
  "serve_exchange from_slice to_vec own_euid c cancelled handler =
     (case accept_request from_slice own_euid c cancelled of
        Inl e \<Rightarrow> (Err e, None, [])
      | Inr request \<Rightarrow>
          (case write_frame to_vec (cn_flush c) (cn_output c) (handler request) (cancelled 4) of
             (r, out) \<Rightarrow> (r, Some request, out)))"

text \<open>
  The client: \<open>connected\<close> is the answer of \<open>connect\<close>, and what the server answers depends on the bytes it
  was sent.
\<close>

definition client_exchange ::
  "('q \<Rightarrow> (string, string) result) \<Rightarrow> (string \<Rightarrow> (string, 'r) result) \<Rightarrow> (ipc_error, unit) result
   \<Rightarrow> write_event list \<Rightarrow> (io_error, unit) result \<Rightarrow> (string \<Rightarrow> reader) \<Rightarrow> (nat \<Rightarrow> bool) \<Rightarrow> 'q
   \<Rightarrow> (ipc_error, 'r) result" where
  "client_exchange to_vec from_slice connected ws flush server cancelled request =
     rbind (cancellation_check (cancelled 0)) (\<lambda>_.
     rbind connected (\<lambda>_.
       case write_frame to_vec flush ws request (cancelled 1) of
         (Inl e, sent) \<Rightarrow> Err e
       | (Inr _, sent) \<Rightarrow> fst (read_frame from_slice (server sent) (cancelled 2) (cancelled 3))))"

section \<open>Endpoints\<close>

datatype endpoint_kind = UnixSocket string | WindowsNamedPipe string

record endpoint_address =
  ep_kind :: endpoint_kind
  ep_lock_path :: string

record file_metadata =
  fm_is_dir :: bool
  fm_uid :: int
  fm_mode :: nat

record 'o os =
  os_create_dir :: "'o \<Rightarrow> string \<Rightarrow> nat \<Rightarrow> (io_error, unit) result \<times> 'o"
  os_metadata :: "'o \<Rightarrow> string \<Rightarrow> (io_error, file_metadata) result \<times> 'o"
  os_euid :: int
  os_open_lock :: "'o \<Rightarrow> string \<Rightarrow> nat \<Rightarrow> (io_error, unit) result \<times> 'o"
  os_try_lock :: "'o \<Rightarrow> string \<Rightarrow> (io_error, unit) result \<times> 'o"
  os_lock_contended :: "io_error \<Rightarrow> bool"
  os_exists :: "'o \<Rightarrow> string \<Rightarrow> bool"
  os_remove_file :: "'o \<Rightarrow> string \<Rightarrow> (io_error, unit) result \<times> 'o"
  os_listen :: "'o \<Rightarrow> string \<Rightarrow> (io_error, unit) result \<times> 'o"
  os_set_permissions :: "'o \<Rightarrow> string \<Rightarrow> nat \<Rightarrow> (io_error, unit) result \<times> 'o"

text \<open>The directory is private if the six bits \<open>0o077\<close> of its mode are clear.\<close>

definition prepare_runtime_directory :: "'o os \<Rightarrow> 'o \<Rightarrow> string \<Rightarrow> (ipc_error, unit) result \<times> 'o" where
  "prepare_runtime_directory sys s path =
     (case os_create_dir sys s path 448 of
        (Inl e, s1) \<Rightarrow> (Err (Io e), s1)
      | (Inr _, s1) \<Rightarrow>
          (case os_metadata sys s1 path of
             (Inl e, s2) \<Rightarrow> (Err (Io e), s2)
           | (Inr m, s2) \<Rightarrow>
               if \<not> fm_is_dir m \<or> fm_uid m \<noteq> os_euid sys \<or> fm_mode m mod 64 \<noteq> 0
               then (Err InsecureRuntimeDirectory, s2) else (Ok (), s2)))"

definition scope_byte_ok :: "char \<Rightarrow> bool" where
  "scope_byte_ok b \<longleftrightarrow> is_ascii_alphanumeric b \<or> b = CHR ''-'' \<or> b = CHR ''_''"

text \<open>\<open>Path::join\<close> with a relative name.\<close>

definition join_path :: "string \<Rightarrow> string \<Rightarrow> string" where
  "join_path directory name =
     (if directory = [] \<or> last directory = CHR ''/'' then directory @ name else directory @ ''/'' @ name)"

definition for_user :: "'o os \<Rightarrow> 'o \<Rightarrow> string \<Rightarrow> string \<Rightarrow> (ipc_error, endpoint_address) result \<times> 'o" where
  "for_user sys s directory scope =
     (if \<not> (1 \<le> length scope \<and> length scope \<le> 64) \<or> \<not> list_all scope_byte_ok scope
      then (Err InvalidUserScope, s)
      else case prepare_runtime_directory sys s directory of
        (Inl e, s1) \<Rightarrow> (Err e, s1)
      | (Inr _, s1) \<Rightarrow>
          (Ok \<lparr>ep_kind = UnixSocket (join_path directory ''slotpilot.sock''),
               ep_lock_path = join_path directory ''slotpilot.lock''\<rparr>, s1))"

definition create_listener :: "'o os \<Rightarrow> 'o \<Rightarrow> endpoint_kind \<Rightarrow> (ipc_error, unit) result \<times> 'o" where
  "create_listener sys s ek =
     (case ek of
        UnixSocket path \<Rightarrow> (case os_listen sys s path of (r, s') \<Rightarrow> (map_err Io r, s'))
      | WindowsNamedPipe pipe \<Rightarrow> (Err UnsupportedEndpoint, s))"

definition remove_stale :: "'o os \<Rightarrow> 'o \<Rightarrow> endpoint_kind \<Rightarrow> (ipc_error, unit) result \<times> 'o" where
  "remove_stale sys s ek =
     (case ek of
        UnixSocket path \<Rightarrow>
          if os_exists sys s path then (case os_remove_file sys s path of (r, s') \<Rightarrow> (map_err Io r, s'))
          else (Ok (), s)
      | WindowsNamedPipe pipe \<Rightarrow> (Ok (), s))"

definition restrict_permissions :: "'o os \<Rightarrow> 'o \<Rightarrow> endpoint_kind \<Rightarrow> (ipc_error, unit) result \<times> 'o" where
  "restrict_permissions sys s ek =
     (case ek of
        UnixSocket path \<Rightarrow> (case os_set_permissions sys s path 384 of (r, s') \<Rightarrow> (map_err Io r, s'))
      | WindowsNamedPipe pipe \<Rightarrow> (Ok (), s))"

definition open_lock :: "'o os \<Rightarrow> 'o \<Rightarrow> string \<Rightarrow> (ipc_error, unit) result \<times> 'o" where
  "open_lock sys s path = (case os_open_lock sys s path 384 of (r, s') \<Rightarrow> (map_err Io r, s'))"

definition bind_endpoint :: "'o os \<Rightarrow> 'o \<Rightarrow> endpoint_address \<Rightarrow> (ipc_error, unit) result \<times> 'o" where
  "bind_endpoint sys s address =
     (case open_lock sys s (ep_lock_path address) of
        (Inl e, s1) \<Rightarrow> (Err e, s1)
      | (Inr _, s1) \<Rightarrow>
          (case os_try_lock sys s1 (ep_lock_path address) of
             (Inl e, s2) \<Rightarrow> (Err (if os_lock_contended sys e then EndpointActive else Io e), s2)
           | (Inr _, s2) \<Rightarrow>
               (case remove_stale sys s2 (ep_kind address) of
                  (Inl e, s3) \<Rightarrow> (Err e, s3)
                | (Inr _, s3) \<Rightarrow>
                    (case create_listener sys s3 (ep_kind address) of
                       (Inl e, s4) \<Rightarrow> (Err e, s4)
                     | (Inr _, s4) \<Rightarrow> restrict_permissions sys s4 (ep_kind address)))))"

text \<open>The client's side: \<open>dial\<close> is the connection to the socket of that path.\<close>

definition connect_endpoint :: "(string \<Rightarrow> (io_error, unit) result) \<Rightarrow> endpoint_kind \<Rightarrow> (ipc_error, unit) result" where
  "connect_endpoint dial ek =
     (case ek of UnixSocket path \<Rightarrow> map_err Io (dial path) | WindowsNamedPipe pipe \<Rightarrow> Err UnsupportedEndpoint)"

section \<open>What a stream delivers\<close>

text \<open>The bytes a reader yields before it ends or fails, and the error that \<open>read_exact\<close> then meets.\<close>

fun delivered :: "reader \<Rightarrow> string" where
  "delivered [] = []"
| "delivered (Chunk bs # es) = (if bs = [] then [] else bs @ delivered es)"
| "delivered (ReadFails e # es) = (if e = Interrupted then delivered es else [])"

fun ending :: "reader \<Rightarrow> io_error" where
  "ending [] = UnexpectedEof"
| "ending (Chunk bs # es) = (if bs = [] then UnexpectedEof else ending es)"
| "ending (ReadFails e # es) = (if e = Interrupted then ending es else e)"

fun starts_clean :: "reader \<Rightarrow> bool" where
  "starts_clean (ReadFails e # es) = False"
| "starts_clean es = True"

lemma read_exact_enough:
  assumes "n \<le> length (delivered es)"
  shows "\<exists>es'. read_exact es n = (Ok (take n (delivered es)), es') \<and>
    delivered es' = drop n (delivered es) \<and> ending es' = ending es"
  using assms
proof (induction es n rule: read_exact.induct)
  case (2 bs es n)
  show ?case
  proof (cases "n = 0 \<or> bs = [] \<or> n < length bs")
    case False
    then have "n - length bs \<le> length (delivered es)" using "2.prems" by simp
    then obtain es' where "read_exact es (n - length bs) = (Ok (take (n - length bs) (delivered es)), es')"
        "delivered es' = drop (n - length bs) (delivered es)" "ending es' = ending es"
      using "2.IH" False by auto
    then show ?thesis using False by auto
  qed (use "2.prems" in auto)
qed (auto split: if_splits)

lemma read_exact_short:
  assumes "length (delivered es) < n"
  shows "\<exists>es'. read_exact es n = (Err (ending es), es')"
  using assms
proof (induction es n rule: read_exact.induct)
  case (2 bs es n)
  show ?case
  proof (cases "bs = []")
    case False
    then have "length (delivered es) < n - length bs" "n \<noteq> 0" "\<not> n < length bs" using "2.prems" by auto
    then obtain es' where "read_exact es (n - length bs) = (Err (ending es), es')"
      using "2.IH" False by auto
    then show ?thesis using False \<open>n \<noteq> 0\<close> \<open>\<not> n < length bs\<close> by auto
  qed (use "2.prems" in auto)
qed (auto split: if_splits)

lemma read_first_byte:
  assumes "starts_clean es" "delivered es \<noteq> []"
  shows "\<exists>es'. read_some es 1 = (Ok [hd (delivered es)], es') \<and> delivered es' = tl (delivered es) \<and> ending es' = ending es"
proof (cases es)
  case (Cons e es')
  then obtain c cs where "e = Chunk (c # cs)" using assms by (cases e) (auto split: if_splits, metis list.exhaust)
  then show ?thesis using Cons by (cases cs) auto
qed (use assms in simp)

lemma read_nothing:
  assumes "starts_clean es" "delivered es = []"
  shows "\<exists>es'. read_some es 1 = (Ok [], es')"
  using assms by (cases es rule: delivered.cases) (auto split: if_splits)

section \<open>Frames round trip\<close>

lemma u32_be_length [simp]: "length (u32_to_be x) = 4"
  by (simp add: u32_to_be_def)

lemma u32_be_inverse:
  assumes "0 \<le> x" "x \<le> u32_max"
  shows "u32_from_be (u32_to_be x) = x"
proof -
  obtain a b c d where abcd: "u32_to_le x = [a, b, c, d]"
      "u16_to_le x = [a, b]" "u16_to_le (x div 65536) = [c, d]"
    by (simp add: u32_to_le_def u16_to_le_def)
  have hi: "0 \<le> x div 65536" "x div 65536 < 65536" using assms by simp_all
  have "u16_from_le a b = x mod 65536" using u16_le_mod [of x] abcd(2) by simp
  moreover have "u16_from_le c d = x div 65536" using u16_le_inverse [OF hi] abcd(3) by simp
  ultimately have "u16_from_le a b + 65536 * u16_from_le c d = x" by simp
  then show ?thesis by (simp add: u32_from_be_def u32_to_be_def abcd(1))
qed

definition frame_bytes :: "string \<Rightarrow> string" where
  "frame_bytes payload = u32_to_be (int (length payload)) @ payload"

lemma write_all_Ok: "write_all ws bs = (Ok u, out, ws') \<Longrightarrow> out = bs"
  by (induction ws bs arbitrary: out rule: write_all.induct) (auto split: if_splits prod.splits)

lemma write_frame_Ok:
  assumes "write_frame to_vec flush ws v cancelled = (Ok u, out)"
  shows "\<not> cancelled \<and> (\<exists>payload. to_vec v = Ok payload \<and> length payload \<le> MAX_FRAME_BYTES \<and> out = frame_bytes payload)"
  using assms
  by (auto simp: write_frame_def cancellation_check_def frame_bytes_def dest!: write_all_Ok
      split: sum.splits if_splits option.splits prod.splits)

lemma read_frame_complete:
  assumes "starts_clean es" "delivered es = frame_bytes payload @ rest" "length payload \<le> MAX_FRAME_BYTES"
  shows "\<exists>es'. read_frame from_slice es False False = (map_err MalformedFrame (from_slice payload), es') \<and> delivered es' = rest"
proof -
  let ?len = "u32_to_be (int (length payload))"
  obtain c cs where len: "?len = c # cs" "length cs = 3"
    using u32_be_length [of "int (length payload)"] by (cases ?len) auto
  have d: "delivered es = c # cs @ payload @ rest" using assms(2) len by (simp add: frame_bytes_def)
  obtain es1 where es1: "read_some es 1 = (Ok [c], es1)" "delivered es1 = cs @ payload @ rest"
    using read_first_byte [OF assms(1)] d by auto
  obtain es2 where es2: "read_exact es1 3 = (Ok cs, es2)" "delivered es2 = payload @ rest"
    using read_exact_enough [of 3 es1] es1(2) len(2) by auto
  obtain es3 where es3: "read_exact es2 (length payload) = (Ok payload, es3)" "delivered es3 = rest"
    using read_exact_enough [of "length payload" es2] es2(2) by auto
  have n: "u32_from_be ([c] @ cs) = int (length payload)"
    using u32_be_inverse [of "int (length payload)"] assms(3) len(1) by (simp add: MAX_FRAME_BYTES_def)
  show ?thesis
    using es1(1) es2(1) es3 assms(3) n by (simp add: read_frame_def cancellation_check_def Let_def)
qed

lemma read_frame_truncated:
  assumes "starts_clean es" "delivered es = take k (frame_bytes payload)" "k < length (frame_bytes payload)"
    and "ending es = UnexpectedEof" "length payload \<le> MAX_FRAME_BYTES"
  shows "fst (read_frame from_slice es False False) = Err Disconnected"
proof (cases "k = 0")
  case True
  then show ?thesis using read_nothing [OF assms(1)] assms(2) by (auto simp: read_frame_def cancellation_check_def)
next
  case False
  let ?len = "u32_to_be (int (length payload))"
  obtain c cs where len: "?len = c # cs" "length cs = 3"
    using u32_be_length [of "int (length payload)"] by (cases ?len) auto
  obtain m where k: "k = Suc m" using False by (cases k) auto
  have d: "delivered es = c # take m (cs @ payload)" using assms(2) k len by (simp add: frame_bytes_def)
  obtain es1 where es1: "read_some es 1 = (Ok [c], es1)" "delivered es1 = take m (cs @ payload)" "ending es1 = UnexpectedEof"
    using read_first_byte [OF assms(1)] d assms(4) by auto
  have m: "m < 3 + length payload" using assms(3) k len(2) by (simp add: frame_bytes_def)
  show ?thesis
  proof (cases "m < 3")
    case True
    then obtain es2 where "read_exact es1 3 = (Err UnexpectedEof, es2)"
      using read_exact_short [of es1 3] es1(2,3) len(2) by auto
    then show ?thesis using es1(1) by (simp add: read_frame_def cancellation_check_def eof_is_disconnect_def)
  next
    case False
    then obtain es2 where es2: "read_exact es1 3 = (Ok cs, es2)" "delivered es2 = take (m - 3) payload" "ending es2 = UnexpectedEof"
      using read_exact_enough [of 3 es1] es1(2,3) len(2) by (auto simp: drop_take)
    have n: "u32_from_be ([c] @ cs) = int (length payload)"
      using u32_be_inverse [of "int (length payload)"] assms(5) len(1) by (simp add: MAX_FRAME_BYTES_def)
    have "m - 3 < length payload" using m False by linarith
    then obtain es3 where "read_exact es2 (length payload) = (Err UnexpectedEof, es3)"
      using read_exact_short [of es2 "length payload"] es2(2,3) by auto
    then show ?thesis
      using es1(1) es2(1) n assms(5) by (simp add: read_frame_def cancellation_check_def eof_is_disconnect_def Let_def)
  qed
qed

lemma read_frame_Ok:
  assumes ok: "fst (read_frame from_slice es cancelled later) = Ok v"
  shows "\<not> cancelled \<and> \<not> later \<and> (\<exists>len payload rest. delivered es = len @ payload @ rest \<and> length len = 4 \<and>
    u32_from_be len = int (length payload) \<and> length payload \<le> MAX_FRAME_BYTES \<and> from_slice payload = Ok v)"
proof -
  obtain first es1 where r1: "read_some es 1 = (Ok first, es1)" "first \<noteq> []" and c: "\<not> cancelled"
    using ok by (auto simp: read_frame_def cancellation_check_def split: sum.splits prod.splits if_splits)
  have sc: "starts_clean es" "delivered es \<noteq> []"
    using r1 by (cases es rule: delivered.cases; auto split: if_splits)+
  obtain b where d1: "first = [b]" "delivered es = b # delivered es1"
    using read_first_byte [OF sc] r1(1) sc(2) by (cases "delivered es") auto
  obtain rest es2 where r2: "read_exact es1 3 = (Ok rest, es2)"
    using ok c r1 by (auto simp: read_frame_def cancellation_check_def split: sum.splits prod.splits if_splits)
  have d2: "delivered es1 = rest @ delivered es2" "length rest = 3"
    using read_exact_short [of es1 3] read_exact_enough [of 3 es1] r2 by (cases "length (delivered es1) < 3"; force)+
  let ?n = "nat (u32_from_be ([b] @ rest))"
  obtain payload es3 where r3: "read_exact es2 ?n = (Ok payload, es3)" "?n \<le> MAX_FRAME_BYTES" "\<not> later" "from_slice payload = Ok v"
    using ok c r1 r2 d1(1)
    by (auto simp: read_frame_def cancellation_check_def Let_def split: sum.splits prod.splits if_splits)
  have d3: "delivered es2 = payload @ delivered es3" "length payload = ?n"
    using read_exact_short [of es2 ?n] read_exact_enough [of ?n es2] r3(1) by (cases "length (delivered es2) < ?n"; force)+
  have "0 \<le> u32_from_be ([b] @ rest)"
    using u16_from_le_range by (auto simp: u32_from_be_def split: list.splits intro!: add_nonneg_nonneg)
  then show ?thesis
    using c r3 d1 d2 d3
    by (intro conjI exI [of _ "[b] @ rest"] exI [of _ payload] exI [of _ "delivered es3"]) simp_all
qed

lemma accept_request_complete:
  assumes "cn_accept c = Ok ()" "cn_peer_euid c = Ok (Some own)" "starts_clean (cn_input c)"
    and "delivered (cn_input c) = frame_bytes q @ rest" "length q \<le> MAX_FRAME_BYTES" "from_slice q = Ok request"
  shows "accept_request from_slice own c (\<lambda>_. False) = Ok request"
  using read_frame_complete [OF assms(3-5), of from_slice] assms(1,2,6)
  by (auto simp: accept_request_def cancellation_check_def authorize_peer_def)

lemma accept_request_Ok:
  assumes "accept_request from_slice own c cancelled = Ok q"
  shows "cn_peer_euid c = Ok (Some own) \<and> fst (read_frame from_slice (cn_input c) (cancelled 2) (cancelled 3)) = Ok q"
  using assms by (auto simp: accept_request_def authorize_peer_def split: sum.splits prod.splits if_splits)

lemma client_exchange_complete:
  assumes "write_frame to_vec flush ws request False = (Ok (), sent)"
    and "starts_clean (server sent)" "delivered (server sent) = frame_bytes a @ rest" "length a \<le> MAX_FRAME_BYTES"
  shows "client_exchange to_vec from_slice (Ok ()) ws flush server (\<lambda>_. False) request = map_err MalformedFrame (from_slice a)"
  using read_frame_complete [OF assms(2-4), of from_slice] assms(1)
  by (auto simp: client_exchange_def cancellation_check_def)

text \<open>
  C17: the handler of the server runs only for a complete, bounded frame of a peer with the
  daemon's own user identity, and with exactly the request that frame encodes; whatever else
  happens, nothing is sent back.
\<close>

theorem handler_runs_only_for_own_user:
  assumes "serve_exchange from_slice to_vec own c cancelled handler = (r, asked, out)"
  shows "case asked of
      None \<Rightarrow> out = [] \<and> \<not> is_ok r
    | Some q \<Rightarrow> cn_peer_euid c = Ok (Some own) \<and>
        (\<exists>len payload rest. delivered (cn_input c) = len @ payload @ rest \<and> length len = 4 \<and>
           u32_from_be len = int (length payload) \<and> length payload \<le> MAX_FRAME_BYTES \<and> from_slice payload = Ok q) \<and>
        (is_ok r \<longrightarrow> (\<exists>answer. to_vec (handler q) = Ok answer \<and> out = frame_bytes answer))"
proof (cases asked)
  case None
  then show ?thesis using assms by (auto simp: serve_exchange_def split: sum.splits prod.splits)
next
  case (Some q)
  have rd: "fst (read_frame from_slice (cn_input c) (cancelled 2) (cancelled 3)) = Ok q"
    and peer: "cn_peer_euid c = Ok (Some own)"
    and wr: "write_frame to_vec (cn_flush c) (cn_output c) (handler q) (cancelled 4) = (r, out)"
    using assms Some accept_request_Ok [of from_slice own c cancelled q]
    by (auto simp: serve_exchange_def split: sum.splits prod.splits if_splits)
  have "is_ok r \<longrightarrow> (\<exists>answer. to_vec (handler q) = Ok answer \<and> out = frame_bytes answer)"
    using write_frame_Ok [of to_vec "cn_flush c" "cn_output c" "handler q" "cancelled 4"] wr by (auto simp: is_ok_iff)
  then show ?thesis using read_frame_Ok [OF rd] peer Some by simp
qed

definition sample_connection :: "string \<Rightarrow> connection" where
  "sample_connection bytes =
     \<lparr>cn_accept = Ok (), cn_peer_euid = Ok (Some 501), cn_input = [Chunk (take 2 bytes), ReadFails Interrupted, Chunk (drop 2 bytes)],
      cn_output = [Takes 3], cn_flush = Ok ()\<rparr>"

lemma sample_connection_reads:
  assumes "2 < length bytes"
  shows "delivered (cn_input (sample_connection bytes)) = bytes" "starts_clean (cn_input (sample_connection bytes))"
    "ending (cn_input (sample_connection bytes)) = UnexpectedEof"
  using assms by (cases bytes; auto simp: sample_connection_def)+


theorem handler_runs_only_for_own_user_witness:
  "\<exists>r out. serve_exchange Ok Ok 501 (sample_connection (frame_bytes ''ping'')) (\<lambda>_. False) (\<lambda>q. q @ ''!'') = (r, Some ''ping'', out) \<and>
     cn_peer_euid (sample_connection (frame_bytes ''ping'')) = Ok (Some 501)"
proof -
  have "length (frame_bytes ''ping'') > 2" by (simp add: frame_bytes_def)
  note s = sample_connection_reads [OF this]
  have "fst (read_frame Ok (cn_input (sample_connection (frame_bytes ''ping''))) False False) = Ok ''ping''"
    using read_frame_complete [of _ "''ping''" "[]" Ok, OF s(2)] s(1) by (auto simp: MAX_FRAME_BYTES_def)
  then have "accept_request Ok 501 (sample_connection (frame_bytes ''ping'')) (\<lambda>_. False) = Ok ''ping''"
    by (simp add: accept_request_def cancellation_check_def authorize_peer_def sample_connection_def)
  then obtain r out where run: "serve_exchange Ok Ok 501 (sample_connection (frame_bytes ''ping'')) (\<lambda>_. False) (\<lambda>q. q @ ''!'')
      = (r, Some ''ping'', out)"
    by (cases "write_frame Ok (Ok ()) [Takes 3] ''ping!'' False")
      (auto simp: serve_exchange_def sample_connection_def)
  then show ?thesis using handler_runs_only_for_own_user [OF run] by simp
qed


end
