(* ===== verification/SP_Rig.thy ===== *)
theory SP_Rig
  imports SP_Radio SP_Time SP_Ids
begin

text \<open>
  \<open>crates/domain/src/rig.rs\<close> and \<open>crates/operations/src/rig.rs\<close>: rig profiles with their network
  endpoints, and the read-only observation contracts: capability evidence and its validation,
  observations with provenance, and their freshness.  The parser of IP addresses is that of the
  Rust standard library.  \<open>DialFrequency\<close> and \<open>Power\<close> are the checked integers of the radio model.
\<close>

section \<open>IP address literals\<close>

text \<open>The parser of \<open>core::net\<close>: each reader gives the value read and the rest of the input.\<close>

definition to_digit :: "nat \<Rightarrow> char \<Rightarrow> nat option" where
  "to_digit radix c =
     (let v = byte_val c;
          d = (if is_ascii_digit c then Some (v - 48)
               else if 97 \<le> v \<and> v \<le> 122 then Some (v - 87)
               else if 65 \<le> v \<and> v \<le> 90 then Some (v - 55) else None) in
      case d of None \<Rightarrow> None | Some k \<Rightarrow> if k < radix then Some k else None)"

definition read_number :: "nat \<Rightarrow> nat \<Rightarrow> bool \<Rightarrow> nat \<Rightarrow> string \<Rightarrow> (nat \<times> string) option" where
  "read_number radix max_digits allow_zero_prefix limit s =
     (let ds = takeWhile (\<lambda>c. to_digit radix c \<noteq> None) s;
          v = foldl (\<lambda>acc c. acc * radix + the (to_digit radix c)) 0 ds in
      if ds = [] \<or> length ds > max_digits then None
      else if \<not> allow_zero_prefix \<and> hd ds = CHR ''0'' \<and> length ds > 1 then None
      else if v > limit then None
      else Some (v, drop (length ds) s))"

definition read_separator :: "char \<Rightarrow> nat \<Rightarrow> (string \<Rightarrow> ('a \<times> string) option) \<Rightarrow> string \<Rightarrow> ('a \<times> string) option" where
  "read_separator sep index inner s =
     (if index = 0 then inner s
      else case s of [] \<Rightarrow> None | c # cs \<Rightarrow> if c = sep then inner cs else None)"

fun read_octets :: "nat \<Rightarrow> nat \<Rightarrow> string \<Rightarrow> (nat list \<times> string) option" where
  "read_octets 0 i s = Some ([], s)"
| "read_octets (Suc n) i s =
     (case read_separator (CHR ''.'') i (read_number 10 3 False 255) s of
        None \<Rightarrow> None
      | Some (v, s') \<Rightarrow>
          (case read_octets n (Suc i) s' of None \<Rightarrow> None | Some (vs, r) \<Rightarrow> Some (v # vs, r)))"

definition read_ipv4_addr :: "string \<Rightarrow> (nat list \<times> string) option" where
  "read_ipv4_addr s = read_octets 4 0 s"

text \<open>Groups read, whether the last two came from an embedded IPv4 address, and the rest.\<close>

fun read_groups :: "nat \<Rightarrow> nat \<Rightarrow> string \<Rightarrow> nat list \<times> bool \<times> string" where
  "read_groups 0 i s = ([], False, s)"
| "read_groups (Suc n) i s =
     (case (if n = 0 then None else read_separator (CHR '':'') i read_ipv4_addr s) of
        Some (v4, r) \<Rightarrow> ([v4 ! 0 * 256 + v4 ! 1, v4 ! 2 * 256 + v4 ! 3], True, r)
      | None \<Rightarrow>
          (case read_separator (CHR '':'') i (read_number 16 4 True 65535) s of
             None \<Rightarrow> ([], False, s)
           | Some (g, s') \<Rightarrow> (case read_groups n (Suc i) s' of (gs, v4, r) \<Rightarrow> (g # gs, v4, r))))"

definition read_ipv6_addr :: "string \<Rightarrow> (nat list \<times> string) option" where
  "read_ipv6_addr s =
     (case read_groups 8 0 s of
        (head, head_ipv4, r) \<Rightarrow>
          if length head = 8 then Some (head, r)
          else if head_ipv4 then None
          else case strip_prefix ''::'' r of
            None \<Rightarrow> None
          | Some r' \<Rightarrow>
              (case read_groups (8 - (length head + 1)) 0 r' of
                 (tail, _, r'') \<Rightarrow> Some (head @ replicate (8 - length head - length tail) 0 @ tail, r'')))"

datatype ip_addr = V4 "nat list" | V6 "nat list"

definition parse_ip_addr :: "string \<Rightarrow> ip_addr option" where
  "parse_ip_addr s =
     (case read_ipv4_addr s of
        Some (a, r) \<Rightarrow> if r = [] then Some (V4 a) else None
      | None \<Rightarrow>
          (case read_ipv6_addr s of
             Some (a, r) \<Rightarrow> if r = [] then Some (V6 a) else None
           | None \<Rightarrow> None))"

fun is_ipv6 :: "ip_addr \<Rightarrow> bool" where
  "is_ipv6 (V4 a) = False"
| "is_ipv6 (V6 a) = True"

fun is_loopback :: "ip_addr \<Rightarrow> bool" where
  "is_loopback (V4 a) \<longleftrightarrow> hd a = 127"
| "is_loopback (V6 a) \<longleftrightarrow> a = [0, 0, 0, 0, 0, 0, 0, 1]"

section \<open>Profiles\<close>

definition MAX_ENDPOINT_HOST_BYTES :: nat where "MAX_ENDPOINT_HOST_BYTES = 253"
definition MAX_HAMLIB_VERSION_BYTES :: nat where "MAX_HAMLIB_VERSION_BYTES = 64"
definition MIN_PASSBAND_HZ :: int where "MIN_PASSBAND_HZ = 50"
definition MAX_PASSBAND_HZ :: int where "MAX_PASSBAND_HZ = 100000"

datatype rig_profile_error =
    IncompleteEndpoint
  | InvalidEndpointHost
  | InvalidEndpointPort
  | ManagedServiceNotLoopback
  | EndpointRolesConflict
  | InvalidHamlibModel
  | InvalidHamlibVersion
  | PassbandOutOfRange

definition strip_brackets :: "string \<Rightarrow> string option" where
  "strip_brackets host =
     (case strip_prefix ''['' host of
        None \<Rightarrow> None
      | Some r \<Rightarrow> if r \<noteq> [] \<and> last r = CHR '']'' then Some (butlast r) else None)"

definition validate_host :: "string \<Rightarrow> (rig_profile_error, unit) result" where
  "validate_host host =
     (if host = [] \<or> length host > MAX_ENDPOINT_HOST_BYTES then Err InvalidEndpointHost
      else case strip_brackets host of
        Some inner \<Rightarrow>
          (case parse_ip_addr inner of
             None \<Rightarrow> Err InvalidEndpointHost
           | Some a \<Rightarrow> if is_ipv6 a then Ok () else Err InvalidEndpointHost)
      | None \<Rightarrow>
          if CHR '':'' \<in> set host \<or>
             \<not> list_all (\<lambda>b. is_ascii_alphanumeric b \<or> b = CHR ''.'' \<or> b = CHR ''-'') host
          then Err InvalidEndpointHost else Ok ())"

definition is_loopback_literal :: "string \<Rightarrow> bool" where
  "is_loopback_literal host =
     (case parse_ip_addr (case strip_brackets host of Some inner \<Rightarrow> inner | None \<Rightarrow> host) of
        None \<Rightarrow> False
      | Some a \<Rightarrow> is_loopback a)"

record net_endpoint =
  ne_host :: string
  ne_port :: int

datatype downstream_endpoint = DownstreamRigEndpoint (downstream: net_endpoint)
datatype service_endpoint = RigctldServiceEndpoint (service: net_endpoint)

definition endpoint_new :: "string \<Rightarrow> int \<Rightarrow> (rig_profile_error, net_endpoint) result" where
  "endpoint_new host port =
     rbind (validate_host host) (\<lambda>_.
     if port = 0 then Err InvalidEndpointPort else Ok \<lparr>ne_host = host, ne_port = port\<rparr>)"

definition rsplit_once :: "char \<Rightarrow> string \<Rightarrow> (string \<times> string) option" where
  "rsplit_once c s =
     (case dropWhile (\<lambda>x. x \<noteq> c) (rev s) of
        [] \<Rightarrow> None
      | _ # pre \<Rightarrow> Some (rev pre, rev (takeWhile (\<lambda>x. x \<noteq> c) (rev s))))"

definition split_endpoint :: "string \<Rightarrow> (rig_profile_error, string \<times> int) result" where
  "split_endpoint value =
     rbind (ok_or IncompleteEndpoint (rsplit_once (CHR '':'') value)) (\<lambda>(host, p).
     rbind (ok_or InvalidEndpointPort (parse_uint u16_max p)) (\<lambda>port.
     if port = 0 then Err InvalidEndpointPort
     else rbind (validate_host host) (\<lambda>_. Ok (host, port))))"

definition endpoint_from_str :: "string \<Rightarrow> (rig_profile_error, net_endpoint) result" where
  "endpoint_from_str value = rbind (split_endpoint value) (\<lambda>(host, port). endpoint_new host port)"

definition endpoint_to_string :: "net_endpoint \<Rightarrow> string" where
  "endpoint_to_string e = ne_host e @ '':'' @ show_uint (ne_port e)"

datatype rigctld_mode = Managed | External

datatype hamlib_model_id = HamlibModelId (hamlib_model_get: int)
datatype hamlib_version = HamlibVersionExpectation (hamlib_version_str: string)

definition hamlib_model_new :: "int \<Rightarrow> (rig_profile_error, hamlib_model_id) result" where
  "hamlib_model_new v = (if v = 0 then Err InvalidHamlibModel else Ok (HamlibModelId v))"

definition hamlib_version_new :: "string \<Rightarrow> (rig_profile_error, hamlib_version) result" where
  "hamlib_version_new v =
     (if v = [] \<or> length v > MAX_HAMLIB_VERSION_BYTES \<or>
         \<not> list_all (\<lambda>b. is_ascii_alphanumeric b \<or> b = CHR ''.'' \<or> b = CHR ''-'' \<or> b = CHR ''+'') v
      then Err InvalidHamlibVersion else Ok (HamlibVersionExpectation v))"

datatype radio_modulation =
    UpperSideband | LowerSideband | DataUpperSideband | DataLowerSideband | ContinuousWave
  | ContinuousWaveReverse | AmplitudeModulation | FrequencyModulation | RadioTeletype | RadioTeletypeReverse

datatype radio_passband = RadioPassband (passband_hz: int)

definition passband_from_hz :: "int \<Rightarrow> (rig_profile_error, radio_passband) result" where
  "passband_from_hz v =
     (if \<not> in_range MIN_PASSBAND_HZ MAX_PASSBAND_HZ v then Err PassbandOutOfRange else Ok (RadioPassband v))"

datatype rig_vfo = VfoA | VfoB | VfoMain | VfoSub | VfoMemory

record split_readback =
  sp_enabled :: bool
  sp_transmit_vfo :: "rig_vfo option"

record rig_profile =
  rig_revision_id :: profile_revision_id
  rig_downstream_endpoint :: downstream_endpoint
  rig_service_endpoint :: service_endpoint
  rig_rigctld_mode :: rigctld_mode
  rig_hamlib_model :: hamlib_model_id
  rig_hamlib_version :: hamlib_version
  rig_required_modulation :: radio_modulation
  rig_required_passband :: radio_passband

definition rig_profile_new ::
  "profile_revision_id \<Rightarrow> downstream_endpoint \<Rightarrow> service_endpoint \<Rightarrow> rigctld_mode \<Rightarrow> hamlib_model_id
   \<Rightarrow> hamlib_version \<Rightarrow> radio_modulation \<Rightarrow> radio_passband \<Rightarrow> (rig_profile_error, rig_profile) result" where
  "rig_profile_new revision down svc mode model version modulation passband =
     (if endpoint_to_string (downstream down) = endpoint_to_string (service svc) then Err EndpointRolesConflict
      else if mode = Managed \<and> \<not> is_loopback_literal (ne_host (service svc)) then Err ManagedServiceNotLoopback
      else Ok \<lparr>rig_revision_id = revision, rig_downstream_endpoint = down, rig_service_endpoint = svc,
               rig_rigctld_mode = mode, rig_hamlib_model = model, rig_hamlib_version = version,
               rig_required_modulation = modulation, rig_required_passband = passband\<rparr>)"

section \<open>Capabilities\<close>

definition MAX_RIG_CAPABILITIES :: nat where "MAX_RIG_CAPABILITIES = 7"
definition MAX_RIG_VALIDATION_FINDINGS :: nat where "MAX_RIG_VALIDATION_FINDINGS = 32"
definition MAX_RIG_FRESHNESS_MILLIS :: int where "MAX_RIG_FRESHNESS_MILLIS = 300000"
definition MAX_RIG_TIMING_DIVERGENCE_MILLIS :: int where "MAX_RIG_TIMING_DIVERGENCE_MILLIS = 60000"

datatype rig_contract_error =
    ZeroGeneration
  | InvalidCapabilitySet
  | TooManyValidationFindings
  | NegativeUtcTimestamp
  | InvalidFreshnessPolicy

datatype rig_capability =
    CapDialFrequency | CapModulation | CapPassband | CapVfo | CapSplit | CapPower | CapPtt

datatype capability_status =
    BackendClaimed | RuntimeProbed | PhysicallyVerified | CapUnsupported | CapUnavailable | StaleOrUnverified

record capability_evidence =
  evi_capability :: rig_capability
  evi_status :: capability_status

datatype rig_generation = RigConnectionGeneration (rig_generation_get: int)
datatype rig_sequence = RigObservationSequence (rig_sequence_get: int)

definition rig_generation_new :: "int \<Rightarrow> (rig_contract_error, rig_generation) result" where
  "rig_generation_new v = (if v = 0 then Err ZeroGeneration else Ok (RigConnectionGeneration v))"

definition rig_sequence_new :: "int \<Rightarrow> (rig_contract_error, rig_sequence) result" where
  "rig_sequence_new v = (if v = 0 then Err ZeroGeneration else Ok (RigObservationSequence v))"

record capability_report =
  cr_generation :: rig_generation
  cr_evidence :: "capability_evidence list"

definition capability_report_new ::
  "rig_generation \<Rightarrow> capability_evidence list \<Rightarrow> (rig_contract_error, capability_report) result" where
  "capability_report_new g evidence =
     (if length evidence > MAX_RIG_CAPABILITIES then Err InvalidCapabilitySet
      else if card (set (map evi_capability evidence)) \<noteq> length evidence then Err InvalidCapabilitySet
      else Ok \<lparr>cr_generation = g, cr_evidence = evidence\<rparr>)"

definition report_status :: "capability_report \<Rightarrow> rig_capability \<Rightarrow> capability_status option" where
  "report_status r c = map_option evi_status (find (\<lambda>e. evi_capability e = c) (cr_evidence r))"

datatype validation_disposition = Satisfied | Unverified | Failed

record validation_finding =
  vf_capability :: rig_capability
  vf_status :: capability_status
  vf_disposition :: validation_disposition

record profile_validation =
  pv_profile_revision_id :: profile_revision_id
  pv_findings :: "validation_finding list"

definition profile_validation_new ::
  "profile_revision_id \<Rightarrow> validation_finding list \<Rightarrow> (rig_contract_error, profile_validation) result" where
  "profile_validation_new revision findings =
     (if length findings > MAX_RIG_VALIDATION_FINDINGS then Err TooManyValidationFindings
      else Ok \<lparr>pv_profile_revision_id = revision, pv_findings = findings\<rparr>)"

definition is_satisfied :: "profile_validation \<Rightarrow> bool" where
  "is_satisfied v = list_all (\<lambda>f. vf_disposition f = Satisfied) (pv_findings v)"

fun disposition_of :: "capability_status \<Rightarrow> validation_disposition" where
  "disposition_of RuntimeProbed = Satisfied"
| "disposition_of PhysicallyVerified = Satisfied"
| "disposition_of BackendClaimed = Unverified"
| "disposition_of StaleOrUnverified = Unverified"
| "disposition_of CapUnsupported = Failed"
| "disposition_of CapUnavailable = Failed"

definition finding_for :: "capability_report \<Rightarrow> rig_capability \<Rightarrow> validation_finding" where
  "finding_for report c =
     (let status = (case report_status report c of None \<Rightarrow> StaleOrUnverified | Some s \<Rightarrow> s) in
      \<lparr>vf_capability = c, vf_status = status, vf_disposition = disposition_of status\<rparr>)"

definition validate_profile_capabilities ::
  "rig_profile \<Rightarrow> rig_capability list \<Rightarrow> capability_report \<Rightarrow> (rig_contract_error, profile_validation) result" where
  "validate_profile_capabilities profile required report =
     (if length required > MAX_RIG_CAPABILITIES then Err InvalidCapabilitySet
      else if card (set required) \<noteq> length required then Err InvalidCapabilitySet
      else profile_validation_new (rig_revision_id profile) (map (finding_for report) required))"

section \<open>Observations\<close>

datatype 'a rig_readback = Observed 'a | ReadUnsupported | ReadUnavailable | ReadStaleOrUnverified

record observation_fields =
  of_dial_frequency :: "int rig_readback"
  of_modulation :: "radio_modulation rig_readback"
  of_passband :: "radio_passband rig_readback"
  of_vfo :: "rig_vfo rig_readback"
  of_split :: "split_readback rig_readback"
  of_power :: "int rig_readback"
  of_ptt_asserted :: "bool rig_readback"

record observation_timestamp =
  ot_utc_unix_millis :: int
  ot_monotonic_millis :: int

definition observation_timestamp_new :: "int \<Rightarrow> int \<Rightarrow> (rig_contract_error, observation_timestamp) result" where
  "observation_timestamp_new u m =
     (if u < 0 then Err NegativeUtcTimestamp else Ok \<lparr>ot_utc_unix_millis = u, ot_monotonic_millis = m\<rparr>)"

definition from_clock_sample :: "clock_sample \<Rightarrow> observation_timestamp" where
  "from_clock_sample s = \<lparr>ot_utc_unix_millis = utc s, ot_monotonic_millis = monotonic s\<rparr>"

record observation_provenance =
  op_service_instance_id :: service_instance_id
  op_connection_generation :: rig_generation
  op_sequence :: rig_sequence

record rig_observation =
  ro_profile_revision_id :: profile_revision_id
  ro_provenance :: observation_provenance
  ro_observed_at :: observation_timestamp
  ro_fields :: observation_fields

record observation_age =
  oa_utc_millis :: int
  oa_monotonic_millis :: int

record freshness_policy =
  fp_max_age_millis :: int
  fp_max_timing_divergence_millis :: int

definition freshness_policy_new :: "int \<Rightarrow> int \<Rightarrow> (rig_contract_error, freshness_policy) result" where
  "freshness_policy_new age divergence =
     (if age = 0 \<or> age > MAX_RIG_FRESHNESS_MILLIS \<or> divergence > MAX_RIG_TIMING_DIVERGENCE_MILLIS
      then Err InvalidFreshnessPolicy
      else Ok \<lparr>fp_max_age_millis = age, fp_max_timing_divergence_millis = divergence\<rparr>)"

datatype rig_operation = OpConnect | OpProbe | OpRead

datatype rig_observed_field =
    FieldProfileRevision | FieldDialFrequency | FieldModulation | FieldPassband | FieldVfo | FieldSplit
  | FieldPower | FieldPtt | FieldTiming

datatype rig_fault_kind =
    KindNotConnected | KindNotProbed | KindDisconnected | KindTimeout | KindStale | KindTimelineRegressed
  | KindContradictory | KindRigUnsupported | KindMalformed | KindUnexpectedChange | KindGenerationChanged

datatype rig_fault =
    RigNotConnected
  | RigNotProbed
  | RigDisconnected
  | RigTimeout rig_operation
  | RigStale int int
  | RigTimelineRegressed
  | ContradictoryTiming int int
  | ContradictoryReadback rig_observed_field
  | RigUnsupported rig_capability
  | MalformedResponse
  | UnexpectedChange rig_observed_field
  | RigGenerationChanged rig_generation rig_generation

fun rig_fault_kind_of :: "rig_fault \<Rightarrow> rig_fault_kind" where
  "rig_fault_kind_of RigNotConnected = KindNotConnected"
| "rig_fault_kind_of RigNotProbed = KindNotProbed"
| "rig_fault_kind_of RigDisconnected = KindDisconnected"
| "rig_fault_kind_of (RigTimeout op) = KindTimeout"
| "rig_fault_kind_of (RigStale a m) = KindStale"
| "rig_fault_kind_of RigTimelineRegressed = KindTimelineRegressed"
| "rig_fault_kind_of (ContradictoryTiming u m) = KindContradictory"
| "rig_fault_kind_of (ContradictoryReadback f) = KindContradictory"
| "rig_fault_kind_of (RigUnsupported c) = KindRigUnsupported"
| "rig_fault_kind_of MalformedResponse = KindMalformed"
| "rig_fault_kind_of (UnexpectedChange f) = KindUnexpectedChange"
| "rig_fault_kind_of (RigGenerationChanged g h) = KindGenerationChanged"

datatype rig_lifecycle_state =
    RigStateDisconnected
  | RigConnecting
  | RigConnected rig_generation
  | RigProbing rig_generation
  | RigReady rig_generation
  | RigFaulted "rig_generation option" rig_fault_kind

definition fresh_at ::
  "rig_observation \<Rightarrow> clock_sample \<Rightarrow> freshness_policy \<Rightarrow> (rig_fault, observation_age) result" where
  "fresh_at ob now policy =
     rbind (ok_or RigTimelineRegressed (checked_i64 (utc now - ot_utc_unix_millis (ro_observed_at ob)))) (\<lambda>utc_delta.
     rbind (ok_or RigTimelineRegressed (checked_u64 (monotonic now - ot_monotonic_millis (ro_observed_at ob)))) (\<lambda>age.
     rbind (ok_or RigTimelineRegressed (checked_u64 utc_delta)) (\<lambda>utc_millis.
     if \<bar>utc_millis - age\<bar> > fp_max_timing_divergence_millis policy then Err (ContradictoryTiming utc_millis age)
     else if age > fp_max_age_millis policy then Err (RigStale age (fp_max_age_millis policy))
     else Ok \<lparr>oa_utc_millis = utc_millis, oa_monotonic_millis = age\<rparr>)))"

section \<open>Decimal octets\<close>

lemma to_digit_10: "to_digit 10 c = (if is_ascii_digit c then Some (byte_val c - 48) else None)"
  by (auto simp: to_digit_def Let_def is_ascii_digit_def)

definition digits_value :: "string \<Rightarrow> nat" where
  "digits_value ds = foldl (\<lambda>acc c. acc * 10 + (byte_val c - 48)) 0 ds"

lemma digits_value_snoc [simp]: "digits_value (ds @ [c]) = digits_value ds * 10 + (byte_val c - 48)"
  by (simp add: digits_value_def)

lemma digit_char_byte: "is_ascii_digit c \<Longrightarrow> digit_char (byte_val c - 48) = c"
  by (simp add: digit_char_def is_ascii_digit_def)

lemma digits_value_zero: "list_all is_ascii_digit (c # ds) \<Longrightarrow> c \<noteq> CHR ''0'' \<Longrightarrow> 0 < digits_value (c # ds)"
proof (induction ds rule: rev_induct)
  case Nil
  have "digit_char 0 = CHR ''0''" by code_simp
  then have "byte_val c \<noteq> 48" using digit_char_byte [of c] Nil by auto
  then show ?case using Nil by (simp add: digits_value_def is_ascii_digit_def)
next
  case (snoc d ds)
  then show ?case using digits_value_snoc [of "c # ds" d] by simp
qed

lemma show_digits_value:
  assumes "ds \<noteq> []" "list_all is_ascii_digit ds" "hd ds = CHR ''0'' \<longrightarrow> length ds = 1"
  shows "show_nat (digits_value ds) = ds"
  using assms
proof (induction ds rule: rev_induct)
  case (snoc d ds)
  have d: "is_ascii_digit d" "byte_val d - 48 < 10" using snoc.prems(2) by (auto simp: is_ascii_digit_def)
  show ?case
  proof (cases "ds = []")
    case True
    then show ?thesis using d digit_char_byte [OF d(1)] digits_value_snoc [of "[]" d]
      by (subst show_nat.simps) (simp add: digits_value_def)
  next
    case False
    have pos: "0 < digits_value ds" using digits_value_zero [of "hd ds" "tl ds"] False snoc.prems by (cases ds) auto
    have "show_nat (digits_value ds) = ds" using snoc False by (cases ds) auto
    then show ?thesis using pos d digit_char_byte [OF d(1)]
      by (subst show_nat.simps) simp
  qed
qed simp

lemma read_octet_sound:
  assumes "read_number 10 3 False 255 s = Some (v, r)"
  shows "v \<le> 255 \<and> s = show_nat v @ r"
proof -
  let ?ds = "takeWhile is_ascii_digit s"
  have w: "takeWhile (\<lambda>c. to_digit 10 c \<noteq> None) s = ?ds"
    by (rule arg_cong [where f = "\<lambda>P. takeWhile P s"]) (auto simp: to_digit_10)
  have f: "foldl (\<lambda>acc c. acc * 10 + the (to_digit 10 c)) 0 ?ds = digits_value ?ds"
    unfolding digits_value_def by (rule foldl_cong) (auto simp: to_digit_10 dest: set_takeWhileD)
  have h: "?ds \<noteq> []" "hd ?ds = CHR ''0'' \<longrightarrow> length ?ds = 1" "v = digits_value ?ds" "v \<le> 255" "r = drop (length ?ds) s"
    using assms unfolding read_number_def w f Let_def by (auto simp: not_less le_Suc_eq split: if_splits)
  have "list_all is_ascii_digit ?ds" by (auto simp: list_all_iff dest: set_takeWhileD)
  then have "show_nat v = ?ds" using show_digits_value [OF h(1)] h by simp
  moreover have "s = ?ds @ drop (length ?ds) s" by (metis takeWhile_dropWhile_id dropWhile_eq_drop)
  ultimately show ?thesis using h(4,5) by simp
qed

lemma read_octets_sound:
  assumes "read_octets n i s = Some (vs, r)"
  shows "length vs = n \<and> (\<forall>v \<in> set vs. v \<le> 255) \<and>
    s = concat (map (\<lambda>k. (if i + k = 0 then [] else ''.'') @ show_nat (vs ! k)) [0..<n]) @ r"
  using assms
proof (induction n i s arbitrary: vs r rule: read_octets.induct)
  case (2 n i s)
  obtain v s' where v: "read_separator (CHR ''.'') i (read_number 10 3 False 255) s = Some (v, s')"
    and "\<exists>ws. read_octets n (Suc i) s' = Some (ws, r) \<and> vs = v # ws"
    using "2.prems" by (auto split: option.splits)
  then obtain ws where ws: "read_octets n (Suc i) s' = Some (ws, r)" "vs = v # ws" by blast
  have "s = (if i = 0 then [] else ''.'') @ show_nat v @ s' \<and> v \<le> 255"
    using v read_octet_sound by (auto simp: read_separator_def split: if_splits list.splits)
  moreover have "map (\<lambda>k. (if Suc i + k = 0 then [] else ''.'') @ show_nat (ws ! k)) [0..<n] =
      map (\<lambda>k. (if i + k = 0 then [] else ''.'') @ show_nat (vs ! k)) [Suc 0..<Suc n]"
    unfolding map_Suc_upt [symmetric] by (simp add: ws(2))
  ultimately show ?case
    using "2.IH" [OF v refl ws(1)] ws(2) by (simp add: upt_conv_Cons del: upt_Suc)
qed simp

lemma ipv4_text:
  assumes "parse_ip_addr s = Some (V4 a)"
  shows "\<exists>b c d e. a = [b, c, d, e] \<and> b \<le> 255 \<and> c \<le> 255 \<and> d \<le> 255 \<and> e \<le> 255 \<and>
    s = show_nat b @ ''.'' @ show_nat c @ ''.'' @ show_nat d @ ''.'' @ show_nat e"
proof -
  have r: "read_octets 4 0 s = Some (a, [])"
    using assms by (auto simp: parse_ip_addr_def read_ipv4_addr_def split: option.splits if_splits)
  note o4 = read_octets_sound [OF r]
  obtain b c d e where a: "a = [b, c, d, e]" using o4 by (auto simp: length_Suc_conv eval_nat_numeral)
  have "[0..<4] = [0, 1, 2, 3::nat]" by code_simp
  then show ?thesis using o4 a by auto
qed

lemma read_number_suffix: "read_number radix n z m s = Some (v, r) \<Longrightarrow> \<exists>pre. s = pre @ r"
  by (auto simp: read_number_def Let_def split: if_splits intro: append_take_drop_id [symmetric])

lemma read_ipv4_suffix: "read_ipv4_addr s = Some (vs, r) \<Longrightarrow> \<exists>pre. s = pre @ r"
  unfolding read_ipv4_addr_def using read_octets_sound by blast

lemma read_separator_suffix:
  assumes "read_separator sep i inner s = Some (v, r)" and "\<And>t v r. inner t = Some (v, r) \<Longrightarrow> \<exists>pre. t = pre @ r"
  shows "\<exists>pre. s = pre @ r \<and> (0 < i \<longrightarrow> sep \<in> set pre)"
  using assms by (auto simp: read_separator_def split: if_splits list.splits) (metis append_Cons list.set_intros(1))

lemma read_groups_suffix:
  assumes "read_groups n i s = (gs, v4, r)"
  shows "\<exists>pre. s = pre @ r \<and> (0 < i \<and> gs \<noteq> [] \<longrightarrow> CHR '':'' \<in> set pre)"
  using assms
proof (induction n i s arbitrary: gs v4 r rule: read_groups.induct)
  case (2 n i s)
  show ?case
  proof (cases "if n = 0 then None else read_separator (CHR '':'') i read_ipv4_addr s")
    case (Some x)
    then show ?thesis
      using "2.prems" read_separator_suffix [of "CHR '':''" i read_ipv4_addr s] read_ipv4_suffix
      by (cases x) (auto split: if_splits)
  next
    case none: None
    show ?thesis
    proof (cases "read_separator (CHR '':'') i (read_number 16 4 True 65535) s")
      case None
      then show ?thesis using "2.prems" none by simp
    next
      case (Some x)
      obtain g s' where x: "x = (g, s')" by fastforce
      obtain pre where pre: "s = pre @ s'" "0 < i \<longrightarrow> CHR '':'' \<in> set pre"
        using read_separator_suffix [of "CHR '':''" i "read_number 16 4 True 65535" s] read_number_suffix Some x by blast
      obtain gs' where "read_groups n (Suc i) s' = (gs', v4, r)"
        using "2.prems" none Some x by (auto split: prod.splits)
      then obtain pre' where "s' = pre' @ r" using "2.IH" [OF none Some x [symmetric]] x by blast
      then show ?thesis using pre by (intro exI [of _ "pre @ pre'"]) simp
    qed
  qed
qed simp

lemma read_groups_first:
  assumes "read_groups (Suc n) 0 s = (head, v4, r)" "length head = Suc n" "2 \<le> n"
  shows "\<exists>g s' gs. read_number 16 4 True 65535 s = Some (g, s') \<and> read_groups n 1 s' = (gs, v4, r) \<and> head = g # gs"
  using assms by (auto simp: read_separator_def split: option.splits prod.splits if_splits)

lemma ipv6_has_colon:
  assumes "parse_ip_addr s = Some (V6 a)"
  shows "CHR '':'' \<in> set s"
proof -
  have r6: "read_ipv6_addr s = Some (a, [])"
    using assms by (auto simp: parse_ip_addr_def split: option.splits if_splits)
  obtain head v4 r where h: "read_groups 8 0 s = (head, v4, r)" by (metis prod_cases3)
  obtain pre where pre: "s = pre @ r" using read_groups_suffix [OF h] by blast
  show ?thesis
  proof (cases "length head = 8")
    case False
    then show ?thesis
      using r6 h pre by (auto simp: read_ipv6_addr_def strip_prefix_Some split: if_splits option.splits)
  next
    case True
    obtain g s' gs where g: "read_number 16 4 True 65535 s = Some (g, s')" "read_groups 7 1 s' = (gs, v4, r)" "head = g # gs"
      using read_groups_first [of 7 s head v4 r] h True by auto
    then show ?thesis using read_groups_suffix [OF g(2)] read_number_suffix [OF g(1)] True by force
  qed
qed

section \<open>Endpoints and profiles\<close>

lemma rsplit_once_Some: "rsplit_once c s = Some (a, b) \<longleftrightarrow> s = a @ c # b \<and> c \<notin> set b"
proof
  assume h: "rsplit_once c s = Some (a, b)"
  obtain pre where pre: "dropWhile (\<lambda>x. x \<noteq> c) (rev s) = c # pre" "a = rev pre" "b = rev (takeWhile (\<lambda>x. x \<noteq> c) (rev s))"
    using h by (auto simp: rsplit_once_def dropWhile_eq_Cons_conv split: list.splits)
  have "rev s = rev b @ c # rev a"
    using takeWhile_dropWhile_id [of "\<lambda>x. x \<noteq> c" "rev s"] pre by simp
  then have "s = a @ c # b" by (metis rev_append rev_rev_ident append_Cons append_Nil rev.simps(2) append_assoc)
  moreover have "c \<notin> set b" using pre(3) by (auto dest: set_takeWhileD)
  ultimately show "s = a @ c # b \<and> c \<notin> set b" ..
next
  assume "s = a @ c # b \<and> c \<notin> set b"
  then show "rsplit_once c s = Some (a, b)"
    by (auto simp: rsplit_once_def dropWhile_append takeWhile_append)
qed

lemma show_uint_no_colon: "CHR '':'' \<notin> set (show_uint p)"
  using show_nat_digits [of "CHR '':''" "nat p"] by (auto simp: show_uint_def is_ascii_digit_def)

lemma endpoint_round:
  assumes "validate_host host = Ok ()" "1 \<le> port" "port \<le> u16_max"
  shows "endpoint_from_str (host @ '':'' @ show_uint port) = Ok \<lparr>ne_host = host, ne_port = port\<rparr>"
proof -
  have "rsplit_once (CHR '':'') (host @ '':'' @ show_uint port) = Some (host, show_uint port)"
    using rsplit_once_Some show_uint_no_colon by simp
  moreover have "parse_uint u16_max (show_uint port) = Some port" using assms(2,3) by (intro parse_show_uint) simp_all
  ultimately show ?thesis
    using assms by (simp add: endpoint_from_str_def split_endpoint_def endpoint_new_def)
qed

lemma parse_digits_range: "parse_digits m acc cs = Some v \<Longrightarrow> 0 \<le> acc \<Longrightarrow> acc \<le> m \<Longrightarrow> 0 \<le> v \<and> v \<le> m"
  by (induction m acc cs rule: parse_digits.induct) (auto split: if_splits option.splits)

lemma parse_uint_range: "parse_uint m s = Some v \<Longrightarrow> 0 \<le> m \<Longrightarrow> 0 \<le> v \<and> v \<le> m"
  by (cases s) (auto simp del: parse_digits.simps dest: parse_digits_range split: if_splits)

lemma endpoint_from_str_Ok:
  assumes "endpoint_from_str s = Ok e"
  shows "validate_host (ne_host e) = Ok ()" "1 \<le> ne_port e" "ne_port e \<le> u16_max"
proof -
  obtain host q port where q: "parse_uint u16_max q = Some port" "port \<noteq> 0" "validate_host host = Ok ()"
      "e = \<lparr>ne_host = host, ne_port = port\<rparr>"
    using assms by (auto simp: endpoint_from_str_def split_endpoint_def endpoint_new_def split: prod.splits if_splits)
  have "0 \<le> port \<and> port \<le> u16_max" using parse_uint_range [OF q(1)] by simp
  then show "validate_host (ne_host e) = Ok ()" "1 \<le> ne_port e" "ne_port e \<le> u16_max" using q(2-4) by simp_all
qed

text \<open>
  An endpoint and its text.  The text of every parsed endpoint parses to that endpoint, so
  two endpoints have the same text exactly if they have the same host and port, and the profile
  constructor, which compares texts, keeps the radio and the service apart exactly as endpoints.
\<close>

theorem endpoint_text_round_trip:
  assumes "endpoint_from_str s = Ok e" and "endpoint_from_str t = Ok f"
  shows "endpoint_from_str (endpoint_to_string e) = Ok e \<and>
    (endpoint_to_string e = endpoint_to_string f \<longleftrightarrow> e = f) \<and>
    (rig_profile_new revision (DownstreamRigEndpoint e) (RigctldServiceEndpoint f) External model ver md pass = Err EndpointRolesConflict
      \<longleftrightarrow> e = f)"
proof -
  have r: "endpoint_from_str (endpoint_to_string x) = Ok x" if "endpoint_from_str u = Ok x" for u x
    using endpoint_round [OF endpoint_from_str_Ok [OF that]] by (simp add: endpoint_to_string_def)
  have "endpoint_to_string e = endpoint_to_string f \<longleftrightarrow> e = f"
    using r [OF assms(1)] r [OF assms(2)] by (metis sum.inject(2))
  then show ?thesis using r [OF assms(1)] by (simp add: rig_profile_new_def)
qed

theorem endpoint_text_round_trip_witness:
  "\<exists>e. endpoint_from_str ''radio.lan:+4532'' = Ok e \<and> endpoint_from_str (endpoint_to_string e) = Ok e \<and>
     endpoint_to_string e = ''radio.lan:4532''"
proof -
  have h: "endpoint_from_str ''radio.lan:+4532'' = Ok \<lparr>ne_host = ''radio.lan'', ne_port = 4532\<rparr>" by code_simp
  have "endpoint_to_string \<lparr>ne_host = ''radio.lan'', ne_port = 4532\<rparr> = ''radio.lan:4532''"
    by (simp add: endpoint_to_string_def show_uint_def show_nat.simps [of 4532] show_nat.simps [of 453] show_nat.simps [of 45]
        show_nat.simps [of 4] digit_char_def char_of_def bit_0)
  then show ?thesis using h endpoint_text_round_trip [OF h h] by blast
qed

text \<open>
  C33: a managed profile is accepted only if its service host is a loopback address literal: the
  canonical text \<open>127.b.c.d\<close>, or a bracketed IPv6 literal of the address \<open>::1\<close>; a name such as
  \<open>localhost\<close> is never enough.
\<close>

theorem managed_service_is_loopback:
  assumes svc: "endpoint_from_str t = Ok f"
    and ok: "rig_profile_new revision down (RigctldServiceEndpoint f) Managed model ver md pass = Ok p"
  shows "(\<exists>b c d. b \<le> 255 \<and> c \<le> 255 \<and> d \<le> 255 \<and>
      ne_host f = show_nat 127 @ ''.'' @ show_nat b @ ''.'' @ show_nat c @ ''.'' @ show_nat d) \<or>
    (\<exists>inner. ne_host f = ''['' @ inner @ '']'' \<and> parse_ip_addr inner = Some (V6 [0, 0, 0, 0, 0, 0, 0, 1]))"
proof -
  have host: "validate_host (ne_host f) = Ok ()" using endpoint_from_str_Ok [OF svc] by simp
  have loop: "is_loopback_literal (ne_host f)" using ok by (auto simp: rig_profile_new_def split: if_splits)
  show ?thesis
  proof (cases "strip_brackets (ne_host f)")
    case (Some inner)
    then have "ne_host f = ''['' @ inner @ '']''"
      by (auto simp: strip_brackets_def strip_prefix_Some split: option.splits if_splits)
        (metis append_butlast_last_id)
    moreover obtain q where q: "parse_ip_addr inner = Some q" "is_ipv6 q" "is_loopback q"
      using host loop Some by (simp add: validate_host_def is_loopback_literal_def split: option.splits if_splits)
    moreover obtain a where "q = V6 a" using q(2) by (cases q) auto
    ultimately show ?thesis by auto
  next
    case None
    then obtain a where a: "parse_ip_addr (ne_host f) = Some a" "is_loopback a" "CHR '':'' \<notin> set (ne_host f)"
      using host loop by (auto simp: validate_host_def is_loopback_literal_def split: option.splits if_splits)
    obtain octets where v4: "a = V4 octets" using a ipv6_has_colon by (cases a) auto
    with ipv4_text a(1) obtain b c d e where "octets = [b, c, d, e]" "c \<le> 255" "d \<le> 255" "e \<le> 255"
        "ne_host f = show_nat b @ ''.'' @ show_nat c @ ''.'' @ show_nat d @ ''.'' @ show_nat e" by blast
    then show ?thesis using a(2) v4 by auto
  qed
qed

theorem managed_service_is_loopback_witness:
  "\<exists>p f. endpoint_from_str ''127.0.0.1:4532'' = Ok f \<and>
     rig_profile_new (ProfileRevisionId ''prv_00000001'') (DownstreamRigEndpoint \<lparr>ne_host = ''radio.lan'', ne_port = 4532\<rparr>)
       (RigctldServiceEndpoint f) Managed (HamlibModelId 1) (HamlibVersionExpectation ''4.5'') UpperSideband (RadioPassband 3000) = Ok p \<and>
     (\<exists>b c d. ne_host f = show_nat 127 @ ''.'' @ show_nat b @ ''.'' @ show_nat c @ ''.'' @ show_nat d)"
proof -
  let ?f = "\<lparr>ne_host = ''127.0.0.1'', ne_port = 4532\<rparr>"
  have h: "endpoint_from_str ''127.0.0.1:4532'' = Ok ?f" by code_simp
  have l: "is_loopback_literal ''127.0.0.1''" by code_simp
  have ne: "hd (ne_host ?f) \<noteq> CHR ''[''" by simp
  obtain p where p: "rig_profile_new (ProfileRevisionId ''prv_00000001'') (DownstreamRigEndpoint \<lparr>ne_host = ''radio.lan'', ne_port = 4532\<rparr>)
       (RigctldServiceEndpoint ?f) Managed (HamlibModelId 1) (HamlibVersionExpectation ''4.5'') UpperSideband (RadioPassband 3000) = Ok p"
    using l by (simp add: rig_profile_new_def endpoint_to_string_def)
  have "\<exists>b c d. ne_host ?f = show_nat 127 @ ''.'' @ show_nat b @ ''.'' @ show_nat c @ ''.'' @ show_nat d"
    using managed_service_is_loopback [OF h p] ne by auto
  then show ?thesis using h p by blast
qed

section \<open>Capabilities and freshness\<close>

lemma distinct_card_length: "card (set xs) = length xs \<longleftrightarrow> distinct xs"
  by (metis card_distinct distinct_card)

text \<open>
  C31: validation never takes a claim for evidence.  Validating a bounded list of different
  capabilities always succeeds with one finding for each, in order; and the profile is satisfied
  exactly if the report has evidence for every one of them that it was probed at run time or
  verified physically, wherever the evidence stands in the report.
\<close>

theorem satisfied_only_by_evidence:
  assumes "capability_report_new g evidence = Ok report"
  shows "case validate_profile_capabilities profile required report of
      Inl e \<Rightarrow> e = InvalidCapabilitySet \<and> (length required > 7 \<or> \<not> distinct required)
    | Inr v \<Rightarrow> map vf_capability (pv_findings v) = required \<and> pv_profile_revision_id v = rig_revision_id profile \<and>
        (is_satisfied v \<longleftrightarrow> (\<forall>c \<in> set required.
           \<exists>e \<in> set evidence. evi_capability e = c \<and> evi_status e \<in> {RuntimeProbed, PhysicallyVerified}))"
proof -
  have rep: "cr_evidence report = evidence" "distinct (map evi_capability evidence)"
    using assms distinct_card_length [of "map evi_capability evidence"]
    by (auto simp: capability_report_new_def split: if_splits)
  have f: "vf_capability (finding_for report c) = c" for c by (simp add: finding_for_def Let_def)
  have sat: "vf_disposition (finding_for report c) = Satisfied \<longleftrightarrow>
      (\<exists>e \<in> set evidence. evi_capability e = c \<and> evi_status e \<in> {RuntimeProbed, PhysicallyVerified})" (is "?l = ?r") for c
  proof (cases "find (\<lambda>e. evi_capability e = c) evidence")
    case None
    have "\<not> ?r" using None by (auto simp: find_None_iff)
    moreover have "\<not> ?l" using None by (simp add: finding_for_def Let_def report_status_def rep)
    ultimately show ?thesis by simp
  next
    case (Some e)
    then have e: "e \<in> set evidence" "evi_capability e = c" by (auto simp: find_Some_iff)
    have "x = e" if "x \<in> set evidence" "evi_capability x = c" for x
      using rep(2) e that by (metis distinct_map inj_onD)
    moreover have "?l \<longleftrightarrow> evi_status e \<in> {RuntimeProbed, PhysicallyVerified}"
      using Some by (cases "evi_status e") (simp_all add: finding_for_def Let_def report_status_def rep)
    ultimately show ?thesis using e by blast
  qed
  show ?thesis
    using sat
    by (auto simp: validate_profile_capabilities_def profile_validation_new_def MAX_RIG_CAPABILITIES_def
        MAX_RIG_VALIDATION_FINDINGS_def distinct_card_length is_satisfied_def list_all_iff f comp_def)
qed

theorem satisfied_only_by_evidence_witness:
  "\<exists>report. capability_report_new (RigConnectionGeneration 1)
       [\<lparr>evi_capability = CapVfo, evi_status = BackendClaimed\<rparr>, \<lparr>evi_capability = CapSplit, evi_status = RuntimeProbed\<rparr>] = Ok report \<and>
     (\<forall>profile. \<exists>v. validate_profile_capabilities profile [CapVfo] report = Ok v \<and> \<not> is_satisfied v)"
proof -
  let ?e = "[\<lparr>evi_capability = CapVfo, evi_status = BackendClaimed\<rparr>, \<lparr>evi_capability = CapSplit, evi_status = RuntimeProbed\<rparr>]"
  let ?r = "\<lparr>cr_generation = RigConnectionGeneration 1, cr_evidence = ?e\<rparr>"
  have h: "capability_report_new (RigConnectionGeneration 1) ?e = Ok ?r" by (simp add: capability_report_new_def MAX_RIG_CAPABILITIES_def)
  have "\<exists>v. validate_profile_capabilities profile [CapVfo] ?r = Ok v \<and> \<not> is_satisfied v" for profile
    using satisfied_only_by_evidence [OF h, where profile = profile and required = "[CapVfo]"]
    by (cases "validate_profile_capabilities profile [CapVfo] ?r") auto
  then show ?thesis using h by blast
qed

text \<open>
  C32: freshness.  An observation is fresh exactly if neither clock has gone back, the two ages
  differ by no more than the policy allows, and the monotonic age is within its bound; the
  reported ages are those of the two clocks.  Once an observation is too old by the monotonic
  clock, no later sample of that clock makes it fresh again.
\<close>

theorem freshness_exact_and_final:
  assumes now: "is_i64 (utc now)" "is_u64 (monotonic now)"
    and ob: "0 \<le> ot_utc_unix_millis (ro_observed_at ob)" "is_i64 (ot_utc_unix_millis (ro_observed_at ob))"
      "is_u64 (ot_monotonic_millis (ro_observed_at ob))"
    and ages: "u = utc now - ot_utc_unix_millis (ro_observed_at ob)"
      "m = monotonic now - ot_monotonic_millis (ro_observed_at ob)"
  shows "(fresh_at ob now policy = Ok age \<longleftrightarrow>
      0 \<le> u \<and> 0 \<le> m \<and> \<bar>u - m\<bar> \<le> fp_max_timing_divergence_millis policy \<and> m \<le> fp_max_age_millis policy \<and>
      age = \<lparr>oa_utc_millis = u, oa_monotonic_millis = m\<rparr>) \<and>
    (fp_max_age_millis policy < m \<longrightarrow> (\<forall>later. monotonic now \<le> monotonic later \<longrightarrow> \<not> is_ok (fresh_at ob later policy)))"
proof -
  have "fresh_at ob now policy = Ok age \<longleftrightarrow>
      0 \<le> u \<and> 0 \<le> m \<and> \<bar>u - m\<bar> \<le> fp_max_timing_divergence_millis policy \<and> m \<le> fp_max_age_millis policy \<and>
      age = \<lparr>oa_utc_millis = u, oa_monotonic_millis = m\<rparr>"
    using now ob ages by (auto simp: fresh_at_def in_range_def)
  moreover have "\<not> is_ok (fresh_at ob later policy)" if "fp_max_age_millis policy < m" "monotonic now \<le> monotonic later" for later
    using that ages by (auto simp: fresh_at_def is_ok_iff)
  ultimately show ?thesis by blast
qed

definition sample_observation :: rig_observation where
  "sample_observation =
     \<lparr>ro_profile_revision_id = ProfileRevisionId ''prv_00000001'',
      ro_provenance = \<lparr>op_service_instance_id = ServiceInstanceId ''svc_00000001'',
        op_connection_generation = RigConnectionGeneration 1, op_sequence = RigObservationSequence 1\<rparr>,
      ro_observed_at = \<lparr>ot_utc_unix_millis = 5000, ot_monotonic_millis = 100\<rparr>,
      ro_fields = \<lparr>of_dial_frequency = Observed 14074000, of_modulation = Observed UpperSideband,
        of_passband = ReadUnavailable, of_vfo = Observed VfoA, of_split = ReadUnsupported,
        of_power = ReadUnsupported, of_ptt_asserted = ReadStaleOrUnverified\<rparr>\<rparr>"

theorem freshness_exact_and_final_witness:
  "fresh_at sample_observation \<lparr>utc = 5900, monotonic = 1010\<rparr> \<lparr>fp_max_age_millis = 1000, fp_max_timing_divergence_millis = 50\<rparr> =
     Ok \<lparr>oa_utc_millis = 900, oa_monotonic_millis = 910\<rparr>"
  using freshness_exact_and_final [of "\<lparr>utc = 5900, monotonic = 1010\<rparr>" sample_observation 900 910
      "\<lparr>fp_max_age_millis = 1000, fp_max_timing_divergence_millis = 50\<rparr>" "\<lparr>oa_utc_millis = 900, oa_monotonic_millis = 910\<rparr>"]
  by (simp add: sample_observation_def in_range_def)

end
