(* ===== verification/SP_Testkit.thy ===== *)
theory SP_Testkit
  imports SP_Rig SP_Protocol SP_Audio
begin

text \<open>
  \<open>crates/testkit/src/lib.rs\<close> with the ports it implements, \<open>crates/operations/src/ports.rs\<close> and the
  trait \<open>ReadOnlyRigPort\<close> of \<open>crates/operations/src/rig.rs\<close>: the scripted rig, audio, protocol and
  transmit-supervisor fakes that the program's tests run against.  Every method returns its result
  with the fake left behind.  The virtual clock is shared behind an \<open>Arc\<close>, so a method that samples it
  takes the sample of that moment.
\<close>

section \<open>The scripted read-only rig\<close>

definition MAX_FAKE_RIG_STEPS :: nat where "MAX_FAKE_RIG_STEPS = 64"

datatype fake_rig_script_error = ScriptFull

datatype fake_rig_step =
    StepConnect "(rig_fault, rig_generation) result"
  | StepProbe "(rig_fault, capability_report) result"
  | StepRead "(rig_fault, rig_observation) result"

record fake_rig =
  fr_lifecycle :: rig_lifecycle_state
  fr_profile_revision_id :: "profile_revision_id option"
  fr_steps :: "fake_rig_step list"

definition fake_rig_new :: fake_rig where
  "fake_rig_new = \<lparr>fr_lifecycle = RigStateDisconnected, fr_profile_revision_id = None, fr_steps = []\<rparr>"

definition rig_script_push ::
  "fake_rig \<Rightarrow> fake_rig_step \<Rightarrow> (fake_rig_script_error, unit) result \<times> fake_rig" where
  "rig_script_push s st =
     (if length (fr_steps s) = MAX_FAKE_RIG_STEPS then (Err ScriptFull, s)
      else (Ok (), s\<lparr>fr_steps := fr_steps s @ [st]\<rparr>))"

definition queue_connect :: "fake_rig \<Rightarrow> (rig_fault, rig_generation) result
    \<Rightarrow> (fake_rig_script_error, unit) result \<times> fake_rig" where
  "queue_connect s r = rig_script_push s (StepConnect r)"

definition queue_probe :: "fake_rig \<Rightarrow> (rig_fault, capability_report) result
    \<Rightarrow> (fake_rig_script_error, unit) result \<times> fake_rig" where
  "queue_probe s r = rig_script_push s (StepProbe r)"

definition queue_read :: "fake_rig \<Rightarrow> (rig_fault, rig_observation) result
    \<Rightarrow> (fake_rig_script_error, unit) result \<times> fake_rig" where
  "queue_read s r = rig_script_push s (StepRead r)"

definition remaining_steps :: "fake_rig \<Rightarrow> nat" where
  "remaining_steps s = length (fr_steps s)"

fun lifecycle_generation :: "rig_lifecycle_state \<Rightarrow> rig_generation option" where
  "lifecycle_generation (RigConnected g) = Some g"
| "lifecycle_generation (RigProbing g) = Some g"
| "lifecycle_generation (RigReady g) = Some g"
| "lifecycle_generation (RigFaulted g f) = g"
| "lifecycle_generation RigStateDisconnected = None"
| "lifecycle_generation RigConnecting = None"

definition rig_current_generation :: "fake_rig \<Rightarrow> rig_generation option" where
  "rig_current_generation s = lifecycle_generation (fr_lifecycle s)"

definition rig_fail :: "fake_rig \<Rightarrow> rig_fault \<Rightarrow> fake_rig" where
  "rig_fail s fault =
     s\<lparr>fr_lifecycle := RigFaulted (rig_current_generation s) (rig_fault_kind_of fault)\<rparr>"

definition rig_malformed :: "fake_rig \<Rightarrow> rig_fault \<times> fake_rig" where
  "rig_malformed s = (MalformedResponse, rig_fail s MalformedResponse)"

text \<open>\<open>VecDeque::pop_front\<close>: the step taken and the fake without it.\<close>

definition rig_pop_front :: "fake_rig \<Rightarrow> fake_rig_step option \<times> fake_rig" where
  "rig_pop_front s =
     (case fr_steps s of [] \<Rightarrow> (None, s) | st # rest \<Rightarrow> (Some st, s\<lparr>fr_steps := rest\<rparr>))"

definition rig_connect ::
  "fake_rig \<Rightarrow> rig_profile \<Rightarrow> (rig_fault, rig_generation) result \<times> fake_rig" where
  "rig_connect s profile =
     (let s = s\<lparr>fr_lifecycle := RigConnecting\<rparr> in
      case rig_pop_front s of
        (Some (StepConnect result), s) \<Rightarrow>
          (case result of
             Inr g \<Rightarrow> (Ok g, s\<lparr>fr_profile_revision_id := Some (rig_revision_id profile),
                             fr_lifecycle := RigConnected g\<rparr>)
           | Inl fault \<Rightarrow> (Err fault, rig_fail s fault))
      | (_, s) \<Rightarrow> (let (fault, s) = rig_malformed s in (Err fault, s)))"

definition rig_probe :: "fake_rig \<Rightarrow> (rig_fault, capability_report) result \<times> fake_rig" where
  "rig_probe s =
     (case rig_current_generation s of
        None \<Rightarrow> (Err RigNotConnected, s)
      | Some g \<Rightarrow>
          (case fr_lifecycle s of
             RigConnected _ \<Rightarrow>
               (let s = s\<lparr>fr_lifecycle := RigProbing g\<rparr> in
                case rig_pop_front s of
                  (Some (StepProbe result), s) \<Rightarrow>
                    (case result of
                       Inr report \<Rightarrow>
                         if cr_generation report = g then (Ok report, s\<lparr>fr_lifecycle := RigReady g\<rparr>)
                         else let fault = RigGenerationChanged g (cr_generation report)
                              in (Err fault, rig_fail s fault)
                     | Inl fault \<Rightarrow> (Err fault, rig_fail s fault))
                | (_, s) \<Rightarrow> (let (fault, s) = rig_malformed s in (Err fault, s)))
           | _ \<Rightarrow> (Err RigNotConnected, s)))"

definition rig_read :: "fake_rig \<Rightarrow> (rig_fault, rig_observation) result \<times> fake_rig" where
  "rig_read s =
     (case fr_lifecycle s of
        RigReady g \<Rightarrow>
          (case rig_pop_front s of
             (Some (StepRead result), s) \<Rightarrow>
               (case result of
                  Inr ob \<Rightarrow>
                    if op_connection_generation (ro_provenance ob) = g \<and>
                       fr_profile_revision_id s = Some (ro_profile_revision_id ob) then (Ok ob, s)
                    else if op_connection_generation (ro_provenance ob) \<noteq> g then
                      (let fault = RigGenerationChanged g (op_connection_generation (ro_provenance ob))
                       in (Err fault, rig_fail s fault))
                    else (let fault = ContradictoryReadback FieldProfileRevision
                          in (Err fault, rig_fail s fault))
                | Inl fault \<Rightarrow> (Err fault, rig_fail s fault))
           | (_, s) \<Rightarrow> (let (fault, s) = rig_malformed s in (Err fault, s)))
      | _ \<Rightarrow> (Err (if rig_current_generation s \<noteq> None then RigNotProbed else RigNotConnected), s))"

definition rig_read_fresh :: "fake_rig \<Rightarrow> clock_sample \<Rightarrow> freshness_policy
    \<Rightarrow> (rig_fault, rig_observation \<times> observation_age) result \<times> fake_rig" where
  "rig_read_fresh s now policy =
     (case rig_read s of
        (Inl fault, s) \<Rightarrow> (Err fault, s)
      | (Inr ob, s) \<Rightarrow>
          (case fresh_at ob now policy of
             Inr age \<Rightarrow> (Ok (ob, age), s)
           | Inl fault \<Rightarrow> (Err fault, rig_fail s fault)))"

section \<open>The audio, protocol and supervisor fakes\<close>

record fake_audio =
  fa_health :: input_health
  fa_events :: "(input_fault, capture_batch) result list"

definition fake_audio_new :: "input_health \<Rightarrow> fake_audio" where
  "fake_audio_new h = \<lparr>fa_health = h, fa_events = []\<rparr>"

definition audio_emit :: "fake_audio \<Rightarrow> capture_batch \<Rightarrow> fake_audio" where
  "audio_emit s b = s\<lparr>fa_events := fa_events s @ [Ok b]\<rparr>"

definition audio_inject :: "fake_audio \<Rightarrow> input_fault \<Rightarrow> fake_audio" where
  "audio_inject s f = s\<lparr>fa_events := fa_events s @ [Err f]\<rparr>"

definition audio_set_health :: "fake_audio \<Rightarrow> input_health \<Rightarrow> fake_audio" where
  "audio_set_health s h = s\<lparr>fa_health := h\<rparr>"

definition audio_health :: "fake_audio \<Rightarrow> (input_fault, input_health) result \<times> fake_audio" where
  "audio_health s =
     (case fa_events s of
        Inl fault # _ \<Rightarrow> (Err fault, s)
      | _ \<Rightarrow> (Ok (fa_health s), s))"

definition audio_next_batch ::
  "fake_audio \<Rightarrow> (input_fault, capture_batch option) result \<times> fake_audio" where
  "audio_next_batch s =
     (case fa_events s of
        [] \<Rightarrow> (Ok None, s)
      | e # rest \<Rightarrow> (map_ok Some e, s\<lparr>fa_events := rest\<rparr>))"

record fake_protocol =
  fk_decodes :: "ft8_decode list"

definition fake_protocol_new :: fake_protocol where
  "fake_protocol_new = \<lparr>fk_decodes = []\<rparr>"

definition protocol_emit :: "fake_protocol \<Rightarrow> ft8_decode \<Rightarrow> fake_protocol" where
  "protocol_emit s d = s\<lparr>fk_decodes := fk_decodes s @ [d]\<rparr>"

definition drain_decodes :: "fake_protocol \<Rightarrow> ft8_decode list \<times> fake_protocol" where
  "drain_decodes s = (sort_deterministically (fk_decodes s), s\<lparr>fk_decodes := []\<rparr>)"

definition fake_prepare_waveform ::
  "fake_protocol \<Rightarrow> ft8_waveform_request \<Rightarrow> (ft8_waveform_error, pcm_buffer) result \<times> fake_protocol" where
  "fake_prepare_waveform s request =
     (case checked_i16 (int (length (rm_canonical_text (wr_message request)))) of
        None \<Rightarrow> (Err (WaveformPcm BufferTooLarge), s)
      | Some marker \<Rightarrow>
          (map_err WaveformPcm (pcm_buffer_new (wr_format request) (replicate 8 marker)), s))"

datatype tx_inhibition =
    MissingAuthority
  | ClockUnhealthy
  | RigUnavailable
  | AudioUnavailable
  | Conflict transmission_id
  | EmergencyStopLatched

datatype emergency_unkey_error = PttStuck

text \<open>The call counter is a \<open>usize\<close>: it wraps like every unchecked counter of a release build.\<close>

record fake_supervisor =
  fs_inhibition :: "tx_inhibition option"
  fs_ptt_stuck :: bool
  fs_emergency_unkey_calls :: int

definition fake_supervisor_new :: fake_supervisor where
  "fake_supervisor_new = \<lparr>fs_inhibition = None, fs_ptt_stuck = False, fs_emergency_unkey_calls = 0\<rparr>"

definition set_inhibition :: "fake_supervisor \<Rightarrow> tx_inhibition option \<Rightarrow> fake_supervisor" where
  "set_inhibition s i = s\<lparr>fs_inhibition := i\<rparr>"

definition set_ptt_stuck :: "fake_supervisor \<Rightarrow> bool \<Rightarrow> fake_supervisor" where
  "set_ptt_stuck s stuck = s\<lparr>fs_ptt_stuck := stuck\<rparr>"

definition admit ::
  "fake_supervisor \<Rightarrow> transmission_id \<Rightarrow> (tx_inhibition, unit) result \<times> fake_supervisor" where
  "admit s i = ((case fs_inhibition s of None \<Rightarrow> Ok () | Some e \<Rightarrow> Err e), s)"

definition emergency_unkey ::
  "fake_supervisor \<Rightarrow> (emergency_unkey_error, unit) result \<times> fake_supervisor" where
  "emergency_unkey s =
     (let s = s\<lparr>fs_emergency_unkey_calls := (fs_emergency_unkey_calls s + 1) mod 2 ^ 64\<rparr> in
      if fs_ptt_stuck s then (Err PttStuck, s) else (Ok (), s))"

section \<open>The contract of a read-only rig port\<close>

datatype rig_call = CallConnect rig_profile | CallProbe | CallRead

datatype rig_answer =
    AnsConnect rig_profile "(rig_fault, rig_generation) result"
  | AnsProbe "(rig_fault, capability_report) result"
  | AnsRead "(rig_fault, rig_observation) result"

text \<open>One call of the port, and a session of them.\<close>

fun rig_perform :: "fake_rig \<Rightarrow> rig_call \<Rightarrow> rig_answer \<times> fake_rig" where
  "rig_perform s (CallConnect p) = (let (r, s) = rig_connect s p in (AnsConnect p r, s))"
| "rig_perform s CallProbe = (let (r, s) = rig_probe s in (AnsProbe r, s))"
| "rig_perform s CallRead = (let (r, s) = rig_read s in (AnsRead r, s))"

fun port_session :: "('s \<Rightarrow> rig_call \<Rightarrow> rig_answer \<times> 's) \<Rightarrow> 's \<Rightarrow> rig_call list \<Rightarrow> rig_answer list \<times> 's" where
  "port_session perform s [] = ([], s)"
| "port_session perform s (c # cs) =
     (let (a, s) = perform s c; (as, s) = port_session perform s cs in (a # as, s))"

text \<open>The specification: what the answers alone say of the connection.\<close>

fun spec_step :: "rig_lifecycle_state \<Rightarrow> rig_answer \<Rightarrow> rig_lifecycle_state" where
  "spec_step l (AnsConnect p (Inr g)) = RigConnected g"
| "spec_step l (AnsConnect p (Inl f)) = RigFaulted None (rig_fault_kind_of f)"
| "spec_step l (AnsProbe (Inr r)) = RigReady (cr_generation r)"
| "spec_step (RigConnected g) (AnsProbe (Inl f)) = RigFaulted (Some g) (rig_fault_kind_of f)"
| "spec_step l (AnsProbe (Inl f)) = l"
| "spec_step l (AnsRead (Inr ob)) = l"
| "spec_step (RigReady g) (AnsRead (Inl f)) = RigFaulted (Some g) (rig_fault_kind_of f)"
| "spec_step l (AnsRead (Inl f)) = l"

definition is_connect :: "rig_answer \<Rightarrow> bool" where
  "is_connect a \<longleftrightarrow> (\<exists>p r. a = AnsConnect p r)"

definition is_failed_read :: "rig_answer \<Rightarrow> bool" where
  "is_failed_read a \<longleftrightarrow> (\<exists>f. a = AnsRead (Inl f))"

text \<open>
  The answers end in a connection with this generation and profile revision that has not been
  replaced, and, for the second, has been probed and read without a failure since.
\<close>

definition connected_by :: "rig_answer list \<Rightarrow> rig_generation \<Rightarrow> profile_revision_id \<Rightarrow> bool" where
  "connected_by as g rev_id \<longleftrightarrow>
     (\<exists>xs p ys. as = xs @ AnsConnect p (Inr g) # ys \<and> rig_revision_id p = rev_id \<and>
        (\<forall>a \<in> set ys. \<not> is_connect a))"

definition probed_by :: "rig_answer list \<Rightarrow> rig_generation \<Rightarrow> profile_revision_id \<Rightarrow> bool" where
  "probed_by as g rev_id \<longleftrightarrow>
     (\<exists>xs r zs. as = xs @ AnsProbe (Inr r) # zs \<and> connected_by xs g rev_id \<and> cr_generation r = g \<and>
        (\<forall>a \<in> set zs. \<not> is_connect a \<and> \<not> is_failed_read a))"

lemma connected_by_connect: "connected_by (as @ [AnsConnect p (Inr g)]) g (rig_revision_id p)"
  unfolding connected_by_def by (rule exI [of _ as], rule exI [of _ p], rule exI [of _ "[]"]) simp

lemma connected_by_snoc:
  assumes "connected_by as g v" and "\<not> is_connect a"
  shows "connected_by (as @ [a]) g v"
proof -
  obtain xs p ys where "as = xs @ AnsConnect p (Inr g) # ys" "rig_revision_id p = v"
      "\<forall>a \<in> set ys. \<not> is_connect a"
    using assms(1) unfolding connected_by_def by blast
  then have "as @ [a] = xs @ AnsConnect p (Inr g) # (ys @ [a]) \<and> rig_revision_id p = v \<and>
      (\<forall>b \<in> set (ys @ [a]). \<not> is_connect b)"
    using assms(2) by auto
  then show ?thesis unfolding connected_by_def by blast
qed

lemma probed_by_probe:
  assumes "connected_by as (cr_generation r) v"
  shows "probed_by (as @ [AnsProbe (Inr r)]) (cr_generation r) v"
  unfolding probed_by_def using assms
  by (intro exI [of _ as] exI [of _ r] exI [of _ "[]"]) simp

lemma probed_by_snoc:
  assumes "probed_by as g v" and "\<not> is_connect a" and "\<not> is_failed_read a"
  shows "probed_by (as @ [a]) g v"
proof -
  obtain xs r zs where "as = xs @ AnsProbe (Inr r) # zs" "connected_by xs g v" "cr_generation r = g"
      "\<forall>a \<in> set zs. \<not> is_connect a \<and> \<not> is_failed_read a"
    using assms(1) unfolding probed_by_def by blast
  then have "as @ [a] = xs @ AnsProbe (Inr r) # (zs @ [a]) \<and> connected_by xs g v \<and> cr_generation r = g \<and>
      (\<forall>b \<in> set (zs @ [a]). \<not> is_connect b \<and> \<not> is_failed_read b)"
    using assms(2,3) by auto
  then show ?thesis unfolding probed_by_def by blast
qed

lemma port_session_snoc:
  "port_session perform s (cs @ [c]) =
     (let (as, s1) = port_session perform s cs; (a, s2) = perform s1 c in (as @ [a], s2))"
  by (induction cs arbitrary: s) (auto simp: Let_def split: prod.splits)

locale read_only_rig_port =
  fixes perform :: "'s \<Rightarrow> rig_call \<Rightarrow> rig_answer \<times> 's"
    and lifecycle :: "'s \<Rightarrow> rig_lifecycle_state"
    and bound_revision :: "'s \<Rightarrow> profile_revision_id option"
  assumes lifecycle_follows: "perform s c = (a, t) \<Longrightarrow> lifecycle t = spec_step (lifecycle s) a"
    and connect_binds: "perform s c = (AnsConnect p (Inr g), t) \<Longrightarrow> bound_revision t = Some (rig_revision_id p)"
    and binding_kept: "perform s c = (a, t) \<Longrightarrow> \<not> is_connect a \<Longrightarrow> bound_revision t = bound_revision s"
    and probe_needs_connection:
      "perform s c = (AnsProbe (Inr r), t) \<Longrightarrow> lifecycle s = RigConnected (cr_generation r)"
    and read_needs_probe:
      "perform s c = (AnsRead (Inr ob), t) \<Longrightarrow>
         lifecycle s = RigReady (op_connection_generation (ro_provenance ob)) \<and>
         bound_revision s = Some (ro_profile_revision_id ob)"
begin

lemma session_follows:
  "port_session perform s cs = (as, t) \<Longrightarrow> lifecycle t = foldl spec_step (lifecycle s) as"
proof (induction cs arbitrary: s as t)
  case (Cons c cs)
  obtain a s1 where a: "perform s c = (a, s1)" by fastforce
  obtain bs t1 where b: "port_session perform s1 cs = (bs, t1)" by fastforce
  have "as = a # bs" "t = t1" using Cons.prems a b by auto
  then show ?case using Cons.IH [OF b] lifecycle_follows [OF a] by simp
qed simp

text \<open>The connection a state is in was made by the answers so far.\<close>

definition explained :: "rig_answer list \<Rightarrow> 's \<Rightarrow> bool" where
  "explained as s \<longleftrightarrow>
     (\<forall>g. lifecycle s = RigConnected g \<longrightarrow> (\<exists>v. bound_revision s = Some v \<and> connected_by as g v)) \<and>
     (\<forall>g. lifecycle s = RigReady g \<longrightarrow> (\<exists>v. bound_revision s = Some v \<and> probed_by as g v))"

lemma explained_keep:
  assumes ex: "explained as s" and b: "bound_revision t = bound_revision s" and nc: "\<not> is_connect a"
    and l: "lifecycle t = lifecycle s \<and> (is_failed_read a \<longrightarrow> (\<forall>g. lifecycle s \<noteq> RigReady g)) \<or>
      (\<exists>g e. lifecycle t = RigFaulted g e)"
  shows "explained (as @ [a]) t"
  unfolding explained_def
proof (intro conjI allI impI)
  fix g assume "lifecycle t = RigConnected g"
  moreover then have "lifecycle s = RigConnected g" using l by auto
  ultimately show "\<exists>v. bound_revision t = Some v \<and> connected_by (as @ [a]) g v"
    using ex connected_by_snoc [OF _ nc] b unfolding explained_def by metis
next
  fix g assume "lifecycle t = RigReady g"
  then have "lifecycle s = RigReady g" "\<not> is_failed_read a" using l by fastforce+
  then show "\<exists>v. bound_revision t = Some v \<and> probed_by (as @ [a]) g v"
    using ex probed_by_snoc [OF _ nc] b unfolding explained_def by metis
qed

lemma explained_step:
  assumes ex: "explained as s" and p: "perform s c = (a, t)"
  shows "explained (as @ [a]) t"
proof (cases a)
  case (AnsConnect p' r)
  then show ?thesis
    using connect_binds [of s c p'] p connected_by_connect lifecycle_follows [OF p]
    by (cases r) (auto simp: explained_def)
next
  case (AnsProbe r)
  then have k: "bound_revision t = bound_revision s" and nc: "\<not> is_connect a" "\<not> is_failed_read a"
    using binding_kept [OF p] by (auto simp: is_connect_def is_failed_read_def)
  show ?thesis
  proof (cases r)
    case (Inl f)
    then have "lifecycle t = lifecycle s \<or> (\<exists>g e. lifecycle t = RigFaulted g e)"
      using lifecycle_follows [OF p] AnsProbe by (cases "lifecycle s") auto
    then show ?thesis using explained_keep [OF ex k nc(1)] nc(2) by blast
  next
    case (Inr rep)
    then have "lifecycle s = RigConnected (cr_generation rep)" "lifecycle t = RigReady (cr_generation rep)"
      using probe_needs_connection p lifecycle_follows [OF p] AnsProbe by auto
    then show ?thesis
      using ex k probed_by_probe AnsProbe Inr unfolding explained_def by auto
  qed
next
  case (AnsRead r)
  then have k: "bound_revision t = bound_revision s" and nc: "\<not> is_connect a"
    using binding_kept [OF p] by (auto simp: is_connect_def)
  have same: "lifecycle t = lifecycle s \<and> (is_failed_read a \<longrightarrow> (\<forall>g. lifecycle s \<noteq> RigReady g)) \<or>
      (\<exists>g e. lifecycle t = RigFaulted g e)"
    using lifecycle_follows [OF p] AnsRead
    by (cases r; cases "lifecycle s") (auto simp: is_failed_read_def)
  then show ?thesis using explained_keep [OF ex k nc] by blast
qed

lemma session_explained:
  assumes "lifecycle s = RigStateDisconnected" and "port_session perform s cs = (as, t)"
  shows "explained as t"
  using assms(2)
proof (induction cs arbitrary: as t rule: rev_induct)
  case Nil
  then show ?case using assms(1) by (auto simp: explained_def)
next
  case (snoc c cs)
  obtain bs s1 where b: "port_session perform s cs = (bs, s1)" by fastforce
  obtain a s2 where a: "perform s1 c = (a, s2)" by fastforce
  have "as = bs @ [a]" "t = s2" using snoc.prems a b by (auto simp: port_session_snoc)
  then show ?case using explained_step [OF snoc.IH [OF b] a] by simp
qed

lemma observation_explained:
  assumes start: "lifecycle s = RigStateDisconnected"
    and run: "port_session perform s (cs @ [c]) = (as @ [AnsRead (Inr ob)], t)"
  shows "probed_by as (op_connection_generation (ro_provenance ob)) (ro_profile_revision_id ob)"
proof -
  obtain bs s1 where b: "port_session perform s cs = (bs, s1)" by fastforce
  obtain a s2 where a: "perform s1 c = (a, s2)" by fastforce
  have "as = bs" "a = AnsRead (Inr ob)" using run a b by (auto simp: port_session_snoc)
  then show ?thesis
    using session_explained [OF start b] read_needs_probe a unfolding explained_def by fastforce
qed

end

section \<open>The fake keeps the contract\<close>

lemmas fake_rig_defs = rig_connect_def rig_probe_def rig_read_def rig_fail_def rig_malformed_def
  rig_pop_front_def rig_current_generation_def

lemma rig_connect_follows:
  "rig_connect s p = (r, t) \<Longrightarrow>
     fr_lifecycle t = spec_step (fr_lifecycle s) (AnsConnect p r) \<and>
     (r = Inr g \<longrightarrow> fr_profile_revision_id t = Some (rig_revision_id p))"
  by (auto simp: fake_rig_defs Let_def split: list.splits fake_rig_step.splits sum.splits)

lemma rig_probe_follows:
  "rig_probe s = (r, t) \<Longrightarrow>
     fr_lifecycle t = spec_step (fr_lifecycle s) (AnsProbe r) \<and>
     fr_profile_revision_id t = fr_profile_revision_id s \<and>
     (\<forall>rep. r = Inr rep \<longrightarrow> fr_lifecycle s = RigConnected (cr_generation rep))"
  by (cases "fr_lifecycle s")
    (auto simp: fake_rig_defs Let_def split: list.splits fake_rig_step.splits sum.splits option.splits if_splits)

lemma rig_read_follows:
  "rig_read s = (r, t) \<Longrightarrow>
     fr_lifecycle t = spec_step (fr_lifecycle s) (AnsRead r) \<and>
     fr_profile_revision_id t = fr_profile_revision_id s \<and>
     (\<forall>ob. r = Inr ob \<longrightarrow>
        fr_lifecycle s = RigReady (op_connection_generation (ro_provenance ob)) \<and>
        fr_profile_revision_id s = Some (ro_profile_revision_id ob))"
  by (cases "fr_lifecycle s"; cases r)
    (auto simp: fake_rig_defs Let_def split: list.splits fake_rig_step.splits sum.splits if_splits)

lemma rig_perform_cases:
  assumes "rig_perform s c = (a, t)"
  obtains p r where "c = CallConnect p" "a = AnsConnect p r" "rig_connect s p = (r, t)"
  | r where "c = CallProbe" "a = AnsProbe r" "rig_probe s = (r, t)"
  | r where "c = CallRead" "a = AnsRead r" "rig_read s = (r, t)"
  using assms by (cases c) (auto split: prod.splits)

interpretation fake: read_only_rig_port rig_perform fr_lifecycle fr_profile_revision_id
proof unfold_locales
  fix s t c a
  assume "rig_perform s c = (a, t)"
  then show "fr_lifecycle t = spec_step (fr_lifecycle s) a"
    using rig_connect_follows rig_probe_follows rig_read_follows by (cases rule: rig_perform_cases) fast+
next
  fix s t c p g
  assume "rig_perform s c = (AnsConnect p (Inr g), t)"
  then show "fr_profile_revision_id t = Some (rig_revision_id p)"
    using rig_connect_follows by (cases rule: rig_perform_cases) auto
next
  fix s t c a
  assume "rig_perform s c = (a, t)" "\<not> is_connect a"
  then show "fr_profile_revision_id t = fr_profile_revision_id s"
    using rig_probe_follows rig_read_follows
    by (cases rule: rig_perform_cases) (auto simp: is_connect_def)
next
  fix s t c r
  assume "rig_perform s c = (AnsProbe (Inr r), t)"
  then show "fr_lifecycle s = RigConnected (cr_generation r)"
    using rig_probe_follows by (cases rule: rig_perform_cases) auto
next
  fix s t c ob
  assume "rig_perform s c = (AnsRead (Inr ob), t)"
  then show "fr_lifecycle s = RigReady (op_connection_generation (ro_provenance ob)) \<and>
      fr_profile_revision_id s = Some (ro_profile_revision_id ob)"
    using rig_read_follows by (cases rule: rig_perform_cases) auto
qed

text \<open>
  C30: no observation without a probed connection.  Whatever calls are made of a scripted rig that
  starts disconnected, with whatever script, the lifecycle shown at the end is determined by the answers
  alone; and when the last call is a read that answers with an observation, then an earlier connect
  for the observation's profile revision succeeded with the observation's generation, a probe of that
  generation succeeded after it, and since then nothing has reconnected and no read has failed.
\<close>

theorem observation_needs_probed_connection:
  assumes "fr_lifecycle s = RigStateDisconnected" and "port_session rig_perform s (cs @ [c]) = (as @ [a], t)"
  shows "fr_lifecycle t = foldl spec_step RigStateDisconnected (as @ [a]) \<and>
    (\<forall>ob. a = AnsRead (Ok ob) \<longrightarrow>
       (\<exists>xs p ys r zs.
          as = xs @ AnsConnect p (Ok (op_connection_generation (ro_provenance ob))) # ys @ AnsProbe (Ok r) # zs \<and>
          rig_revision_id p = ro_profile_revision_id ob \<and>
          cr_generation r = op_connection_generation (ro_provenance ob) \<and>
          (\<forall>b \<in> set (ys @ zs). \<not> is_connect b) \<and> (\<forall>b \<in> set zs. \<not> is_failed_read b)))"
proof (intro conjI allI impI)
  show "fr_lifecycle t = foldl spec_step RigStateDisconnected (as @ [a])"
    using fake.session_follows [OF assms(2)] assms(1) by simp
next
  fix ob
  assume "a = AnsRead (Ok ob)"
  then obtain ws r zs where w: "as = ws @ AnsProbe (Inr r) # zs"
      "connected_by ws (op_connection_generation (ro_provenance ob)) (ro_profile_revision_id ob)"
      "cr_generation r = op_connection_generation (ro_provenance ob)"
      "\<forall>b \<in> set zs. \<not> is_connect b \<and> \<not> is_failed_read b"
    using fake.observation_explained [OF assms(1)] assms(2) unfolding probed_by_def by blast
  obtain xs p ys where x: "ws = xs @ AnsConnect p (Inr (op_connection_generation (ro_provenance ob))) # ys"
      "rig_revision_id p = ro_profile_revision_id ob" "\<forall>b \<in> set ys. \<not> is_connect b"
    using w(2) unfolding connected_by_def by blast
  have "as = xs @ AnsConnect p (Ok (op_connection_generation (ro_provenance ob))) # ys @ AnsProbe (Ok r) # zs"
    using w(1) x(1) by simp
  moreover have "\<forall>b \<in> set (ys @ zs). \<not> is_connect b" "\<forall>b \<in> set zs. \<not> is_failed_read b"
    using w(4) x(3) by auto
  ultimately show "\<exists>xs p ys r zs.
          as = xs @ AnsConnect p (Ok (op_connection_generation (ro_provenance ob))) # ys @ AnsProbe (Ok r) # zs \<and>
          rig_revision_id p = ro_profile_revision_id ob \<and>
          cr_generation r = op_connection_generation (ro_provenance ob) \<and>
          (\<forall>b \<in> set (ys @ zs). \<not> is_connect b) \<and> (\<forall>b \<in> set zs. \<not> is_failed_read b)"
    using x(2) w(3) by blast
qed

definition sample_profile :: rig_profile where
  "sample_profile =
     \<lparr>rig_revision_id = ProfileRevisionId ''prv_00000001'',
      rig_downstream_endpoint = DownstreamRigEndpoint \<lparr>ne_host = ''k4.lan'', ne_port = 12345\<rparr>,
      rig_service_endpoint = RigctldServiceEndpoint \<lparr>ne_host = ''127.0.0.1'', ne_port = 4532\<rparr>,
      rig_rigctld_mode = Managed, rig_hamlib_model = HamlibModelId 2047,
      rig_hamlib_version = HamlibVersionExpectation ''4.7.1'',
      rig_required_modulation = DataUpperSideband, rig_required_passband = RadioPassband 3000\<rparr>"

definition sample_script :: fake_rig where
  "sample_script = fake_rig_new\<lparr>fr_steps :=
     [StepConnect (Inr (RigConnectionGeneration 1)),
      StepProbe (Inr \<lparr>cr_generation = RigConnectionGeneration 1, cr_evidence = []\<rparr>),
      StepRead (Inr sample_observation)]\<rparr>"

lemma sample_session:
  "port_session rig_perform sample_script ([CallConnect sample_profile, CallProbe] @ [CallRead]) =
     ([AnsConnect sample_profile (Ok (RigConnectionGeneration 1)),
       AnsProbe (Ok \<lparr>cr_generation = RigConnectionGeneration 1, cr_evidence = []\<rparr>)] @
      [AnsRead (Ok sample_observation)],
      \<lparr>fr_lifecycle = RigReady (RigConnectionGeneration 1),
       fr_profile_revision_id = Some (ProfileRevisionId ''prv_00000001''), fr_steps = []\<rparr>)"
  by (simp add: fake_rig_defs sample_script_def fake_rig_new_def sample_profile_def sample_observation_def Let_def)

theorem observation_needs_probed_connection_witness:
  "\<exists>xs p ys r zs.
     [AnsConnect sample_profile (Ok (RigConnectionGeneration 1)),
      AnsProbe (Ok \<lparr>cr_generation = RigConnectionGeneration 1, cr_evidence = []\<rparr>)] =
       xs @ AnsConnect p (Ok (RigConnectionGeneration 1)) # ys @ AnsProbe (Ok r) # zs \<and>
     rig_revision_id p = ProfileRevisionId ''prv_00000001''"
proof -
  have start: "fr_lifecycle sample_script = RigStateDisconnected"
    by (simp add: sample_script_def fake_rig_new_def)
  have ob: "op_connection_generation (ro_provenance sample_observation) = RigConnectionGeneration 1"
      "ro_profile_revision_id sample_observation = ProfileRevisionId ''prv_00000001''"
    by (simp_all add: sample_observation_def)
  show ?thesis
    using observation_needs_probed_connection [OF start sample_session] unfolding ob [symmetric] by metis
qed

section \<open>The other fakes\<close>

text \<open>The script of a fake rig is bounded, and every call takes at most one step of it.\<close>

lemma script_bounded:
  assumes "rig_script_push s st = (r, t)" and "length (fr_steps s) \<le> MAX_FAKE_RIG_STEPS"
  shows "length (fr_steps t) \<le> MAX_FAKE_RIG_STEPS \<and>
    (r = Err ScriptFull \<longleftrightarrow> length (fr_steps s) = MAX_FAKE_RIG_STEPS) \<and>
    fr_steps t = (if r = Ok () then fr_steps s @ [st] else fr_steps s)"
  using assms by (auto simp: rig_script_push_def split: if_splits)

lemma rig_perform_steps:
  assumes "rig_perform s c = (a, t)"
  shows "fr_steps t = fr_steps s \<or> fr_steps t = drop 1 (fr_steps s)"
  using assms
  by (cases rule: rig_perform_cases; cases "fr_lifecycle s")
    (auto simp: fake_rig_defs Let_def split: list.splits fake_rig_step.splits sum.splits option.splits if_splits)

text \<open>
  A stale or contradictory observation is not returned, and it faults the connection: the next
  read answers without touching the script.
\<close>

lemma read_fresh_fault_is_final:
  assumes "rig_read_fresh s now policy = (Inl f, t)" and "fr_lifecycle s = RigReady g"
  shows "fr_lifecycle t = RigFaulted (Some g) (rig_fault_kind_of f) \<and> rig_read t = (Err RigNotProbed, t)"
proof -
  obtain r s1 where r: "rig_read s = (r, s1)" by fastforce
  note f = rig_read_follows [OF r]
  have "fr_lifecycle t = RigFaulted (Some g) (rig_fault_kind_of f)"
    using assms f r
    by (auto simp: rig_read_fresh_def rig_fail_def rig_current_generation_def split: sum.splits)
  then show ?thesis by (simp add: rig_read_def rig_current_generation_def)
qed

text \<open>The audio fake plays its events back in order, and its health announces the next fault.\<close>

fun play :: "nat \<Rightarrow> fake_audio \<Rightarrow> (input_fault, capture_batch option) result list" where
  "play 0 s = []"
| "play (Suc n) s = (let (e, s) = audio_next_batch s in e # play n s)"

lemma play_events:
  "play n s = map (map_ok Some) (take n (fa_events s)) @ replicate (n - length (fa_events s)) (Ok None)"
  by (induction n arbitrary: s) (auto simp: audio_next_batch_def Let_def split: list.splits)

lemma health_announces_fault:
  "audio_health s = (Err f, s) \<longleftrightarrow> fst (audio_next_batch s) = Err f"
  by (cases "fa_events s"; cases "hd (fa_events s)") (auto simp: audio_health_def audio_next_batch_def)

lemma drain_decodes_once:
  assumes "drain_decodes s = (ds, t)"
  shows "mset ds = mset (fk_decodes s) \<and> fst (drain_decodes t) = []"
  using assms by (auto simp: drain_decodes_def sort_deterministically_def)

text \<open>Emergency unkey is never refused by an inhibition, and it is counted whether or not it succeeds.\<close>

lemma emergency_unkey_bypasses_admission:
  "emergency_unkey (set_inhibition s i) =
     (fst (emergency_unkey s), set_inhibition (snd (emergency_unkey s)) i)"
  by (simp add: emergency_unkey_def set_inhibition_def Let_def)

end
