(* ===== verification/SP_Discovery.thy ===== *)
theory SP_Discovery
  imports SP_Audio "HOL-Library.Char_ord" "HOL-Library.List_Lexorder" "HOL-Library.Product_Lexorder"
    "HOL-Library.Multiset"
begin

text \<open>
  \<open>crates/audio/src/discovery.rs\<close>: the receive-only discovery of input devices.  The default host
  of the native audio library is a record of what the adapter asks of it; the library's sample
  formats and error kinds are those the adapter names, with one constructor for all others.
\<close>

section \<open>The native host\<close>

datatype cpal_sample_format =
    I8 | I16 | I24 | I32 | I64 | U8 | U16 | U24 | U32 | U64 | F32 | F64 | DsdU8 | DsdU16 | DsdU32 | UnnamedFormat

datatype discovery_error_kind =
    NativeHostUnavailable | NativePermissionDenied | NativeDeviceNotAvailable | NativeDeviceChanged
  | NativeStreamInvalidated | NativeUnsupportedConfig | NativeUnsupportedOperation | NativeInvalidInput
  | NativeDeviceBusy | NativeRealtimeDenied | NativeResourceExhausted | NativeXrun | NativeBackendError
  | NativeOther | UnnamedErrorKind

record stream_config_range =
  sc_min_sample_rate :: int
  sc_max_sample_rate :: int
  sc_channels :: int
  sc_sample_format :: cpal_sample_format

record ('d, 'i) discovery_host =
  dh_host_name :: string
  dh_device_id_from_str :: "string \<Rightarrow> 'i option"
  dh_device_by_id :: "'i \<Rightarrow> 'd option"
  dh_devices :: "(discovery_error_kind, 'd list) result"
  dh_supported_input_configs :: "'d \<Rightarrow> (discovery_error_kind, stream_config_range list) result"
  dh_id :: "'d \<Rightarrow> (discovery_error_kind, string) result"
  dh_description :: "'d \<Rightarrow> (discovery_error_kind, string \<times> string option) result"

section \<open>Translations\<close>

fun owned_sample_format :: "cpal_sample_format \<Rightarrow> input_sample_format option" where
  "owned_sample_format I8 = Some Signed8"
| "owned_sample_format I16 = Some Signed16"
| "owned_sample_format I24 = Some Signed24"
| "owned_sample_format I32 = Some Signed32"
| "owned_sample_format I64 = Some Signed64"
| "owned_sample_format U8 = Some Unsigned8"
| "owned_sample_format U16 = Some Unsigned16"
| "owned_sample_format U24 = Some Unsigned24"
| "owned_sample_format U32 = Some Unsigned32"
| "owned_sample_format U64 = Some Unsigned64"
| "owned_sample_format F32 = Some Float32"
| "owned_sample_format F64 = Some Float64"
| "owned_sample_format DsdU8 = None"
| "owned_sample_format DsdU16 = None"
| "owned_sample_format DsdU32 = None"
| "owned_sample_format UnnamedFormat = None"

definition platform_for_host :: "string \<Rightarrow> (input_discovery_error, input_platform) result" where
  "platform_for_host name =
     (if name = ''coreaudio'' then Ok MacOsCoreAudio
      else if name = ''wasapi'' then Ok WindowsWasapi
      else if name = ''alsa'' then Ok LinuxAlsa
      else if name = ''jack'' then Ok LinuxJack
      else Err IdentityUnavailable)"

fun map_native_error :: "discovery_error_kind \<Rightarrow> input_discovery_error" where
  "map_native_error NativeHostUnavailable = HostUnavailable"
| "map_native_error NativePermissionDenied = PermissionDenied"
| "map_native_error NativeDeviceNotAvailable = DeviceDisappeared"
| "map_native_error NativeDeviceChanged = DeviceDisappeared"
| "map_native_error NativeStreamInvalidated = DeviceDisappeared"
| "map_native_error NativeUnsupportedConfig = UnsupportedConfiguration"
| "map_native_error NativeUnsupportedOperation = UnsupportedConfiguration"
| "map_native_error NativeInvalidInput = UnsupportedConfiguration"
| "map_native_error _ = BackendFailure"

definition configuration_range ::
  "stream_config_range \<Rightarrow> (input_discovery_error, input_configuration_range) result" where
  "configuration_range r =
     rbind (ok_or UnsupportedConfiguration (owned_sample_format (sc_sample_format r))) (\<lambda>sample_format.
       map_err (\<lambda>_. UnsupportedConfiguration)
         (input_configuration_range_new (sc_min_sample_rate r) (sc_max_sample_rate r) (sc_channels r) sample_format))"

definition owned_identity :: "input_platform \<Rightarrow> string \<Rightarrow> (input_discovery_error, input_device_identity) result" where
  "owned_identity platform value = map_err (\<lambda>_. IdentityUnavailable) (input_device_identity_new platform value)"

text \<open>The derived orders: fields in turn, enumerations by declaration, strings by bytes.\<close>

fun sample_format_rank :: "input_sample_format \<Rightarrow> nat" where
  "sample_format_rank Signed8 = 0"
| "sample_format_rank Signed16 = 1"
| "sample_format_rank Signed24 = 2"
| "sample_format_rank Signed32 = 3"
| "sample_format_rank Signed64 = 4"
| "sample_format_rank Unsigned8 = 5"
| "sample_format_rank Unsigned16 = 6"
| "sample_format_rank Unsigned24 = 7"
| "sample_format_rank Unsigned32 = 8"
| "sample_format_rank Unsigned64 = 9"
| "sample_format_rank Float32 = 10"
| "sample_format_rank Float64 = 11"

fun platform_rank :: "input_platform \<Rightarrow> nat" where
  "platform_rank MacOsCoreAudio = 0"
| "platform_rank WindowsWasapi = 1"
| "platform_rank LinuxAlsa = 2"
| "platform_rank LinuxJack = 3"

definition range_key :: "input_configuration_range \<Rightarrow> int \<times> int \<times> int \<times> nat" where
  "range_key r = (range_min_sample_rate_hz r, range_max_sample_rate_hz r, range_channels r,
     sample_format_rank (range_sample_format r))"

definition identity_key :: "input_device_identity \<Rightarrow> nat \<times> string" where
  "identity_key i = (platform_rank (identity_platform i), opaque_id i)"

section \<open>Discovery\<close>

text \<open>\<open>collect\<close> into a result: the first error ends it.\<close>

fun collect_ranges ::
  "stream_config_range list \<Rightarrow> (input_discovery_error, input_configuration_range list) result" where
  "collect_ranges [] = Ok []"
| "collect_ranges (r # rs) =
     rbind (configuration_range r) (\<lambda>x. rbind (collect_ranges rs) (\<lambda>xs. Ok (x # xs)))"

definition descriptor_for_device ::
  "('d, 'i) discovery_host \<Rightarrow> 'd \<Rightarrow> input_platform
   \<Rightarrow> (input_discovery_error, input_device_descriptor option) result" where
  "descriptor_for_device host d platform =
     (case dh_supported_input_configs host d of
        Inl kind \<Rightarrow>
          if kind = NativeUnsupportedOperation then Ok None else Err (map_native_error kind)
      | Inr supported \<Rightarrow>
          rbind (collect_ranges supported) (\<lambda>collected.
          let ranges = remdups_adj (sort_key range_key collected) in
          if ranges = [] then Ok None
          else rbind (map_err (\<lambda>_. IdentityUnavailable) (dh_id host d)) (\<lambda>ident.
               rbind (map_err map_native_error (dh_description host d)) (\<lambda>(name, manufacturer).
               rbind (owned_identity platform ident) (\<lambda>identity.
               rbind (map_err (\<lambda>_. BackendFailure) (input_device_display_new name manufacturer)) (\<lambda>display.
                 map_err (\<lambda>_. UnsupportedConfiguration)
                   (map_ok Some (input_device_descriptor_new identity display ranges))))))))"

fun collect_descriptors ::
  "('d, 'i) discovery_host \<Rightarrow> input_platform \<Rightarrow> 'd list
   \<Rightarrow> (input_discovery_error, input_device_descriptor list) result" where
  "collect_descriptors host platform [] = Ok []"
| "collect_descriptors host platform (d # ds) =
     (case descriptor_for_device host d platform of
        Inl e \<Rightarrow> Err e
      | Inr None \<Rightarrow> collect_descriptors host platform ds
      | Inr (Some x) \<Rightarrow> rbind (collect_descriptors host platform ds) (\<lambda>xs. Ok (x # xs)))"

definition finish_descriptors ::
  "input_device_descriptor list \<Rightarrow> (input_discovery_error, input_device_descriptor list) result" where
  "finish_descriptors ds =
     (if ds = [] then Err NoInputDevices
      else Ok (sort_key (\<lambda>d. identity_key (descriptor_identity d)) ds))"

definition enumerate_inputs ::
  "('d, 'i) discovery_host \<Rightarrow> (input_discovery_error, input_device_descriptor list) result" where
  "enumerate_inputs host =
     rbind (platform_for_host (dh_host_name host)) (\<lambda>platform.
     rbind (map_err map_native_error (dh_devices host)) (\<lambda>devices.
     rbind (collect_descriptors host platform devices) finish_descriptors))"

definition discovered_device ::
  "('d, 'i) discovery_host \<Rightarrow> input_device_identity \<Rightarrow> (input_discovery_error, 'd) result" where
  "discovered_device host identity =
     rbind (platform_for_host (dh_host_name host)) (\<lambda>platform.
       if identity_platform identity \<noteq> platform then Err DeviceDisappeared
       else rbind (ok_or IdentityUnavailable (dh_device_id_from_str host (opaque_id identity))) (\<lambda>ident.
            ok_or DeviceDisappeared (dh_device_by_id host ident)))"

definition find_input ::
  "('d, 'i) discovery_host \<Rightarrow> input_device_identity \<Rightarrow> (input_discovery_error, input_device_descriptor) result" where
  "find_input host identity =
     rbind (discovered_device host identity) (\<lambda>d.
     rbind (descriptor_for_device host d (identity_platform identity)) (\<lambda>found.
       ok_or UnsupportedConfiguration found))"

section \<open>Lemmas\<close>

lemma sample_format_rank_inject [simp]: "sample_format_rank a = sample_format_rank b \<longleftrightarrow> a = b"
  by (cases a; cases b) simp_all

lemma platform_rank_inject [simp]: "platform_rank a = platform_rank b \<longleftrightarrow> a = b"
  by (cases a; cases b) simp_all

lemma range_key_inject [simp]: "range_key a = range_key b \<longleftrightarrow> a = b"
  by (cases a; cases b) (auto simp: range_key_def)

lemma identity_key_inject [simp]: "identity_key a = identity_key b \<longleftrightarrow> a = b"
  by (cases a; cases b) (auto simp: identity_key_def)

text \<open>Sorting and removing adjacent duplicates gives the strictly sorted list of a set.\<close>

lemma remdups_adj_strict: "sorted (ys :: 'b :: linorder list) \<Longrightarrow> sorted_wrt (<) (remdups_adj ys)"
  by (induction ys rule: remdups_adj.induct) (auto simp: order.order_iff_strict)

lemma sort_dedup_strict:
  fixes key :: "'a \<Rightarrow> 'b :: linorder"
  assumes "inj key"
  shows "sorted_wrt (<) (map key (remdups_adj (sort_key key xs)))"
  using remdups_adj_strict [of "map key (sort_key key xs)"] by (simp add: remdups_adj_map_injective [OF assms])

lemma configuration_range_Err: "configuration_range r = Inl e \<Longrightarrow> e = UnsupportedConfiguration"
  by (auto simp: configuration_range_def rbind_Inl)

lemma collect_ranges_Err: "collect_ranges rs = Inl e \<Longrightarrow> e = UnsupportedConfiguration"
  by (induction rs) (auto simp: rbind_Inl dest: configuration_range_Err)

lemma collect_ranges_Ok: "collect_ranges rs = Inr xs \<longleftrightarrow> map configuration_range rs = map Inr xs"
  by (induction rs arbitrary: xs) auto

text \<open>The descriptor of a device that has one.\<close>

definition device_descriptor :: "('d, 'i) discovery_host \<Rightarrow> input_platform \<Rightarrow> 'd \<Rightarrow> input_device_descriptor option" where
  "device_descriptor host platform d =
     (case descriptor_for_device host d platform of Inr (Some x) \<Rightarrow> Some x | _ \<Rightarrow> None)"

lemma collect_descriptors_Ok:
  "collect_descriptors host p ds = Inr xs \<longleftrightarrow>
     (\<forall>d \<in> set ds. is_ok (descriptor_for_device host d p)) \<and> xs = List.map_filter (device_descriptor host p) ds"
proof (induction ds arbitrary: xs)
  case (Cons d ds)
  then show ?case
    by (cases "descriptor_for_device host d p")
      (auto simp: device_descriptor_def List.map_filter_simps is_ok_iff split: option.splits)
qed (auto simp: List.map_filter_simps)

lemma collect_descriptors_fails:
  assumes "d \<in> set ds" "descriptor_for_device host d p = Inl e"
    "\<And>c f. c \<in> set ds \<Longrightarrow> descriptor_for_device host c p = Inl f \<Longrightarrow> f = e"
  shows "collect_descriptors host p ds = Inl e"
proof (cases "collect_descriptors host p ds")
  case (Inl f)
  then have "\<exists>c \<in> set ds. descriptor_for_device host c p = Inl f"
  proof (induction ds)
    case (Cons c ds)
    then show ?case
      by (cases "collect_descriptors host p ds") (auto split: sum.splits option.splits)
  qed simp
  then show ?thesis using assms(3) Inl by blast
next
  case (Inr xs)
  then show ?thesis using assms(1,2) by (auto simp: collect_descriptors_Ok is_ok_iff)
qed

lemma owned_identity_Ok: "owned_identity p s = Inr i \<Longrightarrow> i = \<lparr>identity_platform = p, opaque_id = s\<rparr>"
  by (auto simp: owned_identity_def input_device_identity_new_def split: sum.splits)

lemma descriptor_shape:
  assumes "descriptor_for_device host d p = Inr (Some x)"
  shows "\<exists>ident rs collected. dh_id host d = Ok ident \<and> descriptor_identity x = \<lparr>identity_platform = p, opaque_id = ident\<rparr> \<and>
    dh_supported_input_configs host d = Ok rs \<and> map configuration_range rs = map Ok collected \<and>
    descriptor_configuration_ranges x = remdups_adj (sort_key range_key collected) \<and>
    collected \<noteq> [] \<and> length (descriptor_configuration_ranges x) \<le> MAX_DEVICE_CONFIGURATIONS"
  using assms
  by (auto simp: descriptor_for_device_def collect_ranges_Ok input_device_descriptor_new_def Let_def
      dest!: owned_identity_Ok split: sum.splits if_splits prod.splits)

lemma descriptor_ranges:
  assumes d: "d \<in> set devices" "descriptor_for_device host d p = Inr (Some x)"
  shows "length (descriptor_configuration_ranges x) \<in> {1..64} \<and>
    sorted_wrt (<) (map range_key (descriptor_configuration_ranges x)) \<and>
    (\<exists>d \<in> set devices. \<exists>rs. dh_supported_input_configs host d = Ok rs \<and>
       Ok ` set (descriptor_configuration_ranges x) = configuration_range ` set rs)"
proof -
  obtain rs ys where y: "dh_supported_input_configs host d = Ok rs" "map configuration_range rs = map Ok ys"
      "descriptor_configuration_ranges x = remdups_adj (sort_key range_key ys)" "ys \<noteq> []"
      "length (descriptor_configuration_ranges x) \<le> 64"
    using descriptor_shape [OF d(2)] by (auto simp: MAX_DEVICE_CONFIGURATIONS_def)
  have "configuration_range ` set rs = Ok ` set ys" using y(2) by (metis set_map)
  then have "\<exists>d \<in> set devices. \<exists>rs. dh_supported_input_configs host d = Ok rs \<and>
      Ok ` set (descriptor_configuration_ranges x) = configuration_range ` set rs"
    using d(1) y(1,3) by (intro bexI [of _ d] exI [of _ rs]) simp_all
  moreover have "1 \<le> length (descriptor_configuration_ranges x)"
    using y(3,4) length_sort [of range_key ys] by (cases "sort_key range_key ys") (auto simp: Suc_le_eq)
  ultimately show ?thesis using y(3,5) sort_dedup_strict [of range_key ys] by (simp add: inj_def)
qed

text \<open>
  What the native library documents: the textual identity of a listed device reads as an identity
  under which the host finds that device.
\<close>

definition ids_resolve :: "('d, 'i) discovery_host \<Rightarrow> 'd list \<Rightarrow> bool" where
  "ids_resolve host devices \<longleftrightarrow>
     (\<forall>d \<in> set devices. \<forall>s. dh_id host d = Ok s \<longrightarrow>
        (\<exists>i. dh_device_id_from_str host s = Some i \<and> dh_device_by_id host i = Some d))"

lemma find_listed:
  assumes "platform_for_host (dh_host_name host) = Inr p" "ids_resolve host devices" "d \<in> set devices"
    "descriptor_for_device host d p = Inr (Some x)"
  shows "find_input host (descriptor_identity x) = Ok x"
proof -
  obtain s where s: "dh_id host d = Ok s" "descriptor_identity x = \<lparr>identity_platform = p, opaque_id = s\<rparr>"
    using descriptor_shape [OF assms(4)] by blast
  then obtain i where "dh_device_id_from_str host s = Some i" "dh_device_by_id host i = Some d"
    using assms(2,3) unfolding ids_resolve_def by blast
  then show ?thesis using assms(1,4) s by (simp add: find_input_def discovered_device_def)
qed

lemma enumerate_inputs_Ok:
  "enumerate_inputs host = Inr found \<longleftrightarrow>
     (\<exists>p devices. platform_for_host (dh_host_name host) = Ok p \<and> dh_devices host = Ok devices \<and>
        (\<forall>d \<in> set devices. is_ok (descriptor_for_device host d p)) \<and>
        List.map_filter (device_descriptor host p) devices \<noteq> [] \<and>
        found = sort_key (\<lambda>d. identity_key (descriptor_identity d)) (List.map_filter (device_descriptor host p) devices))"
  by (auto simp: enumerate_inputs_def collect_descriptors_Ok finish_descriptors_def)

lemma set_map_filter: "x \<in> set (List.map_filter f xs) \<longleftrightarrow> (\<exists>y \<in> set xs. f y = Some x)"
  by (auto simp: List.map_filter_def image_iff)

lemma mset_map_filter: "mset xs = mset ys \<Longrightarrow> mset (List.map_filter f xs) = mset (List.map_filter f ys)"
  by (simp add: List.map_filter_def)

lemma device_descriptor_Some: "device_descriptor host p d = Some x \<longleftrightarrow> descriptor_for_device host d p = Inr (Some x)"
  by (auto simp: device_descriptor_def split: sum.splits option.splits)

lemma same_devices_same_descriptor [simp]:
  "descriptor_for_device (host\<lparr>dh_devices := ds\<rparr>) d p = descriptor_for_device host d p"
  "device_descriptor (host\<lparr>dh_devices := ds\<rparr>) p = device_descriptor host p"
  by (auto simp: descriptor_for_device_def device_descriptor_def fun_eq_iff cong: sum.case_cong if_cong)

section \<open>Properties\<close>


text \<open>
  C40: one unsupported configuration hides every device.  A device that offers, beside any number of
  usable configurations, one the program has no format or range for is not listed without it: the
  whole discovery fails with \<open>UnsupportedConfiguration\<close>, whatever the other devices offer.
\<close>

theorem unsupported_configuration_hides_all:
  assumes "platform_for_host (dh_host_name host) = Ok p" and "dh_devices host = Ok devices" and "d \<in> set devices"
    and "dh_supported_input_configs host d = Ok rs" and "r \<in> set rs"
    and "owned_sample_format (sc_sample_format r) = None \<or> MAX_SAMPLE_RATE_HZ < sc_max_sample_rate r"
    and "\<And>c. c \<in> set devices \<Longrightarrow> c \<noteq> d \<Longrightarrow> is_ok (descriptor_for_device host c p)"
  shows "enumerate_inputs host = Err UnsupportedConfiguration"
proof -
  have "configuration_range r \<noteq> Ok x" for x
    using assms(6) by (auto simp: configuration_range_def input_configuration_range_new_def in_range_def split: if_splits)
  then have "configuration_range ` set rs \<noteq> Ok ` set xs" for xs
    using assms(5) by blast
  then have "collect_ranges rs \<noteq> Ok xs" for xs
    unfolding collect_ranges_Ok by (metis set_map)
  then have "collect_ranges rs = Err UnsupportedConfiguration"
    by (cases "collect_ranges rs") (auto dest: collect_ranges_Err)
  then have d: "descriptor_for_device host d p = Err UnsupportedConfiguration"
    using assms(4) by (simp add: descriptor_for_device_def)
  have "collect_descriptors host p devices = Err UnsupportedConfiguration"
    by (rule collect_descriptors_fails [OF assms(3) d]) (metis assms(7) d is_ok_iff sum.inject(1) sum.distinct(1))
  then show ?thesis using assms(1,2) by (simp add: enumerate_inputs_def)
qed

section \<open>A concrete host\<close>

text \<open>Two devices, listed against the order of their identities; the second also offers a DSD stream.\<close>

definition pcm_range :: stream_config_range where
  "pcm_range = \<lparr>sc_min_sample_rate = 44100, sc_max_sample_rate = 48000, sc_channels = 1, sc_sample_format = F32\<rparr>"

definition sample_discovery :: "stream_config_range list \<Rightarrow> (bool, string) discovery_host" where
  "sample_discovery extra =
     \<lparr>dh_host_name = ''alsa'', dh_device_id_from_str = Some,
      dh_device_by_id = (\<lambda>s. if s = ''hw:0'' then Some False else if s = ''hw:1'' then Some True else None),
      dh_devices = Ok [True, False],
      dh_supported_input_configs = (\<lambda>d. Ok (if d then [pcm_range, pcm_range] @ extra else [pcm_range])),
      dh_id = (\<lambda>d. Ok (if d then ''hw:1'' else ''hw:0'')),
      dh_description = (\<lambda>d. Ok (if d then ''Line'' else ''Mic'', None))\<rparr>"

definition sample_descriptor :: "string \<Rightarrow> string \<Rightarrow> input_device_descriptor" where
  "sample_descriptor ident name =
     \<lparr>descriptor_identity = \<lparr>identity_platform = LinuxAlsa, opaque_id = ident\<rparr>,
      descriptor_display = \<lparr>display_name = name, display_manufacturer = None\<rparr>,
      descriptor_configuration_ranges = [\<lparr>range_min_sample_rate_hz = 44100, range_max_sample_rate_hz = 48000,
        range_channels = 1, range_sample_format = Float32\<rparr>]\<rparr>"

lemma sample_descriptors:
  "descriptor_for_device (sample_discovery []) True LinuxAlsa = Ok (Some (sample_descriptor ''hw:1'' ''Line''))"
  "descriptor_for_device (sample_discovery extra) False LinuxAlsa = Ok (Some (sample_descriptor ''hw:0'' ''Mic''))"
proof -
  have i: "input_device_identity_new LinuxAlsa ''hw:1'' = Ok \<lparr>identity_platform = LinuxAlsa, opaque_id = ''hw:1''\<rparr>"
      "input_device_identity_new LinuxAlsa ''hw:0'' = Ok \<lparr>identity_platform = LinuxAlsa, opaque_id = ''hw:0''\<rparr>"
      "input_device_display_new ''Line'' None = Ok \<lparr>display_name = ''Line'', display_manufacturer = None\<rparr>"
      "input_device_display_new ''Mic'' None = Ok \<lparr>display_name = ''Mic'', display_manufacturer = None\<rparr>"
    by code_simp+
  show "descriptor_for_device (sample_discovery []) True LinuxAlsa = Ok (Some (sample_descriptor ''hw:1'' ''Line''))"
    "descriptor_for_device (sample_discovery extra) False LinuxAlsa = Ok (Some (sample_descriptor ''hw:0'' ''Mic''))"
    using i
    by (simp_all add: descriptor_for_device_def sample_discovery_def sample_descriptor_def pcm_range_def configuration_range_def
        input_configuration_range_new_def owned_identity_def input_device_descriptor_new_def in_range_def audio_bounds Let_def)
qed


theorem unsupported_configuration_hides_all_witness:
  "enumerate_inputs (sample_discovery [pcm_range\<lparr>sc_sample_format := DsdU8\<rparr>]) = Err UnsupportedConfiguration"
proof (rule unsupported_configuration_hides_all [where d = True and p = LinuxAlsa and devices = "[True, False]"
      and r = "pcm_range\<lparr>sc_sample_format := DsdU8\<rparr>" and rs = "[pcm_range, pcm_range, pcm_range\<lparr>sc_sample_format := DsdU8\<rparr>]"])
  show "is_ok (descriptor_for_device (sample_discovery [pcm_range\<lparr>sc_sample_format := DsdU8\<rparr>]) c LinuxAlsa)"
    if "c \<in> set [True, False]" "c \<noteq> True" for c
    using that sample_descriptors(2) by auto
qed (simp_all add: sample_discovery_def platform_for_host_def)

end
