(* ===== verification/SP_Cli.thy ===== *)
theory SP_Cli
  imports SP_Api SP_Ipc
begin

text \<open>
  \<open>apps/cli/src/lib.rs\<close> and \<open>apps/cli/src/main.rs\<close>: the receive-only command line client.  Text is
  bytes; what the standard library does to it (\<open>trim_end\<close>, \<open>lines\<close>, padding by characters, parsing of
  unsigned integers) is defined.  The transport to the daemon, whose frames are those of \<open>SP_Ipc\<close>, and
  the printing of JSON values are parameters.
\<close>

section \<open>Text\<close>

abbreviation newline :: char where "newline \<equiv> CHR 0x0A"

text \<open>The UTF-8 text of every Unicode white space character.\<close>

definition white_space :: "string list" where
  "white_space =
     [[CHR 0x09], [CHR 0x0A], [CHR 0x0B], [CHR 0x0C], [CHR 0x0D], [CHR 0x20], [CHR 0xC2, CHR 0x85], [CHR 0xC2, CHR 0xA0],
      [CHR 0xE1, CHR 0x9A, CHR 0x80], [CHR 0xE2, CHR 0x80, CHR 0x80], [CHR 0xE2, CHR 0x80, CHR 0x81],
      [CHR 0xE2, CHR 0x80, CHR 0x82], [CHR 0xE2, CHR 0x80, CHR 0x83], [CHR 0xE2, CHR 0x80, CHR 0x84],
      [CHR 0xE2, CHR 0x80, CHR 0x85], [CHR 0xE2, CHR 0x80, CHR 0x86], [CHR 0xE2, CHR 0x80, CHR 0x87],
      [CHR 0xE2, CHR 0x80, CHR 0x88], [CHR 0xE2, CHR 0x80, CHR 0x89], [CHR 0xE2, CHR 0x80, CHR 0x8A],
      [CHR 0xE2, CHR 0x80, CHR 0xA8], [CHR 0xE2, CHR 0x80, CHR 0xA9], [CHR 0xE2, CHR 0x80, CHR 0xAF],
      [CHR 0xE2, CHR 0x81, CHR 0x9F], [CHR 0xE3, CHR 0x80, CHR 0x80]]"

definition ends_with :: "string \<Rightarrow> string \<Rightarrow> bool" where
  "ends_with w s \<longleftrightarrow> length w \<le> length s \<and> drop (length s - length w) s = w"

function trim_end :: "string \<Rightarrow> string" where
  "trim_end s =
     (case find (\<lambda>w. ends_with w s) white_space of
        None \<Rightarrow> s
      | Some w \<Rightarrow> trim_end (take (length s - length w) s))"
  by pat_completeness auto
termination
  by (relation "measure length") (auto simp: find_Some_iff ends_with_def white_space_def nth_Cons' split: if_splits)

declare trim_end.simps [simp del]

text \<open>\<open>str::lines\<close>: split after every newline, without it and a carriage return before it.\<close>

fun split_lines :: "string \<Rightarrow> string \<Rightarrow> string list" where
  "split_lines acc [] = (if acc = [] then [] else [acc])"
| "split_lines acc (c # cs) =
     (if c = newline
      then (if acc \<noteq> [] \<and> last acc = CHR 0x0D then butlast acc else acc) # split_lines [] cs
      else split_lines (acc @ [c]) cs)"

definition str_lines :: "string \<Rightarrow> string list" where
  "str_lines s = split_lines [] s"

definition pad_right :: "nat \<Rightarrow> string \<Rightarrow> string" where
  "pad_right n s = s @ replicate (n - length (filter utf8_start s)) (CHR '' '')"

definition join_lines :: "string list \<Rightarrow> string" where
  "join_lines ls = (case ls of [] \<Rightarrow> [] | l # rest \<Rightarrow> l @ concat (map (\<lambda>r. newline # r) rest))"

definition show_int :: "int \<Rightarrow> string" where
  "show_int x = (if x < 0 then CHR ''-'' # show_uint (- x) else show_uint x)"

definition show_bool :: "bool \<Rightarrow> string" where
  "show_bool b = (if b then ''true'' else ''false'')"

section \<open>Rendering\<close>

fun lifecycle_name :: "lifecycle_snapshot \<Rightarrow> string" where
  "lifecycle_name (SnapStopped g) = ''stopped''"
| "lifecycle_name (SnapStarting g) = ''starting''"
| "lifecycle_name (SnapReceiving g) = ''receiving''"
| "lifecycle_name (SnapInhibited g r) = ''inhibited''"
| "lifecycle_name (SnapStopping g) = ''stopping''"

definition render_lifecycle :: "string \<Rightarrow> lifecycle_snapshot \<Rightarrow> string" where
  "render_lifecycle result lifecycle = join_lines
     [''FIELD                VALUE'',
      ''result               '' @ result,
      ''receive_state        '' @ lifecycle_name lifecycle]"

definition history_row :: "receive_record_summary \<Rightarrow> string" where
  "history_row r = show_uint (rrs_sequence r) @ ''  '' @ show_int (rrs_slot_start_utc_millis r) @ ''  '' @
     receive_window_id_str (rrs_receive_window_id r) @ ''  '' @ show_uint (int (length (rrs_decodes r)))"

definition render_history :: "receive_history_page \<Rightarrow> string" where
  "render_history page = trim_end
     (''SEQUENCE  SLOT_UTC_MS  WINDOW_ID  DECODES'' @ [newline] @
      concat (map (\<lambda>r. history_row r @ [newline]) (rhp_records page)))"

definition render_devices :: "input_device_page \<Rightarrow> string" where
  "render_devices page = trim_end
     (''STABLE_ID                       DISPLAY'' @ [newline] @
      concat (map (\<lambda>d. pad_right 31 (adi_opaque_id (aid_identity d)) @ '' '' @ aid_display_name d @ [newline])
        (idp_devices page)))"

fun render_table :: "response_outcome \<Rightarrow> string" where
  "render_table (Success (CapabilitiesResult c)) = join_lines
     [''FIELD                VALUE'',
      ''api_version          '' @ show_uint (cap_negotiated_version c),
      ''service_instance     '' @ service_instance_id_str (cap_service_instance_id c),
      ''station_control      unavailable'',
      ''transmit_authority   unavailable'']"
| "render_table (Success (SnapshotResult s)) = join_lines
     [''FIELD                VALUE'',
      ''service_instance     '' @ service_instance_id_str (ss_service_instance_id s),
      ''configuration        not_configured'',
      ''operation            not_running'',
      ''transmit_authority   unavailable'']"
| "render_table (Success (NoopMutationAccepted marker)) = join_lines
     [''FIELD                VALUE'',
      ''result               noop_mutation_accepted'',
      ''marker               '' @ marker]"
| "render_table (Success (InputDevices page)) = render_devices page"
| "render_table (Success (ReceiveStarted l)) = render_lifecycle ''receive_started'' l"
| "render_table (Success (ReceiveStopped l)) = render_lifecycle ''receive_stopped'' l"
| "render_table (Success (ReceiveStatusResult st)) = render_lifecycle ''receive_status'' (rst_lifecycle st)"
| "render_table (Success (ReceiveHistory page)) = render_history page"
| "render_table (ErrorOutcome e) = join_lines
     [''FIELD                VALUE'',
      ''code                 '' @ error_code_str (ae_code e),
      ''retryable            '' @ show_bool (ae_retryable e)]"

fun inhibition_debug :: "receive_inhibition_kind \<Rightarrow> string" where
  "inhibition_debug RxServiceUnavailable = ''ServiceUnavailable''"
| "inhibition_debug RxDeviceUnavailable = ''DeviceUnavailable''"
| "inhibition_debug RxOverflow = ''Overflow''"
| "inhibition_debug RxDiscontinuity = ''Discontinuity''"
| "inhibition_debug RxClockUnhealthy = ''ClockUnhealthy''"
| "inhibition_debug RxTimelineInvalid = ''TimelineInvalid''"
| "inhibition_debug RxDecoderFailed = ''DecoderFailed''"
| "inhibition_debug RxStorageFailed = ''StorageFailed''"
| "inhibition_debug RxCancelled = ''Cancelled''"

fun event_text :: "'j event_payload \<Rightarrow> string" where
  "event_text (Phase0Notice message) = '' phase0_notice '' @ message"
| "event_text (ReceiveLifecycle state) = '' receive_lifecycle '' @
     (case str_lines (render_lifecycle ''event'' state) of [] \<Rightarrow> [] | ls \<Rightarrow> last ls)"
| "event_text (ReceiveDecode r) = '' receive_decode '' @ receive_window_id_str (rrs_receive_window_id r) @ '' '' @
     show_uint (int (length (rrs_decodes r)))"
| "event_text (ReceiveHealth h) = '' receive_health''"
| "event_text (ReceiveDiscontinuity v) = '' receive_discontinuity '' @ inhibition_debug (rdi_reason v)"
| "event_text (WaterfallFrame f) = '' waterfall_frame '' @ show_uint (wff_frame_sequence f) @ '' '' @
     show_uint (int (length (wff_bins f)))"
| "event_text (Unknown knd members) = '' unknown '' @ knd"

definition render_event :: "'j event_envelope \<Rightarrow> string" where
  "render_event e = show_uint (ee_sequence e) @ event_text (ee_event e)"

text \<open>What \<open>serde_json::to_string\<close> does with the three kinds of value the client prints.\<close>

record 'j cli_json =
  cj_response :: "response_envelope \<Rightarrow> (string, string) result"
  cj_event :: "'j event_envelope \<Rightarrow> (string, string) result"
  cj_subscription :: "'j subscription_response \<Rightarrow> (string, string) result"

fun json_lines :: "'j cli_json \<Rightarrow> 'j event_envelope list \<Rightarrow> (string, string list) result" where
  "json_lines j [] = Ok []"
| "json_lines j (e # es) = rbind (cj_event j e) (\<lambda>l. rbind (json_lines j es) (\<lambda>ls. Ok (l # ls)))"

definition render_json :: "'j cli_json \<Rightarrow> response_envelope \<Rightarrow> (string, string) result" where
  "render_json j r = cj_response j r"

definition render_jsonl :: "'j cli_json \<Rightarrow> 'j subscription_response \<Rightarrow> (string, string) result" where
  "render_jsonl j r =
     (case sr_outcome r of
        Events es cursor more_pending \<Rightarrow> map_ok join_lines (json_lines j es)
      | _ \<Rightarrow> cj_subscription j r)"

section \<open>Arguments\<close>

definition remove_flag :: "string list \<Rightarrow> string \<Rightarrow> bool \<times> string list" where
  "remove_flag arguments flag = (flag \<in> set arguments, remove1 flag arguments)"

fun remove_option :: "string list \<Rightarrow> string \<Rightarrow> string option \<times> string list" where
  "remove_option [] option = (None, [])"
| "remove_option (a # as) option =
     (if a = option then (case as of [] \<Rightarrow> (None, []) | v # rest \<Rightarrow> (Some v, rest))
      else (case remove_option as option of (v, rest) \<Rightarrow> (v, a # rest)))"

datatype cli_error =
    InvalidRequestIdOption id_error
  | InvalidBuiltInIdentity id_error
  | InvalidHistoryCursor
  | InvalidHistoryLimit
  | InvalidInputPlatform
  | InvalidSampleRateArgument
  | InvalidChannelCountArgument
  | UnsupportedSampleFormat
  | InvalidSelectedChannelArgument
  | InvalidEventCursor
  | InvalidEventLimit
  | NoCoherentSnapshot
  | UsageError
  | RequestIdRequired
  | CliIpc ipc_error
  | CliJson string

definition parse_platform :: "string \<Rightarrow> (cli_error, api_input_platform) result" where
  "parse_platform value =
     (if value = ''macos_core_audio'' \<or> value = ''mac_os_core_audio'' then Ok ApiMacOsCoreAudio
      else if value = ''windows_wasapi'' then Ok ApiWindowsWasapi
      else if value = ''linux_alsa'' then Ok ApiLinuxAlsa
      else if value = ''linux_jack'' then Ok ApiLinuxJack
      else Err InvalidInputPlatform)"

definition parse_sample_format :: "string \<Rightarrow> (cli_error, api_sample_format) result" where
  "parse_sample_format value =
     (if value = ''signed8'' then Ok ApiSigned8
      else if value = ''signed16'' then Ok ApiSigned16
      else if value = ''signed24'' then Ok ApiSigned24
      else if value = ''signed32'' then Ok ApiSigned32
      else if value = ''signed64'' then Ok ApiSigned64
      else if value = ''unsigned8'' then Ok ApiUnsigned8
      else if value = ''unsigned16'' then Ok ApiUnsigned16
      else if value = ''unsigned24'' then Ok ApiUnsigned24
      else if value = ''unsigned32'' then Ok ApiUnsigned32
      else if value = ''unsigned64'' then Ok ApiUnsigned64
      else if value = ''float32'' then Ok ApiFloat32
      else if value = ''float64'' then Ok ApiFloat64
      else Err UnsupportedSampleFormat)"

text \<open>What the remaining arguments ask for; the arguments of \<open>events follow\<close> are parsed after its snapshot.\<close>

datatype cli_request =
    SendCommand string command
  | FollowEvents string string string

definition parse_start :: "string \<Rightarrow> string \<Rightarrow> string \<Rightarrow> string \<Rightarrow> string \<Rightarrow> string \<Rightarrow> string \<Rightarrow> (cli_error, cli_request) result" where
  "parse_start runtime platform oid rate channels format channel =
     rbind (parse_platform platform) (\<lambda>pl.
     rbind (ok_or InvalidSampleRateArgument (parse_uint u32_max rate)) (\<lambda>r.
     rbind (ok_or InvalidChannelCountArgument (parse_uint u16_max channels)) (\<lambda>n.
     rbind (parse_sample_format format) (\<lambda>f.
     rbind (ok_or InvalidSelectedChannelArgument (parse_uint u16_max channel)) (\<lambda>k.
       Ok (SendCommand runtime (ReceiveStart
         \<lparr>ars_device_identity = \<lparr>adi_platform = pl, adi_opaque_id = oid\<rparr>,
          ars_configuration = \<lparr>aic_sample_rate_hz = r, aic_channels = n, aic_sample_format = f,
            aic_selected_channel = k\<rparr>\<rparr>)))))))"

definition parse_history :: "string \<Rightarrow> string \<Rightarrow> string \<Rightarrow> (cli_error, cli_request) result" where
  "parse_history runtime after limit =
     rbind (ok_or InvalidHistoryCursor (parse_uint u64_max after)) (\<lambda>a.
     rbind (ok_or InvalidHistoryLimit (parse_uint u16_max limit)) (\<lambda>n.
       Ok (SendCommand runtime (QueryReceiveHistory a n))))"

definition dispatch :: "string list \<Rightarrow> (cli_error, cli_request) result" where
  "dispatch arguments =
     (case arguments of
        [mode, runtime] \<Rightarrow>
          if mode = ''phase0-status'' \<or> mode = ''status'' then Ok (SendCommand runtime GetSnapshot) else Err UsageError
      | [receive, verb, runtime] \<Rightarrow>
          if receive = ''receive'' \<and> verb = ''status'' then Ok (SendCommand runtime GetReceiveStatus)
          else if receive = ''receive'' \<and> verb = ''stop'' then Ok (SendCommand runtime ReceiveStop)
          else Err UsageError
      | [devices, audio, lst, runtime] \<Rightarrow>
          if devices = ''devices'' \<and> audio = ''audio'' \<and> lst = ''list'' then Ok (SendCommand runtime ListInputDevices)
          else Err UsageError
      | [area, verb, runtime, after, limit] \<Rightarrow>
          if area = ''receive'' \<and> verb = ''history'' then parse_history runtime after limit
          else if area = ''events'' \<and> verb = ''follow'' then Ok (FollowEvents runtime after limit)
          else Err UsageError
      | [receive, verb, runtime, platform, oid, rate, channels, format, channel] \<Rightarrow>
          if receive = ''receive'' \<and> verb = ''start'' then parse_start runtime platform oid rate channels format channel
          else Err UsageError
      | _ \<Rightarrow> Err UsageError)"

section \<open>The program\<close>

text \<open>The daemon as the client sees it: \<open>LocalClient::request\<close> and \<open>LocalClient::exchange\<close>.\<close>

record ('o, 'j) transport =
  tr_request :: "'o \<Rightarrow> endpoint_address \<Rightarrow> command_envelope \<Rightarrow> (ipc_error, response_envelope) result \<times> 'o"
  tr_exchange :: "'o \<Rightarrow> endpoint_address \<Rightarrow> subscription_request \<Rightarrow> (ipc_error, 'j subscription_response) result \<times> 'o"

definition request_command ::
  "('o, 'j) transport \<Rightarrow> 'o \<Rightarrow> endpoint_address \<Rightarrow> request_id \<Rightarrow> command
   \<Rightarrow> (ipc_error, response_envelope) result \<times> 'o" where
  "request_command t s address rid c =
     tr_request t s address \<lparr>ce_api_version = API_VERSION, ce_request_id = rid, ce_command = c\<rparr>"

definition request_snapshot ::
  "('o, 'j) transport \<Rightarrow> 'o \<Rightarrow> endpoint_address \<Rightarrow> request_id \<Rightarrow> (ipc_error, response_envelope) result \<times> 'o" where
  "request_snapshot t s address rid =
     tr_request t s address \<lparr>ce_api_version = API_VERSION, ce_request_id = rid, ce_command = GetSnapshot\<rparr>"

definition request_events ::
  "('o, 'j) transport \<Rightarrow> 'o \<Rightarrow> endpoint_address \<Rightarrow> subscription_request
   \<Rightarrow> (ipc_error, 'j subscription_response) result \<times> 'o" where
  "request_events t s address q = tr_exchange t s address q"

definition print_events ::
  "'j cli_json \<Rightarrow> bool \<Rightarrow> 'j subscription_response \<Rightarrow> (cli_error, string) result" where
  "print_events j jsonl r =
     (if jsonl then map_ok (\<lambda>out. out @ [newline]) (map_err CliJson (render_jsonl j r))
      else (case sr_outcome r of
              Events es cursor more_pending \<Rightarrow> Ok (concat (map (\<lambda>e. render_event e @ [newline]) es))
            | _ \<Rightarrow> map_ok (\<lambda>out. out @ [newline]) (map_err CliJson (cj_subscription j r))))"

definition follow_events ::
  "'o os \<Rightarrow> ('o, 'j) transport \<Rightarrow> 'j cli_json \<Rightarrow> bool \<Rightarrow> string \<Rightarrow> string \<Rightarrow> string \<Rightarrow> 'o
   \<Rightarrow> (cli_error, string) result \<times> 'o" where
  "follow_events sys t j jsonl runtime after limit s =
     (case for_user sys s runtime ''phase0-dev'' of
        (Inl e, s1) \<Rightarrow> (Err (CliIpc e), s1)
      | (Inr address, s1) \<Rightarrow>
          (case request_id_from_str ''req_eventssnapshot'' of
             Inl e \<Rightarrow> (Err (InvalidBuiltInIdentity e), s1)
           | Inr rid \<Rightarrow>
               (case request_snapshot t s1 address rid of
                  (Inl e, s2) \<Rightarrow> (Err (CliIpc e), s2)
                | (Inr response, s2) \<Rightarrow>
                    (case re_outcome response of
                       Success (SnapshotResult snapshot) \<Rightarrow>
                         (case ok_or InvalidEventCursor (parse_uint u64_max after) of
                            Inl e \<Rightarrow> (Err e, s2)
                          | Inr sequence \<Rightarrow>
                              (case ok_or InvalidEventLimit (parse_uint u16_max limit) of
                                 Inl e \<Rightarrow> (Err e, s2)
                               | Inr n \<Rightarrow>
                                   (case request_events t s2 address
                                           \<lparr>sq_api_version = API_VERSION,
                                            sq_after = Some \<lparr>cur_service_instance_id = ss_service_instance_id snapshot,
                                              cur_sequence = sequence\<rparr>,
                                            sq_limit = n\<rparr> of
                                      (Inl e, s3) \<Rightarrow> (Err (CliIpc e), s3)
                                    | (Inr r, s3) \<Rightarrow> (print_events j jsonl r, s3))))
                     | _ \<Rightarrow> (Err NoCoherentSnapshot, s2)))))"

definition is_receive_mutation :: "command \<Rightarrow> bool" where
  "is_receive_mutation c = (case c of ReceiveStart _ \<Rightarrow> True | ReceiveStop \<Rightarrow> True | _ \<Rightarrow> False)"

definition send_command ::
  "'o os \<Rightarrow> ('o, 'j) transport \<Rightarrow> 'j cli_json \<Rightarrow> bool \<Rightarrow> request_id option \<Rightarrow> string \<Rightarrow> command \<Rightarrow> 'o
   \<Rightarrow> (cli_error, string) result \<times> 'o" where
  "send_command sys t j json given runtime c s =
     (case for_user sys s runtime ''phase0-dev'' of
        (Inl e, s1) \<Rightarrow> (Err (CliIpc e), s1)
      | (Inr address, s1) \<Rightarrow>
          (case (case given of
                   Some v \<Rightarrow> Ok v
                 | None \<Rightarrow> if is_receive_mutation c then Err RequestIdRequired
                           else map_err InvalidBuiltInIdentity (request_id_from_str ''req_phase2read'')) of
             Inl e \<Rightarrow> (Err e, s1)
           | Inr rid \<Rightarrow>
               (case request_command t s1 address rid c of
                  (Inl e, s2) \<Rightarrow> (Err (CliIpc e), s2)
                | (Inr response, s2) \<Rightarrow>
                    (map_ok (\<lambda>out. out @ [newline])
                       (if json then map_err CliJson (render_json j response) else Ok (render_table (re_outcome response))),
                     s2))))"

definition cli_main ::
  "'o os \<Rightarrow> ('o, 'j) transport \<Rightarrow> 'j cli_json \<Rightarrow> string list \<Rightarrow> 'o \<Rightarrow> (cli_error, string) result \<times> 'o" where
  "cli_main sys t j arguments s =
     (let (json, a1) = remove_flag arguments ''--json'';
          (jsonl, a2) = remove_flag a1 ''--jsonl'';
          (_, a3) = remove_flag a2 ''--non-interactive'';
          (given, a4) = remove_option a3 ''--request-id''
      in case (case given of None \<Rightarrow> Ok None
                | Some v \<Rightarrow> map_ok Some (map_err InvalidRequestIdOption (request_id_from_str v))) of
           Inl e \<Rightarrow> (Err e, s)
         | Inr request_id \<Rightarrow>
             (case dispatch a4 of
                Inl e \<Rightarrow> (Err e, s)
              | Inr (FollowEvents runtime after limit) \<Rightarrow> follow_events sys t j jsonl runtime after limit s
              | Inr (SendCommand runtime c) \<Rightarrow> send_command sys t j json request_id runtime c s))"

section \<open>Lemmas\<close>

lemma remove_option_Some:
  "remove_option as opt = (Some v, rest) \<Longrightarrow> \<exists>xs ys. as = xs @ opt # v # ys \<and> opt \<notin> set xs \<and> rest = xs @ ys"
proof (induction as arbitrary: rest)
  case (Cons a as)
  show ?case
  proof (cases "a = opt")
    case True
    then show ?thesis using Cons.prems by (cases as) (auto intro: exI [of _ "[]"])
  next
    case False
    then obtain r where r: "remove_option as opt = (Some v, r)" "rest = a # r"
      using Cons.prems by (auto split: prod.splits)
    from Cons.IH [OF r(1)] obtain xs ys where "as = xs @ opt # v # ys" "opt \<notin> set xs" "r = xs @ ys" by blast
    then show ?thesis using False r(2) by (intro exI [of _ "a # xs"] exI [of _ ys]) simp
  qed
qed simp

lemma remove_option_given: "opt \<notin> set xs \<Longrightarrow> remove_option (xs @ opt # v # ys) opt = (Some v, xs @ ys)"
  by (induction xs) auto

text \<open>The arguments without the flags, and the identity the user gave.\<close>

definition unflagged :: "string list \<Rightarrow> string list" where
  "unflagged arguments = remove1 ''--non-interactive'' (remove1 ''--jsonl'' (remove1 ''--json'' arguments))"

definition identified :: "string list \<Rightarrow> request_id \<Rightarrow> bool" where
  "identified arguments rid \<longleftrightarrow>
     (\<exists>xs v ys. unflagged arguments = xs @ ''--request-id'' # v # ys \<and> ''--request-id'' \<notin> set xs \<and>
        request_id_from_str v = Ok rid)"

text \<open>What was asked: the arguments without flags and option.\<close>

definition asked :: "string list \<Rightarrow> (cli_error, cli_request) result" where
  "asked arguments = dispatch (snd (remove_option (unflagged arguments) ''--request-id''))"

definition given_identity :: "string list \<Rightarrow> (cli_error, request_id option) result" where
  "given_identity arguments =
     (case fst (remove_option (unflagged arguments) ''--request-id'') of
        None \<Rightarrow> Ok None
      | Some v \<Rightarrow> map_ok Some (map_err InvalidRequestIdOption (request_id_from_str v)))"

lemma given_identity_Some: "given_identity arguments = Ok (Some rid) \<Longrightarrow> identified arguments rid"
proof -
  assume g: "given_identity arguments = Ok (Some rid)"
  obtain o1 rest where r: "remove_option (unflagged arguments) ''--request-id'' = (o1, rest)" by fastforce
  then obtain v where v: "o1 = Some v" "request_id_from_str v = Ok rid"
    using g by (cases o1) (auto simp: given_identity_def)
  from remove_option_Some [of "unflagged arguments" "''--request-id''" v rest] r v(1)
  obtain xs ys where "unflagged arguments = xs @ ''--request-id'' # v # ys" "''--request-id'' \<notin> set xs" by blast
  then show ?thesis unfolding identified_def using v(2) by blast
qed

lemma cli_main_steps:
  "cli_main sys t j arguments s =
     (case given_identity arguments of
        Inl e \<Rightarrow> (Err e, s)
      | Inr rid \<Rightarrow>
          (case asked arguments of
             Inl e \<Rightarrow> (Err e, s)
           | Inr (FollowEvents runtime after limit) \<Rightarrow>
               follow_events sys t j (''--jsonl'' \<in> set (remove1 ''--json'' arguments)) runtime after limit s
           | Inr (SendCommand runtime c) \<Rightarrow> send_command sys t j (''--json'' \<in> set arguments) rid runtime c s))"
  unfolding cli_main_def remove_flag_def given_identity_def asked_def unflagged_def Let_def case_prod_beta fst_conv snd_conv
  by (rule refl)

text \<open>A daemon and an operating system that keep the commands sent so far.\<close>

definition records :: "'o os \<Rightarrow> ('o, 'j) transport \<Rightarrow> ('o \<Rightarrow> command_envelope list) \<Rightarrow> bool" where
  "records sys t sent \<longleftrightarrow>
     (\<forall>s p m. sent (snd (os_create_dir sys s p m)) = sent s) \<and> (\<forall>s p. sent (snd (os_metadata sys s p)) = sent s) \<and>
     (\<forall>s a e. sent (snd (tr_request t s a e)) = sent s @ [e]) \<and> (\<forall>s a q. sent (snd (tr_exchange t s a q)) = sent s)"

lemma for_user_sends_nothing:
  assumes "records sys t sent" and "for_user sys s d scope = (r, s')"
  shows "sent s' = sent s"
proof -
  have c: "sent s1 = sent s" if "os_create_dir sys s d 448 = (x, s1)" for x s1
    using assms(1) that unfolding records_def by (metis snd_conv)
  have m: "sent s2 = sent s1" if "os_metadata sys s1 d = (y, s2)" for y s1 s2
    using assms(1) that unfolding records_def by (metis snd_conv)
  show ?thesis
    using assms(2)
    by (auto simp: for_user_def prepare_runtime_directory_def c m split: if_splits prod.splits sum.splits)
qed

lemma request_sends:
  assumes "records sys t sent" and "tr_request t s a e = (r, s')"
  shows "sent s' = sent s @ [e]"
  using assms unfolding records_def by (metis snd_conv)

lemma exchange_sends_nothing:
  assumes "records sys t sent" and "tr_exchange t s a q = (r, s')"
  shows "sent s' = sent s"
  using assms unfolding records_def by (metis snd_conv)

lemma send_command_sends:
  assumes "records sys t sent" and "send_command sys t j json given runtime c s = (r, s')"
  shows "sent s' = sent s \<or>
    (\<exists>rid. sent s' = sent s @ [\<lparr>ce_api_version = API_VERSION, ce_request_id = rid, ce_command = c\<rparr>] \<and>
       (is_receive_mutation c \<longrightarrow> given = Some rid))"
  using assms(2) for_user_sends_nothing [OF assms(1)] request_sends [OF assms(1)]
  by (fastforce simp: send_command_def request_command_def split: prod.splits sum.splits option.splits if_splits)

lemma follow_events_sends:
  assumes "records sys t sent" and "follow_events sys t j jsonl runtime after limit s = (r, s')"
  shows "sent s' = sent s \<or>
    (\<exists>rid. sent s' = sent s @ [\<lparr>ce_api_version = API_VERSION, ce_request_id = rid, ce_command = GetSnapshot\<rparr>])"
  using assms(2) for_user_sends_nothing [OF assms(1)] request_sends [OF assms(1)] exchange_sends_nothing [OF assms(1)]
  by (fastforce simp: follow_events_def request_snapshot_def request_events_def
      split: prod.splits sum.splits response_outcome.splits result_body.splits)

lemma asked_commands:
  "asked arguments = Ok (SendCommand runtime c) \<Longrightarrow> is_receive_mutation c \<longleftrightarrow> class_of c = Mutating"
  by (auto simp: asked_def dispatch_def parse_start_def parse_history_def is_receive_mutation_def
      split: list.splits if_splits)

text \<open>The text of a table is its lines; a row that ends in a digit is not trimmed.\<close>

lemma white_space_end: "w \<in> set white_space \<Longrightarrow> w \<noteq> [] \<and> \<not> is_ascii_digit (last w) \<and> \<not> is_ascii_alphabetic (last w)"
  by (auto simp: white_space_def is_ascii_digit_def is_ascii_alphabetic_def is_ascii_uppercase_def is_ascii_lowercase_def)

lemma ends_with_last: "ends_with w s \<Longrightarrow> w \<noteq> [] \<Longrightarrow> s \<noteq> [] \<and> last w = last s"
  by (metis append_take_drop_id ends_with_def last_appendR drop_Nil)

lemma trim_end_word:
  assumes "s \<noteq> []" "is_ascii_digit (last s) \<or> is_ascii_alphabetic (last s)"
  shows "trim_end s = s"
proof -
  have "\<not> ends_with w s" if "w \<in> set white_space" for w
    using white_space_end [OF that] ends_with_last [of w s] assms by auto
  then have "find (\<lambda>w. ends_with w s) white_space = None" by (simp add: find_None_iff)
  then show ?thesis by (subst trim_end.simps) simp
qed

lemma trim_end_newline:
  assumes "s \<noteq> []" "is_ascii_digit (last s) \<or> is_ascii_alphabetic (last s)"
  shows "trim_end (s @ [newline]) = s"
proof -
  have "find (\<lambda>w. ends_with w (s @ [newline])) white_space = Some [newline]"
    using assms(1) by (cases s rule: rev_cases) (simp_all add: white_space_def ends_with_def)
  then show ?thesis using trim_end_word [OF assms] by (subst trim_end.simps) simp
qed

lemma split_lines_append:
  "newline \<notin> set l \<Longrightarrow> split_lines acc (l @ newline # rest) =
     (if acc @ l \<noteq> [] \<and> last (acc @ l) = CHR 0x0D then butlast (acc @ l) else acc @ l) # split_lines [] rest"
  by (induction l arbitrary: acc) auto

lemma split_lines_last: "newline \<notin> set l \<Longrightarrow> split_lines acc l = (if acc @ l = [] then [] else [acc @ l])"
  by (induction l arbitrary: acc) auto

lemma str_lines_join:
  assumes "\<And>l. l \<in> set ls \<Longrightarrow> l \<noteq> [] \<and> newline \<notin> set l \<and> last l \<noteq> CHR 0x0D"
  shows "str_lines (join_lines ls) = ls"
  using assms
proof (induction ls)
  case (Cons l ls)
  show ?case
  proof (cases ls)
    case Nil
    then show ?thesis using Cons.prems by (simp add: str_lines_def join_lines_def split_lines_last)
  next
    case (Cons m ms)
    then have "join_lines (l # ls) = l @ newline # join_lines ls" by (simp add: join_lines_def)
    then show ?thesis using Cons.IH Cons.prems by (simp add: str_lines_def split_lines_append)
  qed
qed (simp add: str_lines_def join_lines_def)

lemma show_uint_text:
  "show_uint n \<noteq> []" "c \<in> set (show_uint n) \<Longrightarrow> is_ascii_digit c" "is_ascii_digit (last (show_uint n))"
  using show_nat_digits [of _ "nat n"] last_in_set [of "show_nat (nat n)"] by (auto simp: show_uint_def)

lemma history_row_text:
  "history_row r \<noteq> []" "is_ascii_digit (last (history_row r))"
  using show_uint_text by (simp_all add: history_row_def)

lemma history_row_line:
  assumes "valid_id ''rxw_'' (receive_window_id_str (rrs_receive_window_id r))"
  shows "newline \<notin> set (history_row r)"
proof -
  have digits: "newline \<notin> set (show_uint n)" for n
    using show_uint_text(2) [of newline n] by (auto simp: is_ascii_digit_def)
  have "newline \<notin> set (receive_window_id_str (rrs_receive_window_id r))"
    using assms by (fastforce simp: valid_id_def list_all_iff payload_byte_ok_def is_ascii_digit_def is_ascii_lowercase_def)
  then show ?thesis using digits by (auto simp: history_row_def show_int_def)
qed

lemma render_history_lines:
  "render_history page = join_lines (''SEQUENCE  SLOT_UTC_MS  WINDOW_ID  DECODES'' # map history_row (rhp_records page))"
proof -
  let ?rows = "map history_row (rhp_records page)"
  let ?table = "join_lines (''SEQUENCE  SLOT_UTC_MS  WINDOW_ID  DECODES'' # ?rows)"
  have "concat (map (\<lambda>r. newline # history_row r) rs) @ [newline] = newline # concat (map (\<lambda>r. history_row r @ [newline]) rs)"
    for rs by (induction rs) simp_all
  then have whole: "''SEQUENCE  SLOT_UTC_MS  WINDOW_ID  DECODES'' @ [newline] @ concat (map (\<lambda>r. history_row r @ [newline]) (rhp_records page)) =
      ?table @ [newline]"
    by (simp add: join_lines_def comp_def)
  have "is_ascii_digit (last ?table) \<or> is_ascii_alphabetic (last ?table)"
  proof (cases "rhp_records page" rule: rev_cases)
    case Nil
    then show ?thesis by (simp add: join_lines_def is_ascii_alphabetic_def is_ascii_uppercase_def)
  next
    case (snoc rs r)
    then show ?thesis using history_row_text [of r] by (simp add: join_lines_def)
  qed
  then show ?thesis unfolding render_history_def whole by (rule trim_end_newline [rotated]) (simp add: join_lines_def)
qed

section \<open>Properties\<close>


text \<open>The argument for each platform and sample format.\<close>

fun platform_argument :: "api_input_platform \<Rightarrow> string" where
  "platform_argument ApiMacOsCoreAudio = ''macos_core_audio''"
| "platform_argument ApiWindowsWasapi = ''windows_wasapi''"
| "platform_argument ApiLinuxAlsa = ''linux_alsa''"
| "platform_argument ApiLinuxJack = ''linux_jack''"

fun format_argument :: "api_sample_format \<Rightarrow> string" where
  "format_argument ApiSigned8 = ''signed8''"
| "format_argument ApiSigned16 = ''signed16''"
| "format_argument ApiSigned24 = ''signed24''"
| "format_argument ApiSigned32 = ''signed32''"
| "format_argument ApiSigned64 = ''signed64''"
| "format_argument ApiUnsigned8 = ''unsigned8''"
| "format_argument ApiUnsigned16 = ''unsigned16''"
| "format_argument ApiUnsigned24 = ''unsigned24''"
| "format_argument ApiUnsigned32 = ''unsigned32''"
| "format_argument ApiUnsigned64 = ''unsigned64''"
| "format_argument ApiFloat32 = ''float32''"
| "format_argument ApiFloat64 = ''float64''"

definition own_options :: "string list" where
  "own_options = [''--json'', ''--jsonl'', ''--non-interactive'', ''--request-id'']"

lemma arguments_are_no_options:
  "platform_argument p \<notin> set own_options" "format_argument f \<notin> set own_options" "show_uint n \<notin> set own_options"
  "''receive'' \<notin> set own_options" "''start'' \<notin> set own_options"
proof -
  have "CHR ''-'' \<notin> set (show_uint n)" using show_uint_text(2) [of "CHR ''-''" n] by (auto simp: is_ascii_digit_def)
  then show "show_uint n \<notin> set own_options" by (auto simp: own_options_def)
  show "platform_argument p \<notin> set own_options" by (cases p) (simp_all add: own_options_def)
  show "format_argument f \<notin> set own_options" by (cases f) (simp_all add: own_options_def)
qed (simp_all add: own_options_def)

lemma parse_arguments:
  "parse_platform (platform_argument p) = Ok p" "parse_sample_format (format_argument f) = Ok f"
  by (cases p; simp add: parse_platform_def) (cases f; simp add: parse_sample_format_def)

text \<open>
  C36: every selection can be given on the command line.  For every platform, device identity, format and
  numbers of the widths of the wire, the spelled-out \<open>receive start\<close> with a valid identity sends exactly that
  selection, unless the runtime directory or the device identity is spelled like one of the client's own options.
\<close>

theorem start_arguments_round_trip:
  assumes sizes: "is_u32 (aic_sample_rate_hz (ars_configuration sel))" "is_u16 (aic_channels (ars_configuration sel))"
      "is_u16 (aic_selected_channel (ars_configuration sel))"
    and plain: "runtime \<notin> set own_options" "adi_opaque_id (ars_device_identity sel) \<notin> set own_options"
    and rid: "request_id_from_str v = Ok rid"
  shows "cli_main sys t j
      [''receive'', ''start'', runtime, platform_argument (adi_platform (ars_device_identity sel)),
       adi_opaque_id (ars_device_identity sel), show_uint (aic_sample_rate_hz (ars_configuration sel)),
       show_uint (aic_channels (ars_configuration sel)), format_argument (aic_sample_format (ars_configuration sel)),
       show_uint (aic_selected_channel (ars_configuration sel)), ''--request-id'', v] s =
    send_command sys t j False (Some rid) runtime (ReceiveStart sel) s"
proof -
  let ?c = "ars_configuration sel"
  let ?xs = "[''receive'', ''start'', runtime, platform_argument (adi_platform (ars_device_identity sel)),
       adi_opaque_id (ars_device_identity sel), show_uint (aic_sample_rate_hz ?c), show_uint (aic_channels ?c),
       format_argument (aic_sample_format ?c), show_uint (aic_selected_channel ?c)]"
  have v: "v \<notin> set own_options"
    using rid by (auto simp: request_id_from_str_def id_from_str_Ok valid_id_def own_options_def)
  have xs: "x \<in> set ?xs \<Longrightarrow> x \<notin> set own_options" for x
    using plain by (auto simp: arguments_are_no_options)
  have flags: "f \<notin> set (?xs @ [''--request-id'', v])" if "f \<in> {''--json'', ''--jsonl'', ''--non-interactive''}" for f
    using that v xs [of f] by (auto simp: own_options_def)
  have u: "unflagged (?xs @ [''--request-id'', v]) = ?xs @ [''--request-id'', v]"
    using flags unfolding unflagged_def by (simp add: remove1_idem)
  have opt: "''--request-id'' \<notin> set ?xs" using xs [of "''--request-id''"] by (auto simp: own_options_def)
  have rm: "remove_option (?xs @ ''--request-id'' # v # []) ''--request-id'' = (Some v, ?xs @ [])"
    by (rule remove_option_given [OF opt])
  have g: "given_identity (?xs @ [''--request-id'', v]) = Ok (Some rid)"
    using rm rid unfolding given_identity_def u by simp
  have "dispatch ?xs = parse_start runtime (platform_argument (adi_platform (ars_device_identity sel)))
      (adi_opaque_id (ars_device_identity sel)) (show_uint (aic_sample_rate_hz ?c)) (show_uint (aic_channels ?c))
      (format_argument (aic_sample_format ?c)) (show_uint (aic_selected_channel ?c))"
    by (simp add: dispatch_def)
  also have "\<dots> = Ok (SendCommand runtime (ReceiveStart sel))"
    using sizes by (simp add: parse_start_def parse_arguments parse_show_uint in_range_def)
  finally have a: "asked (?xs @ [''--request-id'', v]) = Ok (SendCommand runtime (ReceiveStart sel))"
    using rm unfolding asked_def u by simp
  have "''--json'' \<notin> set (?xs @ [''--request-id'', v])" by (rule flags) simp
  then show ?thesis using g a cli_main_steps [of sys t j "?xs @ [''--request-id'', v]" s] by simp
qed

section \<open>A concrete client\<close>

text \<open>A daemon whose state is the commands it has been sent.\<close>

definition sample_os :: "command_envelope list os" where
  "sample_os =
     \<lparr>os_create_dir = (\<lambda>s p m. (Ok (), s)), os_metadata = (\<lambda>s p. (Ok \<lparr>fm_is_dir = True, fm_uid = 1000, fm_mode = 448\<rparr>, s)),
      os_euid = 1000, os_open_lock = (\<lambda>s p m. (Ok (), s)), os_try_lock = (\<lambda>s p. (Ok (), s)), os_lock_contended = (\<lambda>_. False),
      os_exists = (\<lambda>s p. False), os_remove_file = (\<lambda>s p. (Ok (), s)), os_listen = (\<lambda>s p. (Ok (), s)),
      os_set_permissions = (\<lambda>s p m. (Ok (), s))\<rparr>"

definition sample_transport :: "(command_envelope list, unit) transport" where
  "sample_transport =
     \<lparr>tr_request = (\<lambda>s a e. (Ok \<lparr>re_api_version = 2, re_request_id = ce_request_id e,
        re_outcome = Success (ReceiveStopped (SnapStopped 1))\<rparr>, s @ [e])),
      tr_exchange = (\<lambda>s a q. (Ok \<lparr>sr_api_version = 2, sr_outcome = InvalidRequest ReasonInvalidLimit\<rparr>, s))\<rparr>"

definition sample_cli_json :: "unit cli_json" where
  "sample_cli_json = \<lparr>cj_response = (\<lambda>_. Ok ''{}''), cj_event = (\<lambda>_. Ok ''{}''), cj_subscription = (\<lambda>_. Ok ''{}'')\<rparr>"

definition stop_arguments :: "string list" where
  "stop_arguments = [''receive'', ''--json'', ''stop'', ''--request-id'', ''req_00000001'', ''/run/user'']"

lemma sample_request_id: "request_id_from_str ''req_00000001'' = Ok (RequestId ''req_00000001'')"
  by code_simp

lemma stop_sends:
  "snd (cli_main sample_os sample_transport sample_cli_json stop_arguments []) =
     [\<lparr>ce_api_version = 2, ce_request_id = RequestId ''req_00000001'', ce_command = ReceiveStop\<rparr>]"
proof -
  have "list_all scope_byte_ok ''phase0-dev''" by code_simp
  then show ?thesis
    using sample_request_id
    by (simp add: cli_main_def remove_flag_def stop_arguments_def dispatch_def send_command_def for_user_def
        prepare_runtime_directory_def sample_os_def request_command_def sample_transport_def API_VERSION_def)
qed


definition sample_selection :: api_receive_selection where
  "sample_selection =
     \<lparr>ars_device_identity = \<lparr>adi_platform = ApiLinuxAlsa, adi_opaque_id = ''hw:0''\<rparr>,
      ars_configuration = \<lparr>aic_sample_rate_hz = 48000, aic_channels = 2, aic_sample_format = ApiFloat32, aic_selected_channel = 1\<rparr>\<rparr>"

theorem start_arguments_round_trip_witness:
  "cli_main sample_os sample_transport sample_cli_json
     [''receive'', ''start'', ''/run/user'', ''linux_alsa'', ''hw:0'', show_uint 48000, show_uint 2, ''float32'', show_uint 1,
      ''--request-id'', ''req_00000001''] [] =
   send_command sample_os sample_transport sample_cli_json False (Some (RequestId ''req_00000001'')) ''/run/user''
     (ReceiveStart sample_selection) []"
  using start_arguments_round_trip [of sample_selection "''/run/user''", OF _ _ _ _ _ sample_request_id,
      of sample_os sample_transport sample_cli_json "[]"]
  by (simp add: sample_selection_def in_range_def own_options_def)

text \<open>The history table has its header and one row for each record, in order.\<close>

lemma history_table_rows:
  assumes "\<And>r. r \<in> set (rhp_records page) \<Longrightarrow> valid_id ''rxw_'' (receive_window_id_str (rrs_receive_window_id r))"
  shows "str_lines (render_table (Success (ReceiveHistory page))) =
    ''SEQUENCE  SLOT_UTC_MS  WINDOW_ID  DECODES'' # map history_row (rhp_records page)"
proof -
  have "l \<noteq> [] \<and> newline \<notin> set l \<and> last l \<noteq> CHR 0x0D" if l: "l \<in> set (map history_row (rhp_records page))" for l
  proof -
    obtain r where r: "r \<in> set (rhp_records page)" "l = history_row r" using l by auto
    have "last (history_row r) \<noteq> CHR 0x0D" using history_row_text(2) [of r] by (auto simp: is_ascii_digit_def)
    then show ?thesis using r history_row_text(1) [of r] history_row_line [OF assms [OF r(1)]] by simp
  qed
  then show ?thesis
    unfolding render_table.simps render_history_lines by (intro str_lines_join) auto
qed

text \<open>The state in the text of a lifecycle event is the last line of its table.\<close>

lemma lifecycle_event_text: "event_text (ReceiveLifecycle state) = '' receive_lifecycle receive_state        '' @ lifecycle_name state"
proof -
  have "str_lines (render_lifecycle ''event'' state) =
      [''FIELD                VALUE'', ''result               '' @ ''event'', ''receive_state        '' @ lifecycle_name state]"
    unfolding render_lifecycle_def by (rule str_lines_join) (cases state; auto)
  then show ?thesis by simp
qed

end
