(* ===== verification/SP_Server.thy ===== *)
theory SP_Server
  imports SP_Ipc SP_Receive_Api
begin

text \<open>
  The daemon behind its socket: the rest of \<open>crates/ipc/src/lib.rs\<close> (the cancellation flag, one no-op
  exchange, the client's request, the Windows variants of the endpoint), \<open>serve_noop_once\<close> and
  \<open>serve_receive_once\<close> of \<open>apps/daemon/src/lib.rs\<close>, and the executable \<open>apps/daemon/src/main.rs\<close>.

  \<open>serve_receive_once\<close> changes the processor only if a request was read, and does so before the answer
  is written: when the answer is lost, the processor has moved on.  The last part of the theory
  shows that a repeated request then gets the lost answer.
\<close>

section \<open>Cancellation\<close>

text \<open>The flag threads share; \<open>cancellation_check\<close> takes the value \<open>is_cancelled\<close> gives.\<close>

type_synonym cancellation_token = bool

definition cancellation_token_new :: cancellation_token where
  "cancellation_token_new = False"

definition cancel :: "cancellation_token \<Rightarrow> cancellation_token" where
  "cancel token = True"

definition is_cancelled :: "cancellation_token \<Rightarrow> bool" where
  "is_cancelled token = token"

text \<open>The value of the flag at each check when it is cancelled before check \<open>n\<close>.\<close>

definition cancelled_from :: "nat \<Rightarrow> nat \<Rightarrow> bool" where
  "cancelled_from n k = is_cancelled (if n \<le> k then cancel cancellation_token_new else cancellation_token_new)"

section \<open>Exchanges of the two services\<close>

definition serve_once ::
  "(string \<Rightarrow> (string, command_envelope) result) \<Rightarrow> (response_envelope \<Rightarrow> (string, string) result) \<Rightarrow> int
   \<Rightarrow> connection \<Rightarrow> (nat \<Rightarrow> bool) \<Rightarrow> service_instance_id
   \<Rightarrow> (ipc_error, unit) result \<times> command_envelope option \<times> string" where
  "serve_once from_slice to_vec own_euid c cancelled svc =
     serve_exchange from_slice to_vec own_euid c cancelled (noop_execute svc)"

definition serve_noop_once ::
  "(string \<Rightarrow> (string, command_envelope) result) \<Rightarrow> (response_envelope \<Rightarrow> (string, string) result) \<Rightarrow> int
   \<Rightarrow> connection \<Rightarrow> (nat \<Rightarrow> bool) \<Rightarrow> service_instance_id
   \<Rightarrow> (ipc_error, unit) result \<times> command_envelope option \<times> string" where
  "serve_noop_once from_slice to_vec own_euid c cancelled svc = serve_once from_slice to_vec own_euid c cancelled svc"

definition local_request ::
  "(command_envelope \<Rightarrow> (string, string) result) \<Rightarrow> (string \<Rightarrow> (string, response_envelope) result)
   \<Rightarrow> (string \<Rightarrow> (io_error, unit) result) \<Rightarrow> endpoint_address \<Rightarrow> write_event list \<Rightarrow> (io_error, unit) result
   \<Rightarrow> (string \<Rightarrow> reader) \<Rightarrow> (nat \<Rightarrow> bool) \<Rightarrow> command_envelope \<Rightarrow> (ipc_error, response_envelope) result" where
  "local_request to_vec from_slice dial address ws flush server cancelled request =
     client_exchange to_vec from_slice (connect_endpoint dial (ep_kind address)) ws flush server cancelled request"

text \<open>
  The exchange whose handler is the processor.  \<open>None\<close> is the panic of an unreachable branch of the
  processor; the result comes with the request that was read, the bytes sent and the processor.
\<close>

definition serve_receive_once ::
  "(string \<Rightarrow> (string, command_envelope) result) \<Rightarrow> (response_envelope \<Rightarrow> (string, string) result)
   \<Rightarrow> (processor_error \<Rightarrow> string) \<Rightarrow> 'j json \<Rightarrow> 'p receive_port \<Rightarrow> int \<Rightarrow> connection \<Rightarrow> (nat \<Rightarrow> bool)
   \<Rightarrow> 'p receive_api_processor \<Rightarrow> int
   \<Rightarrow> ((ipc_error, unit) result \<times> command_envelope option \<times> string \<times> 'p receive_api_processor) option" where
  "serve_receive_once from_slice to_vec error_text j port own_euid c cancelled p accepted_utc_millis =
     (case accept_request from_slice own_euid c cancelled of
        Inl e \<Rightarrow> Some (Err e, None, [], p)
      | Inr env \<Rightarrow>
          (case execute j port p env accepted_utc_millis of
             None \<Rightarrow> None
           | Some (r, p') \<Rightarrow>
               (case write_frame to_vec (cn_flush c) (cn_output c) (receive_reply error_text env r) (cancelled 4) of
                  (res, out) \<Rightarrow> Some (res, Some env, out, p'))))"

section \<open>The executable\<close>

datatype daemon_error =
    NoMode
  | UnsupportedMode
  | MissingRuntimeDirectory
  | UnexpectedArgument
  | DaemonIpc ipc_error
  | InvalidDevelopmentIdentity id_error

text \<open>
  The whole run: the arguments after the program's name, the system, and the connection the
  listener accepts.  It ends with its result, the system, and what it was asked and sent.
\<close>

definition daemon_main ::
  "(string \<Rightarrow> (string, command_envelope) result) \<Rightarrow> (response_envelope \<Rightarrow> (string, string) result) \<Rightarrow> 'o os
   \<Rightarrow> connection \<Rightarrow> string list \<Rightarrow> 'o \<Rightarrow> (daemon_error, unit) result \<times> 'o \<times> command_envelope option \<times> string" where
  "daemon_main from_slice to_vec sys c arguments s =
     (case arguments of
        [] \<Rightarrow> (Err NoMode, s, None, [])
      | mode # rest \<Rightarrow>
          if mode \<noteq> ''--phase0-once'' then (Err UnsupportedMode, s, None, [])
          else case rest of
            [] \<Rightarrow> (Err MissingRuntimeDirectory, s, None, [])
          | directory # others \<Rightarrow>
              if others \<noteq> [] then (Err UnexpectedArgument, s, None, [])
              else case for_user sys s directory ''phase0-dev'' of
                (Inl e, s1) \<Rightarrow> (Err (DaemonIpc e), s1, None, [])
              | (Inr address, s1) \<Rightarrow>
                  (case bind_endpoint sys s1 address of
                     (Inl e, s2) \<Rightarrow> (Err (DaemonIpc e), s2, None, [])
                   | (Inr _, s2) \<Rightarrow>
                       (case service_instance_id_from_str ''svc_phase0dev'' of
                          Inl e \<Rightarrow> (Err (InvalidDevelopmentIdentity e), s2, None, [])
                        | Inr svc \<Rightarrow>
                            (case serve_noop_once from_slice to_vec (os_euid sys) c (\<lambda>_. cancellation_token_new) svc of
                               (r, asked, out) \<Rightarrow> (map_err DaemonIpc r, s2, asked, out)))))"

section \<open>The Windows variants\<close>

text \<open>
  The platform library: directories, the lock file, names of pipes, security descriptors, the
  listener on a pipe with its descriptor, and the connection to a pipe.
\<close>

record ('o, 'd) windows_os =
  wo_create_dir_all :: "'o \<Rightarrow> string \<Rightarrow> (io_error, unit) result \<times> 'o"
  wo_open_lock :: "'o \<Rightarrow> string \<Rightarrow> (io_error, unit) result \<times> 'o"
  wo_try_lock :: "'o \<Rightarrow> string \<Rightarrow> (io_error, unit) result \<times> 'o"
  wo_lock_contended :: "io_error \<Rightarrow> bool"
  wo_pipe_name :: "string \<Rightarrow> (io_error, string) result"
  wo_descriptor :: "string \<Rightarrow> (io_error, 'd) result"
  wo_listen :: "'o \<Rightarrow> string \<Rightarrow> 'd \<Rightarrow> (io_error, unit) result \<times> 'o"
  wo_connect :: "'o \<Rightarrow> string \<Rightarrow> (io_error, unit) result \<times> 'o"

definition prepare_runtime_directory_windows :: "('o, 'd) windows_os \<Rightarrow> 'o \<Rightarrow> string \<Rightarrow> (ipc_error, unit) result \<times> 'o" where
  "prepare_runtime_directory_windows sys s path = (case wo_create_dir_all sys s path of (r, s') \<Rightarrow> (map_err Io r, s'))"

text \<open>
  \<open>Path::join\<close> on Windows puts a backslash unless the directory ends in a separator or is a drive alone
  (for a directory that is not a verbatim path).
\<close>

definition join_path_windows :: "string \<Rightarrow> string \<Rightarrow> string" where
  "join_path_windows directory name =
     (if directory = [] \<or> last directory = CHR ''/'' \<or> last directory = CHR 0x5C \<or>
         length directory = 2 \<and> is_ascii_alphabetic (hd directory) \<and> last directory = CHR '':'' then directory @ name
      else directory @ CHR 0x5C # name)"

definition for_user_windows ::
  "('o, 'd) windows_os \<Rightarrow> 'o \<Rightarrow> string \<Rightarrow> string \<Rightarrow> (ipc_error, endpoint_address) result \<times> 'o" where
  "for_user_windows sys s directory scope =
     (if \<not> (1 \<le> length scope \<and> length scope \<le> 64) \<or> \<not> list_all scope_byte_ok scope
      then (Err InvalidUserScope, s)
      else case prepare_runtime_directory_windows sys s directory of
        (Inl e, s1) \<Rightarrow> (Err e, s1)
      | (Inr _, s1) \<Rightarrow>
          (Ok \<lparr>ep_kind = WindowsNamedPipe (''slotpilot-'' @ scope),
               ep_lock_path = join_path_windows directory ''slotpilot.lock''\<rparr>, s1))"

definition create_listener_windows :: "('o, 'd) windows_os \<Rightarrow> 'o \<Rightarrow> endpoint_kind \<Rightarrow> (ipc_error, unit) result \<times> 'o" where
  "create_listener_windows sys s ek =
     (case ek of
        UnixSocket path \<Rightarrow> (Err UnsupportedEndpoint, s)
      | WindowsNamedPipe pipe \<Rightarrow>
          (case rbind (wo_pipe_name sys pipe) (\<lambda>name. map_ok (\<lambda>d. (name, d)) (wo_descriptor sys ''D:P(A;;GA;;;OW)(A;;GA;;;SY)'')) of
             Inl e \<Rightarrow> (Err (Io e), s)
           | Inr (name, d) \<Rightarrow> (case wo_listen sys s name d of (r, s') \<Rightarrow> (map_err Io r, s'))))"

definition bind_endpoint_windows :: "('o, 'd) windows_os \<Rightarrow> 'o \<Rightarrow> endpoint_address \<Rightarrow> (ipc_error, unit) result \<times> 'o" where
  "bind_endpoint_windows sys s address =
     (case wo_open_lock sys s (ep_lock_path address) of
        (Inl e, s1) \<Rightarrow> (Err (Io e), s1)
      | (Inr _, s1) \<Rightarrow>
          (case wo_try_lock sys s1 (ep_lock_path address) of
             (Inl e, s2) \<Rightarrow> (Err (if wo_lock_contended sys e then EndpointActive else Io e), s2)
           | (Inr _, s2) \<Rightarrow> create_listener_windows sys s2 (ep_kind address)))"

definition authorize_peer_windows :: "(io_error, int option) result \<Rightarrow> (ipc_error, peer_authorization) result" where
  "authorize_peer_windows peer_pid =
     rbind (map_err Io peer_pid) (\<lambda>pid. map_ok (\<lambda>_. PrivateEndpointOnly) (ok_or PeerIdentityUnavailable pid))"

definition connect_windows :: "('o, 'd) windows_os \<Rightarrow> 'o \<Rightarrow> endpoint_kind \<Rightarrow> (ipc_error, unit) result \<times> 'o" where
  "connect_windows sys s ek =
     (case ek of
        UnixSocket path \<Rightarrow> (Err UnsupportedEndpoint, s)
      | WindowsNamedPipe pipe \<Rightarrow>
          (case wo_pipe_name sys pipe of
             Inl e \<Rightarrow> (Err (Io e), s)
           | Inr name \<Rightarrow> (case wo_connect sys s name of (r, s') \<Rightarrow> (map_err Io r, s'))))"

section \<open>Authority\<close>

text \<open>What a peer was let in with decides whether it may ever be given a privileged command.\<close>

lemma privileged_only_for_own_unix_user:
  "authorize_peer r own = Ok a \<Longrightarrow> permits_future_privileged_command a \<and> r = Ok (Some own)"
  "authorize_peer_windows r = Ok b \<Longrightarrow> \<not> permits_future_privileged_command b"
  by (auto simp: authorize_peer_def authorize_peer_windows_def permits_future_privileged_command_def split: if_splits)

text \<open>A cancellation before the request is read stops the exchange without an answer.\<close>

lemma cancelled_before_request:
  assumes "n < 4"
  shows "\<exists>e. serve_exchange from_slice to_vec own c (cancelled_from n) handler = (Err e, None, [])"
proof -
  have "\<exists>e. accept_request from_slice own c (cancelled_from n) = Err e"
  proof (cases "accept_request from_slice own c (cancelled_from n)")
    case (Inr q)
    then have "\<not> cancelled_from n 2 \<and> \<not> cancelled_from n 3"
      using read_frame_Ok [of from_slice "cn_input c" "cancelled_from n 2" "cancelled_from n 3" q] accept_request_Ok [OF Inr]
      by simp
    then show ?thesis using assms by (simp add: cancelled_from_def is_cancelled_def cancel_def split: if_splits)
  qed simp
  then show ?thesis by (auto simp: serve_exchange_def)
qed

text \<open>An endpoint of one platform is refused by the other before the system is asked anything.\<close>

lemma foreign_endpoints_refused:
  "create_listener sys s (WindowsNamedPipe pipe) = (Err UnsupportedEndpoint, s)"
  "connect_endpoint dial (WindowsNamedPipe pipe) = Err UnsupportedEndpoint"
  "create_listener_windows wsys s (UnixSocket path) = (Err UnsupportedEndpoint, s)"
  "connect_windows wsys s (UnixSocket path) = (Err UnsupportedEndpoint, s)"
  by (simp_all add: create_listener_def connect_endpoint_def create_listener_windows_def connect_windows_def)

section \<open>The executable serves only its own user, behind its lock\<close>

lemma for_user_private:
  assumes "for_user sys s directory scope = (Ok address, s1)"
  shows "address = \<lparr>ep_kind = UnixSocket (join_path directory ''slotpilot.sock''),
      ep_lock_path = join_path directory ''slotpilot.lock''\<rparr> \<and>
    (\<exists>s0 m. os_metadata sys s0 directory = (Ok m, s1) \<and> fm_is_dir m \<and> fm_uid m = os_euid sys \<and> fm_mode m mod 64 = 0)"
  using assms
  by (auto simp: for_user_def prepare_runtime_directory_def mod_eq_0_iff_dvd split: if_splits sum.splits prod.splits)

lemma bind_endpoint_Ok:
  assumes "bind_endpoint sys s \<lparr>ep_kind = UnixSocket path, ep_lock_path = lock\<rparr> = (Ok u, s')"
  shows "(\<exists>t t'. os_try_lock sys t lock = (Ok (), t')) \<and> (\<exists>t. os_set_permissions sys t path 384 = (Ok (), s'))"
  using assms
  by (auto simp: bind_endpoint_def restrict_permissions_def split: sum.splits prod.splits)

lemma bind_endpoint_active:
  assumes "bind_endpoint sys s address = (Err EndpointActive, s')"
  shows "\<exists>t e. os_try_lock sys t (ep_lock_path address) = (Err e, s') \<and> os_lock_contended sys e"
  using assms
  by (auto simp: bind_endpoint_def open_lock_def remove_stale_def create_listener_def restrict_permissions_def
      split: sum.splits prod.splits if_splits endpoint_kind.splits)

lemma noop_never_mutates:
  "class_of (ce_command env) = Mutating \<Longrightarrow> \<exists>e. re_outcome (noop_execute svc env) = ErrorOutcome e"
  by (cases "ce_command env") (auto simp: noop_execute_def noop_receive_outcome_def error_response_def)

lemma serve_exchange_asked:
  assumes "serve_exchange from_slice to_vec own c cancelled handler = (r, Some q, out)"
  shows "cn_peer_euid c = Ok (Some own) \<and> (is_ok r \<longrightarrow> (\<exists>answer. to_vec (handler q) = Ok answer \<and> out = frame_bytes answer))"
  using assms accept_request_Ok [of from_slice own c cancelled q]
  by (auto simp: serve_exchange_def is_ok_iff dest!: write_frame_Ok split: sum.splits prod.splits)

lemma transport_never_active:
  "fst (read_frame from_slice es cancelled later) \<noteq> Err EndpointActive"
  "fst (write_frame to_vec flush ws v cancelled) \<noteq> Err EndpointActive"
  "authorize_peer euid own \<noteq> Err EndpointActive"
  by (auto simp: read_frame_def write_frame_def authorize_peer_def cancellation_check_def eof_is_disconnect_def Let_def rbind_Inl
      split: sum.splits prod.splits if_splits option.splits)

lemma serve_exchange_errors:
  assumes "serve_exchange from_slice to_vec own c cancelled handler = (r, q, out)"
  shows "r \<noteq> Err EndpointActive" "q = None \<Longrightarrow> out = [] \<and> \<not> is_ok r"
proof -
  have "accept_request from_slice own c cancelled \<noteq> Err EndpointActive"
    using transport_never_active(1) [of from_slice "cn_input c" "cancelled 2" "cancelled 3"]
      transport_never_active(3) [of "cn_peer_euid c" own]
    by (auto simp: accept_request_def cancellation_check_def rbind_Inl split: if_splits)
  then show "r \<noteq> Err EndpointActive"
    using assms transport_never_active(2) [of to_vec "cn_flush c" "cn_output c" _ "cancelled 4"]
    by (auto simp: serve_exchange_def split: sum.splits prod.splits) (metis fst_conv)
  show "q = None \<Longrightarrow> out = [] \<and> \<not> is_ok r"
    using assms by (auto simp: serve_exchange_def split: sum.splits prod.splits)
qed

definition development_identity :: service_instance_id where
  "development_identity = ServiceInstanceId ''svc_phase0dev''"

lemma development_identity_parses: "service_instance_id_from_str ''svc_phase0dev'' = Ok development_identity"
  unfolding development_identity_def by code_simp


text \<open>A system on which everything succeeds, and a connection of its user.\<close>

definition willing_os :: "nat os" where
  "willing_os =
     \<lparr>os_create_dir = (\<lambda>s p m. (Ok (), Suc s)), os_metadata = (\<lambda>s p. (Ok \<lparr>fm_is_dir = True, fm_uid = 501, fm_mode = 448\<rparr>, s)),
      os_euid = 501, os_open_lock = (\<lambda>s p m. (Ok (), Suc s)), os_try_lock = (\<lambda>s p. (Ok (), Suc s)),
      os_lock_contended = (\<lambda>_. False), os_exists = (\<lambda>s p. False), os_remove_file = (\<lambda>s p. (Ok (), s)),
      os_listen = (\<lambda>s p. (Ok (), Suc s)), os_set_permissions = (\<lambda>s p m. (Ok (), Suc s))\<rparr>"

abbreviation marker_request :: command_envelope where
  "marker_request \<equiv> \<lparr>ce_api_version = 2, ce_request_id = RequestId ''req_00000001'', ce_command = NoopMutation ''m''\<rparr>"


section \<open>A lost answer is recovered by repeating the request\<close>

lemma serve_receive_once_asked:
  assumes "serve_receive_once from_slice to_vec error_text j port own c cancelled p t = Some (res, Some env, out, p')"
  shows "\<exists>r. execute j port p env t = Some (r, p')"
  using assms by (auto simp: serve_receive_once_def split: sum.splits option.splits prod.splits)

lemma serve_receive_once_complete:
  assumes "cn_accept c = Ok ()" "cn_peer_euid c = Ok (Some own)" "starts_clean (cn_input c)"
    and "delivered (cn_input c) = frame_bytes q" "length q \<le> MAX_FRAME_BYTES" "from_slice q = Ok env"
    and "execute j port p env t = Some (Ok response, p')"
    and "write_frame to_vec (cn_flush c) (cn_output c) response False = (res, out)"
  shows "serve_receive_once from_slice to_vec error_text j port own c (\<lambda>_. False) p t = Some (res, Some env, out, p')"
  using accept_request_complete [OF assms(1-3), of q "[]" from_slice env] assms(4-)
  by (simp add: serve_receive_once_def receive_reply_def)

text \<open>
  C5: an answer that is lost is not lost for good.  Whatever became of the answer to the first
  delivery of a mutation, after any other requests the client that sends it again over a working
  connection receives the answer of that first delivery, and the processor is left as it is: the
  port has performed the mutation once.
\<close>

theorem lost_answer_is_recovered:
  assumes ok: "valid_commands (ap_journal p)" and rid: "valid_request (ce_request_id env)" and m: "admitted_mutation env"
    and canonical: "canonical_bytes j (ce_command env) = Ok canonical"
    and fresh: "read_accepted_command (ap_journal p) (ce_request_id env) = Ok None"
    and json: "\<And>s. js_response j response = Ok s \<Longrightarrow> js_response_from j s = Ok response"
    and once: "serve_receive_once from_slice to_vec error_text j port own c cancelled p t = Some (res, Some env, out, p')"
    and answer: "map_option fst (execute j port p env t) = Some (Ok response)"
    and later: "\<forall>(e, u) \<in> set rs. valid_request (ce_request_id e)"
    and carry: "\<And>bytes. length bytes > 2 \<Longrightarrow> starts_clean (carry bytes) \<and> delivered (carry bytes) = bytes"
    and codec: "to_request env = Ok q" "from_slice q = Ok env" "to_vec response = Ok a" "from_answer a = Ok response"
    and c': "cn_accept c' = Ok ()" "cn_peer_euid c' = Ok (Some own)"
    and sends: "fst (write_frame to_request flush ws env False) = Ok ()"
      "fst (write_frame to_vec (cn_flush c') (cn_output c') response False) = Ok ()"
  shows "perform port (ap_port p) env = Some (re_outcome response, ap_port p') \<and>
    (\<exists>p''. run_requests j port p' rs = Some p'' \<and>
      (\<forall>u server. server = (\<lambda>sent. serve_receive_once from_slice to_vec error_text j port own (c'\<lparr>cn_input := carry sent\<rparr>)
          (\<lambda>_. False) p'' u) \<longrightarrow>
        server (frame_bytes q) = Some (Ok (), Some env, frame_bytes a, p'') \<and>
        client_exchange to_request from_answer (Ok ()) ws flush
          (\<lambda>sent. case server sent of Some (_, _, bytes, _) \<Rightarrow> carry bytes | None \<Rightarrow> []) (\<lambda>_. False) env = Ok response))"
proof -
  have run: "execute j port p env t = Some (Ok response, p')"
    using serve_receive_once_asked [OF once] answer by auto
  obtain p'' where p'': "run_requests j port p' rs = Some p''"
      and again: "\<And>u. execute j port p'' env u = Some (Ok response, p'')"
    using later_replays [OF ok rid m canonical fresh json run later] m canonical by fastforce
  obtain sent where sent: "write_frame to_request flush ws env False = (Ok (), sent)"
    using sends(1) by (cases "write_frame to_request flush ws env False") simp
  obtain reply where reply: "write_frame to_vec (cn_flush c') (cn_output c') response False = (Ok (), reply)"
    using sends(2) by (cases "write_frame to_vec (cn_flush c') (cn_output c') response False") simp
  have fr: "sent = frame_bytes q" "length q \<le> MAX_FRAME_BYTES" "reply = frame_bytes a" "length a \<le> MAX_FRAME_BYTES"
    using write_frame_Ok [OF sent] write_frame_Ok [OF reply] codec by auto
  have l: "length (frame_bytes q) > 2" "length (frame_bytes a) > 2" by (simp_all add: frame_bytes_def)
  have served: "serve_receive_once from_slice to_vec error_text j port own (c'\<lparr>cn_input := carry sent\<rparr>) (\<lambda>_. False) p'' u =
      Some (Ok (), Some env, frame_bytes a, p'')" for u
    using carry [OF l(1)] c' reply fr by (intro serve_receive_once_complete [where q = q and from_slice = from_slice, OF _ _ _ _ fr(2) codec(2) again]) simp_all
  have "client_exchange to_request from_answer (Ok ()) ws flush server (\<lambda>_. False) env = Ok response"
    if "server sent = carry (frame_bytes a)" for server
    using client_exchange_complete [OF sent, of server a "[]" from_answer] carry [OF l(2)] that fr(4) codec(4) by simp
  then show ?thesis
    using execute_first [OF ok m canonical fresh run] p'' served fr(1) by auto
qed

abbreviation stop_response :: response_envelope where
  "stop_response \<equiv> sample_response (Success (ReceiveStopped (SnapStopped 0)))"

definition broken_connection :: connection where
  "broken_connection = sample_connection (frame_bytes ''stop'')\<lparr>cn_output := [WriteFails (OtherIo ''gone'')]\<rparr>"

definition stop_server :: "string json \<Rightarrow> connection \<Rightarrow> nat receive_api_processor \<Rightarrow> int
   \<Rightarrow> ((ipc_error, unit) result \<times> command_envelope option \<times> string \<times> nat receive_api_processor) option" where
  "stop_server j c p t =
     serve_receive_once (\<lambda>_. Ok (sample_request ReceiveStop)) (\<lambda>_. Ok ''stopped'') (\<lambda>_. []) j counting_port 501 c (\<lambda>_. False) p t"

theorem lost_answer_is_recovered_witness:
  "\<exists>j p'. stop_server j broken_connection sample_processor 7 =
       Some (Err (Io (OtherIo ''gone'')), Some (sample_request ReceiveStop), [], p') \<and> ap_port p' = 1 \<and>
     client_exchange (\<lambda>_. Ok ''stop'') (\<lambda>_. Ok stop_response) (Ok ()) [] (Ok ())
       (\<lambda>sent. case stop_server j (sample_connection []\<lparr>cn_input := cn_input (sample_connection sent)\<rparr>) p' 9 of
          Some (_, _, bytes, _) \<Rightarrow> cn_input (sample_connection bytes) | None \<Rightarrow> []) (\<lambda>_. False) (sample_request ReceiveStop)
       = Ok stop_response"
proof -
  let ?j = "sample_json\<lparr>js_response_from := (\<lambda>_. Ok stop_response)\<rparr>"
  have c: "canonical_bytes ?j ReceiveStop = Ok ''stop''" by (simp add: canonical_bytes_def sample_json_def)
  obtain db where run: "execute ?j counting_port sample_processor (sample_request ReceiveStop) 7 =
      Some (Ok stop_response, sample_processor\<lparr>ap_journal := db, ap_port := 1\<rparr>)"
    using sample_execute [OF _ c, of "Success (ReceiveStopped (SnapStopped 0))" "''response''" 1]
    by (auto simp: perform_def counting_port_def receive_status_stopped_def sample_json_def)
  have l: "length (frame_bytes ''stop'') > 2" by (simp add: frame_bytes_def)
  have w: "write_frame (\<lambda>_. Ok ''stopped'') (cn_flush broken_connection) (cn_output broken_connection) stop_response False =
      (Err (Io (OtherIo ''gone'')), [])"
    by (simp add: write_frame_def cancellation_check_def MAX_FRAME_BYTES_def broken_connection_def sample_connection_def
        u32_to_be_def u32_to_le_def checked_def)
  have once: "stop_server ?j broken_connection sample_processor 7 =
      Some (Err (Io (OtherIo ''gone'')), Some (sample_request ReceiveStop), [], sample_processor\<lparr>ap_journal := db, ap_port := 1\<rparr>)"
    unfolding stop_server_def
    using sample_connection_reads [OF l]
    by (intro serve_receive_once_complete [OF _ _ _ _ _ _ run w, of _ "''stop''"])
      (simp_all add: broken_connection_def MAX_FRAME_BYTES_def, simp_all add: sample_connection_def)
  have sends: "fst (write_frame (\<lambda>_. Ok ''stop'') (Ok ()) [] (sample_request ReceiveStop) False) = Ok ()"
    "fst (write_frame (\<lambda>_. Ok ''stopped'') (cn_flush (sample_connection [])) (cn_output (sample_connection [])) stop_response False)
      = Ok ()"
    by (simp_all add: write_frame_def cancellation_check_def MAX_FRAME_BYTES_def sample_connection_def checked_def)
  have carry: "starts_clean (cn_input (sample_connection bytes)) \<and> delivered (cn_input (sample_connection bytes)) = bytes"
    if "length bytes > 2" for bytes
    using sample_connection_reads [OF that] by simp
  have c': "cn_accept (sample_connection []) = Ok ()" "cn_peer_euid (sample_connection []) = Ok (Some 501)"
    by (simp_all add: sample_connection_def)
  have m: "admitted_mutation (sample_request ReceiveStop)" by (simp add: admitted_mutation_def API_VERSION_def)
  show ?thesis
    using lost_answer_is_recovered [OF sample_processor_facts(1) _ m _ sample_processor_facts(3) _ once [unfolded stop_server_def] _ _
        carry refl refl refl refl c' sends, where canonical = "''stop''" and rs = "[]"] c run once sample_processor_facts(2)
    by (auto simp: stop_server_def intro!: exI [of _ ?j])
qed

end
