(* ===== verification/Spec2Isabelle.thy ===== *)
theory Spec2Isabelle
  imports SP_Ids SP_Callsign SP_Radio SP_Time SP_Audio SP_Timeline SP_Clock SP_Spectrum SP_Protocol
    SP_Wave SP_Codec SP_Store_Events SP_Capture SP_Daemon_Receive SP_Receive_System SP_Ipc SP_Testkit
    SP_Discovery SP_Cli SP_Server
begin

text \<open>
  SlotPilot: a verification of the receive path of an FT8 station daemon, from the audio callback
  to the durable record and the answer on the local socket.

  The program.  \<open>crates/audio\<close> captures samples in a callback, hands them over bounded queues, and
  turns them into complete 15-second windows at 12 kHz and into waterfall rows.
  \<open>crates/operations\<close> keeps the clocks: slot arithmetic, the latching receive clock monitor that
  gates windows, and the read-only rig contracts.  \<open>crates/protocol\<close> decodes, classifies, encodes
  and synthesises FT8 messages over the library \<open>mfsk_core\<close> and reads and writes RIFF/WAVE files.
  \<open>crates/storage\<close> keeps receive records, an event log and accepted commands in SQLite.
  \<open>crates/domain\<close> has the checked values all of them use.  \<open>apps/daemon\<close> composes them: the
  coordinator runs one stream from the input to the store, the event service publishes and
  replays the log, and the API processor answers versioned commands.  \<open>crates/api\<close> is the wire
  vocabulary and \<open>crates/ipc\<close> the framed local transport; \<open>apps/cli\<close> is the client on its other end, and
  \<open>crates/testkit\<close> has the scripted fakes the tests put in the place of hardware.

  Theories and sources.

    \<^item> \<open>SP_Prelude\<close>: results, checked and saturating integers, ASCII, decimal text, and the interface
      locales \<open>checked_value\<close>, \<open>invariant_machine\<close> and \<open>latching_machine\<close>.
    \<^item> \<open>SP_Ids\<close>, \<open>SP_Callsign\<close>, \<open>SP_Radio\<close>: \<open>crates/domain/src/ids.rs\<close>, \<open>callsign.rs\<close>, \<open>radio.rs\<close>.
    \<^item> \<open>SP_Time\<close>, \<open>SP_Clock\<close>: \<open>crates/operations/src/time.rs\<close>, \<open>receive_clock.rs\<close>.
    \<^item> \<open>SP_Audio\<close>, \<open>SP_Capture\<close>, \<open>SP_Resampler\<close>, \<open>SP_Resampler_Exact\<close>, \<open>SP_Timeline\<close>, \<open>SP_Spectrum\<close>:
      \<open>crates/audio/src/lib.rs\<close>, \<open>capture.rs\<close>, \<open>timeline.rs\<close>, \<open>spectrum.rs\<close>.
    \<^item> \<open>SP_Protocol\<close>, \<open>SP_Wave\<close>, \<open>SP_Codec\<close>: \<open>crates/protocol/src/lib.rs\<close>, \<open>wave_file.rs\<close>,
      \<open>offline_adapter.rs\<close>.
    \<^item> \<open>SP_Receive_Record\<close>, \<open>SP_Store\<close>, \<open>SP_Store_Record\<close>, \<open>SP_Store_Events\<close>: \<open>crates/storage/src\<close> with the
      constraints of its migrations.
    \<^item> \<open>SP_Daemon_Receive\<close>: \<open>apps/daemon/src/receive.rs\<close>.
    \<^item> \<open>SP_Api\<close>, \<open>SP_Event_Service\<close>, \<open>SP_Receive_Api\<close>: \<open>crates/api/src\<close>, \<open>apps/daemon/src/lib.rs\<close>,
      \<open>apps/daemon/src/receive_api.rs\<close>.
    \<^item> \<open>SP_Receive_System\<close>: the coordinator on top of the coupled store, through the locale \<open>receive_store\<close>.
    \<^item> \<open>SP_Ipc\<close>: \<open>crates/ipc/src/lib.rs\<close> on Unix.
    \<^item> \<open>SP_Server\<close>: the daemon behind its socket, \<open>serve_noop_once\<close> and \<open>serve_receive_once\<close> of
      \<open>apps/daemon/src/lib.rs\<close>, \<open>apps/daemon/src/main.rs\<close>, and the Windows variants of \<open>crates/ipc\<close>.
    \<^item> \<open>SP_Cli\<close>: \<open>apps/cli/src/lib.rs\<close>, \<open>apps/cli/src/main.rs\<close>.
    \<^item> \<open>SP_Discovery\<close>: \<open>crates/audio/src/discovery.rs\<close>.
    \<^item> \<open>SP_Testkit\<close>: \<open>crates/testkit/src/lib.rs\<close>, \<open>crates/operations/src/ports.rs\<close>, with the rig port as the
      locale \<open>read_only_rig_port\<close>.
    \<^item> \<open>SP_Rig\<close>: \<open>crates/domain/src/rig.rs\<close>, \<open>crates/operations/src/rig.rs\<close>.

  State and operations.  A struct is a record, an enum a datatype, a method with \<open>&mut self\<close> a
  function that returns its result with the object as it leaves it, also on an error; a trait is
  a record of functions over the state of its implementation.  An integer is an \<open>int\<close> with the
  range of its type, and every checked, saturating or converting operation of the source is
  written out with its range.  A string is the list of its bytes.  Errors are values of sum
  types.  A database is a record of tables; a transaction returns the new database or leaves the
  old one.

  What is proved.  The whole receive path: every window a poll ever reported stays in the database
  with its public event (C1).  Coordinator: a poll reports only gated, decoded and stored windows;
  the input is held exactly while receiving; a restart is always possible; the waterfall loop ends
  (C2, C3, C24, C28).  API: a mutation is performed once whatever retries follow, and a client whose
  answer was lost on the socket gets it by asking again; a stored window is published as the summary
  history returns; a subscriber that follows its cursors misses nothing (C4, C5, C6, C15).  Storage:
  recording a window refines appending to a list of records, is atomic with its event and idempotent,
  pages and retention are exact (C6 to C8, C25, C26).  Capture: every frame is delivered or declared
  dropped, however callback and worker interleave (C9); a timeline never joins samples across a
  rejected batch, and the batches it accepts agree with its clock (C10, C34).
  Clock: a window passes the gate exactly if the mapping is healthy, fresh and aligned, and recovery
  needs consecutive consistent samples (C11, C12).  Resampling: each window is the exact linear
  interpolation of the source at its 180000 ticks, and every covered slot gets its window (C13, C14).
  Transport, daemon and client: exchanges are exact under any splitting of the bytes, only the own user
  reaches a handler, the executable serves only behind its lock, and the client sends what its arguments
  ask, a mutation only under the identity it was given (C16 to C19, C36).  Protocol: the WAVE parser
  accepts exactly well-formed chunk files, messages round trip, classification is total and never promotes
  an unusable payload, decoding merges and orders its results (C20 to C23).  Waterfall and discovery:
  bounded work for every chunk, canonical lists of devices (C27, C29).  Rig: no observation without a
  probed connection, evidence, freshness and the loopback rule (C30 to C33).  Values: C35.  The last four
  properties state behaviours at odds with the documentation: C37 to C40.  Theorems outside this list
  (identities, radio values, slot arithmetic, batch order, normalisation, WAVE round trip, endpoints,
  synthesis, wire selections) stand in the theory of their component.

  Bounds and fuel.  Loops are structural recursion or have a termination proof; no definition of
  the model takes fuel.  \<open>follow\<close>, which describes a subscriber and not the daemon, takes a number of
  requests, and C15 shows that \<open>k div limit + 1\<close> requests suffice for \<open>k\<close> events.

  Parameters.  \<open>mfsk_core\<close> (a record of its functions), the windowed transform of the waterfall
  with its logarithm, SHA-256, the native audio host, SQLite's \<open>json_valid\<close>, \<open>serde_json\<close> with its
  derived conversions, the operating system under the socket, the client's transport, and the text of a processor error.
  A theorem that relies on one of them names what it relies on as a hypothesis, and its witness
  instantiates the parameter with a concrete function.  \<open>ArrayQueue\<close> is its documented bounded queue.

  Not modelled.  The crates' module roots, which only re-export; \<open>crates/rig\<close>, which is empty; accessors,
  \<open>Debug\<close> texts and the derived serde conversions.  File system and lock failures of SQLite are outside
  the store's model, a callback round is one atomic step, and the release of lock and socket at the end
  of a process is the system's.
\<close>

end
